(* ===== verification/Prelude.thy ===== *)
theory Prelude
  imports Main "HOL-Library.Word" "HOL-Library.List_Lexorder"
begin

section \<open>Shared types, byte order and generic lemmas\<close>

text \<open>
  The machine types of the Rust sources, the error type of the storage crate, the big-endian
  conversions (\<open>to_be_bytes\<close>, \<open>from_be_bytes\<close>) and the list facts the component theories share.
  A fixed array \<open>[u8; N]\<close> is a byte list whose length is part of the well-formedness predicate of
  the value that holds it; the derived array order is the lexicographic order of
  \<open>HOL-Library.List_Lexorder\<close>. A \<open>usize\<close> that only counts bytes in memory is a \<^typ>\<open>nat\<close>.
\<close>

type_synonym u8 = "8 word"
type_synonym u16 = "16 word"
type_synonym u32 = "32 word"
type_synonym u64 = "64 word"
type_synonym bytes = "u8 list"

named_theorems codec_simps \<open>what a successful field read says of the buffer\<close>
named_theorems parse \<open>what a successful sequence of reads says of the buffer\<close>
named_theorems run \<open>reading back an encoded field\<close>

subsection \<open>Identifiers and hashes\<close>

type_synonym id16 = bytes
type_synonym hash32 = bytes

definition zero_id :: id16 where
  "zero_id = replicate 16 0"

definition zero_hash :: hash32 where
  "zero_hash = replicate 32 0"

abbreviation is_id :: "bytes \<Rightarrow> bool" where
  "is_id xs \<equiv> length xs = 16"

abbreviation is_hash :: "bytes \<Rightarrow> bool" where
  "is_hash xs \<equiv> length xs = 32"

lemma is_id_zero [simp]: "is_id zero_id"
  by (simp add: zero_id_def)

lemma is_hash_zero [simp]: "is_hash zero_hash"
  by (simp add: zero_hash_def)

subsection \<open>Errors\<close>

datatype replay_error =
    Empty
  | IncompleteTail
  | UnsupportedFormat
  | Corrupt
  | Limit
  | Cancelled

type_synonym 'a result = "replay_error + 'a"

text \<open>Code that slices or indexes fixed buffers can panic; there a result is a value or a fault.\<close>

datatype fault = Panic | Err replay_error

type_synonym 'a outcome = "fault + 'a"

definition lift_result :: "'a result \<Rightarrow> 'a outcome" where
  "lift_result x = map_sum Err id x"

definition no_panic :: "'a option \<Rightarrow> 'a outcome" where
  "no_panic x = (case x of None \<Rightarrow> Inl Panic | Some v \<Rightarrow> Inr v)"

lemma lift_result_simps [simp]:
  "lift_result (Inl e) = Inl (Err e)" "lift_result (Inr v) = Inr v"
  "lift_result x = Inr v \<longleftrightarrow> x = Inr v" "lift_result x \<noteq> Inl Panic"
  by (simp_all add: lift_result_def) (cases x; simp)+

lemma no_panic_simps [simp]:
  "no_panic None = Inl Panic" "no_panic (Some v) = Inr v" "no_panic x = Inr v \<longleftrightarrow> x = Some v"
  by (simp_all add: no_panic_def split: option.split)

definition result_bind :: "'e + 'a \<Rightarrow> ('a \<Rightarrow> 'e + 'b) \<Rightarrow> 'e + 'b" where
  "result_bind r f = (case r of Inl e \<Rightarrow> Inl e | Inr x \<Rightarrow> f x)"

lemma result_bind_simps [simp]:
  "result_bind (Inl e) f = Inl e"
  "result_bind (Inr x) f = f x"
  by (simp_all add: result_bind_def)

lemma result_bind_eq_Inr:
  "result_bind r f = Inr y \<longleftrightarrow> (\<exists>x. r = Inr x \<and> f x = Inr y)"
  by (cases r) simp_all

lemma result_bind_cong [fundef_cong]:
  "r = r' \<Longrightarrow> (\<And>x. r' = Inr x \<Longrightarrow> f x = g x) \<Longrightarrow> result_bind r f = result_bind r' g"
  by (auto simp: result_bind_def split: sum.splits)

text \<open>\<open>Option::ok_or(ReplayError::Corrupt)\<close>.\<close>

definition ok_or_corrupt :: "'a option \<Rightarrow> 'a result" where
  "ok_or_corrupt x = (case x of None \<Rightarrow> Inl Corrupt | Some v \<Rightarrow> Inr v)"

lemma ok_or_corrupt_simps [simp]:
  "ok_or_corrupt None = Inl Corrupt"
  "ok_or_corrupt (Some v) = Inr v"
  by (simp_all add: ok_or_corrupt_def)

lemma ok_or_corrupt_eq_Inr [simp]: "ok_or_corrupt x = Inr v \<longleftrightarrow> x = Some v"
  by (cases x) simp_all

text \<open>\<open>fn require(ok: bool) -> Result<()>\<close>.\<close>

definition require :: "bool \<Rightarrow> unit result" where
  "require ok = (if ok then Inr () else Inl Corrupt)"

lemma require_eq_Inr [simp]: "require b = Inr u \<longleftrightarrow> b"
  by (simp add: require_def)

lemma require_True [simp]: "require True = Inr ()"
  by (simp add: require_def)

subsection \<open>Big-endian integers\<close>

fun be_of_nat :: "nat \<Rightarrow> nat \<Rightarrow> bytes" where
  "be_of_nat 0 k = []"
| "be_of_nat (Suc n) k = be_of_nat n (k div 256) @ [of_nat k]"

definition nat_of_be :: "bytes \<Rightarrow> nat" where
  "nat_of_be bs = foldl (\<lambda>acc b. acc * 256 + unat b) 0 bs"

lemma length_be_of_nat [simp]: "length (be_of_nat n k) = n"
  by (induction n arbitrary: k) auto

lemma nat_of_be_Nil [simp]: "nat_of_be [] = 0"
  by (simp add: nat_of_be_def)

lemma nat_of_be_snoc [simp]: "nat_of_be (bs @ [b]) = nat_of_be bs * 256 + unat b"
  by (simp add: nat_of_be_def)

lemma unat_of_nat_u8: "unat (of_nat k :: u8) = k mod 256"
  by (simp add: unat_of_nat)

lemma unat_u8_less: "unat (b :: u8) < 256"
  using unsigned_less [of b, where 'a = nat] by simp

lemma nat_of_be_bound: "nat_of_be bs < 256 ^ length bs"
proof (induction bs rule: rev_induct)
  case Nil
  then show ?case by simp
next
  case (snoc b bs)
  have "nat_of_be bs * 256 + unat b < (nat_of_be bs + 1) * 256"
    using unat_u8_less [of b] by simp
  also have "\<dots> \<le> 256 ^ length bs * 256"
    using snoc.IH by (metis Suc_eq_plus1 Suc_leI mult_le_mono1)
  finally show ?case by (simp add: mult.commute)
qed

lemma nat_of_be_of_nat: "nat_of_be (be_of_nat n k) = k mod 256 ^ n"
proof (induction n arbitrary: k)
  case 0
  then show ?case by simp
next
  case (Suc n)
  have "nat_of_be (be_of_nat (Suc n) k) = (k div 256 mod 256 ^ n) * 256 + k mod 256"
    by (simp add: Suc.IH unat_of_nat_u8)
  also have "\<dots> = k mod (256 * 256 ^ n)"
    by (simp add: mod_mult2_eq mult.commute)
  finally show ?case by simp
qed

lemma be_of_nat_of_be: "length bs = n \<Longrightarrow> be_of_nat n (nat_of_be bs) = bs"
proof (induction bs arbitrary: n rule: rev_induct)
  case Nil
  then show ?case by simp
next
  case (snoc b bs)
  then obtain m where n: "n = Suc m" "length bs = m" by auto
  have "(nat_of_be bs * 256 + unat b) div 256 = nat_of_be bs"
    using unat_u8_less [of b] by simp
  moreover have "(of_nat (nat_of_be bs * 256 + unat b) :: u8) = b"
    using unat_u8_less [of b] by (simp add: word_unat_eq_iff unat_of_nat_u8 del: of_nat_add of_nat_mult)
  ultimately show ?case using snoc.IH n by simp
qed

text \<open>The byte order of equally long encodings is the order of the numbers.\<close>

lemma nat_of_be_Cons: "nat_of_be (b # bs) = unat b * 256 ^ length bs + nat_of_be bs"
  by (induction bs rule: rev_induct)
    (simp_all add: nat_of_be_def algebra_simps)

lemma nat_of_be_less_iff:
  "length xs = length ys \<Longrightarrow> xs < ys \<longleftrightarrow> nat_of_be xs < nat_of_be ys"
proof (induction xs ys rule: list_induct2)
  case Nil
  then show ?case by simp
next
  case (Cons x xs y ys)
  let ?m = "256 ^ length ys"
  have bx: "nat_of_be xs < ?m" and by': "nat_of_be ys < ?m"
    using nat_of_be_bound [of xs] nat_of_be_bound [of ys] Cons.hyps by simp_all
  consider "x < y" | "x = y" | "y < x" by fastforce
  then show ?case
  proof cases
    case 1
    then have "unat x + 1 \<le> unat y" by (simp add: word_less_nat_alt)
    then have "(unat x + 1) * ?m \<le> unat y * ?m" by (rule mult_le_mono1)
    then have "unat x * ?m + nat_of_be xs < unat y * ?m + nat_of_be ys" using bx by simp
    then show ?thesis using 1 Cons.hyps by (simp add: nat_of_be_Cons)
  next
    case 2
    then show ?thesis using Cons by (simp add: nat_of_be_Cons)
  next
    case 3
    then have "unat y + 1 \<le> unat x" by (simp add: word_less_nat_alt)
    then have "(unat y + 1) * ?m \<le> unat x * ?m" by (rule mult_le_mono1)
    then have "unat y * ?m + nat_of_be ys < unat x * ?m + nat_of_be xs" using by' by simp
    then show ?thesis using 3 Cons.hyps by (auto simp: nat_of_be_Cons)
  qed
qed

subsection \<open>\<open>to_be_bytes\<close> and \<open>from_be_bytes\<close>\<close>

definition be16 :: "u16 \<Rightarrow> bytes" where
  "be16 w = be_of_nat 2 (unat w)"

definition be32 :: "u32 \<Rightarrow> bytes" where
  "be32 w = be_of_nat 4 (unat w)"

definition be64 :: "u64 \<Rightarrow> bytes" where
  "be64 w = be_of_nat 8 (unat w)"

definition u16_of_be :: "bytes \<Rightarrow> u16" where
  "u16_of_be bs = of_nat (nat_of_be bs)"

definition u32_of_be :: "bytes \<Rightarrow> u32" where
  "u32_of_be bs = of_nat (nat_of_be bs)"

definition u64_of_be :: "bytes \<Rightarrow> u64" where
  "u64_of_be bs = of_nat (nat_of_be bs)"

lemma length_be [simp]:
  "length (be16 a) = 2" "length (be32 b) = 4" "length (be64 c) = 8"
  by (simp_all add: be16_def be32_def be64_def)

lemma unat_word_less:
  "unat (a :: u16) < 65536" "unat (b :: u32) < 4294967296" "unat (c :: u64) < 18446744073709551616"
  using unsigned_less [of a, where 'a = nat] unsigned_less [of b, where 'a = nat]
    unsigned_less [of c, where 'a = nat] by simp_all

lemma of_be_be [simp]:
  "u16_of_be (be16 a) = a" "u32_of_be (be32 b) = b" "u64_of_be (be64 c) = c"
  using unat_word_less
  by (simp_all add: be16_def be32_def be64_def u16_of_be_def u32_of_be_def u64_of_be_def
      nat_of_be_of_nat)

lemma unat_of_be:
  "length bs = 2 \<Longrightarrow> unat (u16_of_be bs) = nat_of_be bs"
  "length bs = 4 \<Longrightarrow> unat (u32_of_be bs) = nat_of_be bs"
  "length bs = 8 \<Longrightarrow> unat (u64_of_be bs) = nat_of_be bs"
  using nat_of_be_bound [of bs]
  by (simp_all add: u16_of_be_def u32_of_be_def u64_of_be_def unat_of_nat)

lemma be_of_be [simp]:
  "length bs = 2 \<Longrightarrow> be16 (u16_of_be bs) = bs"
  "length bs = 4 \<Longrightarrow> be32 (u32_of_be bs) = bs"
  "length bs = 8 \<Longrightarrow> be64 (u64_of_be bs) = bs"
  by (simp_all add: be16_def be32_def be64_def unat_of_be be_of_nat_of_be)

lemma be_inject [simp]:
  "be16 a = be16 a' \<longleftrightarrow> a = a'" "be32 b = be32 b' \<longleftrightarrow> b = b'" "be64 c = be64 c' \<longleftrightarrow> c = c'"
  by (metis of_be_be(1), metis of_be_be(2), metis of_be_be(3))

lemma be64_less_iff [simp]: "be64 a < be64 b \<longleftrightarrow> a < b"
  by (simp add: nat_of_be_less_iff) (simp add: be64_def nat_of_be_of_nat unat_word_less word_less_nat_alt)

subsection \<open>Lists\<close>

lemma append_eq_same_length:
  "length a = length b \<Longrightarrow> a @ x = b @ y \<longleftrightarrow> a = b \<and> x = y"
  by simp

lemma less_append_same_length:
  fixes a b :: "'a::linorder list"
  shows "length a = length b \<Longrightarrow> a @ x < b @ y \<longleftrightarrow> a < b \<or> a = b \<and> x < y"
  by (induction a b rule: list_induct2) auto

lemma replicate_zero_iff: "(\<forall>b\<in>set bs. b = 0) \<longleftrightarrow> bs = replicate (length bs) 0"
  by (metis in_set_replicate replicate_eqI)

lemma length_1_conv: "length xs = Suc 0 \<longleftrightarrow> (\<exists>x. xs = [x])"
  by (simp add: length_Suc_conv)

subsection \<open>Checked arithmetic\<close>

definition u64_checked_add :: "u64 \<Rightarrow> u64 \<Rightarrow> u64 option" where
  "u64_checked_add a b = (if unat a + unat b < 2 ^ 64 then Some (a + b) else None)"

lemma u64_checked_add_1: "Some n = u64_checked_add a 1 \<longleftrightarrow> unat n = unat a + 1"
proof (cases "unat a + 1 < 2 ^ 64")
  case True
  then have "unat (a + 1) = unat a + 1" by (simp add: unat_word_ariths)
  then show ?thesis using True by (simp add: u64_checked_add_def word_unat_eq_iff)
next
  case False
  then show ?thesis using unat_word_less(3) [of n] by (simp add: u64_checked_add_def)
qed

subsection \<open>Slices of buffers\<close>

text \<open>\<open>bytes[a..b]\<close>, and \<open>buffer[at..at + data.len()].copy_from_slice(data)\<close>, which is \<^const>\<open>None\<close>
  (a panic) when the range is not inside the buffer.\<close>

definition subrange :: "nat \<Rightarrow> nat \<Rightarrow> 'a list \<Rightarrow> 'a list" where
  "subrange a b xs = take (b - a) (drop a xs)"

definition splice :: "nat \<Rightarrow> 'a list \<Rightarrow> 'a list \<Rightarrow> 'a list option" where
  "splice at data buf =
    (if at + length data \<le> length buf
     then Some (take at buf @ data @ drop (at + length data) buf) else None)"

lemma length_subrange [simp]: "length (subrange a b xs) = min (b - a) (length xs - a)"
  by (simp add: subrange_def)

lemma subrange_subrange: "a \<le> b \<Longrightarrow> b \<le> c \<Longrightarrow> subrange a b xs @ subrange b c xs = subrange a c xs"
  using take_add [of "b - a" "c - b" "drop a xs"] by (simp add: subrange_def add.commute)

lemma subrange_0 [simp]: "length xs \<le> n \<Longrightarrow> subrange 0 n xs = xs"
  by (simp add: subrange_def)

lemma subrange_skip: "length x \<le> a \<Longrightarrow> subrange a b (x @ y) = subrange (a - length x) (b - length x) y"
  by (simp add: subrange_def)

lemma subrange_hit: "b \<le> length x \<Longrightarrow> subrange a b (x @ y) = subrange a b x"
  by (simp add: subrange_def)

lemma subrange_take: "b \<le> n \<Longrightarrow> subrange a b (take n xs) = subrange a b xs"
  by (simp add: subrange_def drop_take min_def)

lemma subrange_append:
  "subrange (length a) (length a + n) (a @ xs) = take n xs"
  by (simp add: subrange_def)

lemma splice_append:
  "splice (length a) data (a @ b @ c) = Some (a @ data @ c)" if "length b = length data"
  using that by (simp add: splice_def)

definition ascii :: "string \<Rightarrow> bytes" where
  "ascii s = map of_char s"

lemma length_ascii [simp]: "length (ascii s) = length s"
  by (simp add: ascii_def)

subsection \<open>UTF-8 text\<close>

text \<open>
  A Rust \<open>String\<close> is its byte list; \<open>utf8_valid\<close> is the acceptance test of
  \<open>str::from_utf8\<close> (the well-formed byte sequences of the Unicode standard, table 3-7).
\<close>

definition utf8_cont :: "u8 \<Rightarrow> bool" where
  "utf8_cont b \<longleftrightarrow> 0x80 \<le> b \<and> b \<le> 0xBF"

fun utf8_tail :: "bytes \<Rightarrow> bytes option" where
  "utf8_tail [] = None"
| "utf8_tail (a # r) =
    (if a < 0x80 then Some r
     else if 0xC2 \<le> a \<and> a \<le> 0xDF then
       (case r of b # r' \<Rightarrow> if utf8_cont b then Some r' else None | _ \<Rightarrow> None)
     else if 0xE0 \<le> a \<and> a \<le> 0xEF then
       (case r of b # c # r' \<Rightarrow>
          if utf8_cont b \<and> utf8_cont c \<and> (a = 0xE0 \<longrightarrow> 0xA0 \<le> b) \<and> (a = 0xED \<longrightarrow> b \<le> 0x9F)
          then Some r' else None
        | _ \<Rightarrow> None)
     else if 0xF0 \<le> a \<and> a \<le> 0xF4 then
       (case r of b # c # d # r' \<Rightarrow>
          if utf8_cont b \<and> utf8_cont c \<and> utf8_cont d \<and> (a = 0xF0 \<longrightarrow> 0x90 \<le> b)
             \<and> (a = 0xF4 \<longrightarrow> b \<le> 0x8F)
          then Some r' else None
        | _ \<Rightarrow> None)
     else None)"

lemma utf8_tail_shorter: "utf8_tail s = Some r \<Longrightarrow> length r < length s"
  by (cases s) (auto split: if_splits list.splits)

function utf8_valid :: "bytes \<Rightarrow> bool" where
  "utf8_valid s =
    (if s = [] then True
     else (case utf8_tail s of None \<Rightarrow> False | Some r \<Rightarrow> utf8_valid r))"
  by auto
termination
  by (relation "measure length") (auto dest: utf8_tail_shorter)

declare utf8_valid.simps [simp del]

lemma utf8_valid_Nil [simp]: "utf8_valid []"
  by (simp add: utf8_valid.simps)

lemma utf8_valid_Cons:
  "utf8_valid (a # s) \<longleftrightarrow> (case utf8_tail (a # s) of None \<Rightarrow> False | Some r \<Rightarrow> utf8_valid r)"
  by (subst utf8_valid.simps) simp

lemma utf8_tail_append: "utf8_tail s = Some r \<Longrightarrow> utf8_tail (s @ t) = Some (r @ t)"
  by (cases s) (auto split: if_splits list.splits)

lemma utf8_valid_append: "utf8_valid s \<Longrightarrow> utf8_valid (s @ t) \<longleftrightarrow> utf8_valid t"
proof (induction s rule: utf8_valid.induct)
  case (1 s)
  show ?case
  proof (cases "s = []")
    case False
    with "1.prems" obtain r where r: "utf8_tail s = Some r" "utf8_valid r"
      by (auto simp: utf8_valid.simps [of s] split: option.splits)
    have "utf8_valid (s @ t) \<longleftrightarrow> utf8_valid (r @ t)"
      using False utf8_tail_append [OF r(1), of t] by (simp add: utf8_valid.simps [of "s @ t"])
    then show ?thesis using "1.IH" [OF False r] by simp
  qed simp
qed

text \<open>Text of ASCII bytes is valid.\<close>

lemma utf8_valid_ascii: "(\<forall>b\<in>set s. b < 0x80) \<Longrightarrow> utf8_valid s"
  by (induction s) (simp_all add: utf8_valid_Cons)

end
