(* ===== verification/Wire.thy ===== *)
theory Wire
  imports Prelude
begin

section \<open>Readers, writers and the codec contract\<close>

text \<open>
  The byte cursor that every decoder of the storage crate is written with: \<open>Reader\<close> of
  \<open>authority/conversation/codec.rs\<close> and, with another reaction to a short buffer, \<open>In\<close> of
  \<open>authority/index.rs\<close>. A reader is the whole buffer and an offset into it; a reading takes it to an
  error or to a value and the advanced reader. \<open>Writer\<close> operations are the bytes they append.

  The locale \<open>codec\<close> is the contract between a field reader and the writer of the same field:
  the reader accepts exactly the encodings of acceptable values. The round trip, the uniqueness of
  encodings and the refusal of a cut encoding follow from it once, and every record decoder is
  proved from the contracts of its fields.
\<close>

record reader =
  rd_bytes :: bytes
  rd_offset :: nat

type_synonym ('e, 'a) reading = "reader \<Rightarrow> 'e + 'a \<times> reader"

definition rbind :: "('e, 'a) reading \<Rightarrow> ('a \<Rightarrow> ('e, 'b) reading) \<Rightarrow> ('e, 'b) reading" where
  "rbind p f r = (case p r of Inl e \<Rightarrow> Inl e | Inr (x, r') \<Rightarrow> f x r')"

definition rreturn :: "'a \<Rightarrow> ('e, 'a) reading" where
  "rreturn x r = Inr (x, r)"

definition rfail :: "'e \<Rightarrow> ('e, 'a) reading" where
  "rfail e r = Inl e"

definition rlift :: "'e + 'a \<Rightarrow> ('e, 'a) reading" where
  "rlift x r = (case x of Inl e \<Rightarrow> Inl e | Inr v \<Rightarrow> Inr (v, r))"

text \<open>\<open>take\<close>: the next \<open>n\<close> bytes, or the given error when fewer are left. The buffer lies in memory,
  so \<open>offset + n\<close> is past its end whenever the addition of the source would overflow.\<close>

definition take_or :: "'e \<Rightarrow> nat \<Rightarrow> ('e, bytes) reading" where
  "take_or e n r =
    (let stop = rd_offset r + n in
     if stop \<le> length (rd_bytes r)
     then Inr (take n (drop (rd_offset r) (rd_bytes r)), r\<lparr>rd_offset := stop\<rparr>)
     else Inl e)"

subsection \<open>Reader positions\<close>

definition rd :: "bytes \<Rightarrow> bytes \<Rightarrow> reader" where
  "rd pre post = \<lparr>rd_bytes = pre @ post, rd_offset = length pre\<rparr>"

lemma rd_sel [simp]:
  "rd_bytes (rd pre post) = pre @ post"
  "rd_offset (rd pre post) = length pre"
  by (simp_all add: rd_def)

lemma rd_inject: "rd a b = rd a' b' \<longleftrightarrow> a = a' \<and> b = b'"
  by (auto simp: rd_def append_eq_append_conv_if)

lemma rd_start: "\<lparr>rd_bytes = bs, rd_offset = 0\<rparr> = rd [] bs"
  by (simp add: rd_def)

lemma rd_exhaust:
  assumes "rd_offset r \<le> length (rd_bytes r)"
  obtains pre post where "r = rd pre post"
  using assms that [of "take (rd_offset r) (rd_bytes r)" "drop (rd_offset r) (rd_bytes r)"]
  by (simp add: rd_def)

subsection \<open>Sequencing\<close>

lemma rbind_eq_Inr:
  "rbind p f r = Inr y \<longleftrightarrow> (\<exists>x r'. p r = Inr (x, r') \<and> f x r' = Inr y)"
  by (auto simp: rbind_def split: sum.splits)

lemma rbind_Inr: "p r = Inr (x, r') \<Longrightarrow> rbind p f r = f x r'"
  by (simp add: rbind_def)

lemma rbind_Inl: "p r = Inl e \<Longrightarrow> rbind p f r = Inl e"
  by (simp add: rbind_def)

lemma rreturn_eq_Inr [simp]: "rreturn x r = Inr (y, r') \<longleftrightarrow> y = x \<and> r' = r"
  by (auto simp: rreturn_def)

lemma rfail_neq_Inr [simp]: "rfail e r \<noteq> Inr y"
  by (simp add: rfail_def)

lemma rlift_eq_Inr [simp]: "rlift x r = Inr (y, r') \<longleftrightarrow> x = Inr y \<and> r' = r"
  by (auto simp: rlift_def split: sum.splits)

lemma if_rfail_eq_Inr [simp]:
  "(if b then rfail e else p) r = Inr y \<longleftrightarrow> \<not> b \<and> p r = Inr y"
  "(if b then p else rfail e) r = Inr y \<longleftrightarrow> b \<and> p r = Inr y"
  by simp_all

lemma if_reading:
  "(if b then p else q) r = Inr y \<longleftrightarrow> b \<and> p r = Inr y \<or> \<not> b \<and> q r = Inr y"
  by simp

lemma take_or_short: "length rest < n \<Longrightarrow> take_or e n (rd pre rest) = Inl e"
  by (simp add: take_or_def Let_def)

lemma take_or_append: "take_or e (length v) (rd pre (v @ post)) = Inr (v, rd (pre @ v) post)"
  by (simp add: take_or_def Let_def rd_def)

lemma take_or_exact:
  "take_or e n (rd pre rest) = Inr (v, r')
    \<longleftrightarrow> length v = n \<and> (\<exists>post. rest = v @ post \<and> r' = rd (pre @ v) post)"
proof (cases "n \<le> length rest")
  case True
  then have eq: "take_or e n (rd pre rest) = Inr (take n rest, rd (pre @ take n rest) (drop n rest))"
    using take_or_append [of e "take n rest" pre "drop n rest"] by (simp add: min_absorb2)
  show ?thesis
    unfolding eq using True by (auto intro!: exI [of _ "drop n rest"])
next
  case False
  then show ?thesis by (auto simp: take_or_short)
qed

subsection \<open>The codec contract\<close>

locale codec =
  fixes reads :: "('e, 'a) reading"
    and enc :: "'a \<Rightarrow> bytes"
    and ok :: "'a \<Rightarrow> bool"
  assumes exact: "reads (rd pre rest) = Inr (v, r')
    \<longleftrightarrow> ok v \<and> (\<exists>post. rest = enc v @ post \<and> r' = rd (pre @ enc v) post)"
begin

lemma round_trip: "ok v \<Longrightarrow> reads (rd pre (enc v @ post)) = Inr (v, rd (pre @ enc v) post)"
  by (subst exact) blast

lemma prefix_free:
  assumes "ok v" "ok w" "enc v @ p = enc w @ q"
  shows "v = w \<and> p = q"
proof -
  have "reads (rd [] (enc v @ p)) = Inr (v, rd (enc v) p)"
    using round_trip [OF assms(1), of "[]"] by simp
  moreover have "reads (rd [] (enc w @ q)) = Inr (w, rd (enc w) q)"
    using round_trip [OF assms(2), of "[]"] by simp
  ultimately have "(v, rd (enc v) p) = (w, rd (enc w) q)"
    unfolding assms(3) by (metis sum.inject(2))
  then show ?thesis unfolding prod.inject rd_inject by simp
qed

lemma enc_inject: "ok v \<Longrightarrow> ok w \<Longrightarrow> enc v = enc w \<longleftrightarrow> v = w"
  using prefix_free [of v w "[]" "[]"] by auto

lemma cut_refused:
  assumes "ok v" "enc v = part @ missing" "missing \<noteq> []"
  shows "\<exists>e. reads (rd pre part) = Inl e"
proof (cases "reads (rd pre part)")
  case (Inr y)
  obtain w r' where y: "y = (w, r')" by (cases y)
  with Inr have "ok w" and "\<exists>post. part = enc w @ post"
    using exact [of pre part w r'] by auto
  then obtain post where w: "ok w" "part = enc w @ post" by blast
  then have "enc v @ [] = enc w @ post @ missing" using assms(2) by simp
  then have "[] = post @ missing" using prefix_free [OF assms(1) w(1)] by blast
  then show ?thesis using assms(3) by simp
qed simp

lemma bind_exact:
  "rbind reads f (rd pre rest) = Inr y
    \<longleftrightarrow> (\<exists>x post. ok x \<and> rest = enc x @ post \<and> f x (rd (pre @ enc x) post) = Inr y)"
  by (auto simp: rbind_eq_Inr exact)

lemma bind_run: "ok x \<Longrightarrow> rbind reads f (rd pre (enc x @ post)) = f x (rd (pre @ enc x) post)"
  by (rule rbind_Inr) (rule round_trip)

lemma accepted_is_encoding:
  assumes "reads (rd pre rest) = Inr (v, rd pre' post)"
  shows "ok v" "rest = enc v @ post" "pre' = pre @ enc v"
  using assms by (auto simp: exact rd_inject)

end

lemma codecI:
  assumes "\<And>pre rest v r'. reads (rd pre rest) = Inr (v, r')
      \<Longrightarrow> ok v \<and> (\<exists>post. rest = enc v @ post \<and> r' = rd (pre @ enc v) post)"
    and "\<And>pre post v. ok v \<Longrightarrow> reads (rd pre (enc v @ post)) = Inr (v, rd (pre @ enc v) post)"
  shows "codec reads enc ok"
  using assms by unfold_locales blast

text \<open>A stored code table: every code byte has at most one value.\<close>

locale code_table =
  fixes code :: "'a \<Rightarrow> u8" and from_code :: "u8 \<Rightarrow> 'a option"
  assumes from_code_iff: "from_code b = Some v \<longleftrightarrow> b = code v"
begin

lemma from_code_code [simp]: "from_code (code v) = Some v"
  by (simp add: from_code_iff)

lemma code_inject [simp]: "code v = code w \<longleftrightarrow> v = w"
  by (metis from_code_code option.inject)

lemma inj_code: "inj code"
  by (simp add: inj_def)

lemma from_code_eq_None: "from_code b = None \<longleftrightarrow> b \<notin> range code"
  by (metis from_code_iff not_Some_eq rangeE rangeI)

end

subsection \<open>Fixed-width fields\<close>

definition array_or :: "'e \<Rightarrow> nat \<Rightarrow> ('e, bytes) reading" where
  "array_or e n = take_or e n"

definition byte_or :: "'e \<Rightarrow> ('e, u8) reading" where
  "byte_or e = rbind (take_or e 1) (\<lambda>b. rreturn (b ! 0))"

definition u16_or :: "'e \<Rightarrow> ('e, u16) reading" where
  "u16_or e = rbind (array_or e 2) (\<lambda>b. rreturn (u16_of_be b))"

definition u32_or :: "'e \<Rightarrow> ('e, u32) reading" where
  "u32_or e = rbind (array_or e 4) (\<lambda>b. rreturn (u32_of_be b))"

definition u64_or :: "'e \<Rightarrow> ('e, u64) reading" where
  "u64_or e = rbind (array_or e 8) (\<lambda>b. rreturn (u64_of_be b))"

lemma codec_array: "codec (array_or e n) (\<lambda>v. v) (\<lambda>v. length v = n)"
  by unfold_locales (simp add: array_or_def take_or_exact)

lemma codec_byte: "codec (byte_or e) (\<lambda>b. [b]) (\<lambda>_. True)"
  by unfold_locales (auto simp: byte_or_def rbind_eq_Inr take_or_exact length_1_conv)

lemma codec_u16: "codec (u16_or e) be16 (\<lambda>_. True)"
  by unfold_locales (auto simp: u16_or_def array_or_def rbind_eq_Inr take_or_exact,
      metis length_be(1) of_be_be(1))

lemma codec_u32: "codec (u32_or e) be32 (\<lambda>_. True)"
  by unfold_locales (auto simp: u32_or_def array_or_def rbind_eq_Inr take_or_exact,
      metis length_be(2) of_be_be(2))

lemma codec_u64: "codec (u64_or e) be64 (\<lambda>_. True)"
  by unfold_locales (auto simp: u64_or_def array_or_def rbind_eq_Inr take_or_exact,
      metis length_be(3) of_be_be(3))

interpretation array_field: codec "array_or e n" "\<lambda>v. v" "\<lambda>v. length v = n" for e n
  by (rule codec_array)

interpretation byte_field: codec "byte_or e" "\<lambda>b. [b]" "\<lambda>_. True" for e
  by (rule codec_byte)

interpretation u16_field: codec "u16_or e" be16 "\<lambda>_. True" for e
  by (rule codec_u16)

interpretation u32_field: codec "u32_or e" be32 "\<lambda>_. True" for e
  by (rule codec_u32)

interpretation u64_field: codec "u64_or e" be64 "\<lambda>_. True" for e
  by (rule codec_u64)

lemmas fixed_exact [codec_simps] =
  array_field.exact [simplified] byte_field.exact [simplified] u16_field.exact [simplified]
  u32_field.exact [simplified] u64_field.exact [simplified]

lemmas fixed_round_trip [codec_simps] =
  array_field.round_trip byte_field.round_trip [simplified] u16_field.round_trip [simplified]
  u32_field.round_trip [simplified] u64_field.round_trip [simplified]

lemmas fixed_parse [parse] =
  array_field.bind_exact byte_field.bind_exact [simplified] u16_field.bind_exact [simplified]
  u32_field.bind_exact [simplified] u64_field.bind_exact [simplified]

lemmas fixed_run [run] =
  array_field.bind_run byte_field.bind_run [simplified] u16_field.bind_run [simplified]
  u32_field.bind_run [simplified] u64_field.bind_run [simplified]

subsection \<open>Composition\<close>

text \<open>A code byte read through a table.\<close>

definition coded_or :: "'e \<Rightarrow> 'e \<Rightarrow> (u8 \<Rightarrow> 'a option) \<Rightarrow> ('e, 'a) reading" where
  "coded_or short unknown from =
    rbind (byte_or short) (\<lambda>b. case from b of None \<Rightarrow> rfail unknown | Some v \<Rightarrow> rreturn v)"

lemma coded_eq_Inr:
  "(case from b of None \<Rightarrow> rfail e | Some v \<Rightarrow> rreturn v) r = Inr (w, r') \<longleftrightarrow> from b = Some w \<and> r' = r"
  by (auto split: option.splits)

context code_table
begin

lemma codec_coded: "codec (coded_or short unknown from_code) (\<lambda>v. [code v]) (\<lambda>_. True)"
  by unfold_locales
    (auto simp: coded_or_def rbind_eq_Inr byte_field.exact coded_eq_Inr from_code_iff)

end

sublocale code_table \<subseteq> coded: codec "coded_or short unknown from_code" "\<lambda>v. [code v]" "\<lambda>_. True"
  for short unknown
  by (rule codec_coded)

end
