(* ===== verification/Types.thy ===== *)
theory Types
  imports Wire
begin

section \<open>Locators and the codes of turns\<close>

text \<open>
  \<open>authority/conversation/types.rs\<close>: the frame locator and the stored codes of terminal kinds and
  causes. Each enumeration with a stored code is interpreted as a \<open>code_table\<close>.
\<close>

record locator =
  loc_sequence :: u64
  loc_segment :: u64
  loc_offset :: u32
  loc_length :: u32

definition locator_NONE :: locator where
  "locator_NONE = \<lparr>loc_sequence = 0, loc_segment = 0, loc_offset = 0, loc_length = 0\<rparr>"

definition locator_is_none :: "locator \<Rightarrow> bool" where
  "locator_is_none l \<longleftrightarrow> loc_sequence l = 0"

definition locator_range :: "locator \<Rightarrow> nat \<times> nat" where
  "locator_range l = (unat (loc_offset l), unat (loc_offset l) + unat (loc_length l))"

definition locator_encode :: "locator \<Rightarrow> bytes" where
  "locator_encode l =
    be64 (loc_sequence l) @ be64 (loc_segment l) @ be32 (loc_offset l) @ be32 (loc_length l)"

definition locator_decode :: "bytes \<Rightarrow> locator" where
  "locator_decode bs =
    \<lparr>loc_sequence = u64_of_be (take 8 bs),
     loc_segment = u64_of_be (take 8 (drop 8 bs)),
     loc_offset = u32_of_be (take 4 (drop 16 bs)),
     loc_length = u32_of_be (take 4 (drop 20 bs))\<rparr>"

lemma length_locator_encode [simp]: "length (locator_encode l) = 24"
  by (simp add: locator_encode_def)

lemma locator_decode_encode [simp]: "locator_decode (locator_encode l) = l"
  by (simp add: locator_decode_def locator_encode_def)

lemma locator_encode_decode: "length bs = 24 \<Longrightarrow> locator_encode (locator_decode bs) = bs"
  using take_add [of 8 8 bs] take_add [of 16 4 bs] take_add [of 20 4 bs]
  by (simp add: locator_decode_def locator_encode_def)

subsection \<open>Terminal kinds and causes\<close>

datatype terminal_kind = TerminalComplete | TerminalFailed | TerminalCancelled | TerminalInterrupted

fun terminal_code :: "terminal_kind \<Rightarrow> u8" where
  "terminal_code TerminalComplete = 1"
| "terminal_code TerminalFailed = 2"
| "terminal_code TerminalCancelled = 3"
| "terminal_code TerminalInterrupted = 4"

definition terminal_from_code :: "u8 \<Rightarrow> terminal_kind option" where
  "terminal_from_code code = map_of
    [(1, TerminalComplete), (2, TerminalFailed), (3, TerminalCancelled), (4, TerminalInterrupted)]
    code"

datatype cause =
    CauseNone | UserCancel | Deadline | OutputLimit | ServiceShutdown | ProviderFailure
  | ProtocolFailure | Restart | AuthorityFailure | InputLimit | Steering

fun cause_code :: "cause \<Rightarrow> u8" where
  "cause_code CauseNone = 0"
| "cause_code UserCancel = 1"
| "cause_code Deadline = 2"
| "cause_code OutputLimit = 3"
| "cause_code ServiceShutdown = 4"
| "cause_code ProviderFailure = 5"
| "cause_code ProtocolFailure = 6"
| "cause_code Restart = 7"
| "cause_code AuthorityFailure = 8"
| "cause_code InputLimit = 9"
| "cause_code Steering = 10"

definition cause_from_code :: "u8 \<Rightarrow> cause option" where
  "cause_from_code code = map_of
    [(0, CauseNone), (1, UserCancel), (2, Deadline), (3, OutputLimit), (4, ServiceShutdown),
     (5, ProviderFailure), (6, ProtocolFailure), (7, Restart), (8, AuthorityFailure),
     (9, InputLimit), (10, Steering)] code"

interpretation terminal: code_table terminal_code terminal_from_code
proof
  show "terminal_from_code b = Some v \<longleftrightarrow> b = terminal_code v" for b v
    by (cases v) (auto simp: terminal_from_code_def)
qed

interpretation cause: code_table cause_code cause_from_code
proof
  show "cause_from_code b = Some v \<longleftrightarrow> b = cause_code v" for b v
    by (cases v) (auto simp: cause_from_code_def)
qed

end
