(* ===== verification/Index.thy ===== *)
theory Index
  imports Types
begin

section \<open>Index entries\<close>

text \<open>
  \<open>authority/index.rs\<close>: the fixed 32-byte keys and 96-byte values of the segmented journal's index.
  \<open>Out\<close> and \<open>In\<close> slice a fixed buffer and panic when a slice is out of range; a panic is the value
  \<^const>\<open>None\<close> of an encoder and the fault \<open>Panic\<close> of a decoder, so that its absence is a theorem.
\<close>

subsection \<open>Tags\<close>

datatype tag =
    TagActivity | TagPathChange | TagCall | TagIdentity | TagRetention | TagPathAck | TagGenerated
  | TagThinking | TagInput | TagProject | TagProjectConversation | TagConversationJob
  | TagProjectJob | TagName | TagOperation | TagPiece | TagPathApproval | TagRequest | TagSegment
  | TagTurn | TagSettlement | TagConversation | TagJob | TagPayload | TagAllJobs
  | TagPathReference | TagPersonCommand

fun tag_byte :: "tag \<Rightarrow> u8" where
  "tag_byte TagActivity = 65"
| "tag_byte TagPathChange = 66"
| "tag_byte TagCall = 67"
| "tag_byte TagIdentity = 68"
| "tag_byte TagRetention = 69"
| "tag_byte TagPathAck = 70"
| "tag_byte TagGenerated = 71"
| "tag_byte TagThinking = 72"
| "tag_byte TagInput = 73"
| "tag_byte TagProject = 74"
| "tag_byte TagProjectConversation = 75"
| "tag_byte TagConversationJob = 76"
| "tag_byte TagProjectJob = 77"
| "tag_byte TagName = 78"
| "tag_byte TagOperation = 79"
| "tag_byte TagPiece = 80"
| "tag_byte TagPathApproval = 81"
| "tag_byte TagRequest = 82"
| "tag_byte TagSegment = 83"
| "tag_byte TagTurn = 84"
| "tag_byte TagSettlement = 85"
| "tag_byte TagConversation = 86"
| "tag_byte TagJob = 87"
| "tag_byte TagPayload = 88"
| "tag_byte TagAllJobs = 89"
| "tag_byte TagPathReference = 90"
| "tag_byte TagPersonCommand = 112"

definition tag_ALL :: "tag list" where
  "tag_ALL =
    [TagActivity, TagPathChange, TagCall, TagIdentity, TagRetention, TagPathAck, TagGenerated,
     TagThinking, TagInput, TagProject, TagProjectConversation, TagConversationJob,
     TagProjectJob, TagName, TagOperation, TagPiece, TagPathApproval, TagRequest, TagSegment,
     TagTurn, TagSettlement, TagConversation, TagJob, TagPayload, TagAllJobs,
     TagPathReference, TagPersonCommand]"

definition tag_from_byte :: "u8 \<Rightarrow> tag option" where
  "tag_from_byte b = find (\<lambda>t. tag_byte t = b) tag_ALL"

lemma tag_ALL_complete: "t \<in> set tag_ALL"
  by (cases t) (simp_all add: tag_ALL_def)

lemma tag_byte_inject [simp]: "tag_byte s = tag_byte t \<longleftrightarrow> s = t"
proof -
  have "distinct (map tag_byte tag_ALL)" by (simp add: tag_ALL_def)
  then have "inj_on tag_byte (set tag_ALL)" by (simp add: distinct_map)
  then show ?thesis using tag_ALL_complete by (metis inj_onD)
qed

interpretation tag: code_table tag_byte tag_from_byte
proof
  show "tag_from_byte b = Some t \<longleftrightarrow> b = tag_byte t" for b t
  proof
    show "tag_from_byte b = Some t \<Longrightarrow> b = tag_byte t"
      by (auto simp: tag_from_byte_def find_Some_iff)
    assume b: "b = tag_byte t"
    obtain s where "tag_from_byte b = Some s"
      using tag_ALL_complete [of t] b by (cases "tag_from_byte b") (auto simp: tag_from_byte_def find_None_iff)
    then show "tag_from_byte b = Some t"
      using b by (auto simp: tag_from_byte_def find_Some_iff)
  qed
qed

text \<open>The derived order of \<open>Tag\<close> is the order of its discriminants.\<close>

instantiation tag :: linorder
begin

definition less_eq_tag :: "tag \<Rightarrow> tag \<Rightarrow> bool" where
  "less_eq_tag s t \<longleftrightarrow> tag_byte s \<le> tag_byte t"

definition less_tag :: "tag \<Rightarrow> tag \<Rightarrow> bool" where
  "less_tag s t \<longleftrightarrow> tag_byte s < tag_byte t"

instance
  by standard (auto simp: less_eq_tag_def less_tag_def order_less_le)

end

subsection \<open>Keys\<close>

datatype key = Key (key_tag: tag) (key_id: id16) (key_disc: u64)

definition wf_key :: "key \<Rightarrow> bool" where
  "wf_key k \<longleftrightarrow> is_id (key_id k)"

definition key_first :: "tag \<Rightarrow> key" where
  "key_first t = Key t (replicate 16 0) 0"

definition key_last :: "tag \<Rightarrow> key" where
  "key_last t = Key t (replicate 16 0xff) (- 1)"

definition key_encode :: "key \<Rightarrow> bytes" where
  "key_encode k = tag_byte (key_tag k) # key_id k @ be64 (key_disc k) @ replicate 7 0"

definition key_decode :: "bytes \<Rightarrow> key result" where
  "key_decode bs =
    (if length bs \<noteq> 32 \<or> (\<exists>b\<in>set (drop 25 bs). b \<noteq> 0) then Inl Corrupt
     else result_bind (ok_or_corrupt (tag_from_byte (bs ! 0)))
       (\<lambda>t. Inr (Key t (take 16 (drop 1 bs)) (u64_of_be (take 8 (drop 17 bs))))))"

definition sequence_id :: "u64 \<Rightarrow> id16" where
  "sequence_id n = replicate 8 0 @ be64 n"

definition identity_id :: "u64 \<Rightarrow> u64 \<Rightarrow> id16" where
  "identity_id device inode = be64 device @ be64 inode"

instantiation key :: linorder
begin

definition less_eq_key :: "key \<Rightarrow> key \<Rightarrow> bool" where
  "less_eq_key a b \<longleftrightarrow> key_tag a < key_tag b \<or> key_tag a = key_tag b \<and>
    (key_id a < key_id b \<or> key_id a = key_id b \<and> key_disc a \<le> key_disc b)"

definition less_key :: "key \<Rightarrow> key \<Rightarrow> bool" where
  "less_key a b \<longleftrightarrow> key_tag a < key_tag b \<or> key_tag a = key_tag b \<and>
    (key_id a < key_id b \<or> key_id a = key_id b \<and> key_disc a < key_disc b)"

instance
  by standard (auto simp: less_eq_key_def less_key_def intro: key.expand)

end

lemma length_key_encode [simp]: "wf_key k \<Longrightarrow> length (key_encode k) = 32"
  by (simp add: wf_key_def key_encode_def)

lemma key_encode_less_iff:
  assumes "wf_key a" "wf_key b"
  shows "key_encode a < key_encode b \<longleftrightarrow> a < b"
  using assms unfolding wf_key_def key_encode_def less_key_def
  by (simp add: less_append_same_length less_tag_def)

lemma key_decode_iff: "key_decode bs = Inr k \<longleftrightarrow> wf_key k \<and> bs = key_encode k"
proof
  assume "wf_key k \<and> bs = key_encode k"
  then show "key_decode bs = Inr k"
    by (cases k) (simp add: key_decode_def key_encode_def wf_key_def)
next
  assume dec: "key_decode bs = Inr k"
  then have len: "length bs = 32" and zero: "drop 25 bs = replicate 7 0"
    using replicate_zero_iff [of "drop 25 bs"] by (auto simp: key_decode_def split: if_splits)
  have "bs = take 1 bs @ take 16 (drop 1 bs) @ take 8 (drop 17 bs) @ drop 25 bs"
    using take_add [of 1 16 bs] take_add [of 17 8 bs] append_take_drop_id [of 25 bs] by simp
  moreover have "take 1 bs = [bs ! 0]"
    using len by (cases bs) auto
  ultimately have "bs = bs ! 0 # take 16 (drop 1 bs) @ take 8 (drop 17 bs) @ replicate 7 0"
    using zero by simp
  then show "wf_key k \<and> bs = key_encode k"
    using dec len
    by (auto simp: key_decode_def key_encode_def wf_key_def result_bind_eq_Inr tag.from_code_iff
        split: if_splits)
qed

lemma zeros_least: "length xs = n \<Longrightarrow> replicate n (0 :: u8) \<le> xs"
  by (induction xs arbitrary: n) (auto simp: order_less_le)

lemma ones_greatest: "length xs = n \<Longrightarrow> xs \<le> replicate n (0xff :: u8)"
proof (induction xs arbitrary: n)
  case (Cons x xs)
  have "x \<le> 0xff" using unat_u8_less [of x] by (simp add: word_le_nat_alt)
  with Cons show ?case by (auto simp: order_less_le)
qed simp

lemma key_bounds: "wf_key k \<Longrightarrow> key_first (key_tag k) \<le> k \<and> k \<le> key_last (key_tag k)"
  using zeros_least [of "key_id k" 16] ones_greatest [of "key_id k" 16]
  by (simp add: wf_key_def less_eq_key_def key_first_def key_last_def le_less [where 'a = "u8 list"]
      disj_commute)

subsection \<open>Entries\<close>

datatype generated =
    GeneratedInstallation | GeneratedGraph | GeneratedTask | GeneratedOperation | GeneratedInput
  | GeneratedDispatch

fun generated_code :: "generated \<Rightarrow> u8" where
  "generated_code GeneratedInstallation = 1"
| "generated_code GeneratedGraph = 2"
| "generated_code GeneratedTask = 3"
| "generated_code GeneratedOperation = 4"
| "generated_code GeneratedInput = 5"
| "generated_code GeneratedDispatch = 6"

definition generated_from_code :: "u8 \<Rightarrow> generated option" where
  "generated_from_code code = map_of
    [(1, GeneratedInstallation), (2, GeneratedGraph), (3, GeneratedTask), (4, GeneratedOperation),
     (5, GeneratedInput), (6, GeneratedDispatch)] code"

interpretation generated: code_table generated_code generated_from_code
proof
  show "generated_from_code b = Some v \<longleftrightarrow> b = generated_code v" for b v
    by (cases v) (auto simp: generated_from_code_def)
qed

record operation_facts =
  of_conversation :: id16
  of_generation :: u64
  of_terminal :: terminal_kind
  of_cause :: cause
  of_response_len :: u64
  of_pieces :: u32
  of_calls :: u32
  of_accepted :: locator
  of_terminal_frame :: locator

datatype entry =
    EntryRequest u16 hash32 locator
  | EntryGenerated generated locator
  | EntryOperation operation_facts
  | EntryPiece u64 locator
  | EntryThinking u64 locator
  | EntryCall u8 locator locator
  | EntryTurn id16 terminal_kind locator u64 u64
  | EntryInput u8 locator locator id16
  | EntryJobPayload id16 locator locator u64
  | EntryJob id16 u8 locator locator locator
  | EntryConversationJob id16
  | EntryProjectJob id16 id16
  | EntryAllJobs id16 id16
  | EntrySettlement id16
  | EntryRetention u8 u8 locator
  | EntryPathChange id16 u64 locator
  | EntryPathAck id16 u64 u64 locator
  | EntryPathApproval u8 hash32 hash32 locator
  | EntryPathReference u8 id16 locator
  | EntrySegment u64 u64 hash32
  | EntryProject u64 u64 u8 locator
  | EntryName locator
  | EntryIdentity id16
  | EntryConversation id16 locator
  | EntryProjectConversation id16
  | EntryActivity id16 id16 u64
  | EntryPersonCommand id16 id16 u64 locator

text \<open>The fixed arrays of an entry have their lengths.\<close>

fun wf_entry :: "entry \<Rightarrow> bool" where
  "wf_entry (EntryRequest kind digest frame) = is_hash digest"
| "wf_entry (EntryOperation f) = is_id (of_conversation f)"
| "wf_entry (EntryTurn operation terminal accepted completed notice) = is_id operation"
| "wf_entry (EntryInput status queued promoted operation) = is_id operation"
| "wf_entry (EntryJobPayload job intent settled last_use) = is_id job"
| "wf_entry (EntryJob conversation origin intent cancel settled) = is_id conversation"
| "wf_entry (EntryConversationJob job) = is_id job"
| "wf_entry (EntryProjectJob job conversation) = (is_id job \<and> is_id conversation)"
| "wf_entry (EntryAllJobs job project) = (is_id job \<and> is_id project)"
| "wf_entry (EntrySettlement job) = is_id job"
| "wf_entry (EntryPathChange job number frame) = is_id job"
| "wf_entry (EntryPathAck input through covered frame) = is_id input"
| "wf_entry (EntryPathApproval action path_key digest frame) = (is_hash path_key \<and> is_hash digest)"
| "wf_entry (EntryPathReference action project frame) = is_id project"
| "wf_entry (EntrySegment last_seq file_bytes digest) = is_hash digest"
| "wf_entry (EntryIdentity project) = is_id project"
| "wf_entry (EntryConversation project frame) = is_id project"
| "wf_entry (EntryProjectConversation conversation) = is_id conversation"
| "wf_entry (EntryActivity conversation operation generation) = (is_id conversation \<and> is_id operation)"
| "wf_entry (EntryPersonCommand input job expected queued) = (is_id input \<and> is_id job)"
| "wf_entry _ = True"

fun entry_tag :: "entry \<Rightarrow> tag" where
  "entry_tag (EntryRequest _ _ _) = TagRequest"
| "entry_tag (EntryGenerated _ _) = TagGenerated"
| "entry_tag (EntryOperation _) = TagOperation"
| "entry_tag (EntryPiece _ _) = TagPiece"
| "entry_tag (EntryThinking _ _) = TagThinking"
| "entry_tag (EntryCall _ _ _) = TagCall"
| "entry_tag (EntryTurn _ _ _ _ _) = TagTurn"
| "entry_tag (EntryInput _ _ _ _) = TagInput"
| "entry_tag (EntryJobPayload _ _ _ _) = TagPayload"
| "entry_tag (EntryJob _ _ _ _ _) = TagJob"
| "entry_tag (EntryConversationJob _) = TagConversationJob"
| "entry_tag (EntryProjectJob _ _) = TagProjectJob"
| "entry_tag (EntryAllJobs _ _) = TagAllJobs"
| "entry_tag (EntrySettlement _) = TagSettlement"
| "entry_tag (EntryRetention _ _ _) = TagRetention"
| "entry_tag (EntryPathChange _ _ _) = TagPathChange"
| "entry_tag (EntryPathAck _ _ _ _) = TagPathAck"
| "entry_tag (EntryPathApproval _ _ _ _) = TagPathApproval"
| "entry_tag (EntryPathReference _ _ _) = TagPathReference"
| "entry_tag (EntrySegment _ _ _) = TagSegment"
| "entry_tag (EntryProject _ _ _ _) = TagProject"
| "entry_tag (EntryName _) = TagName"
| "entry_tag (EntryIdentity _) = TagIdentity"
| "entry_tag (EntryConversation _ _) = TagConversation"
| "entry_tag (EntryProjectConversation _) = TagProjectConversation"
| "entry_tag (EntryActivity _ _ _) = TagActivity"
| "entry_tag (EntryPersonCommand _ _ _ _) = TagPersonCommand"

subsection \<open>Encoding a value\<close>

record out =
  out_bytes :: bytes
  out_at :: nat

definition out_new :: out where
  "out_new = \<lparr>out_bytes = replicate 96 0, out_at = 0\<rparr>"

text \<open>\<^const>\<open>None\<close> is the panic of \<open>self.bytes[self.at..self.at + data.len()]\<close> out of range.\<close>

definition out_put :: "bytes \<Rightarrow> out \<Rightarrow> out option" where
  "out_put data out = map_option
    (\<lambda>bytes. \<lparr>out_bytes = bytes, out_at = out_at out + length data\<rparr>)
    (splice (out_at out) data (out_bytes out))"

fun out_puts :: "bytes list \<Rightarrow> out \<Rightarrow> out option" where
  "out_puts [] out = Some out"
| "out_puts (data # rest) out = Option.bind (out_put data out) (out_puts rest)"

text \<open>The arms of \<open>Entry::encode\<close>: the \<open>put\<close> calls of each variant, in order.\<close>

fun entry_puts :: "entry \<Rightarrow> bytes list" where
  "entry_puts (EntryRequest kind digest frame) = [be16 kind, digest, locator_encode frame]"
| "entry_puts (EntryGenerated entity frame) = [[generated_code entity], locator_encode frame]"
| "entry_puts (EntryOperation f) =
    [of_conversation f, be64 (of_generation f),
     [terminal_code (of_terminal f), cause_code (of_cause f)],
     be64 (of_response_len f), be32 (of_pieces f), be32 (of_calls f),
     locator_encode (of_accepted f), locator_encode (of_terminal_frame f)]"
| "entry_puts (EntryPiece kept frame) = [be64 kept, locator_encode frame]"
| "entry_puts (EntryThinking kept frame) = [be64 kept, locator_encode frame]"
| "entry_puts (EntryCall decision intent result) =
    [[decision], locator_encode intent, locator_encode result]"
| "entry_puts (EntryTurn operation terminal accepted completed notice_through) =
    [operation, [terminal_code terminal], locator_encode accepted, be64 completed,
     be64 notice_through]"
| "entry_puts (EntryInput status queued promoted operation) =
    [[status], locator_encode queued, locator_encode promoted, operation]"
| "entry_puts (EntryJobPayload job intent settled last_use) =
    [[2], job, locator_encode intent, locator_encode settled, be64 last_use]"
| "entry_puts (EntryJob conversation origin intent cancel settled) =
    [conversation, [origin], locator_encode intent, locator_encode cancel, locator_encode settled]"
| "entry_puts (EntryConversationJob job) = [job]"
| "entry_puts (EntrySettlement job) = [job]"
| "entry_puts (EntryProjectJob job conversation) = [job, conversation]"
| "entry_puts (EntryAllJobs job project) = [job, project]"
| "entry_puts (EntryRetention action author frame) = [[action, author], locator_encode frame]"
| "entry_puts (EntryPathChange job number frame) = [job, be64 number, locator_encode frame]"
| "entry_puts (EntryPathAck input through covered frame) =
    [input, be64 through, be64 covered, locator_encode frame]"
| "entry_puts (EntryPathApproval action path_key digest frame) =
    [[action], path_key, digest, locator_encode frame]"
| "entry_puts (EntryPathReference action project frame) =
    [[action], project, locator_encode frame]"
| "entry_puts (EntrySegment last_seq file_bytes digest) = [be64 last_seq, be64 file_bytes, digest]"
| "entry_puts (EntryProject device inode visibility frame) =
    [be64 device, be64 inode, [visibility], locator_encode frame]"
| "entry_puts (EntryName frame) = [locator_encode frame]"
| "entry_puts (EntryIdentity project) = [project]"
| "entry_puts (EntryConversation project frame) = [project, locator_encode frame]"
| "entry_puts (EntryProjectConversation conversation) = [conversation]"
| "entry_puts (EntryActivity conversation operation generation) =
    [conversation, operation, be64 generation]"
| "entry_puts (EntryPersonCommand input job expected_generation queued) =
    [input, job, be64 expected_generation, locator_encode queued]"

definition entry_encode :: "entry \<Rightarrow> bytes option" where
  "entry_encode e = map_option out_bytes (out_puts (entry_puts e) out_new)"

lemma out_puts_fit:
  assumes "length (concat ds) + length a \<le> 96"
  shows "out_puts ds \<lparr>out_bytes = a @ replicate (96 - length a) 0, out_at = length a\<rparr>
    = Some \<lparr>out_bytes = a @ concat ds @ replicate (96 - length a - length (concat ds)) 0,
            out_at = length a + length (concat ds)\<rparr>"
  using assms
proof (induction ds arbitrary: a)
  case (Cons d ds)
  then show ?case
    using Cons.IH [of "a @ d"] by (simp add: out_put_def splice_def add_ac diff_diff_left)
qed simp

lemma entry_puts_fit: "wf_entry e \<Longrightarrow> length (concat (entry_puts e)) \<le> 96"
  by (cases e) simp_all

lemma entry_encode_wf:
  assumes "wf_entry e"
  shows "entry_encode e =
    Some (concat (entry_puts e) @ replicate (96 - length (concat (entry_puts e))) 0)"
  using out_puts_fit [of "entry_puts e" "[]"] entry_puts_fit [OF assms]
  by (simp add: entry_encode_def out_new_def)

subsection \<open>Decoding a value\<close>

abbreviation in_byte :: "(fault, u8) reading" where "in_byte \<equiv> byte_or Panic"
abbreviation in_u16 :: "(fault, u16) reading" where "in_u16 \<equiv> u16_or Panic"
abbreviation in_u32 :: "(fault, u32) reading" where "in_u32 \<equiv> u32_or Panic"
abbreviation in_u64 :: "(fault, u64) reading" where "in_u64 \<equiv> u64_or Panic"
abbreviation in_id :: "(fault, id16) reading" where "in_id \<equiv> array_or Panic 16"
abbreviation in_hash :: "(fault, hash32) reading" where "in_hash \<equiv> array_or Panic 32"

abbreviation in_coded :: "(u8 \<Rightarrow> 'a option) \<Rightarrow> (fault, 'a) reading" where
  "in_coded \<equiv> coded_or Panic (Err Corrupt)"

definition in_locator :: "(fault, locator) reading" where
  "in_locator = rbind (take_or Panic 24) (\<lambda>bs. rreturn (locator_decode bs))"

definition in_finish :: "(fault, unit) reading" where
  "in_finish r =
    (if \<exists>b\<in>set (drop (rd_offset r) (rd_bytes r)). b \<noteq> 0 then Inl (Err Corrupt) else Inr ((), r))"

fun entry_read :: "tag \<Rightarrow> (fault, entry) reading" where
  "entry_read TagRequest = rbind in_u16 (\<lambda>kind. rbind in_hash (\<lambda>digest. rbind in_locator (\<lambda>frame.
    rreturn (EntryRequest kind digest frame))))"
| "entry_read TagGenerated = rbind (in_coded generated_from_code) (\<lambda>entity.
    rbind in_locator (\<lambda>frame. rreturn (EntryGenerated entity frame)))"
| "entry_read TagOperation =
    rbind in_id (\<lambda>conversation. rbind in_u64 (\<lambda>generation.
    rbind (in_coded terminal_from_code) (\<lambda>terminal. rbind (in_coded cause_from_code) (\<lambda>cause.
    rbind in_u64 (\<lambda>response_len. rbind in_u32 (\<lambda>pieces. rbind in_u32 (\<lambda>calls.
    rbind in_locator (\<lambda>accepted. rbind in_locator (\<lambda>terminal_frame.
    rreturn (EntryOperation
      \<lparr>of_conversation = conversation, of_generation = generation, of_terminal = terminal,
       of_cause = cause, of_response_len = response_len, of_pieces = pieces, of_calls = calls,
       of_accepted = accepted, of_terminal_frame = terminal_frame\<rparr>))))))))))"
| "entry_read TagPiece = rbind in_u64 (\<lambda>kept. rbind in_locator (\<lambda>frame.
    rreturn (EntryPiece kept frame)))"
| "entry_read TagThinking = rbind in_u64 (\<lambda>kept. rbind in_locator (\<lambda>frame.
    rreturn (EntryThinking kept frame)))"
| "entry_read TagCall = rbind in_byte (\<lambda>decision. rbind in_locator (\<lambda>intent.
    rbind in_locator (\<lambda>result. rreturn (EntryCall decision intent result))))"
| "entry_read TagTurn = rbind in_id (\<lambda>operation. rbind (in_coded terminal_from_code) (\<lambda>terminal.
    rbind in_locator (\<lambda>accepted. rbind in_u64 (\<lambda>completed. rbind in_u64 (\<lambda>notice_through.
    rreturn (EntryTurn operation terminal accepted completed notice_through))))))"
| "entry_read TagInput = rbind in_byte (\<lambda>status. rbind in_locator (\<lambda>queued.
    rbind in_locator (\<lambda>promoted. rbind in_id (\<lambda>operation.
    rreturn (EntryInput status queued promoted operation)))))"
| "entry_read TagPayload = rbind in_byte (\<lambda>form.
    if form = 2 then
      rbind in_id (\<lambda>job. rbind in_locator (\<lambda>intent. rbind in_locator (\<lambda>settled.
      rbind in_u64 (\<lambda>last_use. rreturn (EntryJobPayload job intent settled last_use)))))
    else rfail (Err Corrupt))"
| "entry_read TagJob = rbind in_id (\<lambda>conversation. rbind in_byte (\<lambda>origin.
    rbind in_locator (\<lambda>intent. rbind in_locator (\<lambda>cancel. rbind in_locator (\<lambda>settled.
    rreturn (EntryJob conversation origin intent cancel settled))))))"
| "entry_read TagConversationJob = rbind in_id (\<lambda>job. rreturn (EntryConversationJob job))"
| "entry_read TagProjectJob = rbind in_id (\<lambda>job. rbind in_id (\<lambda>conversation.
    rreturn (EntryProjectJob job conversation)))"
| "entry_read TagAllJobs = rbind in_id (\<lambda>job. rbind in_id (\<lambda>project.
    rreturn (EntryAllJobs job project)))"
| "entry_read TagSettlement = rbind in_id (\<lambda>job. rreturn (EntrySettlement job))"
| "entry_read TagRetention = rbind in_byte (\<lambda>action. rbind in_byte (\<lambda>author.
    rbind in_locator (\<lambda>frame. rreturn (EntryRetention action author frame))))"
| "entry_read TagPathChange = rbind in_id (\<lambda>job. rbind in_u64 (\<lambda>number.
    rbind in_locator (\<lambda>frame. rreturn (EntryPathChange job number frame))))"
| "entry_read TagPathAck = rbind in_id (\<lambda>input. rbind in_u64 (\<lambda>through. rbind in_u64 (\<lambda>covered.
    rbind in_locator (\<lambda>frame. rreturn (EntryPathAck input through covered frame)))))"
| "entry_read TagPathApproval = rbind in_byte (\<lambda>action. rbind in_hash (\<lambda>path_key.
    rbind in_hash (\<lambda>digest. rbind in_locator (\<lambda>frame.
    rreturn (EntryPathApproval action path_key digest frame)))))"
| "entry_read TagPathReference = rbind in_byte (\<lambda>action. rbind in_id (\<lambda>project.
    rbind in_locator (\<lambda>frame. rreturn (EntryPathReference action project frame))))"
| "entry_read TagSegment = rbind in_u64 (\<lambda>last_seq. rbind in_u64 (\<lambda>file_bytes. rbind in_hash (\<lambda>digest.
    rreturn (EntrySegment last_seq file_bytes digest))))"
| "entry_read TagProject = rbind in_u64 (\<lambda>device. rbind in_u64 (\<lambda>inode. rbind in_byte (\<lambda>visibility.
    rbind in_locator (\<lambda>frame. rreturn (EntryProject device inode visibility frame)))))"
| "entry_read TagName = rbind in_locator (\<lambda>frame. rreturn (EntryName frame))"
| "entry_read TagIdentity = rbind in_id (\<lambda>project. rreturn (EntryIdentity project))"
| "entry_read TagConversation = rbind in_id (\<lambda>project. rbind in_locator (\<lambda>frame.
    rreturn (EntryConversation project frame)))"
| "entry_read TagProjectConversation = rbind in_id (\<lambda>conversation.
    rreturn (EntryProjectConversation conversation))"
| "entry_read TagActivity = rbind in_id (\<lambda>conversation. rbind in_id (\<lambda>operation.
    rbind in_u64 (\<lambda>generation. rreturn (EntryActivity conversation operation generation))))"
| "entry_read TagPersonCommand = rbind in_id (\<lambda>input. rbind in_id (\<lambda>job.
    rbind in_u64 (\<lambda>expected_generation. rbind in_locator (\<lambda>queued.
    rreturn (EntryPersonCommand input job expected_generation queued)))))"

definition entry_decode :: "tag \<Rightarrow> bytes \<Rightarrow> fault + entry" where
  "entry_decode t v =
    (if length v \<noteq> 96 then Inl (Err Corrupt)
     else map_sum id fst (rbind (entry_read t) (\<lambda>entry. rbind in_finish (\<lambda>_. rreturn entry))
       \<lparr>rd_bytes = v, rd_offset = 0\<rparr>))"

lemma codec_in_locator: "codec in_locator locator_encode (\<lambda>_. True)"
  by unfold_locales (auto simp: in_locator_def rbind_eq_Inr take_or_exact locator_encode_decode,
      metis length_locator_encode locator_decode_encode)

lemma operation_facts_eq:
  "f = \<lparr>of_conversation = a, of_generation = b, of_terminal = c, of_cause = d, of_response_len = g,
        of_pieces = h, of_calls = i, of_accepted = j, of_terminal_frame = k\<rparr>
    \<longleftrightarrow> a = of_conversation f \<and> b = of_generation f \<and> c = of_terminal f \<and> d = of_cause f \<and>
      g = of_response_len f \<and> h = of_pieces f \<and> i = of_calls f \<and> j = of_accepted f \<and>
      k = of_terminal_frame f"
  by (cases f) auto

interpretation in_locator: codec in_locator locator_encode "\<lambda>_. True"
  by (rule codec_in_locator)

lemmas index_exact =
  in_locator.exact [simplified] generated.coded.exact [simplified]
  terminal.coded.exact [simplified] cause.coded.exact [simplified]

lemma codec_entry_read:
  "codec (entry_read t) (\<lambda>e. concat (entry_puts e)) (\<lambda>e. wf_entry e \<and> entry_tag e = t)"
proof
  show "entry_read t (rd pre rest) = Inr (e, r') \<longleftrightarrow> (wf_entry e \<and> entry_tag e = t) \<and>
    (\<exists>post. rest = concat (entry_puts e) @ post \<and> r' = rd (pre @ concat (entry_puts e)) post)"
    for pre rest e r'
    by (cases t; cases e) (auto simp: rbind_eq_Inr codec_simps index_exact operation_facts_eq)
qed

interpretation entry_value: codec "entry_read t" "\<lambda>e. concat (entry_puts e)"
  "\<lambda>e. wf_entry e \<and> entry_tag e = t" for t
  by (rule codec_entry_read)

lemma in_finish_exact:
  "in_finish (rd pre rest) = Inr (u, r') \<longleftrightarrow> rest = replicate (length rest) 0 \<and> r' = rd pre rest"
  by (auto simp: in_finish_def replicate_zero_iff [symmetric])

lemma map_sum_fst_eq_Inr: "map_sum id fst x = Inr e \<longleftrightarrow> (\<exists>r'. x = Inr (e, r'))"
  by (cases x) auto

lemma map_sum_fst_eq_Inl: "map_sum id fst x = Inl e \<longleftrightarrow> x = Inl e"
  by (cases x) auto

lemma entry_decode_iff:
  "entry_decode t v = Inr e \<longleftrightarrow> wf_entry e \<and> entry_tag e = t \<and> entry_encode e = Some v"
proof
  assume "entry_decode t v = Inr e"
  then obtain post where "length v = 96" and e: "wf_entry e" "entry_tag e = t"
    and "v = concat (entry_puts e) @ post" "post = replicate (length post) 0"
    by (auto simp: entry_decode_def map_sum_fst_eq_Inr rd_start rbind_eq_Inr entry_value.exact
        in_finish_exact split: if_splits)
  then show "wf_entry e \<and> entry_tag e = t \<and> entry_encode e = Some v"
    by (simp add: entry_encode_wf) (metis add_diff_cancel_left' length_append)
next
  assume e: "wf_entry e \<and> entry_tag e = t \<and> entry_encode e = Some v"
  let ?c = "concat (entry_puts e)" let ?z = "replicate (96 - length (concat (entry_puts e))) (0 :: u8)"
  have v: "v = ?c @ ?z" using e entry_encode_wf [of e] by simp
  moreover have "length v = 96" using v e entry_puts_fit [of e] by simp
  moreover have "entry_read t (rd [] v) = Inr (e, rd ?c ?z)"
    using entry_value.round_trip [of e t "[]" ?z] e v by simp
  moreover have "in_finish (rd ?c ?z) = Inr ((), rd ?c ?z)"
    by (simp add: in_finish_exact)
  ultimately show "entry_decode t v = Inr e"
    by (simp add: entry_decode_def map_sum_fst_eq_Inr rd_start rbind_eq_Inr)
qed

subsection \<open>No decoding panics\<close>

text \<open>\<open>within n p\<close>: with at least \<open>n\<close> bytes left, \<open>p\<close> does not slice out of range and uses at
  most \<open>n\<close> bytes.\<close>

definition left :: "reader \<Rightarrow> nat" where
  "left r = length (rd_bytes r) - rd_offset r"

definition within :: "nat \<Rightarrow> (fault, 'a) reading \<Rightarrow> bool" where
  "within n p \<longleftrightarrow> (\<forall>r. n \<le> left r \<longrightarrow> p r \<noteq> Inl Panic \<and>
    (\<forall>x r'. p r = Inr (x, r') \<longrightarrow> left r \<le> left r' + n))"

lemma within_take: "0 < n \<Longrightarrow> within n (take_or Panic n)"
  by (auto simp: within_def left_def take_or_def Let_def)

lemma within_rbind:
  assumes p: "within m p" and f: "\<And>x. within n (f x)"
  shows "within (m + n) (rbind p f)"
  unfolding within_def
proof (intro allI impI)
  fix r
  assume left: "m + n \<le> left r"
  show "rbind p f r \<noteq> Inl Panic \<and> (\<forall>x r'. rbind p f r = Inr (x, r') \<longrightarrow> left r \<le> left r' + (m + n))"
  proof (cases "p r")
    case (Inl e)
    then show ?thesis using p left by (auto simp: within_def rbind_Inl)
  next
    case (Inr y)
    obtain x r' where y: "y = (x, r')" by (cases y)
    with Inr have "left r \<le> left r' + m" using p left by (auto simp: within_def)
    then have "n \<le> left r'" using left by simp
    then have "f x r' \<noteq> Inl Panic" "\<forall>z r''. f x r' = Inr (z, r'') \<longrightarrow> left r' \<le> left r'' + n"
      using f [of x] by (auto simp: within_def)
    moreover have "rbind p f r = f x r'" using Inr y by (simp add: rbind_Inr)
    moreover note \<open>left r \<le> left r' + m\<close>
    ultimately show ?thesis by (metis add.assoc add.commute add_le_cancel_left order_trans)
  qed
qed

lemma within_return: "within 0 (rreturn x)"
  by (simp add: within_def rreturn_def)

lemma within_fail: "within 0 (rfail (Err e))"
  by (simp add: within_def rfail_def)

lemma within_mono: "within m p \<Longrightarrow> m \<le> n \<Longrightarrow> within n p"
  unfolding within_def by (meson add_left_mono dual_order.trans)

lemma within_rbind_return: "within m p \<Longrightarrow> within m (rbind p (\<lambda>x. rreturn (f x)))"
  using within_rbind [of m p 0 "\<lambda>x. rreturn (f x)", OF _ within_return] by simp

lemma within_fields:
  "within 1 in_byte" "within 2 in_u16" "within 4 in_u32" "within 8 in_u64"
  "within 16 in_id" "within 32 in_hash" "within 24 in_locator"
  by (simp_all add: byte_or_def u16_or_def u32_or_def u64_or_def array_or_def in_locator_def
      within_rbind_return within_take)

lemma within_coded: "within 1 (in_coded from)"
  using within_rbind [OF within_fields(1), of 0 "\<lambda>b. case from b of None \<Rightarrow> rfail (Err Corrupt) | Some v \<Rightarrow> rreturn v"]
  by (auto simp: coded_or_def within_fail within_return split: option.splits)

lemmas within_intros = within_rbind within_fields within_coded within_return within_fail

lemma within_entry_read: "within 96 (entry_read t)"
proof (cases t)
  case TagPayload
  have "within (1 + (16 + (24 + (24 + (8 + 0))))) (entry_read TagPayload)"
    unfolding entry_read.simps
    by (intro within_rbind [OF within_fields(1)])
      (simp only: split: if_split, intro conjI impI within_rbind within_fields within_return
        within_mono [OF within_fail] le0)
  then show ?thesis using TagPayload within_mono by fastforce
qed (simp, rule within_mono, (rule within_intros)+, simp)+

lemma entry_decode_no_panic: "entry_decode t v \<noteq> Inl Panic"
proof (cases "length v = 96")
  case True
  let ?r = "\<lparr>rd_bytes = v, rd_offset = 0\<rparr>"
  have "entry_read t ?r \<noteq> Inl Panic"
    using within_entry_read [of t] True by (simp add: within_def left_def)
  moreover have "in_finish r \<noteq> Inl Panic" for r
    by (simp add: in_finish_def)
  ultimately have "rbind (entry_read t) (\<lambda>e. rbind in_finish (\<lambda>_. rreturn e)) ?r \<noteq> Inl Panic"
    by (auto simp: rbind_def rreturn_def split: sum.splits)
  then show ?thesis
    using True by (simp add: entry_decode_def map_sum_fst_eq_Inl)
qed (simp add: entry_decode_def)

subsection \<open>What the index promises\<close>

text \<open>C27: The derived order of keys is the byte order of their encodings: for keys with 16-byte IDs,
  one key is below another exactly when its encoding is lexicographically below. The sorted run files
  rely on it.\<close>

theorem key_order_is_byte_order:
  assumes "wf_key a" "wf_key b"
  shows "a < b \<longleftrightarrow> key_encode a < key_encode b"
  using key_encode_less_iff [OF assms] by simp

theorem key_order_is_byte_order_witness:
  "wf_key (Key TagCall (replicate 16 7) 3) \<and> wf_key (Key TagCall (replicate 16 7) 300) \<and>
   (Key TagCall (replicate 16 7) 3 < Key TagCall (replicate 16 7) 300
     \<longleftrightarrow> key_encode (Key TagCall (replicate 16 7) 3) < key_encode (Key TagCall (replicate 16 7) 300))"
  using key_order_is_byte_order [of "Key TagCall (replicate 16 7) 3" "Key TagCall (replicate 16 7) 300"]
  by (simp add: wf_key_def)

text \<open>C32: Key decoding accepts exactly the encodings of well-formed keys: \<open>Key::decode\<close> returns a
  key if and only if the bytes are that key's 32-byte encoding. Everything else (another length, a
  non-zero padding byte, an unknown tag) is an error.\<close>

theorem key_decode_exact: "key_decode bs = Inr k \<longleftrightarrow> wf_key k \<and> bs = key_encode k"
  by (rule key_decode_iff)

text \<open>C26: The typed index values have one encoding each, and decoding inverts it: \<open>Entry::decode\<close>
  returns an entry for a tag if and only if the entry is well formed, carries that tag and its
  96-byte encoding (which does not panic) is the given value.\<close>

theorem entry_decode_exact:
  "entry_decode t v = Inr e \<longleftrightarrow> wf_entry e \<and> entry_tag e = t \<and> entry_encode e = Some v"
  by (rule entry_decode_iff)

text \<open>C33: No index value can make the index code panic: encoding a well-formed entry stays inside the
  96-byte buffer, and decoding any byte string under any tag never slices out of range.\<close>

theorem index_never_panics:
  "entry_decode t v \<noteq> Inl Panic \<and> (wf_entry e \<longrightarrow> (\<exists>bs. entry_encode e = Some bs \<and> length bs = 96))"
  using entry_decode_no_panic entry_puts_fit [of e] by (auto simp: entry_encode_wf)

theorem index_never_panics_witness:
  "wf_entry (EntryProjectJob (replicate 16 1) (replicate 16 2)) \<and>
   (\<exists>bs. entry_encode (EntryProjectJob (replicate 16 1) (replicate 16 2)) = Some bs \<and> length bs = 96)"
  using index_never_panics [of TagJob "[]" "EntryProjectJob (replicate 16 1) (replicate 16 2)"] by simp

end
