(* ===== verification/RunFile.thy ===== *)
theory RunFile
  imports Index
begin

section \<open>Index run files\<close>

text \<open>
  \<open>authority/index/run.rs\<close>: a run is a 64-byte header, pages of 4,096 bytes with at most 31 sorted
  entries and a digest each, and a 40-byte trailer. SHA-256 is the parameter \<open>sha\<close>; an incremental
  hasher is the list of bytes given to it so far. A \<open>RunSource\<close> is a function from an offset and a
  length to the bytes there, and the sink is the \<open>Vec<u8>\<close> implementation of \<open>RunSink\<close>. All \<open>u64\<close>
  arithmetic wraps.
\<close>

type_synonym page = "(key \<times> bytes) list"
type_synonym source = "u64 \<Rightarrow> nat \<Rightarrow> bytes result"

definition run_MAGIC :: bytes where "run_MAGIC = ascii ''ASURAX01''"
definition run_COMMIT :: bytes where "run_COMMIT = ascii ''ASURAC01''"

definition memory_source :: "bytes \<Rightarrow> source" where
  "memory_source file offset n =
    (if unat offset + n \<le> length file then Inr (subrange (unat offset) (unat offset + n) file)
     else Inl Corrupt)"

definition sink_write :: "u64 \<Rightarrow> bytes \<Rightarrow> bytes \<Rightarrow> bytes outcome" where
  "sink_write offset data sink =
    (let start = unat offset; stop = start + length data;
         grown = (if length sink < stop then sink @ replicate (stop - length sink) 0 else sink) in
     no_panic (splice start data grown))"

definition u64_div_ceil :: "u64 \<Rightarrow> u64 \<Rightarrow> u64" where
  "u64_div_ceil a b = (if a mod b > 0 then a div b + 1 else a div b)"

subsection \<open>Headers\<close>

record run_header =
  rh_level :: u8
  rh_installation_id :: id16
  rh_first :: u64
  rh_last :: u64
  rh_entries :: u64
  rh_pages :: u64

definition run_header_new :: "u8 \<Rightarrow> id16 \<Rightarrow> u64 \<Rightarrow> u64 \<Rightarrow> u64 \<Rightarrow> run_header" where
  "run_header_new level installation first latest entries =
    \<lparr>rh_level = level, rh_installation_id = installation, rh_first = first, rh_last = latest,
     rh_entries = entries, rh_pages = u64_div_ceil entries 31\<rparr>"

definition file_bytes :: "run_header \<Rightarrow> u64" where
  "file_bytes h = 64 + rh_pages h * 4096 + 40"

definition run_header_encode :: "run_header \<Rightarrow> bytes" where
  "run_header_encode h =
    run_MAGIC @ be16 1 @ [rh_level h] @ rh_installation_id h @ be64 (rh_first h) @
    be64 (rh_last h) @ be64 (rh_entries h) @ be64 (rh_pages h) @ replicate 5 0"

definition run_header_decode :: "bytes \<Rightarrow> run_header result" where
  "run_header_decode bs =
    (if length bs \<noteq> 64 \<or> subrange 0 8 bs \<noteq> run_MAGIC then Inl Corrupt
     else if subrange 8 10 bs \<noteq> be16 1 then Inl UnsupportedFormat
     else
       let u64_at = (\<lambda>at. u64_of_be (subrange at (at + 8) bs));
           header = \<lparr>rh_level = bs ! 10, rh_installation_id = subrange 11 27 bs, rh_first = u64_at 27,
                     rh_last = u64_at 35, rh_entries = u64_at 43, rh_pages = u64_at 51\<rparr> in
       if (\<exists>b\<in>set (drop 59 bs). b \<noteq> 0) \<or> rh_first header = 0 \<or> rh_last header < rh_first header
          \<or> rh_entries header = 0 \<or> rh_pages header \<noteq> u64_div_ceil (rh_entries header) 31
       then Inl Corrupt else Inr header)"

definition run_header_read :: "source \<Rightarrow> run_header result" where
  "run_header_read source = result_bind (source 0 64) run_header_decode"

text \<open>The headers \<open>decode\<close> accepts.\<close>

definition wf_run_header :: "run_header \<Rightarrow> bool" where
  "wf_run_header h \<longleftrightarrow> is_id (rh_installation_id h) \<and> rh_first h \<noteq> 0 \<and> rh_first h \<le> rh_last h
    \<and> rh_entries h \<noteq> 0 \<and> rh_pages h = u64_div_ceil (rh_entries h) 31"

lemma length_run_header_encode [simp]:
  "is_id (rh_installation_id h) \<Longrightarrow> length (run_header_encode h) = 64"
  by (simp add: run_header_encode_def run_MAGIC_def)

lemma slices_64:
  assumes "length bs = 64"
  shows "bs = subrange 0 8 bs @ subrange 8 10 bs @ [bs ! 10] @ subrange 11 27 bs @ subrange 27 35 bs @
    subrange 35 43 bs @ subrange 43 51 bs @ subrange 51 59 bs @ drop 59 bs"
proof -
  have "[bs ! 10] = subrange 10 11 bs"
    using assms by (simp add: subrange_def take_Suc_conv_app_nth hd_drop_conv_nth take_Suc)
  moreover have "drop 59 bs = subrange 59 64 bs"
    using assms by (simp add: subrange_def)
  ultimately show ?thesis
    using assms by (simp add: subrange_subrange)
qed

lemma subrange_Cons: "0 < i \<Longrightarrow> subrange i j (x # xs) = subrange (i - 1) (j - 1) xs"
  by (simp add: subrange_def drop_Cons')

lemma subrange_here: "length a = j - i \<Longrightarrow> i = 0 \<Longrightarrow> subrange i j (a @ xs) = a"
  by (simp add: subrange_def)

lemma run_header_decode_iff:
  "run_header_decode bs = Inr h \<longleftrightarrow> wf_run_header h \<and> bs = run_header_encode h"
proof
  assume dec: "run_header_decode bs = Inr h"
  then have len: "length bs = 64" and zero: "drop 59 bs = replicate 5 0"
    using replicate_zero_iff [of "drop 59 bs"]
    by (auto simp: run_header_decode_def Let_def split: if_splits)
  let ?h = "\<lparr>rh_level = bs ! 10, rh_installation_id = subrange 11 27 bs,
    rh_first = u64_of_be (subrange 27 35 bs), rh_last = u64_of_be (subrange 35 43 bs),
    rh_entries = u64_of_be (subrange 43 51 bs), rh_pages = u64_of_be (subrange 51 59 bs)\<rparr>"
  have h: "h = ?h" and magic: "subrange 0 8 bs = run_MAGIC" "subrange 8 10 bs = be16 1"
    and "wf_run_header h"
    using dec len by (auto simp: run_header_decode_def Let_def wf_run_header_def split: if_splits)
  moreover have "bs = run_header_encode h"
    unfolding h run_header_encode_def using slices_64 [OF len] len zero magic by simp
  ultimately show "wf_run_header h \<and> bs = run_header_encode h" by simp
next
  assume "wf_run_header h \<and> bs = run_header_encode h"
  then show "run_header_decode bs = Inr h"
    by (auto simp: run_header_decode_def Let_def wf_run_header_def run_header_encode_def
        subrange_skip subrange_here subrange_Cons run_MAGIC_def nth_append)
qed

subsection \<open>Pages\<close>

definition page_digest :: "(bytes \<Rightarrow> bytes) \<Rightarrow> bytes \<Rightarrow> u16 \<Rightarrow> u64 \<Rightarrow> u64 \<Rightarrow> bytes" where
  "page_digest sha entries count page first =
    sha (entries @ be16 count @ be64 page @ be64 first)"

fun page_put :: "nat \<Rightarrow> page \<Rightarrow> bytes \<Rightarrow> bytes option" where
  "page_put index [] out = Some out"
| "page_put index ((key, value) # entries) out =
    Option.bind (splice (index * 128) (key_encode key) out) (\<lambda>out.
    Option.bind (splice (index * 128 + 32) value out) (\<lambda>out.
    page_put (Suc index) entries out))"

definition encode_page :: "(bytes \<Rightarrow> bytes) \<Rightarrow> page \<Rightarrow> u64 \<Rightarrow> u64 \<Rightarrow> bytes option" where
  "encode_page sha entries page first =
    Option.bind (page_put 0 entries (replicate 4096 0)) (\<lambda>out.
    let count = of_nat (length entries) :: u16;
        digest = page_digest sha (take 3968 out) count page first in
    Option.bind (splice 3968 (be16 count) out) (\<lambda>out.
    Option.bind (splice (3968 + 2) (be64 page) out) (\<lambda>out.
    Option.bind (splice (3968 + 10) (be64 first) out) (\<lambda>out.
    splice (3968 + 18) digest out))))"

fun page_take :: "bytes \<Rightarrow> nat \<Rightarrow> nat \<Rightarrow> page \<Rightarrow> page result" where
  "page_take bs index 0 entries = Inr entries"
| "page_take bs index (Suc n) entries =
    (let at = index * 128 in
     result_bind (key_decode (subrange at (at + 32) bs)) (\<lambda>key.
     if entries \<noteq> [] \<and> fst (last entries) \<ge> key then Inl Corrupt
     else page_take bs (Suc index) n (entries @ [(key, subrange (at + 32) (at + 128) bs)])))"

definition decode_page :: "(bytes \<Rightarrow> bytes) \<Rightarrow> bytes \<Rightarrow> run_header \<Rightarrow> u64 \<Rightarrow> page outcome" where
  "decode_page sha bs h page =
    (if length bs \<noteq> 4096 \<or> page \<ge> rh_pages h then Inl (Err Corrupt)
     else
       let count = u16_of_be (subrange 3968 3970 bs);
           number = u64_of_be (subrange 3970 3978 bs);
           first = u64_of_be (subrange 3978 3986 bs);
           expected = (if page + 1 = rh_pages h then rh_entries h - page * 31 else 31) in
       if (ucast count :: u64) \<noteq> expected \<or> number \<noteq> page \<or> first \<noteq> rh_first h
          \<or> subrange 3986 4018 bs \<noteq> page_digest sha (take 3968 bs) count page first
          \<or> (\<exists>b\<in>set (drop 4018 bs). b \<noteq> 0)
       then Inl (Err Corrupt)
       else if unat count * 128 > 3968 then Inl Panic
       else if \<exists>b\<in>set (subrange (unat count * 128) 3968 bs). b \<noteq> 0 then Inl (Err Corrupt)
       else lift_result (page_take bs 0 (unat count) []))"

definition read_page :: "(bytes \<Rightarrow> bytes) \<Rightarrow> source \<Rightarrow> run_header \<Rightarrow> u64 \<Rightarrow> page outcome" where
  "read_page sha source h page =
    result_bind (lift_result (source (64 + page * 4096) 4096)) (\<lambda>bs. decode_page sha bs h page)"

text \<open>The bytes of a page, and the entries a page can hold.\<close>

definition entry_bytes :: "key \<times> bytes \<Rightarrow> bytes" where
  "entry_bytes e = key_encode (fst e) @ snd e"

definition wf_record :: "key \<times> bytes \<Rightarrow> bool" where
  "wf_record e \<longleftrightarrow> wf_key (fst e) \<and> length (snd e) = 96"

definition ascending :: "page \<Rightarrow> bool" where
  "ascending es \<longleftrightarrow> sorted_wrt (<) (map fst es)"

definition page_body :: "page \<Rightarrow> bytes" where
  "page_body es = concat (map entry_bytes es) @ replicate (3968 - 128 * length es) 0"

definition page_image :: "(bytes \<Rightarrow> bytes) \<Rightarrow> page \<Rightarrow> u64 \<Rightarrow> u64 \<Rightarrow> bytes" where
  "page_image sha es page first =
    page_body es @ be16 (of_nat (length es)) @ be64 page @ be64 first @
    page_digest sha (page_body es) (of_nat (length es)) page first @ replicate 78 0"

lemma length_entry_bytes [simp]: "wf_record e \<Longrightarrow> length (entry_bytes e) = 128"
  by (simp add: wf_record_def entry_bytes_def)

lemma length_entries [simp]:
  "\<forall>e\<in>set es. wf_record e \<Longrightarrow> length (concat (map entry_bytes es)) = 128 * length es"
  by (induction es) simp_all

lemma length_page_body [simp]:
  "\<forall>e\<in>set es. wf_record e \<Longrightarrow> length es \<le> 31 \<Longrightarrow> length (page_body es) = 3968"
  by (simp add: page_body_def)

lemma page_put_image:
  assumes "\<forall>e\<in>set es. wf_record e" "length a = index * 128" "128 * length es \<le> length z"
  shows "page_put index es (a @ z) = Some (a @ concat (map entry_bytes es) @ drop (128 * length es) z)"
  using assms
proof (induction es arbitrary: index a z)
  case (Cons e es)
  obtain k v where e: "e = (k, v)" by (cases e)
  have len: "length (key_encode k) = 32" "length v = 96"
    using Cons.prems(1) e by (simp_all add: wf_record_def)
  have "page_put index (e # es) (a @ z) = page_put (Suc index) es ((a @ entry_bytes e) @ drop 128 z)"
    using Cons.prems len by (simp add: e splice_def entry_bytes_def)
  also have "\<dots> = Some ((a @ entry_bytes e) @ concat (map entry_bytes es) @ drop (128 * length es) (drop 128 z))"
    by (rule Cons.IH) (use Cons.prems in auto)
  finally show ?case by (simp add: add.commute)
qed simp

lemma encode_page_image:
  assumes "\<forall>e\<in>set es. wf_record e" "length es \<le> 31" "\<And>x. length (sha x) = 32"
  shows "encode_page sha es page first = Some (page_image sha es page first)"
proof -
  have "page_put 0 es (replicate 4096 0) = Some (page_body es @ replicate 128 0)"
    using page_put_image [OF assms(1), of "[]" 0 "replicate 4096 0"] assms(2)
    by (simp add: page_body_def replicate_add [symmetric])
  moreover have "length (page_body es) = 3968" using assms by simp
  ultimately show ?thesis
    using assms(3)
    by (simp add: encode_page_def Let_def splice_def page_image_def page_digest_def)
qed

definition page_count :: "run_header \<Rightarrow> u64 \<Rightarrow> u64" where
  "page_count h page = (if page + 1 = rh_pages h then rh_entries h - page * 31 else 31)"

lemma ascending_snoc:
  "ascending (es @ [e]) \<longleftrightarrow> ascending es \<and> (es \<noteq> [] \<longrightarrow> fst (last es) < fst e)"
proof (cases es rule: rev_cases)
  case (snoc xs x)
  then show ?thesis by (auto simp: ascending_def sorted_wrt_append intro: order.strict_trans)
qed (simp add: ascending_def)

lemma ascending_appendD: "ascending (a @ b) \<Longrightarrow> ascending a \<and> ascending b"
  by (simp add: ascending_def sorted_wrt_append)

lemma subrange_128:
  assumes "at + 128 \<le> length bs"
  shows "subrange at (at + 128) bs = subrange at (at + 32) bs @ subrange (at + 32) (at + 128) bs"
  by (simp add: subrange_subrange)

lemma record_at_iff:
  assumes "at + 128 \<le> length bs"
  shows "key_decode (subrange at (at + 32) bs) = Inr k \<and> v = subrange (at + 32) (at + 128) bs
    \<longleftrightarrow> wf_record (k, v) \<and> subrange at (at + 128) bs = entry_bytes (k, v)"
  using assms unfolding subrange_128 [OF assms]
  by (auto simp: key_decode_iff wf_record_def entry_bytes_def)

lemma page_take_iff:
  assumes "(index + n) * 128 \<le> length bs" "ascending acc"
  shows "page_take bs index n acc = Inr es \<longleftrightarrow>
    (\<exists>new. es = acc @ new \<and> length new = n \<and> (\<forall>e\<in>set new. wf_record e) \<and> ascending (acc @ new) \<and>
      subrange (index * 128) ((index + n) * 128) bs = concat (map entry_bytes new))"
  using assms
proof (induction n arbitrary: index acc)
  case 0
  then show ?case by (auto simp: subrange_def)
next
  case (Suc n)
  let ?at = "index * 128"
  let ?v = "subrange (?at + 32) (?at + 128) bs"
  have at: "?at + 128 \<le> length bs" using Suc.prems by simp
  have split: "subrange ?at ((index + Suc n) * 128) bs =
      subrange ?at (?at + 128) bs @ subrange (Suc index * 128) ((Suc index + n) * 128) bs"
    using subrange_subrange [of ?at "?at + 128" "(index + Suc n) * 128" bs] by (simp add: add.commute)
  show ?case
  proof
    assume "page_take bs index (Suc n) acc = Inr es"
    then obtain k where k: "key_decode (subrange ?at (?at + 32) bs) = Inr k"
      "acc = [] \<or> fst (last acc) < k"
      "page_take bs (Suc index) n (acc @ [(k, ?v)]) = Inr es"
      by (auto simp: Let_def result_bind_eq_Inr not_le split: if_splits)
    have asc: "ascending (acc @ [(k, ?v)])" using k(2) Suc.prems(2) by (auto simp: ascending_snoc)
    obtain new where new: "es = (acc @ [(k, ?v)]) @ new" "length new = n"
      "\<forall>e\<in>set new. wf_record e" "ascending ((acc @ [(k, ?v)]) @ new)"
      "subrange (Suc index * 128) ((Suc index + n) * 128) bs = concat (map entry_bytes new)"
      using k(3) Suc.IH [of "Suc index" "acc @ [(k, ?v)]"] Suc.prems(1) asc by auto
    have "wf_record (k, ?v) \<and> subrange ?at (?at + 128) bs = entry_bytes (k, ?v)"
      using record_at_iff [OF at] k(1) by blast
    then show "\<exists>new. es = acc @ new \<and> length new = Suc n \<and> (\<forall>e\<in>set new. wf_record e) \<and>
        ascending (acc @ new) \<and> subrange ?at ((index + Suc n) * 128) bs = concat (map entry_bytes new)"
      using new split by (intro exI [of _ "(k, ?v) # new"]) simp
  next
    assume "\<exists>new. es = acc @ new \<and> length new = Suc n \<and> (\<forall>e\<in>set new. wf_record e) \<and>
        ascending (acc @ new) \<and> subrange ?at ((index + Suc n) * 128) bs = concat (map entry_bytes new)"
    then obtain k v new where new: "es = (acc @ [(k, v)]) @ new" "length new = n"
      "wf_record (k, v)" "\<forall>e\<in>set new. wf_record e" "ascending ((acc @ [(k, v)]) @ new)"
      "subrange ?at ((index + Suc n) * 128) bs = entry_bytes (k, v) @ concat (map entry_bytes new)"
      by (auto simp: length_Suc_conv)
    have two: "subrange ?at (?at + 128) bs = entry_bytes (k, v)"
      "subrange (Suc index * 128) ((Suc index + n) * 128) bs = concat (map entry_bytes new)"
      using new(3,6) at unfolding split by simp_all
    have k: "key_decode (subrange ?at (?at + 32) bs) = Inr k" "v = ?v"
      using record_at_iff [OF at, of k v] new(3) two(1) by simp_all
    have asc: "ascending (acc @ [(k, v)])" using new(5) ascending_appendD by blast
    then have "page_take bs (Suc index) n (acc @ [(k, v)]) = Inr es"
      using Suc.IH [of "Suc index" "acc @ [(k, v)]"] Suc.prems(1) new two(2) by auto
    moreover have "\<not> (acc \<noteq> [] \<and> fst (last acc) \<ge> k)" using asc by (auto simp: ascending_snoc)
    ultimately show "page_take bs index (Suc n) acc = Inr es"
      using k by (simp add: Let_def)
  qed
qed


lemma slices_4096:
  assumes "length bs = 4096"
  shows "bs = take 3968 bs @ subrange 3968 3970 bs @ subrange 3970 3978 bs @ subrange 3978 3986 bs @
    subrange 3986 4018 bs @ drop 4018 bs"
proof -
  have "take 3968 bs = subrange 0 3968 bs" "drop 4018 bs = subrange 4018 4096 bs"
    using assms by (simp_all add: subrange_def)
  then show ?thesis using assms by (simp add: subrange_subrange)
qed

lemma unat_of_nat_small:
  "n < 65536 \<Longrightarrow> unat (of_nat n :: u16) = n" "n < 18446744073709551616 \<Longrightarrow> unat (of_nat n :: u64) = n"
  by (simp_all add: unat_of_nat)

lemma unat_ucast_u64: "unat (ucast (x :: u16) :: u64) = unat x"
  using unat_word_less(1) [of x] by (simp add: unsigned_ucast_eq take_bit_nat_eq_self)

text \<open>A page that decodes is the image of its entries, which are as many as the header says and
  strictly ascending; conversely the image of such entries decodes to them.\<close>

lemma decode_page_iff:
  assumes cnt: "unat (page_count h page) \<le> 31" and sha: "\<And>x. length (sha x) = 32"
  shows "decode_page sha bs h page = Inr es \<longleftrightarrow>
    page < rh_pages h \<and> length es = unat (page_count h page) \<and> (\<forall>e\<in>set es. wf_record e) \<and>
    ascending es \<and> bs = page_image sha es page (rh_first h)"
proof
  assume dec: "decode_page sha bs h page = Inr es"
  let ?count = "u16_of_be (subrange 3968 3970 bs)"
  let ?n = "unat ?count"
  have len: "length bs = 4096" and page: "page < rh_pages h"
    and count: "ucast ?count = page_count h page"
    and fields: "u64_of_be (subrange 3970 3978 bs) = page" "u64_of_be (subrange 3978 3986 bs) = rh_first h"
    and digest: "subrange 3986 4018 bs = page_digest sha (take 3968 bs) ?count page (rh_first h)"
    and tail: "\<forall>b\<in>set (drop 4018 bs). b = 0"
    and fill: "\<forall>b\<in>set (subrange (?n * 128) 3968 bs). b = 0"
    and entries: "page_take bs 0 ?n [] = Inr es"
    using dec
    by (auto simp: decode_page_def Let_def page_count_def not_le split: if_splits)
  have n: "?n = unat (page_count h page)"
    using arg_cong [OF count, of unat] by (simp add: unat_ucast_u64)
  have es: "length es = ?n" "\<forall>e\<in>set es. wf_record e" "ascending es"
      "subrange 0 (?n * 128) bs = concat (map entry_bytes es)"
    using page_take_iff [of 0 ?n bs "[]" es] entries cnt n len by (auto simp: ascending_def)
  have "take 3968 bs = subrange 0 (?n * 128) bs @ subrange (?n * 128) 3968 bs"
    using cnt n by (simp add: subrange_subrange) (simp add: subrange_def)
  also have "subrange (?n * 128) 3968 bs = replicate (3968 - 128 * ?n) 0"
    using fill len by (simp add: replicate_zero_iff mult.commute)
  finally have body: "take 3968 bs = page_body es" using es by (simp add: page_body_def)
  have "?count = of_nat (length es)" using es(1) by simp
  moreover have "drop 4018 bs = replicate 78 0" using tail len by (simp add: replicate_zero_iff)
  moreover have "subrange 3968 3970 bs = be16 ?count" "subrange 3970 3978 bs = be64 page"
      "subrange 3978 3986 bs = be64 (rh_first h)"
    using len be_of_be(3) [of "subrange 3970 3978 bs"] be_of_be(3) [of "subrange 3978 3986 bs"]
    unfolding fields by simp_all
  ultimately have "bs = page_image sha es page (rh_first h)"
    using slices_4096 [OF len] body digest by (simp add: page_image_def)
  then show "page < rh_pages h \<and> length es = unat (page_count h page) \<and> (\<forall>e\<in>set es. wf_record e) \<and>
      ascending es \<and> bs = page_image sha es page (rh_first h)"
    using page es n by simp
next
  assume R: "page < rh_pages h \<and> length es = unat (page_count h page) \<and> (\<forall>e\<in>set es. wf_record e) \<and>
    ascending es \<and> bs = page_image sha es page (rh_first h)"
  then have small: "length es \<le> 31" and body: "length (page_body es) = 3968" using cnt by simp_all
  have bs: "bs = page_body es @ be16 (of_nat (length es)) @ be64 page @ be64 (rh_first h) @
      page_digest sha (page_body es) (of_nat (length es)) page (rh_first h) @ replicate 78 0"
    using R by (simp add: page_image_def)
  have parts: "take 3968 bs = page_body es" "subrange 3968 3970 bs = be16 (of_nat (length es))"
    "subrange 3970 3978 bs = be64 page" "subrange 3978 3986 bs = be64 (rh_first h)"
    "subrange 3986 4018 bs = page_digest sha (page_body es) (of_nat (length es)) page (rh_first h)"
    "drop 4018 bs = replicate 78 0" "length bs = 4096"
    unfolding bs using body sha by (simp_all add: subrange_skip subrange_here page_digest_def)
  have c: "unat (of_nat (length es) :: u16) = length es" using small by (simp add: unat_of_nat_small)
  have count: "ucast (of_nat (length es) :: u16) = page_count h page"
    using R c by (simp add: word_unat_eq_iff unat_ucast_u64)
  have front: "subrange 0 (length es * 128) bs = concat (map entry_bytes es)"
    and fill: "subrange (length es * 128) 3968 bs = replicate (3968 - 128 * length es) 0"
    unfolding bs page_body_def using R by (simp_all add: subrange_skip subrange_def)
  have "page_take bs 0 (length es) [] = Inr es"
    using page_take_iff [of 0 "length es" bs "[]" es] R front small parts by (auto simp: ascending_def)
  then show "decode_page sha bs h page = Inr es"
    using R parts c count fill small
    by (auto simp: decode_page_def Let_def page_count_def not_le)
qed

end
