(* ===== verification/RunWriter.thy ===== *)
theory RunWriter
  imports RunFile
begin

section \<open>Writing a run\<close>

text \<open>
  \<open>RunWriter\<close> and \<open>encode_run\<close> of \<open>authority/index/run.rs\<close>. The writer's state abstracts to the list
  of entries pushed so far; the sink always holds the image of the flushed pages.
\<close>

record run_writer =
  rw_header :: run_header
  rw_digest :: bytes
  rw_page :: page
  rw_written_pages :: u64
  rw_written_entries :: u64
  rw_last :: "key option"

definition run_writer_new :: "run_header \<Rightarrow> bytes \<Rightarrow> (run_writer \<times> bytes) outcome" where
  "run_writer_new header sink =
    (let bytes = run_header_encode header in
     result_bind (sink_write 0 bytes sink) (\<lambda>sink.
     Inr (\<lparr>rw_header = header, rw_digest = bytes, rw_page = [], rw_written_pages = 0,
           rw_written_entries = 0, rw_last = None\<rparr>, sink)))"

definition run_writer_flush ::
  "(bytes \<Rightarrow> bytes) \<Rightarrow> run_writer \<Rightarrow> bytes \<Rightarrow> (run_writer \<times> bytes) outcome" where
  "run_writer_flush sha w sink =
    result_bind (no_panic (encode_page sha (rw_page w) (rw_written_pages w) (rh_first (rw_header w))))
      (\<lambda>bytes.
    result_bind (sink_write (64 + rw_written_pages w * 4096) bytes sink) (\<lambda>sink.
    Inr (w\<lparr>rw_digest := rw_digest w @ bytes,
           rw_written_entries := rw_written_entries w + of_nat (length (rw_page w)),
           rw_written_pages := rw_written_pages w + 1,
           rw_page := []\<rparr>, sink)))"

definition run_writer_push ::
  "(bytes \<Rightarrow> bytes) \<Rightarrow> key \<Rightarrow> bytes \<Rightarrow> run_writer \<Rightarrow> bytes \<Rightarrow> (run_writer \<times> bytes) outcome" where
  "run_writer_push sha key value w sink =
    (if (case rw_last w of None \<Rightarrow> False | Some prior \<Rightarrow> prior \<ge> key)
        \<or> rw_written_entries w + of_nat (length (rw_page w)) \<ge> rh_entries (rw_header w)
     then Inl (Err Corrupt)
     else
       let w = w\<lparr>rw_last := Some key, rw_page := rw_page w @ [(key, value)]\<rparr> in
       if length (rw_page w) = 31 then run_writer_flush sha w sink else Inr (w, sink))"

definition run_writer_finish :: "(bytes \<Rightarrow> bytes) \<Rightarrow> run_writer \<Rightarrow> bytes \<Rightarrow> (bytes \<times> bytes) outcome" where
  "run_writer_finish sha w sink =
    result_bind (if rw_page w \<noteq> [] then run_writer_flush sha w sink else Inr (w, sink))
      (\<lambda>(w, sink).
    if rw_written_entries w \<noteq> rh_entries (rw_header w) \<or> rw_written_pages w \<noteq> rh_pages (rw_header w)
    then Inl (Err Corrupt)
    else
      let digest = sha (rw_digest w) in
      result_bind (sink_write (file_bytes (rw_header w) - 40) (digest @ run_COMMIT) sink) (\<lambda>sink.
      Inr (digest, sink)))"

fun run_push_all :: "(bytes \<Rightarrow> bytes) \<Rightarrow> page \<Rightarrow> run_writer \<Rightarrow> bytes \<Rightarrow> (run_writer \<times> bytes) outcome" where
  "run_push_all sha [] w sink = Inr (w, sink)"
| "run_push_all sha ((key, value) # entries) w sink =
    result_bind (run_writer_push sha key value w sink) (\<lambda>(w, sink). run_push_all sha entries w sink)"

definition encode_run ::
  "(bytes \<Rightarrow> bytes) \<Rightarrow> u8 \<Rightarrow> id16 \<Rightarrow> u64 \<Rightarrow> u64 \<Rightarrow> page \<Rightarrow> (bytes \<times> bytes) outcome" where
  "encode_run sha level installation_id first latest entries =
    (let header = run_header_new level installation_id first latest (of_nat (length entries)) in
     result_bind (run_writer_new header []) (\<lambda>(w, bytes).
     result_bind (run_push_all sha entries w bytes) (\<lambda>(w, bytes).
     result_bind (run_writer_finish sha w bytes) (\<lambda>(digest, bytes).
     Inr (bytes, digest)))))"

subsection \<open>The image of a run\<close>

definition page_of :: "page \<Rightarrow> nat \<Rightarrow> page" where
  "page_of es i = take 31 (drop (31 * i) es)"

definition pages_of :: "nat \<Rightarrow> nat" where
  "pages_of n = (n + 30) div 31"

definition pages_image :: "(bytes \<Rightarrow> bytes) \<Rightarrow> u64 \<Rightarrow> page \<Rightarrow> nat \<Rightarrow> bytes" where
  "pages_image sha first es n =
    concat (map (\<lambda>i. page_image sha (page_of es i) (of_nat i) first) [0..<n])"

definition run_image :: "(bytes \<Rightarrow> bytes) \<Rightarrow> run_header \<Rightarrow> page \<Rightarrow> bytes" where
  "run_image sha h es =
    (let body = run_header_encode h @ pages_image sha (rh_first h) es (pages_of (length es)) in
     body @ sha body @ run_COMMIT)"

definition run_digest :: "(bytes \<Rightarrow> bytes) \<Rightarrow> run_header \<Rightarrow> page \<Rightarrow> bytes" where
  "run_digest sha h es =
    sha (run_header_encode h @ pages_image sha (rh_first h) es (pages_of (length es)))"

lemma sink_write_end:
  "length sink = unat offset \<Longrightarrow> sink_write offset data sink = Inr (sink @ data)"
  by (simp add: sink_write_def Let_def splice_def)

lemma length_page_image [simp]:
  "\<forall>e\<in>set es. wf_record e \<Longrightarrow> length es \<le> 31 \<Longrightarrow> (\<And>x. length (sha x) = 32)
    \<Longrightarrow> length (page_image sha es page first) = 4096"
  by (simp add: page_image_def page_digest_def)

lemma page_of_wf: "\<forall>e\<in>set es. wf_record e \<Longrightarrow> \<forall>e\<in>set (page_of es i). wf_record e"
  by (auto simp: page_of_def dest: in_set_takeD in_set_dropD)

lemma length_page_of [simp]: "length (page_of es i) = min 31 (length es - 31 * i)"
  by (simp add: page_of_def)

lemma length_pages_image [simp]:
  assumes "\<forall>e\<in>set es. wf_record e" "\<And>x. length (sha x) = 32"
  shows "length (pages_image sha first es n) = 4096 * n"
proof (induction n)
  case (Suc n)
  then show ?case using assms page_of_wf [OF assms(1), of n] by (simp add: pages_image_def)
qed (simp add: pages_image_def)

lemma pages_image_Suc:
  "pages_image sha first es (Suc n) =
    pages_image sha first es n @ page_image sha (page_of es n) (of_nat n) first"
  by (simp add: pages_image_def)

lemma page_of_append: "31 * i + 31 \<le> length es \<Longrightarrow> page_of (es @ fs) i = page_of es i"
  by (simp add: page_of_def)

lemma pages_image_append:
  assumes "31 * n \<le> length es"
  shows "pages_image sha first (es @ fs) n = pages_image sha first es n"
proof -
  have "page_of (es @ fs) i = page_of es i" if "i < n" for i
    using that assms by (intro page_of_append) linarith
  then show ?thesis
    unfolding pages_image_def by (intro arg_cong [where f = concat] map_cong) auto
qed

lemma unat_u64_of_nat [simp]: "n < 2 ^ 64 \<Longrightarrow> unat (of_nat n :: u64) = n"
  by (simp add: unat_of_nat)

subsection \<open>The writer implements appending to a list\<close>

definition run_fits :: "run_header \<Rightarrow> bool" where
  "run_fits h \<longleftrightarrow> is_id (rh_installation_id h)
    \<and> rh_pages h = of_nat (pages_of (unat (rh_entries h)))
    \<and> 104 + 4096 * pages_of (unat (rh_entries h)) < 2 ^ 64"

definition writing ::
  "(bytes \<Rightarrow> bytes) \<Rightarrow> run_header \<Rightarrow> page \<Rightarrow> run_writer \<Rightarrow> bytes \<Rightarrow> bool" where
  "writing sha h es w sink \<longleftrightarrow>
    (let n = length es div 31 in
     rw_header w = h \<and> rw_page w = drop (31 * n) es \<and>
     sink = run_header_encode h @ pages_image sha (rh_first h) es n \<and> rw_digest w = sink \<and>
     rw_written_pages w = of_nat n \<and> rw_written_entries w = of_nat (31 * n) \<and>
     rw_last w = (if es = [] then None else Some (fst (last es))) \<and>
     ascending es \<and> (\<forall>e\<in>set es. wf_record e) \<and> length es \<le> unat (rh_entries h))"

lemma pages_of_alt: "pages_of n = (if n mod 31 > 0 then n div 31 + 1 else n div 31)"
proof -
  have "(31 * (n div 31) + (n mod 31 + 30)) div 31 = n div 31 + (n mod 31 + 30) div 31"
    by (rule div_mult_self4) simp
  moreover have "(n mod 31 + 30) div 31 = (if n mod 31 > 0 then 1 else 0)"
    using mod_less_divisor [of 31 n] by (auto simp: div_nat_eqI)
  ultimately show ?thesis by (simp add: pages_of_def add.assoc [symmetric])
qed

lemma u64_div_ceil_31: "u64_div_ceil e 31 = of_nat (pages_of (unat e))"
proof -
  have "e mod 31 > 0 \<longleftrightarrow> unat e mod 31 > 0"
    by (simp add: word_less_nat_alt unat_mod_distrib)
  moreover have "e div 31 = of_nat (unat e div 31)"
    using unat_word_less(3) [of e] div_le_dividend [of "unat e" 31]
    by (simp add: word_unat_eq_iff unat_div_distrib)
  ultimately show ?thesis by (simp add: u64_div_ceil_def pages_of_alt)
qed

lemma page_offset:
  "64 + 4096 * n < 2 ^ 64 \<Longrightarrow> unat (64 + of_nat n * 4096 :: u64) = 64 + 4096 * n"
proof -
  assume fit: "64 + 4096 * n < 2 ^ 64"
  have "(64 + of_nat n * 4096 :: u64) = of_nat (64 + 4096 * n)" by simp
  then show ?thesis using fit unat_u64_of_nat by presburger
qed

lemma length_writing:
  assumes "\<And>x. length (sha x) = 32" "run_fits h" "writing sha h es w sink"
  shows "length sink = 64 + 4096 * (length es div 31)"
  using assms by (auto simp: writing_def Let_def run_fits_def)

lemma flush_full:
  assumes sha: "\<And>x. length (sha x) = 32" and fits: "run_fits h"
    and page: "rw_page w = page_of es n" "\<forall>e\<in>set es. wf_record e"
    and w: "rw_header w = h" "rw_written_pages w = of_nat n" "rw_digest w = sink"
    and sink: "length sink = 64 + 4096 * n" and n: "n < pages_of (unat (rh_entries h))"
  shows "run_writer_flush sha w sink =
    Inr (w\<lparr>rw_digest := sink @ page_image sha (page_of es n) (of_nat n) (rh_first h),
           rw_written_entries := rw_written_entries w + of_nat (length (page_of es n)),
           rw_written_pages := of_nat (Suc n), rw_page := []\<rparr>,
         sink @ page_image sha (page_of es n) (of_nat n) (rh_first h))"
proof -
  have "encode_page sha (page_of es n) (of_nat n) (rh_first h)
      = Some (page_image sha (page_of es n) (of_nat n) (rh_first h))"
    using encode_page_image [OF page_of_wf [OF page(2)] _ sha] by simp
  moreover have "unat (64 + of_nat n * 4096 :: u64) = 64 + 4096 * n"
    using fits n by (intro page_offset) (simp add: run_fits_def)
  ultimately show ?thesis
    using w page sink by (simp add: run_writer_flush_def sink_write_end add.commute)
qed

lemma push_correct:
  assumes sha: "\<And>x. length (sha x) = 32" and fits: "run_fits h"
    and wr: "writing sha h es w sink" and kv: "wf_record (k, v)"
  shows "if (es \<noteq> [] \<and> k \<le> fst (last es)) \<or> unat (rh_entries h) \<le> length es
    then run_writer_push sha k v w sink = Inl (Err Corrupt)
    else \<exists>w' sink'. run_writer_push sha k v w sink = Inr (w', sink') \<and>
      writing sha h (es @ [(k, v)]) w' sink'"
proof -
  let ?n = "length es div 31" let ?es = "es @ [(k, v)]"
  let ?full = "unat (rh_entries h) \<le> length es"
  have small: "unat (rh_entries h) < 2 ^ 64" using unat_word_less(3) [of "rh_entries h"] by simp
  have count: "rw_written_entries w + of_nat (length (rw_page w)) = of_nat (length es)"
    using wr by (simp add: writing_def Let_def del: of_nat_mult flip: of_nat_add)
  have le: "length es \<le> unat (rh_entries h)" and hd: "rw_header w = h"
    and page: "rw_page w = drop (31 * ?n) es"
    and lst: "rw_last w = (if es = [] then None else Some (fst (last es)))"
    and asc: "ascending es" and wf: "\<forall>e\<in>set es. wf_record e"
    and wp: "rw_written_pages w = of_nat ?n" and we: "rw_written_entries w = of_nat (31 * ?n)"
    and sink: "sink = run_header_encode h @ pages_image sha (rh_first h) es ?n" "rw_digest w = sink"
    using wr by (simp_all add: writing_def Let_def)
  have full: "(rh_entries h \<le> of_nat (length es)) \<longleftrightarrow> ?full"
    using le small by (simp add: word_le_nat_alt)
  let ?w = "w\<lparr>rw_last := Some k, rw_page := rw_page w @ [(k, v)]\<rparr>"
  show ?thesis
  proof (cases "(es \<noteq> [] \<and> k \<le> fst (last es)) \<or> ?full")
    case True
    then show ?thesis
      using lst count full hd by (auto simp: run_writer_push_def)
  next
    case False
    then have asc': "ascending ?es" and le': "length ?es \<le> unat (rh_entries h)"
      using asc by (auto simp: ascending_snoc not_le)
    have push: "run_writer_push sha k v w sink =
        (if length (rw_page w) = 30 then run_writer_flush sha ?w sink else Inr (?w, sink))"
      using False lst count full hd by (auto simp: run_writer_push_def Let_def)
    have len30: "length (rw_page w) = 30 \<longleftrightarrow> length ?es mod 31 = 0"
      unfolding page by (simp, presburger)
    show ?thesis
    proof (cases "length (rw_page w) = 30")
      case True
      then have len: "length ?es = 31 * Suc ?n" using page by simp
      then have n': "length ?es div 31 = Suc ?n" by simp
      have po: "page_of ?es ?n = rw_page ?w" using len page by (simp add: page_of_def)
      have "?n < pages_of (unat (rh_entries h))" using le' len by (simp add: pages_of_def)
      then have fl: "run_writer_flush sha ?w sink =
        Inr (?w\<lparr>rw_digest := sink @ page_image sha (page_of ?es ?n) (of_nat ?n) (rh_first h),
           rw_written_entries := rw_written_entries ?w + of_nat (length (page_of ?es ?n)),
           rw_written_pages := of_nat (Suc ?n), rw_page := []\<rparr>,
         sink @ page_image sha (page_of ?es ?n) (of_nat ?n) (rh_first h))"
        using po wf kv hd wp sink length_writing [OF sha fits wr]
        by (intro flush_full [OF sha fits]) auto
      have img: "pages_image sha (rh_first h) ?es (Suc ?n) =
          pages_image sha (rh_first h) es ?n @ page_image sha (page_of ?es ?n) (of_nat ?n) (rh_first h)"
        by (simp add: pages_image_Suc pages_image_append)
      have lenw: "(of_nat (length es) :: u64) = 30 + 31 * of_nat ?n"
      proof -
        have "length es = 30 + 31 * ?n" using len by simp
        from arg_cong [OF this, of "of_nat :: nat \<Rightarrow> u64"] show ?thesis
          by (simp only: of_nat_add of_nat_mult of_nat_numeral)
      qed
      show ?thesis
        using False True push fl img asc' le' wf kv lenw n' hd we sink
        by (auto simp: writing_def Let_def)
    next
      case no: False
      then have n': "length ?es div 31 = ?n" using len30 by (simp add: div_Suc)
      have "pages_image sha (rh_first h) ?es ?n = pages_image sha (rh_first h) es ?n"
        by (simp add: pages_image_append)
      then show ?thesis
        using False no push asc' le' wf kv n' hd we wp sink page
        by (auto simp: writing_def Let_def)
    qed
  qed
qed

lemma flush_rest:
  assumes sha: "\<And>x. length (sha x) = 32" and fits: "run_fits h" and wr: "writing sha h es w sink"
  obtains w' sink' where
    "(if rw_page w \<noteq> [] then run_writer_flush sha w sink else Inr (w, sink)) = Inr (w', sink')"
    "rw_header w' = h" "rw_digest w' = sink'"
    "sink' = run_header_encode h @ pages_image sha (rh_first h) es (pages_of (length es))"
    "rw_written_entries w' = of_nat (length es)"
    "rw_written_pages w' = of_nat (pages_of (length es))"
proof (cases "length es mod 31 = 0")
  case True
  then have n: "pages_of (length es) = length es div 31" "31 * (length es div 31) = length es"
    by (auto simp: pages_of_alt)
  then show ?thesis
    using wr that [of w sink] by (simp add: writing_def Let_def del: of_nat_mult)
next
  case False
  let ?n = "length es div 31"
  have n: "pages_of (length es) = Suc ?n" using False by (simp add: pages_of_alt)
  have le: "length es \<le> unat (rh_entries h)" and page: "rw_page w = drop (31 * ?n) es"
    and wf: "\<forall>e\<in>set es. wf_record e"
    using wr by (simp_all add: writing_def Let_def)
  have "length (rw_page w) = length es mod 31" using page by (simp add: minus_mult_div_eq_mod)
  then have ne: "rw_page w \<noteq> []" using False by auto
  have po: "page_of es ?n = rw_page w"
    using page by (simp add: page_of_def minus_mult_div_eq_mod)
  have len: "of_nat (31 * ?n) + (of_nat (length es - 31 * ?n) :: u64) = of_nat (length es)"
    by (simp only: of_nat_add [symmetric]) simp
  have "pages_of (length es) \<le> pages_of (unat (rh_entries h))"
    using le by (simp add: pages_of_def div_le_mono)
  then have "?n < pages_of (unat (rh_entries h))" using n by simp
  then have "run_writer_flush sha w sink =
    Inr (w\<lparr>rw_digest := sink @ page_image sha (page_of es ?n) (of_nat ?n) (rh_first h),
           rw_written_entries := rw_written_entries w + of_nat (length (page_of es ?n)),
           rw_written_pages := of_nat (Suc ?n), rw_page := []\<rparr>,
         sink @ page_image sha (page_of es ?n) (of_nat ?n) (rh_first h))"
    using po wf wr length_writing [OF sha fits wr]
    by (intro flush_full [OF sha fits]) (auto simp: writing_def Let_def)
  then show ?thesis
    using that ne po n wr page len
    by (simp add: writing_def Let_def pages_image_Suc del: of_nat_mult)
qed

lemma finish_correct:
  assumes sha: "\<And>x. length (sha x) = 32" and fits: "run_fits h" and wr: "writing sha h es w sink"
  shows "run_writer_finish sha w sink =
    (if length es = unat (rh_entries h) then Inr (run_digest sha h es, run_image sha h es)
     else Inl (Err Corrupt))"
proof -
  obtain w' sink' where
    fl: "(if rw_page w \<noteq> [] then run_writer_flush sha w sink else Inr (w, sink)) = Inr (w', sink')"
    and w': "rw_header w' = h" "rw_digest w' = sink'"
    and sink': "sink' = run_header_encode h @ pages_image sha (rh_first h) es (pages_of (length es))"
    and we: "rw_written_entries w' = of_nat (length es)"
    and wp: "rw_written_pages w' = of_nat (pages_of (length es))"
    by (rule flush_rest [OF sha fits wr])
  have wf: "\<forall>e\<in>set es. wf_record e" and le: "length es \<le> unat (rh_entries h)"
    using wr by (simp_all add: writing_def Let_def)
  have eq: "of_nat (length es) = rh_entries h \<longleftrightarrow> length es = unat (rh_entries h)"
    using le unat_word_less(3) [of "rh_entries h"] by (auto simp: word_unat_eq_iff)
  show ?thesis
  proof (cases "length es = unat (rh_entries h)")
    case True
    then have pages: "rh_pages h = of_nat (pages_of (length es))" and
      fit: "64 + 4096 * pages_of (length es) < 2 ^ 64"
      using fits by (simp_all add: run_fits_def)
    have "file_bytes h - 40 = 64 + of_nat (pages_of (length es)) * 4096"
      using pages by (simp add: file_bytes_def)
    then have "unat (file_bytes h - 40) = length sink'"
      using page_offset [OF fit] sink' wf sha fits by (simp add: run_fits_def)
    then show ?thesis
      using True eq fl w' we wp pages sink'
      by (simp add: run_writer_finish_def Let_def sink_write_end run_image_def run_digest_def)
  next
    case False
    then show ?thesis using eq fl w' we by (simp add: run_writer_finish_def)
  qed
qed

lemma push_all_correct:
  assumes sha: "\<And>x. length (sha x) = 32" and fits: "run_fits h"
    and "writing sha h es w sink" "\<forall>e\<in>set new. wf_record e"
  shows "if ascending (es @ new) \<and> length (es @ new) \<le> unat (rh_entries h)
    then \<exists>w' sink'. run_push_all sha new w sink = Inr (w', sink') \<and> writing sha h (es @ new) w' sink'
    else run_push_all sha new w sink = Inl (Err Corrupt)"
  using assms(3,4)
proof (induction new arbitrary: es w sink)
  case Nil
  then show ?case by (auto simp: writing_def Let_def)
next
  case (Cons e new)
  obtain k v where e: "e = (k, v)" by (cases e)
  have asc: "ascending es" and le: "length es \<le> unat (rh_entries h)"
    using Cons.prems(1) by (simp_all add: writing_def Let_def)
  have one: "if (es \<noteq> [] \<and> k \<le> fst (last es)) \<or> unat (rh_entries h) \<le> length es
    then run_writer_push sha k v w sink = Inl (Err Corrupt)
    else \<exists>w' sink'. run_writer_push sha k v w sink = Inr (w', sink') \<and>
      writing sha h (es @ [(k, v)]) w' sink'"
    using push_correct [OF sha fits Cons.prems(1)] Cons.prems(2) e by simp
  show ?case
  proof (cases "(es \<noteq> [] \<and> k \<le> fst (last es)) \<or> unat (rh_entries h) \<le> length es")
    case True
    then have "\<not> (ascending (es @ e # new) \<and> length (es @ e # new) \<le> unat (rh_entries h))"
      using ascending_appendD [of "es @ [e]" new] by (auto simp: e ascending_snoc)
    then show ?thesis using True one by (simp only: if_False) (simp add: e)
  next
    case False
    then obtain w' sink' where w': "run_writer_push sha k v w sink = Inr (w', sink')"
      "writing sha h (es @ [(k, v)]) w' sink'" using one by auto
    show ?thesis using Cons.IH [OF w'(2)] Cons.prems(2) w'(1) by (simp add: e split: if_splits)
  qed
qed

lemma run_header_new_sel [simp]:
  "rh_entries (run_header_new l i f la n) = n" "rh_first (run_header_new l i f la n) = f"
  "rh_last (run_header_new l i f la n) = la" "rh_installation_id (run_header_new l i f la n) = i"
  "rh_pages (run_header_new l i f la n) = of_nat (pages_of (unat n))"
  by (simp_all add: run_header_new_def u64_div_ceil_31)

lemma run_fits_new:
  assumes "is_id i" "104 + 4096 * pages_of n < 2 ^ 64"
  shows "run_fits (run_header_new l i f la (of_nat n))" "n < 2 ^ 64"
proof -
  have "n \<le> 31 * pages_of n" unfolding pages_of_def by presburger
  then show "n < 2 ^ 64" using assms(2) by simp
  then show "run_fits (run_header_new l i f la (of_nat n))" using assms by (simp add: run_fits_def)
qed

lemma writing_new:
  assumes "run_fits h"
  shows "\<exists>w. run_writer_new h [] = Inr (w, run_header_encode h) \<and> writing sha h [] w (run_header_encode h)"
  by (simp add: run_writer_new_def Let_def sink_write_end writing_def pages_image_def ascending_def)

lemma encode_run_eq:
  assumes "\<And>x. length (sha x) = 32" "is_id i" "104 + 4096 * pages_of (length es) < 2 ^ 64"
    "\<forall>e\<in>set es. wf_record e" and h: "h = run_header_new l i f la (of_nat (length es))"
  shows "encode_run sha l i f la es =
    (if ascending es then Inr (run_image sha h es, run_digest sha h es) else Inl (Err Corrupt))"
proof -
  have fits: "run_fits h" and small: "length es < 2 ^ 64"
    unfolding h using run_fits_new [OF assms(2,3)] by simp_all
  have entries: "unat (rh_entries h) = length es" unfolding h using small by simp
  obtain w where w: "run_writer_new h [] = Inr (w, run_header_encode h)"
    "writing sha h [] w (run_header_encode h)"
    using writing_new [OF fits] by blast
  have all: "if ascending es
    then \<exists>w' sink'. run_push_all sha es w (run_header_encode h) = Inr (w', sink') \<and> writing sha h es w' sink'
    else run_push_all sha es w (run_header_encode h) = Inl (Err Corrupt)"
    using push_all_correct [OF assms(1) fits w(2) assms(4)] entries by (simp split: if_splits)
  show ?thesis
  proof (cases "ascending es")
    case True
    then obtain w' sink' where w': "run_push_all sha es w (run_header_encode h) = Inr (w', sink')"
      "writing sha h es w' sink'" using all by auto
    show ?thesis
      using True w w'(1) finish_correct [OF assms(1) fits w'(2)] small
      by (simp add: encode_run_def Let_def h)
  next
    case False
    then show ?thesis using w all by (simp add: encode_run_def Let_def h)
  qed
qed

end
