(* ===== verification/RunSearch.thy ===== *)
theory RunSearch
  imports RunWriter
begin

section \<open>Searching a run\<close>

text \<open>
  \<open>lower_bound\<close>, \<open>get\<close> and \<open>range\<close> of \<open>authority/index/run.rs\<close>. They read a run only through
  \<open>read_page\<close>; the locale \<open>page_store\<close> is what they rely on, and it is interpreted on \<open>read_page\<close>
  over every source that serves the bytes of a run image.
\<close>

subsection \<open>The operations\<close>

lemma mid_bounds:
  assumes "(lo :: u64) < hi"
  shows "unat (lo + (hi - lo) div 2) = unat lo + (unat hi - unat lo) div 2"
    "unat (lo + (hi - lo) div 2 + 1) = unat lo + (unat hi - unat lo) div 2 + 1"
    "unat lo \<le> unat (lo + (hi - lo) div 2)" "unat (lo + (hi - lo) div 2) < unat hi"
proof -
  have d: "unat ((hi - lo) div 2) = (unat hi - unat lo) div 2"
    using assms by (simp add: unat_div_distrib unat_sub)
  have lt: "unat lo < unat hi" using assms by (simp add: word_less_nat_alt)
  then have b: "unat lo + (unat hi - unat lo) div 2 < unat hi" by linarith
  then have "unat lo + unat ((hi - lo) div 2) < 2 ^ 64"
    using unat_word_less(3) [of hi] d by simp
  then show m: "unat (lo + (hi - lo) div 2) = unat lo + (unat hi - unat lo) div 2"
    using d by (simp add: unat_word_ariths)
  then show "unat lo \<le> unat (lo + (hi - lo) div 2)" "unat (lo + (hi - lo) div 2) < unat hi"
    using b by simp_all
  have "unat (lo + (hi - lo) div 2) + 1 < 2 ^ 64"
    using m b unat_word_less(3) [of hi] by simp
  then show "unat (lo + (hi - lo) div 2 + 1) = unat lo + (unat hi - unat lo) div 2 + 1"
    using m by (simp add: unat_word_ariths)
qed

function bsearch ::
  "(u64 \<Rightarrow> page outcome) \<Rightarrow> key \<Rightarrow> u64 \<Rightarrow> u64 \<Rightarrow> (u64 \<times> page) option \<Rightarrow>
    (u64 \<times> (u64 \<times> page) option) outcome" where
  "bsearch rp key lo hi cached =
    (if lo < hi then
       let mid = lo + (hi - lo) div 2 in
       result_bind (rp mid) (\<lambda>page.
       if page = [] then Inl (Err Corrupt)
       else if fst (last page) < key then bsearch rp key (mid + 1) hi cached
       else bsearch rp key lo mid (Some (mid, page)))
     else Inr (lo, cached))"
  by auto
termination
proof (relation "measure (\<lambda>(rp, key, lo, hi, cached). unat hi - unat lo)")
  show "wf (measure (\<lambda>(rp, key, lo, hi, cached). unat hi - unat lo))" by simp
next
  fix lo hi mid :: u64
  assume "lo < hi" "mid = lo + (hi - lo) div 2"
  then show "((rp, key, mid + 1, hi, cached), rp, key, lo, hi, cached)
      \<in> measure (\<lambda>(rp, key, lo, hi, cached). unat hi - unat lo)"
    for rp :: "u64 \<Rightarrow> page outcome" and key :: key and cached :: "(u64 \<times> page) option"
    using mid_bounds [of lo hi] by (simp add: word_less_nat_alt) linarith
next
  fix lo hi mid :: u64
  assume "lo < hi" "mid = lo + (hi - lo) div 2"
  then show "((rp, key, lo, mid, Some (mid, page)), rp, key, lo, hi, cached)
      \<in> measure (\<lambda>(rp, key, lo, hi, cached). unat hi - unat lo)"
    for rp :: "u64 \<Rightarrow> page outcome" and key :: key and cached :: "(u64 \<times> page) option" and page
    using mid_bounds [of lo hi] by simp
qed

declare bsearch.simps [simp del]

definition lower_bound ::
  "(u64 \<Rightarrow> page outcome) \<Rightarrow> u64 \<Rightarrow> key \<Rightarrow> (u64 \<times> page \<times> nat) option outcome" where
  "lower_bound rp pages key =
    result_bind (bsearch rp key 0 pages None) (\<lambda>(lo, cached).
    if lo = pages then Inr None
    else
      result_bind
        (case cached of
           Some (number, page) \<Rightarrow> if number = lo then Inr page else rp lo
         | None \<Rightarrow> rp lo)
        (\<lambda>page. Inr (Some (lo, page, length (takeWhile (\<lambda>e. fst e < key) page)))))"

definition run_get ::
  "(bytes \<Rightarrow> bytes) \<Rightarrow> source \<Rightarrow> run_header \<Rightarrow> key \<Rightarrow> bytes option outcome" where
  "run_get sha source h key =
    result_bind (lower_bound (read_page sha source h) (rh_pages h) key) (\<lambda>found.
    Inr (case found of
      None \<Rightarrow> None
    | Some (_, page, index) \<Rightarrow>
        if index < length page \<and> fst (page ! index) = key then Some (snd (page ! index)) else None))"

lemma u64_distance_Suc:
  "(n :: u64) + 1 \<noteq> pages \<Longrightarrow> unat (pages - (n + 1) - 1) < unat (pages - n - 1)"
proof -
  assume "n + 1 \<noteq> pages"
  then have "pages - n - 1 \<noteq> 0" by (metis add.commute diff_add_eq_diff_diff_swap eq_iff_diff_eq_0)
  then have "unat (pages - n - 1 - 1) < unat (pages - n - 1)"
    using unat_minus_one [of "pages - n - 1"] unat_eq_zero [of "pages - n - 1"]
    by (metis bot_nat_0.not_eq_extremum diff_less zero_less_one)
  then show ?thesis by (simp add: diff_diff_eq)
qed

function range_up ::
  "(u64 \<Rightarrow> page outcome) \<Rightarrow> u64 \<Rightarrow> key \<Rightarrow> nat \<Rightarrow> u64 \<Rightarrow> page \<Rightarrow> nat \<Rightarrow> page \<Rightarrow> page outcome" where
  "range_up rp pages hi limit number page index out =
    (if index < length page then
       let (key, value) = page ! index in
       if key \<ge> hi then Inr out
       else if out \<noteq> [] \<and> fst (last out) \<ge> key then Inl (Err Corrupt)
       else
         let out = out @ [(key, value)] in
         if length out = limit then Inr out
         else range_up rp pages hi limit number page (Suc index) out
     else
       let number = number + 1 in
       if number = pages then Inr out
       else result_bind (rp number) (\<lambda>page. range_up rp pages hi limit number page 0 out))"
  by auto
termination
  by (relation "measures [\<lambda>(rp, pages, hi, limit, number, page, index, out). unat (pages - number - 1),
        \<lambda>(rp, pages, hi, limit, number, page, index, out). length page - index]")
    (auto dest: u64_distance_Suc)

function range_down ::
  "(u64 \<Rightarrow> page outcome) \<Rightarrow> key \<Rightarrow> nat \<Rightarrow> u64 \<Rightarrow> page \<Rightarrow> nat \<Rightarrow> page \<Rightarrow> page outcome" where
  "range_down rp lo limit number page index out =
    (if index > 0 then
       let index = index - 1; (key, value) = page ! index in
       if key < lo then Inr out
       else if out \<noteq> [] \<and> fst (last out) \<le> key then Inl (Err Corrupt)
       else
         let out = out @ [(key, value)] in
         if length out = limit then Inr out
         else range_down rp lo limit number page index out
     else if number = 0 then Inr out
     else
       let number = number - 1 in
       result_bind (rp number) (\<lambda>page. range_down rp lo limit number page (length page) out))"
  by auto
termination
  by (relation "measures [\<lambda>(rp, lo, limit, number, page, index, out). unat number,
        \<lambda>(rp, lo, limit, number, page, index, out). index]")
    (auto simp: unat_minus_one unat_eq_zero unat_gt_0)

declare range_up.simps [simp del] range_down.simps [simp del]

definition run_range ::
  "(bytes \<Rightarrow> bytes) \<Rightarrow> source \<Rightarrow> run_header \<Rightarrow> key \<Rightarrow> key \<Rightarrow> bool \<Rightarrow> nat \<Rightarrow> page outcome" where
  "run_range sha source h lo hi descending limit =
    (let rp = read_page sha source h in
     if limit = 0 \<or> lo \<ge> hi then Inr []
     else if \<not> descending then
       result_bind (lower_bound rp (rh_pages h) lo) (\<lambda>found.
       case found of
         None \<Rightarrow> Inr []
       | Some (number, page, index) \<Rightarrow> range_up rp (rh_pages h) hi limit number page index [])
     else
       result_bind (lower_bound rp (rh_pages h) hi) (\<lambda>found.
       result_bind
         (case found of
            Some position \<Rightarrow> Inr position
          | None \<Rightarrow>
              let latest = rh_pages h - 1 in
              result_bind (rp latest) (\<lambda>page. Inr (latest, page, length page)))
         (\<lambda>(number, page, index). range_down rp lo limit number page index [])))"

subsection \<open>Ranks in ascending lists\<close>

definition rank :: "key \<Rightarrow> page \<Rightarrow> nat" where
  "rank key es = length (takeWhile (\<lambda>e. fst e < key) es)"

lemma rank_le: "rank key es \<le> length es"
  by (simp add: rank_def length_takeWhile_le)

lemma ascending_nth: "ascending es \<Longrightarrow> i < j \<Longrightarrow> j < length es \<Longrightarrow> fst (es ! i) < fst (es ! j)"
  by (simp add: ascending_def sorted_wrt_iff_nth_less)

lemma rank_less_iff:
  assumes "ascending es" "i < length es"
  shows "fst (es ! i) < key \<longleftrightarrow> i < rank key es"
proof
  show "i < rank key es \<Longrightarrow> fst (es ! i) < key"
    unfolding rank_def by (metis nth_mem set_takeWhileD takeWhile_nth)
  show "i < rank key es" if "fst (es ! i) < key"
  proof (rule ccontr)
    assume "\<not> i < rank key es"
    then have r: "rank key es \<le> i" "rank key es < length es" using assms(2) by simp_all
    then have "\<not> fst (es ! rank key es) < key"
      unfolding rank_def by (metis nth_length_takeWhile)
    moreover have "fst (es ! rank key es) \<le> fst (es ! i)"
      using ascending_nth [OF assms(1), of "rank key es" i] r assms(2)
      by (cases "rank key es = i") auto
    ultimately show False using that by simp
  qed
qed

lemma rank_eqI:
  assumes "ascending es" "n \<le> length es" "\<And>i. i < n \<Longrightarrow> fst (es ! i) < key"
    "n < length es \<Longrightarrow> key \<le> fst (es ! n)"
  shows "rank key es = n"
proof (rule antisym)
  show "rank key es \<le> n"
    using assms rank_less_iff [of es n key] rank_le [of key es] by (metis leD leI le_less_linear order_le_less)
  show "n \<le> rank key es"
    using assms rank_less_iff [of es _ key] by (metis leI less_le_trans nat_less_le)
qed

lemma ascending_drop: "ascending es \<Longrightarrow> ascending (drop n es)"
  by (metis append_take_drop_id ascending_appendD)

lemma ascending_take: "ascending es \<Longrightarrow> ascending (take n es)"
  by (metis append_take_drop_id ascending_appendD)

lemma ascending_page_of: "ascending es \<Longrightarrow> ascending (page_of es i)"
  by (simp add: page_of_def ascending_drop ascending_take)

lemma page_of_nth: "j < length (page_of es i) \<Longrightarrow> page_of es i ! j = es ! (31 * i + j)"
  by (auto simp: page_of_def intro!: nth_drop)

lemma pages_of_less_iff: "i < pages_of n \<longleftrightarrow> 31 * i < n"
  unfolding pages_of_def by (simp add: less_eq_div_iff_mult_less_eq mult.commute flip: Suc_le_eq)

text \<open>The first page whose last key is not below the given key.\<close>

definition target :: "key \<Rightarrow> page \<Rightarrow> nat" where
  "target key es = (if rank key es = length es then pages_of (length es) else rank key es div 31)"

lemma target_le: "target key es \<le> pages_of (length es)"
proof (cases "rank key es = length es")
  case False
  then have "31 * (rank key es div 31) < length es"
    using rank_le [of key es] mult_div_mod_eq [of 31 "rank key es"] by linarith
  then show ?thesis using False by (simp add: target_def less_imp_le pages_of_less_iff)
qed (simp add: target_def)

lemma page_last_less_iff:
  assumes asc: "ascending es" and i: "i < pages_of (length es)"
  shows "page_of es i \<noteq> []" "fst (last (page_of es i)) < key \<longleftrightarrow> i < target key es"
proof -
  let ?e = "min (31 * i + 31) (length es)"
  have li: "31 * i < length es" using i by (simp add: pages_of_less_iff)
  then show ne: "page_of es i \<noteq> []" by (simp add: page_of_def)
  have "last (page_of es i) = page_of es i ! (length (page_of es i) - 1)" using ne by (rule last_conv_nth)
  also have "\<dots> = es ! (?e - 1)"
    using li by (subst page_of_nth) (auto simp: min_def)
  finally have "fst (last (page_of es i)) < key \<longleftrightarrow> ?e - 1 < rank key es"
    using rank_less_iff [OF asc, of "?e - 1" key] li by simp
  also have "\<dots> \<longleftrightarrow> i < target key es"
  proof (cases "rank key es = length es")
    case True
    then show ?thesis using li i by (simp add: target_def)
  next
    case False
    then have r: "rank key es < length es" using rank_le [of key es] by simp
    then have "?e - 1 < rank key es \<longleftrightarrow> 31 * Suc i \<le> rank key es" using li by (auto simp: min_def)
    also have "\<dots> \<longleftrightarrow> Suc i \<le> rank key es div 31" by (simp add: less_eq_div_iff_mult_less_eq mult.commute)
    finally show ?thesis using False by (simp add: target_def Suc_le_eq)
  qed
  finally show "fst (last (page_of es i)) < key \<longleftrightarrow> i < target key es" .
qed

lemma rank_page_of:
  assumes "ascending es" "rank key es < length es"
  shows "rank key (page_of es (target key es)) = rank key es mod 31"
    "rank key es mod 31 < length (page_of es (target key es))"
proof -
  let ?r = "rank key es" let ?p = "page_of es (?r div 31)"
  have t: "target key es = ?r div 31" using assms by (simp add: target_def)
  have split: "31 * (?r div 31) + ?r mod 31 = ?r" by simp
  show lt: "?r mod 31 < length (page_of es (target key es))"
    using assms(2) split unfolding t length_page_of min_less_iff_conj
    by (metis add.commute less_diff_conv mod_less_divisor zero_less_numeral)
  have nth: "?p ! j = es ! (31 * (?r div 31) + j)" if "j < length ?p" for j
    using that by (rule page_of_nth)
  have "rank key ?p = ?r mod 31"
  proof (rule rank_eqI)
    show "fst (?p ! j) < key" if "j < ?r mod 31" for j
    proof -
      have "j < length ?p" using that lt t by simp
      moreover have "31 * (?r div 31) + j < ?r" using that split by linarith
      ultimately show ?thesis using nth rank_less_iff [OF assms(1)] assms(2) by simp
    qed
    show "key \<le> fst (?p ! (?r mod 31))" if "?r mod 31 < length ?p"
      using nth [OF that] rank_less_iff [OF assms(1,2), of key] by (simp add: not_less [symmetric])
  qed (use lt t ascending_page_of [OF assms(1)] in simp_all)
  then show "rank key (page_of es (target key es)) = ?r mod 31" by (simp add: t)
qed

subsection \<open>What the searches rely on\<close>

lemma of_nat_unat_u64: "of_nat (unat w) = (w :: u64)"
  by simp

lemma unat_Suc_less: "(n :: u64) < m \<Longrightarrow> unat (n + 1) = Suc (unat n)"
  using unat_word_less(3) [of m] by (simp add: word_less_nat_alt unat_word_ariths)

locale page_store =
  fixes rp :: "'f \<Rightarrow> u64 \<Rightarrow> page outcome"
    and pages :: "'f \<Rightarrow> u64"
    and holds :: "'f \<Rightarrow> page \<Rightarrow> bool"
  assumes pages_holds: "holds f es \<Longrightarrow> unat (pages f) = pages_of (length es)"
    and read_holds: "holds f es \<Longrightarrow> p < pages f \<Longrightarrow> rp f p = Inr (page_of es (unat p))"
    and ascending_holds: "holds f es \<Longrightarrow> ascending es"
begin

lemma bsearch_correct:
  assumes "holds f es" "unat lo \<le> target key es" "target key es \<le> unat hi" "hi \<le> pages f"
    "cached = (if hi = pages f then None else Some (hi, page_of es (unat hi)))"
  shows "bsearch (rp f) key lo hi cached =
    Inr (of_nat (target key es),
      if target key es = pages_of (length es) then None
      else Some (of_nat (target key es), page_of es (target key es)))"
  using assms(2-5)
proof (induction "rp f" key lo hi cached rule: bsearch.induct)
  case (1 key lo hi cached)
  note pages = pages_holds [OF assms(1)] and asc = ascending_holds [OF assms(1)]
  show ?case
  proof (cases "lo < hi")
    case True
    let ?mid = "lo + (hi - lo) div 2"
    note mid = mid_bounds [OF True]
    have "?mid < pages f"
      using mid(4) "1.prems"(3) by (metis order_less_le_trans word_less_nat_alt)
    then have le: "?mid \<le> pages f" and ne: "?mid \<noteq> pages f" by auto
    have rd: "rp f ?mid = Inr (page_of es (unat ?mid))" and m: "unat ?mid < pages_of (length es)"
      using \<open>?mid < pages f\<close> read_holds [OF assms(1)] pages by (simp_all add: word_less_nat_alt)
    note last = page_last_less_iff [OF asc m]
    show ?thesis
    proof (cases "unat ?mid < target key es")
      case below: True
      then have "bsearch (rp f) key lo hi cached = bsearch (rp f) key (?mid + 1) hi cached"
        using True rd last by (subst bsearch.simps) (simp add: Let_def)
      then show ?thesis
        using "1.hyps"(1) [OF True refl rd last(1)] below last(2) mid(1,2) "1.prems"
        by (simp split del: if_split)
    next
      case False
      then have "bsearch (rp f) key lo hi cached
          = bsearch (rp f) key lo ?mid (Some (?mid, page_of es (unat ?mid)))"
        using True rd last by (subst bsearch.simps) (simp add: Let_def)
      then show ?thesis
        using "1.hyps"(2) [OF True refl rd last(1)] False last(2) le ne "1.prems"(1)
        by (simp split del: if_split)
    qed
  next
    case False
    then have "unat lo = target key es" "unat hi = target key es"
      using "1.prems" by (simp_all add: word_less_nat_alt)
    moreover have "hi = pages f \<longleftrightarrow> unat hi = pages_of (length es)"
      using pages by (simp add: word_unat_eq_iff)
    moreover have "lo = of_nat (target key es)" "hi = of_nat (target key es)"
      using calculation by (metis of_nat_unat_u64)+
    ultimately show ?thesis using False "1.prems"(4) by (subst bsearch.simps) simp
  qed
qed

lemma lower_bound_correct:
  assumes "holds f es"
  shows "lower_bound (rp f) (pages f) key =
    Inr (if rank key es = length es then None
         else Some (of_nat (rank key es div 31), page_of es (rank key es div 31), rank key es mod 31))"
proof -
  note pages = pages_holds [OF assms] and asc = ascending_holds [OF assms]
  have search: "bsearch (rp f) key 0 (pages f) None =
    Inr (of_nat (target key es),
      if target key es = pages_of (length es) then None
      else Some (of_nat (target key es), page_of es (target key es)))"
    using bsearch_correct [OF assms, of 0 key "pages f" None] target_le pages by simp
  have eq: "of_nat (target key es) = pages f \<longleftrightarrow> target key es = pages_of (length es)"
    using pages target_le [of key es] unat_word_less(3) [of "pages f"]
    by (simp add: word_unat_eq_iff unat_of_nat_small)
  show ?thesis
  proof (cases "rank key es = length es")
    case True
    then show ?thesis using search eq by (simp add: lower_bound_def target_def)
  next
    case False
    then have lt: "rank key es < length es" using rank_le [of key es] by simp
    then have "31 * (rank key es div 31) < length es"
      using mult_div_mod_eq [of 31 "rank key es"] by linarith
    then have "target key es \<noteq> pages_of (length es)"
      using False pages_of_less_iff [of "rank key es div 31" "length es"] by (simp add: target_def)
    then show ?thesis
      using search eq False rank_page_of(1) [OF asc lt]
      by (simp add: lower_bound_def target_def rank_def)
  qed
qed

end

lemma map_of_ascending:
  assumes "ascending es"
  shows "map_of es key = (if rank key es < length es \<and> fst (es ! rank key es) = key
    then Some (snd (es ! rank key es)) else None)"
proof (cases "rank key es < length es \<and> fst (es ! rank key es) = key")
  case True
  have "distinct (map fst es)"
    using assms by (simp add: ascending_def strict_sorted_iff)
  moreover have "(key, snd (es ! rank key es)) \<in> set es"
    using True by (metis nth_mem prod.collapse)
  ultimately show ?thesis using True by simp
next
  case False
  have "key \<notin> fst ` set es"
  proof
    assume "key \<in> fst ` set es"
    then obtain i where i: "i < length es" "fst (es ! i) = key" by (auto simp: in_set_conv_nth)
    have "rank key es = i"
      using assms i by (intro rank_eqI) (auto dest: ascending_nth [of es _ i])
    then show False using False i by simp
  qed
  then show ?thesis using False by (auto simp: map_of_eq_None_iff)
qed

lemma nth_page_position:
  "q < length es \<Longrightarrow> q mod 31 < length (page_of es (q div 31)) \<and> page_of es (q div 31) ! (q mod 31) = es ! q"
proof -
  assume q: "q < length es"
  have "q mod 31 < length (page_of es (q div 31))"
    using q mult_div_mod_eq [of 31 q] mod_less_divisor [of 31 q] by (simp only: length_page_of)
  then show ?thesis using page_of_nth [of "q mod 31" es "q div 31"] by simp
qed

context page_store
begin

lemma range_up_correct:
  assumes "holds f es"
  shows "31 * unat number + index \<le> length es \<Longrightarrow> number < pages f \<Longrightarrow> page = page_of es (unat number) \<Longrightarrow>
    index \<le> length page \<Longrightarrow> length out < limit \<Longrightarrow>
    (out \<noteq> [] \<longrightarrow> (\<forall>e\<in>set (drop (31 * unat number + index) es). fst (last out) < fst e)) \<Longrightarrow>
    range_up (rp f) (pages f) hi limit number page index out =
    Inr (out @ take (limit - length out)
      (takeWhile (\<lambda>e. fst e < hi) (drop (31 * unat number + index) es)))"
proof (induction "rp f" "pages f" hi limit number page index out rule: range_up.induct)
  case (1 hi limit number page index out)
  note pages = pages_holds [OF assms] and asc = ascending_holds [OF assms]
  let ?q = "31 * unat number + index"
  show ?case
  proof (cases "index < length page")
    case True
    then have q: "?q < length es" using "1.prems"(3) by (auto simp: less_diff_conv add.commute)
    obtain k v where kv: "page ! index = (k, v)" by (cases "page ! index")
    have at: "es ! ?q = (k, v)" using True kv "1.prems"(3) page_of_nth by simp
    then have dr: "drop ?q es = (k, v) # drop (Suc ?q) es"
      using Cons_nth_drop_Suc [OF q] by simp
    have above: "\<forall>e\<in>set (drop (Suc ?q) es). k < fst e"
      using ascending_drop [OF asc, of ?q] dr by (auto simp: ascending_def)
    have guard: "\<not> (out \<noteq> [] \<and> k \<le> fst (last out))" using "1.prems"(6) dr by auto
    show ?thesis
    proof (cases "hi \<le> k")
      case True
      then show ?thesis using kv dr \<open>index < length page\<close>
        by (subst range_up.simps) (simp add: not_less [symmetric])
    next
      case False
      show ?thesis
      proof (cases "Suc (length out) = limit")
        case full: True
        then show ?thesis using kv dr guard False \<open>index < length page\<close>
          by (subst range_up.simps) (auto simp: Let_def)
      next
        case cont: False
        then have lim: "limit - length out = Suc (limit - length (out @ [(k, v)]))"
          using "1.prems"(5) by simp
        have "range_up (rp f) (pages f) hi limit number page index out =
            range_up (rp f) (pages f) hi limit number page (Suc index) (out @ [(k, v)])"
          using kv guard False cont \<open>index < length page\<close> by (subst range_up.simps) (auto simp: Let_def)
        also have "\<dots> = Inr ((out @ [(k, v)]) @ take (limit - length (out @ [(k, v)]))
            (takeWhile (\<lambda>e. fst e < hi) (drop (31 * unat number + Suc index) es)))"
          using "1.hyps"(1) [OF True kv [symmetric] refl] False guard cont "1.prems" q True above
          by (simp add: not_le)
        finally show ?thesis using dr lim False by (simp add: not_le)
      qed
    qed
  next
    case False
    then have idx: "index = length page" using "1.prems"(4) by simp
    have suc: "unat (number + 1) = Suc (unat number)"
      using "1.prems"(2) by (rule unat_Suc_less)
    show ?thesis
    proof (cases "number + 1 = pages f")
      case True
      then have "length es \<le> 31 * Suc (unat number)"
        using pages suc pages_of_less_iff [of "Suc (unat number)" "length es"] by simp
      then have "drop ?q es = []" using idx "1.prems"(3) by simp
      then show ?thesis using True idx by (subst range_up.simps) (simp add: Let_def)
    next
      case next_page: False
      then have lt: "number + 1 < pages f"
        using "1.prems"(2) suc by (simp add: word_less_nat_alt word_unat_eq_iff)
      then have "31 * Suc (unat number) < length es"
        using pages suc pages_of_less_iff [of "Suc (unat number)" "length es"]
        by (simp add: word_less_nat_alt)
      then have q: "?q = 31 * unat (number + 1) + 0" using idx "1.prems"(3) suc by simp
      have rd: "rp f (number + 1) = Inr (page_of es (unat (number + 1)))"
        using read_holds [OF assms lt] .
      have "range_up (rp f) (pages f) hi limit number page index out =
          range_up (rp f) (pages f) hi limit (number + 1) (page_of es (unat (number + 1))) 0 out"
        using False next_page rd by (subst range_up.simps) (simp add: Let_def)
      also have "\<dots> = Inr (out @ take (limit - length out)
          (takeWhile (\<lambda>e. fst e < hi) (drop (31 * unat (number + 1) + 0) es)))"
        using "1.prems" lt q by (intro "1.hyps"(2) [OF False refl next_page rd]) auto
      finally show ?thesis by (simp only: q)
    qed
  qed
qed

lemma range_down_correct:
  assumes "holds f es"
  shows "31 * unat number + index \<le> length es \<Longrightarrow> number < pages f \<Longrightarrow> page = page_of es (unat number) \<Longrightarrow>
    index \<le> length page \<Longrightarrow> length out < limit \<Longrightarrow>
    (out \<noteq> [] \<longrightarrow> (\<forall>e\<in>set (take (31 * unat number + index) es). fst e < fst (last out))) \<Longrightarrow>
    range_down (rp f) lo limit number page index out =
    Inr (out @ take (limit - length out)
      (takeWhile (\<lambda>e. lo \<le> fst e) (rev (take (31 * unat number + index) es))))"
proof (induction "rp f" lo limit number page index out rule: range_down.induct)
  case (1 lo limit number page index out)
  note pages = pages_holds [OF assms] and asc = ascending_holds [OF assms]
  let ?q = "31 * unat number + index"
  show ?case
  proof (cases "0 < index")
    case True
    let ?i = "index - 1" let ?p = "31 * unat number + (index - 1)"
    have i: "?i < length page" and p: "?p < length es" "?q = Suc ?p"
      using True "1.prems"(1,4) by simp_all
    obtain k v where kv: "page ! ?i = (k, v)" by (cases "page ! ?i")
    have at: "es ! ?p = (k, v)" using i kv "1.prems"(3) page_of_nth by simp
    then have tk: "take ?q es = take ?p es @ [(k, v)]"
      using take_Suc_conv_app_nth [OF p(1)] p(2) by (simp only:)
    have below: "\<forall>e\<in>set (take ?p es). fst e < k"
      using ascending_take [OF asc, of ?q] tk by (auto simp: ascending_def sorted_wrt_append)
    have guard: "\<not> (out \<noteq> [] \<and> fst (last out) \<le> k)" using "1.prems"(6) tk by auto
    show ?thesis
    proof (cases "k < lo")
      case True
      then show ?thesis using kv tk \<open>0 < index\<close>
        by (subst range_down.simps) (simp add: not_le)
    next
      case False
      show ?thesis
      proof (cases "Suc (length out) = limit")
        case full: True
        then show ?thesis using kv tk guard False \<open>0 < index\<close>
          by (subst range_down.simps) (auto simp: Let_def)
      next
        case cont: False
        then have lim: "limit - length out = Suc (limit - length (out @ [(k, v)]))"
          using "1.prems"(5) by simp
        have "range_down (rp f) lo limit number page index out =
            range_down (rp f) lo limit number page ?i (out @ [(k, v)])"
          using kv guard False cont \<open>0 < index\<close> by (subst range_down.simps) (auto simp: Let_def)
        also have "\<dots> = Inr ((out @ [(k, v)]) @ take (limit - length (out @ [(k, v)]))
            (takeWhile (\<lambda>e. lo \<le> fst e) (rev (take ?p es))))"
          using "1.hyps"(1) [OF True refl kv [symmetric] refl] False guard cont "1.prems"(2,3,5)
            less_imp_le [OF i] less_imp_le [OF p(1)] below
          by (simp add: not_le del: length_page_of)
        finally show ?thesis using tk lim False by (simp add: not_less)
      qed
    qed
  next
    case False
    then have idx: "index = 0" by simp
    show ?thesis
    proof (cases "number = 0")
      case True
      then show ?thesis using idx by (subst range_down.simps) simp
    next
      case prior: False
      then have pred: "Suc (unat (number - 1)) = unat number"
        by (simp add: unat_minus_one unat_eq_zero unat_gt_0)
      then have lt: "number - 1 < pages f" using "1.prems"(2) by (simp add: word_less_nat_alt)
      let ?page = "page_of es (unat (number - 1))"
      have "31 * unat number < length es"
        using "1.prems"(2) pages pages_of_less_iff [of "unat number" "length es"]
        by (simp add: word_less_nat_alt)
      then have len: "length ?page = 31" and q: "?q = 31 * unat (number - 1) + length ?page"
        using idx pred by simp_all
      have rd: "rp f (number - 1) = Inr ?page" using read_holds [OF assms lt] .
      have "range_down (rp f) lo limit number page index out =
          range_down (rp f) lo limit (number - 1) ?page (length ?page) out"
        using idx prior rd by (subst range_down.simps) (simp add: Let_def)
      also have "\<dots> = Inr (out @ take (limit - length out)
          (takeWhile (\<lambda>e. lo \<le> fst e) (rev (take (31 * unat (number - 1) + length ?page) es))))"
        using "1.prems" lt q by (intro "1.hyps"(2) [OF False prior refl rd]) auto
      finally show ?thesis by (simp only: q)
    qed
  qed
qed

end

subsection \<open>Reading the pages of a run image\<close>

definition serves_run :: "(bytes \<Rightarrow> bytes) \<Rightarrow> source \<Rightarrow> run_header \<Rightarrow> page \<Rightarrow> bool" where
  "serves_run sha src h es \<longleftrightarrow>
    (\<forall>x. length (sha x) = 32) \<and> run_fits h \<and> unat (rh_entries h) = length es \<and>
    ascending es \<and> (\<forall>e\<in>set es. wf_record e) \<and>
    (\<forall>off n. unat off + n \<le> length (run_image sha h es) \<longrightarrow>
      src off n = Inr (subrange (unat off) (unat off + n) (run_image sha h es)))"

lemma serves_run_memory:
  assumes "\<And>x. length (sha x) = 32" "run_fits h" "unat (rh_entries h) = length es"
    "ascending es" "\<forall>e\<in>set es. wf_record e"
  shows "serves_run sha (memory_source (run_image sha h es)) h es"
  using assms by (simp add: serves_run_def memory_source_def)

lemma page_count_eq:
  assumes "unat (rh_entries h) = n" "unat (rh_pages h) = pages_of n" "p < rh_pages h"
  shows "unat (page_count h p) = min 31 (n - 31 * unat p)"
proof -
  have p: "31 * unat p < n"
    using assms(2,3) pages_of_less_iff [of "unat p" n] by (simp add: word_less_nat_alt)
  have suc: "unat (p + 1) = Suc (unat p)" using assms(3) by (rule unat_Suc_less)
  show ?thesis
  proof (cases "p + 1 = rh_pages h")
    case True
    then have le: "n \<le> 31 * Suc (unat p)"
      using assms(2) suc pages_of_less_iff [of "Suc (unat p)" n] by simp
    have "p * 31 = of_nat (31 * unat p)" by simp
    moreover have "unat (of_nat (31 * unat p) :: u64) = 31 * unat p"
      using p assms(1) unat_word_less(3) [of "rh_entries h"] by (intro unat_of_nat_small) simp
    ultimately have m: "unat (p * 31) = 31 * unat p" by metis
    then have "unat (rh_entries h - p * 31) = n - 31 * unat p"
      using p assms(1) by (subst unat_sub) (simp_all add: word_le_nat_alt)
    then show ?thesis using True le by (simp add: page_count_def)
  next
    case False
    then have "Suc (unat p) < pages_of n"
      using suc assms(2,3) by (simp add: word_less_nat_alt word_unat_eq_iff)
    then have "31 * Suc (unat p) < n" by (simp only: pages_of_less_iff)
    then show ?thesis using False by (simp add: page_count_def)
  qed
qed

lemma pages_image_split:
  "i < n \<Longrightarrow> \<exists>rest. pages_image sha first es n =
    pages_image sha first es i @ page_image sha (page_of es i) (of_nat i) first @ rest"
proof (induction n)
  case (Suc n)
  then show ?case by (cases "i = n") (auto simp: pages_image_Suc)
qed simp

lemma source_page_serves:
  assumes "serves_run sha src h es" "p < rh_pages h"
  shows "src (64 + p * 4096) 4096 = Inr (page_image sha (page_of es (unat p)) p (rh_first h))"
    "decode_page sha (page_image sha (page_of es (unat p)) p (rh_first h)) h p = Inr (page_of es (unat p))"
proof -
  let ?i = "unat p" let ?img = "page_image sha (page_of es (unat p)) p (rh_first h)"
  have sha: "\<And>x. length (sha x) = 32" and fits: "run_fits h" and n: "unat (rh_entries h) = length es"
    and asc: "ascending es" and wf: "\<forall>e\<in>set es. wf_record e"
    and src: "\<And>off n. unat off + n \<le> length (run_image sha h es) \<Longrightarrow>
      src off n = Inr (subrange (unat off) (unat off + n) (run_image sha h es))"
    using assms(1) by (auto simp: serves_run_def)
  have pages: "unat (rh_pages h) = pages_of (length es)" using fits n by (simp add: run_fits_def)
  have i: "?i < pages_of (length es)" using assms(2) pages by (simp add: word_less_nat_alt)
  have wf': "\<forall>e\<in>set (page_of es ?i). wf_record e" by (rule page_of_wf [OF wf])
  obtain rest where rest: "pages_image sha (rh_first h) es (pages_of (length es)) =
      pages_image sha (rh_first h) es ?i @ ?img @ rest"
    using pages_image_split [OF i, of sha "rh_first h" es] by auto
  let ?pre = "run_header_encode h @ pages_image sha (rh_first h) es ?i"
  obtain tail where img: "run_image sha h es = ?pre @ ?img @ tail"
    by (simp add: run_image_def Let_def rest)
  have pre: "length ?pre = 64 + 4096 * ?i"
    using fits wf sha by (simp add: run_fits_def)
  have im: "length ?img = 4096" using wf' sha by simp
  have off: "unat (64 + p * 4096) = 64 + 4096 * ?i"
    using page_offset [of ?i] i fits n by (simp add: run_fits_def)
  have "src (64 + p * 4096) 4096 = Inr (subrange (length ?pre) (length ?pre + 4096) (run_image sha h es))"
    using src [of "64 + p * 4096" 4096] pre im off by (simp add: img)
  also have "\<dots> = Inr ?img"
    unfolding img subrange_append using im by simp
  finally show "src (64 + p * 4096) 4096 = Inr ?img" .
  show "decode_page sha ?img h p = Inr (page_of es ?i)"
    using decode_page_iff [of h p sha ?img "page_of es ?i"] sha wf' assms(2)
      ascending_page_of [OF asc] page_count_eq [OF n pages assms(2)] by simp
qed

lemma read_page_serves:
  assumes "serves_run sha src h es" "p < rh_pages h"
  shows "read_page sha src h p = Inr (page_of es (unat p))"
  using source_page_serves [OF assms] by (simp add: read_page_def)

interpretation run_pages: page_store "\<lambda>(src, h). read_page sha src h" "\<lambda>(src, h). rh_pages h"
  "\<lambda>(src, h) es. serves_run sha src h es" for sha
  by unfold_locales (auto simp: read_page_serves, auto simp: serves_run_def run_fits_def)

lemma run_get_correct:
  assumes "serves_run sha src h es"
  shows "run_get sha src h key = Inr (map_of es key)"
proof -
  have asc: "ascending es" using assms by (simp add: serves_run_def)
  have lb: "lower_bound (read_page sha src h) (rh_pages h) key =
    Inr (if rank key es = length es then None
         else Some (of_nat (rank key es div 31), page_of es (rank key es div 31), rank key es mod 31))"
    using run_pages.lower_bound_correct [of sha "(src, h)" es key] assms by simp
  show ?thesis
  proof (cases "rank key es = length es")
    case True
    then show ?thesis using lb map_of_ascending [OF asc] by (simp add: run_get_def)
  next
    case False
    then have "rank key es < length es" using rank_le [of key es] by simp
    then show ?thesis
      using False lb map_of_ascending [OF asc, of key] nth_page_position [of "rank key es" es]
      by (simp add: run_get_def)
  qed
qed

lemma drop_rank: "drop (rank key es) es = dropWhile (\<lambda>e. fst e < key) es"
  unfolding rank_def by (rule dropWhile_eq_drop [symmetric])

lemma take_rank: "take (rank key es) es = takeWhile (\<lambda>e. fst e < key) es"
  unfolding rank_def by (rule takeWhile_eq_take [symmetric])

lemma ascending_up:
  assumes "ascending es"
  shows "takeWhile (\<lambda>e. fst e < hi) (dropWhile (\<lambda>e. fst e < lo) es) =
    filter (\<lambda>e. lo \<le> fst e \<and> fst e < hi) es"
  using assms
proof (induction es)
  case (Cons e es)
  have asc: "ascending es" and above: "\<forall>x\<in>set es. fst e < fst x"
    using Cons.prems by (auto simp: ascending_def)
  show ?case
  proof (cases "fst e < lo")
    case True
    then show ?thesis using Cons.IH [OF asc] by (auto dest: leD)
  next
    case False
    then have "dropWhile (\<lambda>e. fst e < lo) es = es"
      using above by (cases es) (auto simp: not_less dest: order.strict_trans1)
    moreover have "\<not> fst e < hi \<Longrightarrow> filter (\<lambda>e. lo \<le> fst e \<and> fst e < hi) es = []"
      using above by (fastforce simp: filter_empty_conv)
    ultimately show ?thesis using False Cons.IH [OF asc] by (auto simp: not_less dest: leD)
  qed
qed simp

lemma takeWhile_rev_below:
  assumes "ascending es"
  shows "takeWhile (\<lambda>e. lo \<le> fst e) (rev es) = rev (filter (\<lambda>e. lo \<le> fst e) es)"
  using assms
proof (induction es rule: rev_induct)
  case (snoc e es)
  have asc: "ascending es" and below: "\<forall>x\<in>set es. fst x < fst e"
    using snoc.prems by (auto simp: ascending_def sorted_wrt_append)
  have "\<not> lo \<le> fst e \<Longrightarrow> filter (\<lambda>e. lo \<le> fst e) es = []"
    using below by (fastforce simp: filter_empty_conv)
  then show ?case using snoc.IH [OF asc] by simp
qed simp

lemma ascending_down:
  assumes "ascending es"
  shows "takeWhile (\<lambda>e. lo \<le> fst e) (rev (takeWhile (\<lambda>e. fst e < hi) es)) =
    rev (filter (\<lambda>e. lo \<le> fst e \<and> fst e < hi) es)"
proof -
  have "takeWhile (\<lambda>e. fst e < hi) es = filter (\<lambda>e. fst e < hi) es"
    using assms
  proof (induction es)
    case (Cons e es)
    then have "\<not> fst e < hi \<Longrightarrow> filter (\<lambda>e. fst e < hi) es = []"
      by (fastforce simp: ascending_def filter_empty_conv)
    then show ?case using Cons by (simp add: ascending_def)
  qed simp
  moreover have "ascending (takeWhile (\<lambda>e. fst e < hi) es)"
    using ascending_take [OF assms, of "rank hi es"] by (simp add: take_rank)
  ultimately show ?thesis using takeWhile_rev_below by (simp add: filter_filter conj_commute)
qed

lemma position_of_rank:
  assumes "serves_run sha src h es" "q \<le> length es" "q < length es \<or> q mod 31 \<noteq> 0"
  shows "of_nat (q div 31) < rh_pages h" "unat (of_nat (q div 31) :: u64) = q div 31"
    "31 * (q div 31) + q mod 31 = q" "q mod 31 \<le> length (page_of es (q div 31))"
proof -
  have q: "31 * (q div 31) < length es"
    using assms(2,3) mult_div_mod_eq [of 31 q] by linarith
  then have lt: "q div 31 < pages_of (length es)" by (simp add: pages_of_less_iff)
  have pages: "unat (rh_pages h) = pages_of (length es)"
    using run_pages.pages_holds [of sha "(src, h)" es] assms(1) by simp
  show u: "unat (of_nat (q div 31) :: u64) = q div 31"
    using lt pages unat_word_less(3) [of "rh_pages h"] by (intro unat_of_nat_small) simp
  then show "of_nat (q div 31) < rh_pages h" using lt pages by (simp add: word_less_nat_alt)
  show "31 * (q div 31) + q mod 31 = q" by simp
  show "q mod 31 \<le> length (page_of es (q div 31))"
    using assms(2) mult_div_mod_eq [of 31 q] mod_less_divisor [of 31 q]
    by (simp only: length_page_of min.bounded_iff) linarith
qed

lemma run_range_up_correct:
  assumes "serves_run sha src h es"
  shows "run_range sha src h lo hi False limit =
    Inr (take limit (filter (\<lambda>e. lo \<le> fst e \<and> fst e < hi) es))"
proof (cases "limit = 0 \<or> hi \<le> lo")
  case True
  then have "limit = 0 \<or> filter (\<lambda>e. lo \<le> fst e \<and> fst e < hi) es = []"
    by (force simp: filter_empty_conv)
  then show ?thesis using True by (auto simp: run_range_def Let_def)
next
  case False
  let ?q = "rank lo es"
  have asc: "ascending es" using assms by (simp add: serves_run_def)
  have lb: "lower_bound (read_page sha src h) (rh_pages h) lo =
    Inr (if ?q = length es then None else Some (of_nat (?q div 31), page_of es (?q div 31), ?q mod 31))"
    using run_pages.lower_bound_correct [of sha "(src, h)" es lo] assms by simp
  have goal: "filter (\<lambda>e. lo \<le> fst e \<and> fst e < hi) es = takeWhile (\<lambda>e. fst e < hi) (drop ?q es)"
    by (simp add: drop_rank ascending_up [OF asc])
  show ?thesis
  proof (cases "?q = length es")
    case True
    then show ?thesis using False lb goal by (simp add: run_range_def Let_def)
  next
    case below: False
    then have q: "?q < length es" using rank_le [of lo es] by simp
    note pos = position_of_rank [OF assms less_imp_le [OF q] disjI1 [OF q]]
    have "range_up (read_page sha src h) (rh_pages h) hi limit (of_nat (?q div 31))
        (page_of es (?q div 31)) (?q mod 31) [] =
      Inr ([] @ take (limit - length []) (takeWhile (\<lambda>e. fst e < hi)
        (drop (31 * unat (of_nat (?q div 31) :: u64) + ?q mod 31) es)))"
      using run_pages.range_up_correct [of sha "(src, h)" es "of_nat (?q div 31)" "?q mod 31"] assms pos False q
      by (simp del: length_page_of)
    then show ?thesis using False below lb goal pos by (simp add: run_range_def Let_def)
  qed
qed

lemma run_range_down_correct:
  assumes "serves_run sha src h es" "es \<noteq> []"
  shows "run_range sha src h lo hi True limit =
    Inr (take limit (rev (filter (\<lambda>e. lo \<le> fst e \<and> fst e < hi) es)))"
proof (cases "limit = 0 \<or> hi \<le> lo")
  case True
  then have "limit = 0 \<or> filter (\<lambda>e. lo \<le> fst e \<and> fst e < hi) es = []"
    by (force simp: filter_empty_conv)
  then show ?thesis using True by (auto simp: run_range_def Let_def)
next
  case False
  let ?rp = "read_page sha src h" let ?q = "rank hi es"
  have asc: "ascending es" using assms by (simp add: serves_run_def)
  have pages: "unat (rh_pages h) = pages_of (length es)"
    using run_pages.pages_holds [of sha "(src, h)" es] assms(1) by simp
  have lb: "lower_bound ?rp (rh_pages h) hi =
    Inr (if ?q = length es then None else Some (of_nat (?q div 31), page_of es (?q div 31), ?q mod 31))"
    using run_pages.lower_bound_correct [of sha "(src, h)" es hi] assms by simp
  have goal: "rev (filter (\<lambda>e. lo \<le> fst e \<and> fst e < hi) es) =
      takeWhile (\<lambda>e. lo \<le> fst e) (rev (take ?q es))"
    by (simp add: take_rank ascending_down [OF asc])
  have walk: "range_down ?rp lo limit number (page_of es (unat number)) index [] =
      Inr (take limit (takeWhile (\<lambda>e. lo \<le> fst e) (rev (take ?q es))))"
    if "31 * unat number + index = ?q" "number < rh_pages h" "index \<le> length (page_of es (unat number))"
    for number index
    using run_pages.range_down_correct [of sha "(src, h)" es number index "page_of es (unat number)" "[]" limit lo]
      assms(1) that False rank_le [of hi es] by (simp del: length_page_of)
  show ?thesis
  proof (cases "?q = length es")
    case True
    let ?n = "rh_pages h - 1"
    have pos: "pages_of (length es) \<noteq> 0" using assms(2) pages_of_less_iff [of 0 "length es"] by simp
    then have nz: "rh_pages h \<noteq> 0" using pages by auto
    have n: "Suc (unat ?n) = pages_of (length es)" "?n < rh_pages h"
      using pages pos unat_minus_one [OF nz] by (simp_all add: word_less_nat_alt)
    then have rd: "?rp ?n = Inr (page_of es (unat ?n))"
      using read_page_serves [OF assms(1)] by simp
    have "31 * unat ?n < length es" "\<not> 31 * Suc (unat ?n) < length es"
      using n pages_of_less_iff [of "unat ?n" "length es"] pages_of_less_iff [of "Suc (unat ?n)" "length es"]
      by simp_all
    then have "31 * unat ?n + length (page_of es (unat ?n)) = ?q" using True by simp
    note last = walk [OF this n(2) order_refl]
    show ?thesis
      using False True lb goal rd last by (simp add: run_range_def Let_def del: length_page_of)
  next
    case below: False
    then have q: "?q < length es" using rank_le [of hi es] by simp
    note pos = position_of_rank [OF assms(1) less_imp_le [OF q] disjI1 [OF q]]
    show ?thesis
      using False below lb goal pos walk [of "of_nat (?q div 31)" "?q mod 31"]
      by (simp add: run_range_def Let_def del: length_page_of)
  qed
qed

subsection \<open>What a written run promises\<close>

lemma wf_run_header_new:
  assumes "is_id i" "f \<noteq> 0" "f \<le> la" "es \<noteq> []" "length es < 2 ^ 64"
  shows "wf_run_header (run_header_new l i f la (of_nat (length es)))"
proof -
  have "(of_nat (length es) :: u64) \<noteq> 0" using assms(4,5) by (simp add: word_unat_eq_iff)
  then show ?thesis using assms by (simp add: wf_run_header_def u64_div_ceil_31)
qed

lemma encode_run_served:
  assumes sha: "\<forall>x. length (sha x) = 32" and i: "is_id i" and f: "f \<noteq> 0" "f \<le> la"
    and es: "es \<noteq> []" "ascending es" "\<forall>e\<in>set es. wf_record e"
    and fits: "104 + 4096 * pages_of (length es) < 2 ^ 64"
  obtains bytes where
    "encode_run sha l i f la es = Inr (bytes, run_digest sha (run_header_new l i f la (of_nat (length es))) es)"
    "run_header_read (memory_source bytes) = Inr (run_header_new l i f la (of_nat (length es)))"
    "serves_run sha (memory_source bytes) (run_header_new l i f la (of_nat (length es))) es"
proof -
  let ?h = "run_header_new l i f la (of_nat (length es))"
  note fit = run_fits_new [OF i fits]
  have enc: "encode_run sha l i f la es = Inr (run_image sha ?h es, run_digest sha ?h es)"
    using encode_run_eq [OF _ i fits es(3) refl] sha es(2) by simp
  have len: "length (run_header_encode ?h) = 64" using i by simp
  then have "memory_source (run_image sha ?h es) 0 64 = Inr (run_header_encode ?h)"
    by (simp add: memory_source_def run_image_def Let_def subrange_def)
  moreover have "run_header_decode (run_header_encode ?h) = Inr ?h"
    using wf_run_header_new [OF i f es(1) fit(2)] by (simp add: run_header_decode_iff)
  ultimately have hd: "run_header_read (memory_source (run_image sha ?h es)) = Inr ?h"
    by (simp add: run_header_read_def)
  have "serves_run sha (memory_source (run_image sha ?h es)) ?h es"
    using serves_run_memory [OF _ fit(1) _ es(2,3)] sha fit(2) by simp
  with enc hd show ?thesis by (rule that)
qed

text \<open>C7: Looking a key up in a run that was written from a sorted list is a map lookup in that list.
  For every non-empty, strictly ascending list of entries that fits a file, \<open>encode_run\<close> succeeds, the
  header reads back, and \<open>get\<close> (binary search over checksummed pages) returns exactly the value of the
  key in the list, or nothing when the list has no such key.\<close>

theorem run_get_is_map_of:
  assumes "\<forall>x. length (sha x) = 32" "is_id i" "f \<noteq> 0" "f \<le> la"
    and "es \<noteq> []" "ascending es" "\<forall>e\<in>set es. wf_record e"
    and "104 + 4096 * pages_of (length es) < 2 ^ 64"
  shows "\<exists>bytes digest h. encode_run sha l i f la es = Inr (bytes, digest) \<and>
    run_header_read (memory_source bytes) = Inr h \<and>
    (\<forall>key. run_get sha (memory_source bytes) h key = Inr (map_of es key))"
proof -
  obtain bytes where "encode_run sha l i f la es =
      Inr (bytes, run_digest sha (run_header_new l i f la (of_nat (length es))) es)"
    "run_header_read (memory_source bytes) = Inr (run_header_new l i f la (of_nat (length es)))"
    and served: "serves_run sha (memory_source bytes) (run_header_new l i f la (of_nat (length es))) es"
    by (rule encode_run_served [OF assms])
  then show ?thesis using run_get_correct [OF served] by blast
qed

theorem run_get_is_map_of_witness:
  "\<exists>bytes digest h.
    encode_run (\<lambda>_. replicate 32 0) 0 (replicate 16 1) 1 9
      [(Key TagCall (replicate 16 2) 1, replicate 96 3), (Key TagCall (replicate 16 2) 2, replicate 96 4)]
      = Inr (bytes, digest) \<and>
    run_header_read (memory_source bytes) = Inr h \<and>
    (\<forall>key. run_get (\<lambda>_. replicate 32 0) (memory_source bytes) h key = Inr (map_of
      [(Key TagCall (replicate 16 2) 1, replicate 96 3), (Key TagCall (replicate 16 2) 2, replicate 96 4)] key))"
  by (rule run_get_is_map_of)
    (simp_all add: ascending_def less_key_def wf_record_def wf_key_def pages_of_def)

text \<open>C9: A range read of a written run is the sorted slice of the list it was written from: the
  entries with \<open>lo <= key < hi\<close>, ascending or descending, cut to the limit.\<close>

theorem run_range_is_slice:
  assumes "\<forall>x. length (sha x) = 32" "is_id i" "f \<noteq> 0" "f \<le> la"
    and "es \<noteq> []" "ascending es" "\<forall>e\<in>set es. wf_record e"
    and "104 + 4096 * pages_of (length es) < 2 ^ 64"
  shows "\<exists>bytes digest h. encode_run sha l i f la es = Inr (bytes, digest) \<and>
    run_header_read (memory_source bytes) = Inr h \<and>
    (\<forall>lo hi limit. run_range sha (memory_source bytes) h lo hi False limit =
        Inr (take limit (filter (\<lambda>e. lo \<le> fst e \<and> fst e < hi) es)) \<and>
      run_range sha (memory_source bytes) h lo hi True limit =
        Inr (take limit (rev (filter (\<lambda>e. lo \<le> fst e \<and> fst e < hi) es))))"
proof -
  obtain bytes where "encode_run sha l i f la es =
      Inr (bytes, run_digest sha (run_header_new l i f la (of_nat (length es))) es)"
    "run_header_read (memory_source bytes) = Inr (run_header_new l i f la (of_nat (length es)))"
    and served: "serves_run sha (memory_source bytes) (run_header_new l i f la (of_nat (length es))) es"
    by (rule encode_run_served [OF assms])
  then show ?thesis
    using run_range_up_correct [OF served] run_range_down_correct [OF served assms(5)] by blast
qed

theorem run_range_is_slice_witness:
  "\<exists>bytes digest h.
    encode_run (\<lambda>_. replicate 32 0) 0 (replicate 16 1) 1 9
      [(Key TagCall (replicate 16 2) 1, replicate 96 3)] = Inr (bytes, digest) \<and>
    run_header_read (memory_source bytes) = Inr h \<and>
    (\<forall>lo hi limit. run_range (\<lambda>_. replicate 32 0) (memory_source bytes) h lo hi False limit =
        Inr (take limit (filter (\<lambda>e. lo \<le> fst e \<and> fst e < hi)
          [(Key TagCall (replicate 16 2) 1, replicate 96 3)])) \<and>
      run_range (\<lambda>_. replicate 32 0) (memory_source bytes) h lo hi True limit =
        Inr (take limit (rev (filter (\<lambda>e. lo \<le> fst e \<and> fst e < hi)
          [(Key TagCall (replicate 16 2) 1, replicate 96 3)]))))"
  by (rule run_range_is_slice)
    (simp_all add: ascending_def less_key_def wf_record_def wf_key_def pages_of_def)

lemma page_count_bound:
  assumes "wf_run_header h" "page < rh_pages h"
  shows "unat (page_count h page) \<le> 31"
proof -
  have "pages_of (unat (rh_entries h)) < 2 ^ 64"
    using unat_word_less(3) [of "rh_entries h"] by (simp add: pages_of_def)
  then have "unat (rh_pages h) = pages_of (unat (rh_entries h))"
    using assms(1) by (simp add: wf_run_header_def u64_div_ceil_31)
  then show ?thesis using page_count_eq [OF refl _ assms(2)] by simp
qed

lemma decode_page_no_panic:
  assumes "wf_run_header h"
  shows "decode_page sha bs h page \<noteq> Inl Panic"
proof (cases "page < rh_pages h")
  case True
  let ?count = "u16_of_be (subrange 3968 3970 bs)"
  have "unat ?count * 128 \<le> 3968" if "ucast ?count = page_count h page"
    using arg_cong [OF that, of unat] page_count_bound [OF assms True] by (simp add: unat_ucast_u64)
  then show ?thesis
    by (auto simp: decode_page_def Let_def page_count_def not_le split: if_splits)
qed (simp add: decode_page_def not_less)

text \<open>C28: A page is accepted only when it is, byte for byte, the page its entries encode to: the page
  number is in range, the count is the one the header implies, the keys ascend strictly, and the
  digest, the fill bytes and the padding are the expected ones. Given a header as \<open>decode\<close> returns it,
  reading never panics on any 4,096 bytes.\<close>

theorem decode_page_exact:
  assumes "\<forall>x. length (sha x) = 32" "wf_run_header h"
  shows "(decode_page sha bs h page = Inr es \<longleftrightarrow>
      page < rh_pages h \<and> length es = unat (page_count h page) \<and> (\<forall>e\<in>set es. wf_record e) \<and>
      ascending es \<and> bs = page_image sha es page (rh_first h)) \<and>
    decode_page sha bs h page \<noteq> Inl Panic"
proof (cases "page < rh_pages h")
  case True
  then show ?thesis
    using decode_page_iff [OF page_count_bound [OF assms(2) True]] assms(1)
      decode_page_no_panic [OF assms(2)] by blast
next
  case False
  then show ?thesis using decode_page_no_panic [OF assms(2)] by (simp add: decode_page_def not_less)
qed

theorem decode_page_exact_witness:
  "(decode_page (\<lambda>_. replicate 32 0) (page_image (\<lambda>_. replicate 32 0)
      [(Key TagCall (replicate 16 2) 1, replicate 96 3)] 0 1)
      (run_header_new 0 (replicate 16 1) 1 9 1) 0 = Inr [(Key TagCall (replicate 16 2) 1, replicate 96 3)])"
proof -
  have h: "wf_run_header (run_header_new 0 (replicate 16 1) 1 9 1)"
    by (simp add: wf_run_header_def run_header_new_def)
  have "page_count (run_header_new 0 (replicate 16 1) 1 9 1) 0 = 1"
    by (simp add: page_count_def pages_of_def)
  then show ?thesis
    using decode_page_exact [of "\<lambda>_. replicate 32 0" "run_header_new 0 (replicate 16 1) 1 9 1"
        "page_image (\<lambda>_. replicate 32 0) [(Key TagCall (replicate 16 2) 1, replicate 96 3)] 0 1" 0
        "[(Key TagCall (replicate 16 2) 1, replicate 96 3)]"] h
    by (simp add: pages_of_def wf_record_def wf_key_def ascending_def)
qed

text \<open>C34: \<open>encode_run\<close> refuses an unsorted or repeated key: when the entries are not strictly
  ascending the result is \<open>Corrupt\<close>, never a file.\<close>

theorem encode_run_refuses_unsorted:
  assumes "\<forall>x. length (sha x) = 32" "is_id i" "\<forall>e\<in>set es. wf_record e"
    and "104 + 4096 * pages_of (length es) < 2 ^ 64" "\<not> ascending es"
  shows "encode_run sha l i f la es = Inl (Err Corrupt)"
  using encode_run_eq [OF _ assms(2,4,3) refl, of sha] assms(1,5) by simp

theorem encode_run_refuses_unsorted_witness:
  "encode_run (\<lambda>_. replicate 32 0) 0 (replicate 16 1) 1 9
    [(Key TagCall (replicate 16 2) 1, replicate 96 3), (Key TagCall (replicate 16 2) 1, replicate 96 4)]
    = Inl (Err Corrupt)"
  by (rule encode_run_refuses_unsorted)
    (simp_all add: ascending_def less_key_def wf_record_def wf_key_def pages_of_def)

end
