(* ===== verification/RunMerge.thy ===== *)
theory RunMerge
  imports RunSearch "HOL-Library.Multiset"
begin

section \<open>Merging runs\<close>

text \<open>
  \<open>MergeInput\<close> and \<open>Merge\<close> of \<open>authority/index/run.rs\<close>: several runs are read page by page, every page
  digest and each whole-file digest is checked, and the smallest remaining entry is pushed to the
  writer until the inputs are exhausted. \<open>srcs i\<close> is the read side of \<open>MergeIo\<close> for input \<open>i\<close>.
\<close>

subsection \<open>The operations\<close>

definition trailer :: "source \<Rightarrow> run_header \<Rightarrow> bytes result" where
  "trailer source h =
    result_bind (source (file_bytes h - 40) 40) (\<lambda>bytes.
    if drop 32 bytes \<noteq> run_COMMIT then Inl Corrupt else Inr (take 32 bytes))"

record merge_input =
  mi_header :: run_header
  mi_expected_digest :: bytes
  mi_digest :: bytes
  mi_next_page :: u64
  mi_page :: page
  mi_index :: nat
  mi_done :: bool

definition merge_input_new :: "run_header \<Rightarrow> bytes \<Rightarrow> merge_input" where
  "merge_input_new header expected_digest =
    \<lparr>mi_header = header, mi_expected_digest = expected_digest, mi_digest = run_header_encode header,
     mi_next_page = 0, mi_page = [], mi_index = 0, mi_done = False\<rparr>"

definition page_entry :: "page \<Rightarrow> nat \<Rightarrow> (key \<times> bytes) outcome" where
  "page_entry page index = (if index < length page then Inr (page ! index) else Inl Panic)"

definition merge_peek ::
  "(bytes \<Rightarrow> bytes) \<Rightarrow> source \<Rightarrow> merge_input \<Rightarrow> ((key \<times> bytes) option \<times> merge_input) outcome" where
  "merge_peek sha source mi =
    (let h = mi_header mi in
     if mi_done mi then Inr (None, mi)
     else if mi_index mi = length (mi_page mi) then
       if mi_next_page mi = rh_pages h then
         result_bind (lift_result (trailer source h)) (\<lambda>recorded.
         let actual = sha (mi_digest mi) in
         if recorded \<noteq> actual \<or> actual \<noteq> mi_expected_digest mi then Inl (Err Corrupt)
         else Inr (None, mi\<lparr>mi_digest := [], mi_done := True\<rparr>))
       else
         result_bind (lift_result (source (64 + mi_next_page mi * 4096) 4096)) (\<lambda>bytes.
         result_bind (decode_page sha bytes h (mi_next_page mi)) (\<lambda>page.
         if mi_page mi \<noteq> [] \<and> page \<noteq> [] \<and> fst (last (mi_page mi)) \<ge> fst (hd page)
         then Inl (Err Corrupt)
         else
           let mi = mi\<lparr>mi_digest := mi_digest mi @ bytes, mi_page := page, mi_index := 0,
                       mi_next_page := mi_next_page mi + 1\<rparr> in
           result_bind (page_entry (mi_page mi) (mi_index mi)) (\<lambda>e. Inr (Some e, mi))))
     else result_bind (page_entry (mi_page mi) (mi_index mi)) (\<lambda>e. Inr (Some e, mi)))"

record merge =
  mg_inputs :: "merge_input list"
  mg_writer :: "run_writer option"

definition merge_new ::
  "merge_input list \<Rightarrow> u8 \<Rightarrow> id16 \<Rightarrow> bytes \<Rightarrow> (merge \<times> bytes) outcome" where
  "merge_new inputs level installation_id sink =
    (if inputs = [] then Inl (Err Corrupt)
     else
       let first = Min (set (map (\<lambda>i. rh_first (mi_header i)) inputs));
           latest = Max (set (map (\<lambda>i. rh_last (mi_header i)) inputs));
           entries = sum_list (map (\<lambda>i. rh_entries (mi_header i)) inputs);
           header = run_header_new level installation_id first latest entries in
       result_bind (run_writer_new header sink) (\<lambda>(w, sink).
       Inr (\<lparr>mg_inputs = inputs, mg_writer = Some w\<rparr>, sink)))"

type_synonym best = "(nat \<times> key \<times> bytes) option"

definition merge_better :: "nat \<Rightarrow> (key \<times> bytes) option \<Rightarrow> best \<Rightarrow> best outcome" where
  "merge_better index entry best =
    (case entry of
       None \<Rightarrow> Inr best
     | Some (key, value) \<Rightarrow>
         (case best of
            Some (_, current, _) \<Rightarrow>
              if current = key then Inl (Err Corrupt)
              else if current < key then Inr best
              else Inr (Some (index, key, value))
          | None \<Rightarrow> Inr (Some (index, key, value))))"

fun merge_pick ::
  "(bytes \<Rightarrow> bytes) \<Rightarrow> (nat \<Rightarrow> source) \<Rightarrow> nat \<Rightarrow> merge_input list \<Rightarrow> best \<Rightarrow>
    (best \<times> merge_input list) outcome" where
  "merge_pick sha srcs index [] best = Inr (best, [])"
| "merge_pick sha srcs index (mi # rest) best =
    result_bind (merge_peek sha (srcs index) mi) (\<lambda>(entry, mi).
    result_bind (merge_better index entry best) (\<lambda>best.
    result_bind (merge_pick sha srcs (Suc index) rest best) (\<lambda>(best, rest).
    Inr (best, mi # rest))))"

definition merge_advance :: "nat \<Rightarrow> merge_input list \<Rightarrow> merge_input list" where
  "merge_advance i inputs = inputs[i := (inputs ! i)\<lparr>mi_index := Suc (mi_index (inputs ! i))\<rparr>]"

text \<open>Every push uses one of the entries the output header announces.\<close>

definition written :: "run_writer \<Rightarrow> u64" where
  "written w = rw_written_entries w + of_nat (length (rw_page w))"

lemma flush_written:
  "run_writer_flush sha w sink = Inr (w', sink') \<Longrightarrow> rw_header w' = rw_header w \<and> written w' = written w"
  by (auto simp: run_writer_flush_def result_bind_eq_Inr written_def)

lemma push_written:
  assumes "run_writer_push sha k v w sink = Inr (w', sink')"
  shows "rw_header w' = rw_header w" "written w < rh_entries (rw_header w)" "written w' = written w + 1"
proof -
  let ?w = "w\<lparr>rw_last := Some k, rw_page := rw_page w @ [(k, v)]\<rparr>"
  have lt: "written w < rh_entries (rw_header w)" and
    "run_writer_flush sha ?w sink = Inr (w', sink') \<or> w' = ?w"
    using assms by (auto simp: run_writer_push_def written_def Let_def split: if_splits option.splits)
  then have "rw_header w' = rw_header ?w \<and> written w' = written ?w"
    using flush_written [of sha ?w sink w' sink'] by auto
  then show "rw_header w' = rw_header w" "written w' = written w + 1" "written w < rh_entries (rw_header w)"
    using lt by (simp_all add: written_def)
qed

lemma push_measure:
  assumes "run_writer_push sha k v w sink = Inr (w', sink')"
  shows "unat (rh_entries (rw_header w') - written w') < unat (rh_entries (rw_header w) - written w)"
proof -
  note p = push_written [OF assms]
  have "rh_entries (rw_header w) - written w \<noteq> 0" using p(2) by auto
  then show ?thesis
    using p(1,3) unat_minus_one [of "rh_entries (rw_header w) - written w"]
      unat_eq_zero [of "rh_entries (rw_header w) - written w"]
    by (simp add: diff_diff_eq)
qed

function merge_loop ::
  "(bytes \<Rightarrow> bytes) \<Rightarrow> (nat \<Rightarrow> source) \<Rightarrow> u64 \<Rightarrow> merge_input list \<Rightarrow> run_writer \<Rightarrow> bytes \<Rightarrow>
    (bytes option \<times> merge \<times> bytes) outcome" where
  "merge_loop sha srcs stop inputs w sink =
    (if rw_written_pages w < stop then
       result_bind (merge_pick sha srcs 0 inputs None) (\<lambda>(best, inputs).
       case best of
         None \<Rightarrow>
           result_bind (run_writer_finish sha w sink) (\<lambda>(digest, sink).
           Inr (Some digest, \<lparr>mg_inputs = inputs, mg_writer = None\<rparr>, sink))
       | Some (index, key, value) \<Rightarrow>
           result_bind (run_writer_push sha key value w sink) (\<lambda>(w, sink).
           merge_loop sha srcs stop (merge_advance index inputs) w sink))
     else Inr (None, \<lparr>mg_inputs = inputs, mg_writer = Some w\<rparr>, sink))"
  by auto
termination
  by (relation "measure (\<lambda>(sha, srcs, stop, inputs, w, sink). unat (rh_entries (rw_header w) - written w))")
    (auto dest!: push_measure)

declare merge_loop.simps [simp del]

definition merge_step ::
  "(bytes \<Rightarrow> bytes) \<Rightarrow> (nat \<Rightarrow> source) \<Rightarrow> u64 \<Rightarrow> merge \<Rightarrow> bytes \<Rightarrow>
    (bytes option \<times> merge \<times> bytes) outcome" where
  "merge_step sha srcs pages m sink =
    (case mg_writer m of
       None \<Rightarrow> Inl (Err Corrupt)
     | Some w \<Rightarrow> merge_loop sha srcs (rw_written_pages w + pages) (mg_inputs m) w sink)"

subsection \<open>One input\<close>

text \<open>\<open>reading_at sha src mi es q\<close>: the input reads a source that serves the run of \<open>es\<close> and has
  consumed its first \<open>q\<close> entries.\<close>

definition reading_at ::
  "(bytes \<Rightarrow> bytes) \<Rightarrow> source \<Rightarrow> merge_input \<Rightarrow> page \<Rightarrow> nat \<Rightarrow> bool" where
  "reading_at sha src mi es q \<longleftrightarrow>
    (let h = mi_header mi in
     serves_run sha src h es \<and> mi_expected_digest mi = run_digest sha h es \<and> q \<le> length es \<and>
     (if mi_done mi then q = length es
      else \<exists>n. mi_next_page mi = of_nat n \<and> n \<le> pages_of (length es) \<and>
        mi_digest mi = run_header_encode h @ pages_image sha (rh_first h) es n \<and>
        (if n = 0 then mi_page mi = [] \<and> mi_index mi = 0 \<and> q = 0
         else mi_page mi = page_of es (n - 1) \<and> mi_index mi \<le> length (mi_page mi) \<and>
           q = 31 * (n - 1) + mi_index mi)))"

definition bump :: "merge_input \<Rightarrow> merge_input" where
  "bump mi = mi\<lparr>mi_index := Suc (mi_index mi)\<rparr>"

lemma trailer_serves:
  assumes "serves_run sha src h es"
  shows "trailer src h = Inr (run_digest sha h es)"
proof -
  let ?body = "run_header_encode h @ pages_image sha (rh_first h) es (pages_of (length es))"
  have sha: "\<And>x. length (sha x) = 32" and fits: "run_fits h" and n: "unat (rh_entries h) = length es"
    and wf: "\<forall>e\<in>set es. wf_record e"
    and src: "\<And>off n. unat off + n \<le> length (run_image sha h es) \<Longrightarrow>
      src off n = Inr (subrange (unat off) (unat off + n) (run_image sha h es))"
    using assms by (auto simp: serves_run_def)
  have img: "run_image sha h es = ?body @ run_digest sha h es @ run_COMMIT"
    by (simp add: run_image_def run_digest_def Let_def)
  have body: "length ?body = 64 + 4096 * pages_of (length es)"
    using sha fits wf by (simp add: run_fits_def)
  have d: "length (run_digest sha h es) = 32" using sha by (simp add: run_digest_def)
  have c: "length run_COMMIT = 8" by (simp add: run_COMMIT_def)
  have fit: "64 + 4096 * pages_of (length es) < 2 ^ 64" using fits n by (simp add: run_fits_def)
  have "file_bytes h - 40 = 64 + of_nat (pages_of (length es)) * 4096"
    using fits n by (simp add: file_bytes_def run_fits_def)
  then have "unat (file_bytes h - 40) = length ?body"
    using page_offset [OF fit] body by metis
  then have "src (file_bytes h - 40) 40 = Inr (subrange (length ?body) (length ?body + 40) (run_image sha h es))"
    using src [of "file_bytes h - 40" 40] d c by (simp add: img)
  also have "\<dots> = Inr (run_digest sha h es @ run_COMMIT)"
    unfolding img subrange_append using d c by simp
  finally show ?thesis using d by (simp add: trailer_def)
qed

lemma peek_done:
  assumes "reading_at sha src mi es (length es)"
  shows "\<exists>mi'. merge_peek sha src mi = Inr (None, mi') \<and> mi_header mi' = mi_header mi \<and>
    reading_at sha src mi' es (length es)"
proof (cases "mi_done mi")
  case True
  then show ?thesis using assms by (simp add: merge_peek_def Let_def)
next
  case False
  let ?h = "mi_header mi"
  have serves: "serves_run sha src ?h es" and dig: "mi_expected_digest mi = run_digest sha ?h es"
    using assms by (simp_all add: reading_at_def Let_def)
  obtain n where n: "mi_next_page mi = of_nat n" "n \<le> pages_of (length es)"
    "mi_digest mi = run_header_encode ?h @ pages_image sha (rh_first ?h) es n"
    and at: "if n = 0 then mi_page mi = [] \<and> mi_index mi = 0 \<and> length es = 0
      else mi_page mi = page_of es (n - 1) \<and> mi_index mi \<le> length (mi_page mi) \<and>
        length es = 31 * (n - 1) + mi_index mi"
    using assms False by (auto simp: reading_at_def Let_def)
  have idx: "mi_index mi = length (mi_page mi)"
    using at by (auto split: if_splits)
  have full: "n = pages_of (length es)"
  proof (rule ccontr)
    assume "n \<noteq> pages_of (length es)"
    then have "31 * n < length es" using n(2) pages_of_less_iff [of n "length es"] by simp
    then show False using at by (cases n) auto
  qed
  then have pages: "mi_next_page mi = rh_pages ?h"
    using n(1) serves by (simp add: serves_run_def run_fits_def)
  have "sha (mi_digest mi) = run_digest sha ?h es" using n(3) full by (simp add: run_digest_def)
  then show ?thesis
    using False idx pages trailer_serves [OF serves] dig serves
    by (simp add: merge_peek_def Let_def reading_at_def)
qed

lemma rank_nth: "ascending es \<Longrightarrow> q < length es \<Longrightarrow> rank (fst (es ! q)) es = q"
  by (rule rank_eqI) (auto dest: ascending_nth)

lemma pages_cross:
  assumes "ascending es" "31 * n < length es" "n \<noteq> 0"
  shows "fst (last (page_of es (n - 1))) < fst (hd (page_of es n))"
proof -
  have np: "n < pages_of (length es)" using assms(2) by (simp add: pages_of_less_iff)
  have "n - 1 < target (fst (es ! (31 * n))) es"
    using rank_nth [OF assms(1,2)] assms(2,3) by (simp add: target_def)
  then have "fst (last (page_of es (n - 1))) < fst (es ! (31 * n))"
    using page_last_less_iff(2) [OF assms(1), of "n - 1"] np by simp
  moreover have "hd (page_of es n) = es ! (31 * n)"
    using assms(2) page_of_nth [of 0 es n] by (simp add: hd_conv_nth page_of_def)
  ultimately show ?thesis by simp
qed

lemma peek_some:
  assumes at: "reading_at sha src mi es q" and q: "q < length es"
  shows "\<exists>mi'. merge_peek sha src mi = Inr (Some (es ! q), mi') \<and> mi_header mi' = mi_header mi \<and>
    reading_at sha src mi' es q \<and> reading_at sha src (bump mi') es (Suc q)"
proof -
  let ?h = "mi_header mi"
  have serves: "serves_run sha src ?h es" and dig: "mi_expected_digest mi = run_digest sha ?h es"
    and nd: "\<not> mi_done mi"
    using at q by (auto simp: reading_at_def Let_def)
  obtain n where n: "mi_next_page mi = of_nat n" "n \<le> pages_of (length es)"
    "mi_digest mi = run_header_encode ?h @ pages_image sha (rh_first ?h) es n"
    and pos: "if n = 0 then mi_page mi = [] \<and> mi_index mi = 0 \<and> q = 0
      else mi_page mi = page_of es (n - 1) \<and> mi_index mi \<le> length (mi_page mi) \<and>
        q = 31 * (n - 1) + mi_index mi"
    using at nd by (auto simp: reading_at_def Let_def)
  show ?thesis
  proof (cases "mi_index mi = length (mi_page mi)")
    case False
    then have n0: "n \<noteq> 0" and page: "mi_page mi = page_of es (n - 1)"
      and idx: "mi_index mi < length (mi_page mi)" and qn: "q = 31 * (n - 1) + mi_index mi"
      using pos by (auto split: if_splits)
    then have "mi_page mi ! mi_index mi = es ! q" using page_of_nth by metis
    moreover have "reading_at sha src (bump mi) es (Suc q)"
      using serves dig q nd n n0 page idx qn by (auto simp: reading_at_def Let_def bump_def)
    ultimately show ?thesis using nd idx at by (simp add: merge_peek_def Let_def page_entry_def)
  next
    case True
    have qn: "q = 31 * n" using pos True q by (cases n) auto
    then have np: "n < pages_of (length es)" using q by (simp add: pages_of_less_iff)
    have pages: "unat (rh_pages ?h) = pages_of (length es)"
      using run_pages.pages_holds [of sha "(src, ?h)" es] serves by simp
    have un: "unat (of_nat n :: u64) = n"
      using np pages unat_word_less(3) [of "rh_pages ?h"] by (intro unat_of_nat_small) simp
    then have lt: "(of_nat n :: u64) < rh_pages ?h" using np pages by (simp add: word_less_nat_alt)
    let ?page = "page_of es n" let ?img = "page_image sha (page_of es n) (of_nat n) (rh_first ?h)"
    let ?mi = "mi\<lparr>mi_digest := mi_digest mi @ ?img, mi_page := ?page, mi_index := 0, mi_next_page := of_nat n + 1\<rparr>"
    have rd: "src (64 + of_nat n * 4096) 4096 = Inr ?img" "decode_page sha ?img ?h (of_nat n) = Inr ?page"
      using source_page_serves [OF serves lt] un by simp_all
    have len: "0 < length ?page" "?page ! 0 = es ! q" using q qn page_of_nth [of 0 es n] by simp_all
    have cross: "\<not> (mi_page mi \<noteq> [] \<and> ?page \<noteq> [] \<and> fst (hd ?page) \<le> fst (last (mi_page mi)))"
    proof -
      have "fst (last (mi_page mi)) < fst (hd ?page)" if "mi_page mi \<noteq> []"
      proof -
        have n0: "n \<noteq> 0" and page: "mi_page mi = page_of es (n - 1)" using pos that by (auto split: if_splits)
        then show ?thesis
          using pages_cross [of es n] serves q qn by (simp add: serves_run_def)
      qed
      then show ?thesis by auto
    qed
    have "merge_peek sha src mi = Inr (Some (es ! q), ?mi)"
      using nd True n(1) lt rd cross len by (auto simp: merge_peek_def Let_def page_entry_def)
    moreover have "(of_nat n + 1 :: u64) = of_nat (Suc n)" by simp
    then have "reading_at sha src ?mi es q" "reading_at sha src (bump ?mi) es (Suc q)"
      using serves dig q nd n qn np len
      by (auto simp: reading_at_def Let_def bump_def pages_image_Suc simp del: of_nat_Suc
          intro!: exI [of _ "Suc n"])
    ultimately show ?thesis by (intro exI [of _ ?mi]) simp
  qed
qed

subsection \<open>Choosing the smallest entry\<close>

text \<open>\<open>holds_rem\<close>: the entries an input still has to give.\<close>

definition holds_rem :: "(bytes \<Rightarrow> bytes) \<Rightarrow> source \<Rightarrow> merge_input \<Rightarrow> page \<Rightarrow> bool" where
  "holds_rem sha src mi rem \<longleftrightarrow> (\<exists>es q. reading_at sha src mi es q \<and> rem = drop q es)"

definition ready_rem :: "(bytes \<Rightarrow> bytes) \<Rightarrow> source \<Rightarrow> merge_input \<Rightarrow> page \<Rightarrow> bool" where
  "ready_rem sha src mi rem \<longleftrightarrow>
    holds_rem sha src mi rem \<and> (rem \<noteq> [] \<longrightarrow> holds_rem sha src (bump mi) (tl rem))"

lemma holds_rem_facts:
  assumes "holds_rem sha src mi rem"
  shows "ascending rem" "\<forall>e\<in>set rem. wf_record e"
  using assms
  by (auto simp: holds_rem_def reading_at_def Let_def serves_run_def ascending_drop dest: in_set_dropD)

lemma peek_rem:
  assumes "holds_rem sha src mi rem"
  shows "\<exists>mi'. merge_peek sha src mi = Inr (case rem of [] \<Rightarrow> None | e # _ \<Rightarrow> Some e, mi') \<and>
    ready_rem sha src mi' rem"
proof -
  obtain es q where at: "reading_at sha src mi es q" and rem: "rem = drop q es"
    using assms by (auto simp: holds_rem_def)
  have "q \<le> length es" using at by (simp add: reading_at_def Let_def)
  then consider "q = length es" | "q < length es" by linarith
  then show ?thesis
  proof cases
    case 1
    then show ?thesis
      using peek_done [of sha src mi es] at rem by (auto simp: ready_rem_def holds_rem_def)
  next
    case 2
    then have dr: "rem = es ! q # drop (Suc q) es" using rem Cons_nth_drop_Suc [OF 2] by simp
    obtain mi' where "merge_peek sha src mi = Inr (Some (es ! q), mi')" "reading_at sha src mi' es q"
      "reading_at sha src (bump mi') es (Suc q)"
      using peek_some [OF at 2] by blast
    then have "merge_peek sha src mi = Inr (Some (es ! q), mi') \<and> ready_rem sha src mi' rem"
      using rem dr unfolding ready_rem_def holds_rem_def by (metis list.sel(3))
    then show ?thesis using dr by auto
  qed
qed

fun all_hold :: "(bytes \<Rightarrow> bytes) \<Rightarrow> (nat \<Rightarrow> source) \<Rightarrow> nat \<Rightarrow> merge_input list \<Rightarrow> page list \<Rightarrow> bool" where
  "all_hold sha srcs k [] [] = True"
| "all_hold sha srcs k (mi # mis) (r # rs) = (holds_rem sha (srcs k) mi r \<and> all_hold sha srcs (Suc k) mis rs)"
| "all_hold sha srcs k _ _ = False"

fun all_ready :: "(bytes \<Rightarrow> bytes) \<Rightarrow> (nat \<Rightarrow> source) \<Rightarrow> nat \<Rightarrow> merge_input list \<Rightarrow> page list \<Rightarrow> bool" where
  "all_ready sha srcs k [] [] = True"
| "all_ready sha srcs k (mi # mis) (r # rs) = (ready_rem sha (srcs k) mi r \<and> all_ready sha srcs (Suc k) mis rs)"
| "all_ready sha srcs k _ _ = False"

definition least :: "nat \<Rightarrow> page \<Rightarrow> best \<Rightarrow> best" where
  "least k r best =
    (case r of [] \<Rightarrow> best
     | (key, v) # _ \<Rightarrow> (case best of
         Some (_, c, _) \<Rightarrow> if c < key then best else Some (k, key, v) | None \<Rightarrow> Some (k, key, v)))"

fun least_of :: "nat \<Rightarrow> page list \<Rightarrow> best \<Rightarrow> best" where
  "least_of k [] best = best"
| "least_of k (r # rs) best = least_of (Suc k) rs (least k r best)"

definition best_keys :: "best \<Rightarrow> key list" where
  "best_keys best = (case best of None \<Rightarrow> [] | Some (_, key, _) \<Rightarrow> [key])"

definition heads :: "page list \<Rightarrow> key list" where
  "heads rs = map (\<lambda>r. fst (hd r)) (filter (\<lambda>r. r \<noteq> []) rs)"

lemma heads_Cons: "heads (r # rs) = (if r = [] then heads rs else fst (hd r) # heads rs)"
  by (simp add: heads_def)

lemma distinct_best_keys [simp]: "distinct (best_keys best)"
  by (simp add: best_keys_def split: option.split)

lemma better_cases:
  "merge_better k (case r of [] \<Rightarrow> None | e # _ \<Rightarrow> Some e) best =
    (if r \<noteq> [] \<and> fst (hd r) \<in> set (best_keys best) then Inl (Err Corrupt) else Inr (least k r best))"
  by (cases r) (auto simp: merge_better_def least_def best_keys_def split: option.splits)

lemma least_keys:
  "set (best_keys (least k r best)) \<subseteq> set (best_keys best) \<union> (if r = [] then {} else {fst (hd r)})"
  by (cases r) (auto simp: least_def best_keys_def split: option.splits if_splits)

lemma pick_cases:
  assumes "all_hold sha srcs k mis rs"
  shows "(merge_pick sha srcs k mis best = Inl (Err Corrupt) \<and> \<not> distinct (best_keys best @ heads rs)) \<or>
    (\<exists>mis'. merge_pick sha srcs k mis best = Inr (least_of k rs best, mis') \<and> all_ready sha srcs k mis' rs)"
  using assms
proof (induction sha srcs k mis rs arbitrary: best rule: all_hold.induct)
  case (1 sha srcs k)
  then show ?case by simp
next
  case (2 sha srcs k mi mis r rs)
  then obtain mi' where peek: "merge_peek sha (srcs k) mi = Inr (case r of [] \<Rightarrow> None | e # _ \<Rightarrow> Some e, mi')"
    and ready: "ready_rem sha (srcs k) mi' r"
    using peek_rem [of sha "srcs k" mi r] by auto
  show ?case
  proof (cases "r \<noteq> [] \<and> fst (hd r) \<in> set (best_keys best)")
    case True
    then show ?thesis using peek better_cases [of k r best] by (auto simp: heads_def)
  next
    case False
    have step: "merge_pick sha srcs k (mi # mis) best =
        result_bind (merge_pick sha srcs (Suc k) mis (least k r best)) (\<lambda>(best, rest). Inr (best, mi' # rest))"
      using peek better_cases [of k r best] False by simp
    from "2.IH" [of "least k r best"] "2.prems" consider
      "merge_pick sha srcs (Suc k) mis (least k r best) = Inl (Err Corrupt)"
        "\<not> distinct (best_keys (least k r best) @ heads rs)"
      | mis' where "merge_pick sha srcs (Suc k) mis (least k r best) =
          Inr (least_of (Suc k) rs (least k r best), mis')" "all_ready sha srcs (Suc k) mis' rs"
      by auto
    then show ?thesis
    proof cases
      case 1
      have "\<not> distinct (best_keys best @ heads (r # rs))"
        using 1(2) least_keys [of k r best] by (auto simp: heads_Cons split: if_splits)
      then show ?thesis using 1(1) step by simp
    next
      case 2
      then show ?thesis using step ready by auto
    qed
  qed
qed simp_all

lemma least_of_None:
  "least_of k rs best = None \<longleftrightarrow> best = None \<and> (\<forall>r\<in>set rs. r = [])"
proof (induction rs arbitrary: k best)
  case (Cons r rs)
  then show ?case by (cases r) (auto simp: least_def split: option.splits)
qed simp

lemma least_of_Some:
  "least_of k rs best = Some (i, key, v) \<Longrightarrow>
    (best = Some (i, key, v) \<or> (k \<le> i \<and> i < k + length rs \<and> rs ! (i - k) \<noteq> [] \<and> hd (rs ! (i - k)) = (key, v))) \<and>
    (\<forall>c\<in>set (best_keys best). key \<le> c) \<and> (\<forall>r\<in>set rs. r \<noteq> [] \<longrightarrow> key \<le> fst (hd r))"
proof (induction rs arbitrary: k best)
  case Nil
  then show ?case by (simp add: best_keys_def)
next
  case (Cons r rs)
  have IH: "(least k r best = Some (i, key, v) \<or>
      (Suc k \<le> i \<and> i < Suc k + length rs \<and> rs ! (i - Suc k) \<noteq> [] \<and> hd (rs ! (i - Suc k)) = (key, v))) \<and>
    (\<forall>c\<in>set (best_keys (least k r best)). key \<le> c) \<and> (\<forall>r\<in>set rs. r \<noteq> [] \<longrightarrow> key \<le> fst (hd r))"
    using Cons.IH [of "Suc k" "least k r best"] Cons.prems by simp
  have keys: "\<forall>c\<in>set (best_keys best). key \<le> c" "r \<noteq> [] \<longrightarrow> key \<le> fst (hd r)"
    using IH by (auto simp: least_def best_keys_def not_less
        split: option.splits list.splits if_splits)
  have "best = Some (i, key, v) \<or> i = k \<and> r \<noteq> [] \<and> hd r = (key, v)" if "least k r best = Some (i, key, v)"
    using that by (auto simp: least_def split: option.splits list.splits if_splits)
  moreover have "(r # rs) ! (i - k) = rs ! (i - Suc k)" if "Suc k \<le> i"
    using that by (simp add: nth_Cons')
  ultimately show ?case using IH keys by auto
qed

lemma ready_holds: "all_ready sha srcs k mis rs \<Longrightarrow> all_hold sha srcs k mis rs"
  by (induction sha srcs k mis rs rule: all_ready.induct) (simp_all add: ready_rem_def)

lemma hold_facts:
  "all_hold sha srcs k mis rs \<Longrightarrow> \<forall>r\<in>set rs. ascending r \<and> (\<forall>e\<in>set r. wf_record e)"
  by (induction sha srcs k mis rs rule: all_hold.induct) (auto dest: holds_rem_facts)

lemma hold_length: "all_hold sha srcs k mis rs \<Longrightarrow> length mis = length rs"
  by (induction sha srcs k mis rs rule: all_hold.induct) simp_all

lemma ready_length: "all_ready sha srcs k mis rs \<Longrightarrow> length mis = length rs"
  by (rule hold_length [OF ready_holds])

lemma advance_holds:
  "all_ready sha srcs k mis rs \<Longrightarrow> i < length rs \<Longrightarrow> rs ! i \<noteq> [] \<Longrightarrow>
    all_hold sha srcs k (merge_advance i mis) (rs[i := tl (rs ! i)])"
proof (induction sha srcs k mis rs arbitrary: i rule: all_ready.induct)
  case (2 sha srcs k mi mis r rs)
  then show ?case
    by (cases i) (auto simp: merge_advance_def ready_rem_def bump_def ready_holds)
qed simp_all

lemma mset_concat_update:
  "i < length rs \<Longrightarrow> rs ! i = e # t \<Longrightarrow> mset (concat rs) = add_mset e (mset (concat (rs[i := t])))"
proof (induction rs arbitrary: i)
  case (Cons r rs)
  then show ?case by (cases i) simp_all
qed simp

lemma heads_distinct: "distinct (map fst (concat rs)) \<Longrightarrow> distinct (heads rs)"
proof (induction rs)
  case (Cons r rs)
  have "set (heads rs) \<subseteq> fst ` set (concat rs)"
    by (auto simp: heads_def intro!: imageI intro: hd_in_set)
  moreover have "r \<noteq> [] \<Longrightarrow> fst (hd r) \<in> fst ` set r" by simp
  moreover have "fst ` set r \<inter> fst ` set (concat rs) = {}" using Cons.prems by simp
  ultimately have "r \<noteq> [] \<Longrightarrow> fst (hd r) \<notin> set (heads rs)" by blast
  then show ?case using Cons by (simp add: heads_Cons)
qed (simp add: heads_def)

lemma distinct_keys_mset:
  "mset xs = mset ys \<Longrightarrow> distinct (map fst xs) \<longleftrightarrow> distinct (map fst ys)"
  by (metis mset_eq_imp_distinct_iff mset_map)

subsection \<open>The merge loop\<close>

definition merging ::
  "(bytes \<Rightarrow> bytes) \<Rightarrow> (nat \<Rightarrow> source) \<Rightarrow> run_header \<Rightarrow> page \<Rightarrow> page \<Rightarrow> page list \<Rightarrow>
    merge_input list \<Rightarrow> run_writer \<Rightarrow> bytes \<Rightarrow> bool" where
  "merging sha srcs h all out rs mis w sink \<longleftrightarrow>
    writing sha h out w sink \<and> all_hold sha srcs 0 mis rs \<and>
    mset all = mset (out @ concat rs) \<and> length all = unat (rh_entries h) \<and>
    (distinct (map fst all) \<longrightarrow> (\<forall>x\<in>set out. \<forall>y\<in>set (concat rs). fst x < fst y))"

lemma merging_pushed:
  assumes m: "merging sha srcs h all out rs mis w sink" and ready: "all_ready sha srcs 0 mis' rs"
    and i: "i < length rs" "rs ! i = (k, v) # t" and min: "\<forall>r\<in>set rs. r \<noteq> [] \<longrightarrow> k \<le> fst (hd r)"
    and wr: "writing sha h (out @ [(k, v)]) w' sink'"
  shows "merging sha srcs h all (out @ [(k, v)]) (rs[i := t]) (merge_advance i mis') w' sink'"
proof -
  let ?rs = "rs[i := t]"
  have ms: "mset all = mset (out @ (k, v) # concat ?rs)"
    using m mset_concat_update [OF i] by (simp add: merging_def)
  have hold: "all_hold sha srcs 0 (merge_advance i mis') ?rs"
    using advance_holds [OF ready i(1)] i(2) by simp
  have le: "k \<le> fst y" if y: "y \<in> set (concat rs)" for y
  proof -
    obtain r where r: "r \<in> set rs" "y \<in> set r" using y by auto
    then have "ascending r" "r \<noteq> []" using hold_facts [OF ready_holds [OF ready]] by auto
    then have "fst (hd r) \<le> fst y" using r(2) by (cases r) (auto simp: ascending_def)
    then show ?thesis using min r(1) \<open>r \<noteq> []\<close> by (meson order_trans)
  qed
  have sub: "set (concat ?rs) \<subseteq> set (concat rs)"
    using arg_cong [OF mset_concat_update [OF i], of set_mset] by auto
  have "\<forall>x\<in>set (out @ [(k, v)]). \<forall>y\<in>set (concat ?rs). fst x < fst y" if d: "distinct (map fst all)"
  proof -
    have "distinct (map fst (out @ (k, v) # concat ?rs))" using d distinct_keys_mset [OF ms] by blast
    then have "k \<notin> fst ` set (concat ?rs)" by simp
    then have above: "k < fst y" if y: "y \<in> set (concat ?rs)" for y
    proof -
      have "k \<le> fst y" using le y sub by blast
      moreover have "fst y \<in> fst ` set (concat ?rs)" using y by (rule imageI)
      ultimately show ?thesis
        using \<open>k \<notin> fst ` set (concat ?rs)\<close> by (auto simp: order_le_less simp del: set_concat)
    qed
    have old: "\<forall>x\<in>set out. \<forall>y\<in>set (concat rs). fst x < fst y"
      using m d by (simp add: merging_def)
    show ?thesis
    proof (intro ballI)
      fix x y
      assume "x \<in> set (out @ [(k, v)])" "y \<in> set (concat ?rs)"
      then show "fst x < fst y" using above [of y] old sub by (cases "x = (k, v)") auto
    qed
  qed
  then show ?thesis using ms hold wr m by (simp add: merging_def)
qed

lemma merge_loop_cases:
  assumes sha: "\<And>x. length (sha x) = 32" and fits: "run_fits h"
    and "merging sha srcs h all out rs mis w sink"
  shows "(merge_loop sha srcs stop mis w sink = Inl (Err Corrupt) \<and> \<not> distinct (map fst all)) \<or>
    (\<exists>fin mis'. merge_loop sha srcs stop mis w sink =
        Inr (Some (run_digest sha h fin), \<lparr>mg_inputs = mis', mg_writer = None\<rparr>, run_image sha h fin) \<and>
      ascending fin \<and> mset fin = mset all) \<or>
    (\<exists>out' rs' mis' w' sink'. merge_loop sha srcs stop mis w sink =
        Inr (None, \<lparr>mg_inputs = mis', mg_writer = Some w'\<rparr>, sink') \<and>
      stop \<le> rw_written_pages w' \<and> merging sha srcs h all out' rs' mis' w' sink')"
  using assms
proof (induction sha srcs stop mis w sink arbitrary: out rs rule: merge_loop.induct)
  case (1 sha srcs stop mis w sink)
  note sha = "1.prems"(1) and fits = "1.prems"(2) and m = "1.prems"(3)
  have wr: "writing sha h out w sink" and hold: "all_hold sha srcs 0 mis rs"
    and ms: "mset all = mset (out @ concat rs)" and len: "length all = unat (rh_entries h)"
    using m by (simp_all add: merging_def)
  show ?case
  proof (cases "rw_written_pages w < stop")
    case False
    then show ?thesis using m by (subst (1 2 3) merge_loop.simps) (auto simp: not_less)
  next
    case go: True
    consider (dup) "merge_pick sha srcs 0 mis None = Inl (Err Corrupt)" "\<not> distinct (heads rs)"
      | (ok) mis' where "merge_pick sha srcs 0 mis None = Inr (least_of 0 rs None, mis')"
          "all_ready sha srcs 0 mis' rs"
      using pick_cases [OF hold, of None] by (auto simp: best_keys_def)
    then show ?thesis
    proof cases
      case dup
      have "\<not> distinct (map fst all)"
        using dup(2) heads_distinct [of rs] distinct_keys_mset [OF ms] by auto
      moreover have "merge_loop sha srcs stop mis w sink = Inl (Err Corrupt)"
        using go dup(1) by (subst merge_loop.simps) simp
      ultimately show ?thesis by blast
    next
      case ok
      show ?thesis
      proof (cases "least_of 0 rs None")
        case None
        then have "concat rs = []" by (simp add: least_of_None)
        then have out: "mset out = mset all" "length out = unat (rh_entries h)"
          using ms len mset_eq_length [of all out] by simp_all
        have "merge_loop sha srcs stop mis w sink = Inr (Some (run_digest sha h out),
            \<lparr>mg_inputs = mis', mg_writer = None\<rparr>, run_image sha h out)"
          using go ok(1) None finish_correct [OF sha fits wr] out(2)
          by (subst merge_loop.simps) simp
        moreover have "ascending out" using wr by (simp add: writing_def Let_def)
        ultimately show ?thesis using out(1) by blast
      next
        case (Some b)
        obtain i k v where b: "b = (i, k, v)" by (cases b)
        have i: "i < length rs" "rs ! i = (k, v) # tl (rs ! i)"
          and min: "\<forall>r\<in>set rs. r \<noteq> [] \<longrightarrow> k \<le> fst (hd r)"
          using least_of_Some [of 0 rs None i k v] Some b by (auto simp: best_keys_def neq_Nil_conv)
        have "(k, v) \<in> set (rs ! i)" using i(2) by (metis list.set_intros(1))
        then have mem: "(k, v) \<in> set (concat rs)" using nth_mem [OF i(1)] by auto
        have kv: "wf_record (k, v)" using hold_facts [OF hold] mem by auto
        have room: "\<not> unat (rh_entries h) \<le> length out"
          using arg_cong [OF ms, of size] len length_pos_if_in_set [OF mem] by simp
        have loop: "merge_loop sha srcs stop mis w sink =
            result_bind (run_writer_push sha k v w sink) (\<lambda>(w, sink).
              merge_loop sha srcs stop (merge_advance i mis') w sink)"
          using go ok(1) Some b by (subst merge_loop.simps) simp
        show ?thesis
        proof (cases "out \<noteq> [] \<and> k \<le> fst (last out)")
          case True
          then have "\<not> distinct (map fst all)"
            using m mem by (metis merging_def last_in_set leD fst_conv)
          moreover have "run_writer_push sha k v w sink = Inl (Err Corrupt)"
            using push_correct [OF sha fits wr kv] True by (simp split: if_splits)
          ultimately show ?thesis using loop by simp
        next
          case False
          then obtain w' sink' where p: "run_writer_push sha k v w sink = Inr (w', sink')"
            "writing sha h (out @ [(k, v)]) w' sink'"
            using push_correct [OF sha fits wr kv] room by (auto split: if_splits)
          have "merging sha srcs h all (out @ [(k, v)]) (rs[i := tl (rs ! i)]) (merge_advance i mis') w' sink'"
            by (rule merging_pushed [OF m ok(2) i min p(2)])
          from "1.IH" [OF go ok(1) refl Some b [symmetric] refl p(1) refl sha fits this]
          show ?thesis using loop p(1) by simp
        qed
      qed
    qed
  qed
qed

subsection \<open>Complete merges\<close>

text \<open>The journal worker calls \<open>step\<close> with a page budget until it returns the digest. \<open>merge_drive\<close>
  is at most \<open>n\<close> such calls; \<^const>\<open>None\<close> when they were not enough.\<close>

fun merge_drive ::
  "(bytes \<Rightarrow> bytes) \<Rightarrow> (nat \<Rightarrow> source) \<Rightarrow> u64 \<Rightarrow> nat \<Rightarrow> merge \<Rightarrow> bytes \<Rightarrow> (bytes \<times> bytes) outcome option" where
  "merge_drive sha srcs pages 0 m sink = None"
| "merge_drive sha srcs pages (Suc n) m sink =
    (case merge_step sha srcs pages m sink of
       Inl e \<Rightarrow> Some (Inl e)
     | Inr (Some digest, _, sink) \<Rightarrow> Some (Inr (digest, sink))
     | Inr (None, m, sink) \<Rightarrow> merge_drive sha srcs pages n m sink)"

definition merge_inputs :: "(bytes \<Rightarrow> bytes) \<Rightarrow> (run_header \<times> page) list \<Rightarrow> merge_input list" where
  "merge_inputs sha runs = map (\<lambda>(h, es). merge_input_new h (run_digest sha h es)) runs"

lemma merging_pages:
  assumes "merging sha srcs h all out rs mis w sink" "run_fits h"
  shows "unat (rw_written_pages w) = length out div 31" "length out div 31 \<le> pages_of (length all)"
proof -
  have wr: "writing sha h out w sink" and len: "length all = unat (rh_entries h)"
    and ms: "mset all = mset (out @ concat rs)"
    using assms(1) by (simp_all add: merging_def)
  have le: "length out \<le> length all" using mset_eq_length [OF ms] by simp
  then show "length out div 31 \<le> pages_of (length all)"
    unfolding pages_of_def by (simp add: div_le_mono)
  have "length out < 2 ^ 64" using le len unat_word_less(3) [of "rh_entries h"] by simp
  then have "length out div 31 < 2 ^ 64" by (metis div_le_dividend order_le_less_trans)
  then show "unat (rw_written_pages w) = length out div 31"
    using wr by (simp add: writing_def Let_def)
qed

lemma drive_cases:
  assumes sha: "\<And>x. length (sha x) = 32" and fits: "run_fits h"
    and pages: "pages \<noteq> 0" "pages_of (length all) + unat pages < 2 ^ 64"
  shows "merging sha srcs h all out rs mis w sink \<Longrightarrow>
    pages_of (length all) < n + unat (rw_written_pages w) \<Longrightarrow>
    (if distinct (map fst all)
     then \<exists>fin. merge_drive sha srcs pages n \<lparr>mg_inputs = mis, mg_writer = Some w\<rparr> sink =
         Some (Inr (run_digest sha h fin, run_image sha h fin)) \<and> ascending fin \<and> mset fin = mset all
     else merge_drive sha srcs pages n \<lparr>mg_inputs = mis, mg_writer = Some w\<rparr> sink = Some (Inl (Err Corrupt)))"
proof (induction n arbitrary: out rs mis w sink)
  case 0
  then show ?case using merging_pages [OF 0(1) fits] by simp
next
  case (Suc n)
  let ?stop = "rw_written_pages w + pages"
  note wp = merging_pages [OF Suc.prems(1) fits]
  have stop: "unat ?stop = unat (rw_written_pages w) + unat pages"
    using wp pages(2) by (simp add: unat_word_ariths)
  have step: "merge_step sha srcs pages \<lparr>mg_inputs = mis, mg_writer = Some w\<rparr> sink =
      merge_loop sha srcs ?stop mis w sink" by (simp add: merge_step_def)
  from merge_loop_cases [OF sha fits Suc.prems(1), of ?stop] show ?case
  proof (elim disjE exE conjE)
    fix fin mis'
    assume "merge_loop sha srcs ?stop mis w sink =
        Inr (Some (run_digest sha h fin), \<lparr>mg_inputs = mis', mg_writer = None\<rparr>, run_image sha h fin)"
      and fin: "ascending fin" "mset fin = mset all"
    moreover have "distinct (map fst all)"
      using fin distinct_keys_mset [of fin all] by (simp add: ascending_def strict_sorted_iff)
    ultimately show ?thesis using step by auto
  next
    fix out' rs' mis' w' sink'
    assume loop: "merge_loop sha srcs ?stop mis w sink =
        Inr (None, \<lparr>mg_inputs = mis', mg_writer = Some w'\<rparr>, sink')"
      and le: "?stop \<le> rw_written_pages w'" and m: "merging sha srcs h all out' rs' mis' w' sink'"
    have "unat pages \<noteq> 0" using pages(1) by (simp add: unat_eq_zero)
    then have "pages_of (length all) < n + unat (rw_written_pages w')"
      using le stop Suc.prems(2) by (simp add: word_le_nat_alt)
    then show ?thesis using Suc.IH [OF m] step loop by simp
  qed (simp add: step)
qed

lemma merge_input_new_reads:
  "serves_run sha src h es \<Longrightarrow> holds_rem sha src (merge_input_new h (run_digest sha h es)) es"
  unfolding holds_rem_def
  by (intro exI [of _ es] exI [of _ 0])
    (auto simp: reading_at_def merge_input_new_def Let_def pages_image_def intro!: exI [of _ 0])

lemma merge_inputs_hold:
  "(\<And>i. i < length runs \<Longrightarrow> serves_run sha (srcs (k + i)) (fst (runs ! i)) (snd (runs ! i))) \<Longrightarrow>
    all_hold sha srcs k (merge_inputs sha runs) (map snd runs)"
proof (induction runs arbitrary: k)
  case (Cons r runs)
  have "serves_run sha (srcs k) (fst r) (snd r)" using Cons.prems [of 0] by simp
  moreover have "all_hold sha srcs (Suc k) (merge_inputs sha runs) (map snd runs)"
    using Cons.prems [of "Suc i" for i] by (intro Cons.IH) auto
  ultimately show ?case
    by (cases r) (simp add: merge_inputs_def merge_input_new_reads)
qed (simp add: merge_inputs_def)

lemma merge_inputs_entries:
  "(\<And>i. i < length runs \<Longrightarrow> unat (rh_entries (fst (runs ! i))) = length (snd (runs ! i))) \<Longrightarrow>
    sum_list (map (\<lambda>i. rh_entries (mi_header i)) (merge_inputs sha runs)) =
    of_nat (length (concat (map snd runs)))"
proof (induction runs)
  case (Cons r runs)
  have "rh_entries (fst r) = of_nat (length (snd r))"
    using Cons.prems [of 0] by (metis length_greater_0_conv list.distinct(1) nth_Cons_0 of_nat_unat_u64)
  moreover have "sum_list (map (\<lambda>i. rh_entries (mi_header i)) (merge_inputs sha runs)) =
      of_nat (length (concat (map snd runs)))"
    using Cons.prems [of "Suc i" for i] by (intro Cons.IH) auto
  ultimately show ?case by (cases r) (simp add: merge_inputs_def merge_input_new_def)
qed (simp add: merge_inputs_def)

lemma merged_header_read:
  assumes "\<forall>r\<in>set runs. wf_run_header (fst r)" "runs \<noteq> []" "is_id i" "of_nat n \<noteq> (0 :: u64)"
    "h = run_header_new l i (Min (rh_first ` fst ` set runs)) (Max (rh_last ` fst ` set runs)) (of_nat n)"
  shows "run_header_decode (take 64 (run_image sha h es)) = Inr h"
proof -
  let ?first = "Min (rh_first ` fst ` set runs)" and ?last = "Max (rh_last ` fst ` set runs)"
  obtain r where r: "r \<in> set runs" "rh_first (fst r) = ?first"
    using Min_in [of "rh_first ` fst ` set runs"] assms(2) by fastforce
  have "?first \<noteq> 0" "?first \<le> rh_last (fst r)" using r assms(1) by (auto simp: wf_run_header_def)
  moreover have "rh_last (fst r) \<le> ?last" using r(1) by simp
  ultimately have "wf_run_header h" using assms(3-5) by (simp add: wf_run_header_def run_header_new_def)
  moreover have "take 64 (run_image sha h es) = run_header_encode h"
    using assms(3,5) by (simp add: run_image_def Let_def run_header_new_def)
  ultimately show ?thesis by (simp add: run_header_decode_iff)
qed

lemma merge_starts:
  assumes i: "is_id i" and ne: "runs \<noteq> []"
    and served: "\<forall>j < length runs. serves_run sha (srcs j) (fst (runs ! j)) (snd (runs ! j))"
    and all: "all = concat (map snd runs)"
    and h: "h = run_header_new l i (Min (rh_first ` fst ` set runs)) (Max (rh_last ` fst ` set runs)) (of_nat (length all))"
    and fits: "104 + 4096 * pages_of (length all) < 2 ^ 64"
  obtains w where "merge_new (merge_inputs sha runs) l i [] =
      Inr (\<lparr>mg_inputs = merge_inputs sha runs, mg_writer = Some w\<rparr>, run_header_encode h)"
    "merging sha srcs h all [] (map snd runs) (merge_inputs sha runs) w (run_header_encode h)" "run_fits h" "length all < 2 ^ 64"
proof -
  let ?mis = "merge_inputs sha runs"
  have headers: "set (map (\<lambda>i. rh_first (mi_header i)) ?mis) = rh_first ` fst ` set runs"
    "set (map (\<lambda>i. rh_last (mi_header i)) ?mis) = rh_last ` fst ` set runs"
    by (force simp: merge_inputs_def merge_input_new_def)+
  have fit: "run_fits h" "length all < 2 ^ 64" unfolding h by (rule run_fits_new [OF i fits])+
  obtain w where w: "run_writer_new h [] = Inr (w, run_header_encode h)" "writing sha h [] w (run_header_encode h)"
    using writing_new [OF fit(1)] by blast
  have "sum_list (map (\<lambda>i. rh_entries (mi_header i)) ?mis) = of_nat (length all)"
    unfolding all using served by (intro merge_inputs_entries) (simp add: serves_run_def)
  then have "merge_new ?mis l i [] = Inr (\<lparr>mg_inputs = ?mis, mg_writer = Some w\<rparr>, run_header_encode h)"
    using ne w(1) unfolding merge_new_def headers by (simp add: merge_inputs_def h)
  moreover have "all_hold sha srcs 0 ?mis (map snd runs)" using served by (intro merge_inputs_hold) simp
  then have "merging sha srcs h all [] (map snd runs) ?mis w (run_header_encode h)"
    using w(2) fit(2) all by (simp add: merging_def h)
  ultimately show thesis using that fit by blast
qed

text \<open>C8: Merging runs is sorting the union of their entries. When every input is served from the
  image of a sorted run whose whole-file digest is the expected one, calling \<open>step\<close> repeatedly with a
  positive page budget ends after at most \<open>pages + 1\<close> calls. If no key occurs twice, the output is the file
  and the digest that \<open>encode_run\<close> makes of the strictly ascending list that has exactly the inputs' entries,
  with the given level and installation, the smallest first and the largest last sequence of the inputs, and
  \<open>RunHeader::decode\<close> reads that header back when the inputs' headers are ones it accepts and the runs are not
  all empty. If some key occurs twice, the merge ends with \<open>Corrupt\<close>.\<close>

theorem merge_is_sorted_union:
  assumes sha: "\<forall>x. length (sha x) = 32" and i: "is_id i" and ne: "runs \<noteq> []"
    and served: "\<forall>j < length runs. serves_run sha (srcs j) (fst (runs ! j)) (snd (runs ! j))"
    and all: "all = concat (map snd runs)"
    and h: "h = run_header_new l i (Min (rh_first ` fst ` set runs)) (Max (rh_last ` fst ` set runs)) (of_nat (length all))"
    and fits: "104 + 4096 * pages_of (length all) < 2 ^ 64"
    and pages: "pages \<noteq> 0" "pages_of (length all) + unat pages < 2 ^ 64"
  shows "\<exists>m sink. merge_new (merge_inputs sha runs) l i [] = Inr (m, sink) \<and>
    (if distinct (map fst all)
     then \<exists>merged. merge_drive sha srcs pages (pages_of (length all) + 1) m sink =
         Some (Inr (run_digest sha h merged, run_image sha h merged)) \<and>
       encode_run sha l i (rh_first h) (rh_last h) merged = Inr (run_image sha h merged, run_digest sha h merged) \<and>
       ascending merged \<and> mset merged = mset all \<and>
       ((\<forall>r\<in>set runs. wf_run_header (fst r)) \<and> all \<noteq> [] \<longrightarrow> run_header_decode (take 64 (run_image sha h merged)) = Inr h)
     else merge_drive sha srcs pages (pages_of (length all) + 1) m sink = Some (Inl (Err Corrupt)))"
proof -
  obtain w where new: "merge_new (merge_inputs sha runs) l i [] =
      Inr (\<lparr>mg_inputs = merge_inputs sha runs, mg_writer = Some w\<rparr>, run_header_encode h)"
    and start: "merging sha srcs h all [] (map snd runs) (merge_inputs sha runs) w (run_header_encode h)"
    and fit: "run_fits h" "length all < 2 ^ 64"
    by (rule merge_starts [OF i ne served all h fits])
  note driven = drive_cases [OF _ fit(1) pages start, of "pages_of (length all) + 1"]
  show ?thesis
  proof (cases "distinct (map fst all)")
    case False
    then show ?thesis using driven sha new by simp
  next
    case True
    then obtain merged where m: "merge_drive sha srcs pages (pages_of (length all) + 1)
          \<lparr>mg_inputs = merge_inputs sha runs, mg_writer = Some w\<rparr> (run_header_encode h) =
          Some (Inr (run_digest sha h merged, run_image sha h merged))"
        "ascending merged" "mset merged = mset all"
      using driven sha by auto
    have same: "length merged = length all" "set merged = set all"
      using m(3) mset_eq_length mset_eq_setD by blast+
    have "\<forall>e\<in>set merged. wf_record e" using served unfolding same all by (fastforce simp: serves_run_def in_set_conv_nth)
    then have "encode_run sha l i (rh_first h) (rh_last h) merged = Inr (run_image sha h merged, run_digest sha h merged)"
      using encode_run_eq [of sha i merged h l "rh_first h" "rh_last h"] sha i m(2) fits unfolding same by (simp add: h)
    moreover have "run_header_decode (take 64 (run_image sha h merged)) = Inr h"
      if "\<forall>r\<in>set runs. wf_run_header (fst r)" "all \<noteq> []"
      using that(2) fit(2) by (intro merged_header_read [OF that(1) ne i _ h]) (simp add: word_unat_eq_iff)
    ultimately show ?thesis using True m new by (intro exI conjI) auto
  qed
qed

definition demo_sha :: "bytes \<Rightarrow> bytes" where
  "demo_sha x = replicate 32 0"

definition demo_runs :: "(run_header \<times> page) list" where
  "demo_runs =
    [(run_header_new 0 (replicate 16 1) 1 4 1, [(Key TagTurn (replicate 16 2) 7, replicate 96 3)]),
     (run_header_new 0 (replicate 16 1) 5 9 1, [(Key TagCall (replicate 16 2) 1, replicate 96 4)])]"

definition demo_sources :: "nat \<Rightarrow> source" where
  "demo_sources j = memory_source (run_image demo_sha (fst (demo_runs ! j)) (snd (demo_runs ! j)))"

lemma demo_served:
  "\<forall>j < length demo_runs. serves_run demo_sha (demo_sources j) (fst (demo_runs ! j)) (snd (demo_runs ! j))"
proof -
  have "serves_run demo_sha (demo_sources j) (fst (demo_runs ! j)) (snd (demo_runs ! j))" if "j = 0 \<or> j = 1" for j
    unfolding demo_sources_def using that
    by (intro serves_run_memory)
      (auto simp: demo_sha_def demo_runs_def run_fits_def pages_of_def ascending_def wf_record_def wf_key_def)
  then show ?thesis by (auto simp: demo_runs_def less_Suc_eq)
qed

definition demo_merged :: run_header where
  "demo_merged = run_header_new 1 (replicate 16 1) 1 9 2"

lemma demo_merged_header:
  "demo_merged = run_header_new 1 (replicate 16 1) (Min (rh_first ` fst ` set demo_runs)) (Max (rh_last ` fst ` set demo_runs))
    (of_nat (length (concat (map snd demo_runs))))"
  by (simp add: demo_merged_def demo_runs_def)

theorem merge_is_sorted_union_witness:
  "\<exists>m sink. merge_new (merge_inputs demo_sha demo_runs) 1 (replicate 16 1) [] = Inr (m, sink) \<and>
    (\<exists>merged. merge_drive demo_sha demo_sources 256 2 m sink =
        Some (Inr (run_digest demo_sha demo_merged merged, run_image demo_sha demo_merged merged)) \<and>
      encode_run demo_sha 1 (replicate 16 1) 1 9 merged =
        Inr (run_image demo_sha demo_merged merged, run_digest demo_sha demo_merged merged) \<and> ascending merged \<and>
      mset merged = {#(Key TagTurn (replicate 16 2) 7, replicate 96 3), (Key TagCall (replicate 16 2) 1, replicate 96 4)#} \<and>
      run_header_decode (take 64 (run_image demo_sha demo_merged merged)) = Inr demo_merged)"
  using merge_is_sorted_union [OF _ _ _ demo_served refl refl, of "replicate 16 1" 256 1]
  unfolding demo_merged_header [symmetric]
  by (simp add: demo_runs_def pages_of_def demo_sha_def demo_merged_def wf_run_header_def u64_div_ceil_31 del: merge_drive.simps)
    (simp add: numeral_2_eq_2 del: merge_drive.simps)

end
