(* ===== verification/FieldCodec.thy ===== *)
theory FieldCodec
  imports Types
begin

section \<open>The field operations of the record codec\<close>

text \<open>
  The rest of \<open>Reader\<close> and \<open>Writer\<close> of \<open>authority/conversation/codec.rs\<close>: strings, flags, optional
  IDs, and a writer's sequence of appends, which stops at the first error. The locale
  \<open>record_codec\<close> is the contract of a record's reader and its fallible writer; \<open>valid\<close> is what the Rust
  types guarantee of a value (array lengths, valid UTF-8).
\<close>

subsection \<open>Readers\<close>

abbreviation rd_take :: "nat \<Rightarrow> (replay_error, bytes) reading" where "rd_take \<equiv> take_or Corrupt"
abbreviation rd_array :: "nat \<Rightarrow> (replay_error, bytes) reading" where "rd_array \<equiv> array_or Corrupt"
abbreviation rd_id :: "(replay_error, id16) reading" where "rd_id \<equiv> array_or Corrupt 16"
abbreviation rd_hash :: "(replay_error, hash32) reading" where "rd_hash \<equiv> array_or Corrupt 32"
abbreviation rd_byte :: "(replay_error, u8) reading" where "rd_byte \<equiv> byte_or Corrupt"
abbreviation rd_u16 :: "(replay_error, u16) reading" where "rd_u16 \<equiv> u16_or Corrupt"
abbreviation rd_u32 :: "(replay_error, u32) reading" where "rd_u32 \<equiv> u32_or Corrupt"
abbreviation rd_u64 :: "(replay_error, u64) reading" where "rd_u64 \<equiv> u64_or Corrupt"

abbreviation rd_coded :: "(u8 \<Rightarrow> 'a option) \<Rightarrow> (replay_error, 'a) reading" where
  "rd_coded \<equiv> coded_or Corrupt Corrupt"

abbreviation rd_require :: "bool \<Rightarrow> (replay_error, unit) reading" where
  "rd_require ok \<equiv> rlift (require ok)"

definition rd_text :: "nat \<Rightarrow> (replay_error, bytes) reading" where
  "rd_text n = rbind (rd_take n) (\<lambda>b. if utf8_valid b then rreturn b else rfail Corrupt)"

definition rd_bounded_string :: "nat \<Rightarrow> (replay_error, bytes) reading" where
  "rd_bounded_string limit = rbind rd_u32 (\<lambda>n.
    if unat n > limit then rfail Corrupt else rd_text (unat n))"

definition rd_string :: "nat \<Rightarrow> (replay_error, bytes) reading" where
  "rd_string limit = rbind rd_u32 (\<lambda>n.
    if unat n > limit then rfail Limit else rd_text (unat n))"

definition rd_flag :: "(replay_error, bool) reading" where
  "rd_flag = rbind rd_byte (\<lambda>b.
    if b = 0 then rreturn False else if b = 1 then rreturn True else rfail Corrupt)"

definition rd_optional :: "(replay_error, id16 option) reading" where
  "rd_optional = rbind rd_flag (\<lambda>present.
    if present then rbind rd_id (\<lambda>i. rreturn (Some i)) else rreturn None)"

definition rd_cause :: "(replay_error, cause) reading" where
  "rd_cause = rd_coded cause_from_code"

definition rd_finish :: "(replay_error, unit) reading" where
  "rd_finish r = rd_require (rd_offset r = length (rd_bytes r)) r"

text \<open>\<open>for _ in 0..n { items.push(read()?) }\<close>.\<close>

fun rd_times :: "nat \<Rightarrow> ('e, 'a) reading \<Rightarrow> ('e, 'a list) reading" where
  "rd_times 0 p = rreturn []"
| "rd_times (Suc n) p = rbind p (\<lambda>x. rbind (rd_times n p) (\<lambda>xs. rreturn (x # xs)))"

subsection \<open>Writers\<close>

definition str32 :: "bytes \<Rightarrow> bytes" where
  "str32 s = be32 (of_nat (length s)) @ s"

abbreviation w_bytes :: "bytes \<Rightarrow> bytes result" where "w_bytes b \<equiv> Inr b"
abbreviation w_byte :: "u8 \<Rightarrow> bytes result" where "w_byte b \<equiv> Inr [b]"
abbreviation w_u16 :: "u16 \<Rightarrow> bytes result" where "w_u16 n \<equiv> Inr (be16 n)"
abbreviation w_u32 :: "u32 \<Rightarrow> bytes result" where "w_u32 n \<equiv> Inr (be32 n)"
abbreviation w_u64 :: "u64 \<Rightarrow> bytes result" where "w_u64 n \<equiv> Inr (be64 n)"

definition w_string :: "nat \<Rightarrow> bytes \<Rightarrow> bytes result" where
  "w_string limit s = (if length s > limit then Inl Limit else Inr (str32 s))"

definition w_flag :: "bool \<Rightarrow> bytes" where
  "w_flag b = [if b then 1 else 0]"

definition w_optional :: "id16 option \<Rightarrow> bytes" where
  "w_optional i = w_flag (i \<noteq> None) @ (case i of None \<Rightarrow> [] | Some i \<Rightarrow> i)"

definition wf_optional :: "id16 option \<Rightarrow> bool" where
  "wf_optional i = (case i of None \<Rightarrow> True | Some i \<Rightarrow> is_id i)"

definition w_require :: "bool \<Rightarrow> bytes result" where
  "w_require ok = (if ok then Inr [] else Inl Corrupt)"

fun w_all :: "bytes result list \<Rightarrow> bytes result" where
  "w_all [] = Inr []"
| "w_all (x # xs) = result_bind x (\<lambda>a. result_bind (w_all xs) (\<lambda>b. Inr (a @ b)))"

declare w_all.simps(2) [simp del]

lemma w_all_Cons_eq_Inr:
  "w_all (x # xs) = Inr bs \<longleftrightarrow> (\<exists>a b. x = Inr a \<and> w_all xs = Inr b \<and> bs = a @ b)"
  by (auto simp: w_all.simps(2) result_bind_eq_Inr)

lemmas write_simps = w_all_Cons_eq_Inr w_all.simps(1)

lemma w_string_eq_Inr [simp]: "w_string limit s = Inr bs \<longleftrightarrow> length s \<le> limit \<and> bs = str32 s"
  by (auto simp: w_string_def)

lemma w_require_eq_Inr [simp]: "w_require ok = Inr bs \<longleftrightarrow> ok \<and> bs = []"
  by (auto simp: w_require_def)

lemma w_all_map_eq_Inr:
  "w_all (map w xs) = Inr bs \<longleftrightarrow> (\<forall>x\<in>set xs. \<exists>b. w x = Inr b) \<and> bs = concat (map (\<lambda>x. projr (w x)) xs)"
  by (induction xs arbitrary: bs) (auto simp: write_simps)

subsection \<open>Field contracts\<close>

lemma length_concat_const: "(\<And>x. x \<in> set xs \<Longrightarrow> length (f x) = n) \<Longrightarrow> length (concat (map f xs)) = n * length xs"
  by (induction xs) auto

lemma codec_text: "codec (rd_text n) (\<lambda>s. s) (\<lambda>s. length s = n \<and> utf8_valid s)"
  by unfold_locales (auto simp: rd_text_def rbind_eq_Inr take_or_exact)

lemma unat_u32_length: "length s < 2 ^ 32 \<Longrightarrow> unat (of_nat (length s) :: u32) = length s"
  by (simp add: unat_of_nat)

lemma text_length_word: "length s = unat (n :: u32) \<longleftrightarrow> length s < 2 ^ 32 \<and> n = of_nat (length s)"
  using unat_word_less(2) [of n] by (auto simp: word_unat_eq_iff unat_of_nat)

lemma length_prefixed_exact:
  assumes "limit < 2 ^ 32"
  shows "rbind rd_u32 (\<lambda>n. if unat n > limit then rfail e else rd_text (unat n)) (rd pre rest) = Inr (s, r')
    \<longleftrightarrow> (length s \<le> limit \<and> utf8_valid s) \<and> (\<exists>post. rest = str32 s @ post \<and> r' = rd (pre @ str32 s) post)"
proof
  assume "rbind rd_u32 (\<lambda>n. if unat n > limit then rfail e else rd_text (unat n)) (rd pre rest) = Inr (s, r')"
  then obtain n post where n: "unat n \<le> limit" "length s = unat n" "utf8_valid s"
    and at: "rest = be32 n @ s @ post" "r' = rd (pre @ be32 n @ s) post"
    by (auto simp: codec.exact [OF codec_text] fixed_parse not_less)
  have "n = of_nat (length s)" using n(2) by (simp add: text_length_word)
  then show "(length s \<le> limit \<and> utf8_valid s) \<and> (\<exists>post. rest = str32 s @ post \<and> r' = rd (pre @ str32 s) post)"
    using n at by (auto simp: str32_def)
next
  assume R: "(length s \<le> limit \<and> utf8_valid s) \<and> (\<exists>post. rest = str32 s @ post \<and> r' = rd (pre @ str32 s) post)"
  then have "unat (of_nat (length s) :: u32) = length s" using assms by (simp add: unat_u32_length)
  then show "rbind rd_u32 (\<lambda>n. if unat n > limit then rfail e else rd_text (unat n)) (rd pre rest) = Inr (s, r')"
    using R by (auto simp: fixed_run str32_def codec.exact [OF codec_text])
qed

lemma codec_bounded_string:
  "limit < 2 ^ 32 \<Longrightarrow> codec (rd_bounded_string limit) str32 (\<lambda>s. length s \<le> limit \<and> utf8_valid s)"
  unfolding rd_bounded_string_def by unfold_locales (rule length_prefixed_exact)

lemma codec_string:
  "limit < 2 ^ 32 \<Longrightarrow> codec (rd_string limit) str32 (\<lambda>s. length s \<le> limit \<and> utf8_valid s)"
  unfolding rd_string_def by unfold_locales (rule length_prefixed_exact)

lemma codec_flag: "codec rd_flag w_flag (\<lambda>_. True)"
proof (unfold_locales, goal_cases)
  case (1 pre rest v r')
  show ?case by (cases v) (auto simp: rd_flag_def w_flag_def fixed_parse if_reading)
qed

interpretation flag_field: codec rd_flag w_flag "\<lambda>_. True"
  by (rule codec_flag)

lemma codec_optional: "codec rd_optional w_optional wf_optional"
proof (rule codecI, goal_cases)
  case (1 pre rest v r')
  then show ?case
    by (auto simp: rd_optional_def w_optional_def wf_optional_def flag_field.bind_exact parse if_reading)
next
  case (2 pre post v)
  then show ?case
    by (cases v) (auto simp: rd_optional_def w_optional_def wf_optional_def flag_field.bind_run run)
qed

interpretation optional_field: codec rd_optional w_optional wf_optional
  by (rule codec_optional)

lemma codec_cause: "codec rd_cause (\<lambda>c. [cause_code c]) (\<lambda>_. True)"
  unfolding rd_cause_def by (rule cause.codec_coded)

interpretation cause_field: codec rd_cause "\<lambda>c. [cause_code c]" "\<lambda>_. True"
  by (rule codec_cause)

lemma codec_times:
  assumes "codec p enc ok"
  shows "codec (rd_times n p) (\<lambda>xs. concat (map enc xs)) (\<lambda>xs. length xs = n \<and> (\<forall>x\<in>set xs. ok x))"
proof (rule codecI, goal_cases)
  case (1 pre rest v r')
  then show ?case
  proof (induction n arbitrary: pre rest v)
    case (Suc n)
    from Suc.prems obtain x mid xs where x: "ok x" "rest = enc x @ mid" "v = x # xs"
      and "rd_times n p (rd (pre @ enc x) mid) = Inr (xs, r')"
      by (auto simp: codec.exact [OF assms] rbind_eq_Inr)
    from Suc.IH [OF this(4)] x show ?case by auto
  qed simp
next
  case (2 pre post v)
  then show ?case
    by (induction v arbitrary: n pre) (auto simp: codec.bind_run [OF assms] rbind_eq_Inr)
qed

text \<open>\<open>let n = r.byte()?; require(lo <= n && n <= hi)?;\<close> and then \<open>n\<close> items, and the same with a 16-bit count.\<close>

definition rd_counted8 :: "nat \<Rightarrow> nat \<Rightarrow> (replay_error, 'a) reading \<Rightarrow> (replay_error, 'a list) reading" where
  "rd_counted8 lo hi p = rbind rd_byte (\<lambda>n. rbind (rd_require (lo \<le> unat n \<and> unat n \<le> hi)) (\<lambda>_.
    rd_times (unat n) p))"

definition rd_counted16 :: "nat \<Rightarrow> (replay_error, 'a) reading \<Rightarrow> (replay_error, 'a list) reading" where
  "rd_counted16 hi p = rbind rd_u16 (\<lambda>n. rbind (rd_require (unat n \<le> hi)) (\<lambda>_. rd_times (unat n) p))"

lemma length_byte: "length xs < 256 \<Longrightarrow> length xs = unat (n :: u8) \<longleftrightarrow> n = of_nat (length xs)"
  by (auto simp: word_unat_eq_iff unat_of_nat)

lemma length_u16: "length xs < 65536 \<Longrightarrow> length xs = unat (n :: u16) \<longleftrightarrow> n = of_nat (length xs)"
  by (auto simp: word_unat_eq_iff unat_of_nat)

lemma codec_counted8:
  assumes "codec p enc ok" "hi < 256"
  shows "codec (rd_counted8 lo hi p) (\<lambda>xs. [of_nat (length xs)] @ concat (map enc xs))
    (\<lambda>xs. lo \<le> length xs \<and> length xs \<le> hi \<and> (\<forall>x\<in>set xs. ok x))"
proof (rule codecI, goal_cases)
  case (1 pre rest v r')
  then show ?case
    using assms(2) by (auto simp: rd_counted8_def rbind_eq_Inr byte_field.exact
        codec.exact [OF codec_times [OF assms(1)]] length_byte)
next
  case (2 pre post v)
  then have "unat (of_nat (length v) :: u8) = length v" using assms(2) by (simp add: unat_of_nat)
  with 2 show ?case
    by (simp add: rd_counted8_def rbind_eq_Inr byte_field.exact codec.exact [OF codec_times [OF assms(1)]])
qed

lemma codec_counted16:
  assumes "codec p enc ok" "hi < 65536"
  shows "codec (rd_counted16 hi p) (\<lambda>xs. be16 (of_nat (length xs)) @ concat (map enc xs))
    (\<lambda>xs. length xs \<le> hi \<and> (\<forall>x\<in>set xs. ok x))"
proof (rule codecI, goal_cases)
  case (1 pre rest v r')
  then show ?case
    using assms(2) by (auto simp: rd_counted16_def rbind_eq_Inr u16_field.exact
        codec.exact [OF codec_times [OF assms(1)]] length_u16)
next
  case (2 pre post v)
  then have "unat (of_nat (length v) :: u16) = length v" using assms(2) by (simp add: unat_of_nat)
  with 2 show ?case
    by (simp add: rd_counted16_def rbind_eq_Inr u16_field.exact codec.exact [OF codec_times [OF assms(1)]])
qed

text \<open>Texts with a 16-bit or 8-bit length.\<close>

definition str16 :: "bytes \<Rightarrow> bytes" where
  "str16 s = be16 (of_nat (length s)) @ s"

definition str8 :: "bytes \<Rightarrow> bytes" where
  "str8 s = of_nat (length s) # s"

definition rd_str16 :: "(replay_error, bytes) reading" where
  "rd_str16 = rbind rd_u16 (\<lambda>n. rd_text (unat n))"

definition rd_str8 :: "(replay_error, bytes) reading" where
  "rd_str8 = rbind rd_byte (\<lambda>n. rd_text (unat n))"

definition short_text :: "nat \<Rightarrow> bytes \<Rightarrow> bool" where
  "short_text n s \<longleftrightarrow> length s < n \<and> utf8_valid s"

lemma codec_str16: "codec rd_str16 str16 (short_text 65536)"
proof (rule codecI, goal_cases)
  case (1 pre rest v r')
  then obtain n where n: "length v = unat (n :: u16)" "utf8_valid v"
    and at: "\<exists>post. rest = be16 n @ v @ post \<and> r' = rd (pre @ be16 n @ v) post"
    by (auto simp: rd_str16_def parse codec.exact [OF codec_text])
  have "length v < 65536" using unat_word_less(1) n(1) unsigned_less [of n] by simp
  then show ?case using n at by (auto simp: str16_def short_text_def length_u16)
next
  case (2 pre post v)
  then have "unat (of_nat (length v) :: u16) = length v" by (simp add: short_text_def unat_of_nat)
  with 2 show ?case by (simp add: rd_str16_def str16_def short_text_def run codec.exact [OF codec_text])
qed

lemma codec_str8: "codec rd_str8 str8 (short_text 256)"
proof (rule codecI, goal_cases)
  case (1 pre rest v r')
  then obtain n where n: "length v = unat (n :: u8)" "utf8_valid v"
    and at: "\<exists>post. rest = n # v @ post \<and> r' = rd (pre @ n # v) post"
    by (auto simp: rd_str8_def parse codec.exact [OF codec_text])
  have "length v < 256" using n(1) unsigned_less [of n] by simp
  then show ?case using n at by (auto simp: str8_def short_text_def length_byte)
next
  case (2 pre post v)
  then have "unat (of_nat (length v) :: u8) = length v" by (simp add: short_text_def unat_of_nat)
  with 2 show ?case by (simp add: rd_str8_def str8_def short_text_def run codec.exact [OF codec_text])
qed

interpretation text16: codec rd_str16 str16 "short_text 65536"
  by (rule codec_str16)

interpretation text8: codec rd_str8 str8 "short_text 256"
  by (rule codec_str8)

lemmas field_parse [parse] =
  codec.bind_exact [OF codec_string] codec.bind_exact [OF codec_bounded_string]
  flag_field.bind_exact [simplified] optional_field.bind_exact cause_field.bind_exact [simplified]
  terminal.coded.bind_exact [simplified]

lemmas field_run [run] =
  codec.bind_run [OF codec_string] codec.bind_run [OF codec_bounded_string]
  flag_field.bind_run [simplified] optional_field.bind_run cause_field.bind_run [simplified]
  terminal.coded.bind_run [simplified]

lemma flag_byte_run [run]:
  "rbind rd_flag f (rd pre (0 # x)) = f False (rd (pre @ [0]) x)"
  "rbind rd_flag f (rd pre (1 # x)) = f True (rd (pre @ [1]) x)"
  using flag_field.bind_run [of f pre False x] flag_field.bind_run [of f pre True x]
  by (simp_all add: w_flag_def)

lemma require_parse [parse]: "rbind (rd_require b) f r = Inr y \<longleftrightarrow> b \<and> f () r = Inr y"
  by (auto simp: rbind_eq_Inr)

lemma require_run [run]: "b \<Longrightarrow> rbind (rd_require b) f r = f () r"
  by (rule rbind_Inr) simp

lemma lift_run [run]: "rbind (rlift (Inr x)) f r = f x r"
  by (rule rbind_Inr) simp

lemma lift_parse: "rbind (rlift y) f r = Inr z \<longleftrightarrow> (\<exists>x. y = Inr x \<and> f x r = Inr z)"
  by (auto simp: rbind_eq_Inr)

lemma return_run [run]: "rreturn x r = Inr (x, r)"
  by simp

subsection \<open>Record contracts\<close>

text \<open>\<open>decode_record\<close> reads a payload from its first byte and refuses bytes that are left over. A body that
  is read by its size has a contract of whole payloads only.\<close>

definition decode_all :: "(replay_error, 'a) reading \<Rightarrow> bytes \<Rightarrow> 'a result" where
  "decode_all p bs = result_bind (rbind p (\<lambda>v. rbind rd_finish (\<lambda>_. rreturn v)) \<lparr>rd_bytes = bs, rd_offset = 0\<rparr>)
    (\<lambda>(v, _). Inr v)"

lemma decode_all_eq_Inr:
  "decode_all p bs = Inr v \<longleftrightarrow> (\<exists>r'. p (rd [] bs) = Inr (v, r') \<and> rd_offset r' = length (rd_bytes r'))"
  by (auto simp: decode_all_def result_bind_eq_Inr rbind_eq_Inr rd_finish_def rd_start)

locale payload_codec =
  fixes reads :: "(replay_error, 'a) reading"
    and writes :: "'a \<Rightarrow> bytes result"
    and valid :: "'a \<Rightarrow> bool"
  assumes whole: "decode_all reads bs = Inr v \<longleftrightarrow> valid v \<and> writes v = Inr bs"
begin

lemma payload_inject: "valid v \<Longrightarrow> valid w \<Longrightarrow> writes v = Inr bs \<Longrightarrow> writes w = Inr bs \<Longrightarrow> v = w"
  using whole [of bs v] whole [of bs w] by simp

end

locale record_codec =
  fixes reads :: "(replay_error, 'a) reading"
    and writes :: "'a \<Rightarrow> bytes result"
    and valid :: "'a \<Rightarrow> bool"
  assumes exact: "reads (rd pre rest) = Inr (v, r')
    \<longleftrightarrow> valid v \<and> (\<exists>bs post. writes v = Inr bs \<and> rest = bs @ post \<and> r' = rd (pre @ bs) post)"
begin

lemma codec_written: "codec reads (\<lambda>v. projr (writes v)) (\<lambda>v. valid v \<and> (\<exists>bs. writes v = Inr bs))"
proof (unfold_locales, goal_cases)
  case (1 pre rest v r')
  show ?case by (cases "writes v") (auto simp: exact)
qed

end

lemma record_codecI:
  assumes "\<And>pre rest v r'. reads (rd pre rest) = Inr (v, r')
      \<Longrightarrow> valid v \<and> (\<exists>bs post. writes v = Inr bs \<and> rest = bs @ post \<and> r' = rd (pre @ bs) post)"
    and "\<And>pre post v bs. valid v \<Longrightarrow> writes v = Inr bs \<Longrightarrow> reads (rd pre (bs @ post)) = Inr (v, rd (pre @ bs) post)"
  shows "record_codec reads writes valid"
  using assms by unfold_locales blast

sublocale record_codec \<subseteq> written: codec reads "\<lambda>v. projr (writes v)" "\<lambda>v. valid v \<and> (\<exists>bs. writes v = Inr bs)"
  by (rule codec_written)

sublocale record_codec \<subseteq> payload_codec reads writes valid
  by unfold_locales (auto simp: decode_all_eq_Inr exact)

context record_codec
begin

lemma read_back: "valid v \<Longrightarrow> writes v = Inr bs \<Longrightarrow> reads (rd pre (bs @ post)) = Inr (v, rd (pre @ bs) post)"
  by (subst exact) blast

lemma canonical:
  assumes "reads (rd [] bs) = Inr (v, r')" "rd_offset r' = length bs" "rd_bytes r' = bs"
  shows "valid v \<and> writes v = Inr bs"
  using assms by (auto simp: exact)

end

end
