(* ===== verification/Secrets.thy ===== *)
theory Secrets
  imports FieldCodec
begin

section \<open>Secret kinds and refusal codes\<close>

text \<open>
  The parts of \<open>asura-platform/src/secrets\<close> that stored records depend on: the enumerations whose
  stored codes \<open>authority/conversation/codec.rs\<close> writes out.
\<close>

subsection \<open>Enumerations and their stored codes\<close>

text \<open>\<open>ALL.get(usize::from(code).checked_sub(1)?)\<close>.\<close>

definition nth_code :: "'a list \<Rightarrow> u8 \<Rightarrow> 'a option" where
  "nth_code xs code = (if code = 0 then None
    else if unat code - 1 < length xs then Some (xs ! (unat code - 1)) else None)"

lemma nth_code_table:
  assumes "\<And>v. v \<in> set xs" "map code xs = map of_nat [1..<length xs + 1]" "length xs < 256"
  shows "code_table code (nth_code xs)"
proof
  have code: "code (xs ! i) = of_nat (i + 1)" if "i < length xs" for i
    using arg_cong [OF assms(2), of "\<lambda>l. l ! i"] that by (simp del: upt_Suc)
  have small: "unat (of_nat (i + 1) :: u8) = i + 1" if "i < length xs" for i
    using that assms(3) by (simp add: unat_of_nat_u8 del: of_nat_add of_nat_Suc)
  fix b v
  obtain i where i: "i < length xs" "v = xs ! i" using assms(1) by (metis in_set_conv_nth)
  show "nth_code xs b = Some v \<longleftrightarrow> b = code v"
  proof
    assume "nth_code xs b = Some v"
    then have b: "b \<noteq> 0" "unat b - 1 < length xs" "v = xs ! (unat b - 1)"
      by (auto simp: nth_code_def split: if_splits)
    then have "unat b \<noteq> 0" by (simp add: unat_eq_0)
    then show "b = code v" using code [OF b(2)] b(3) by simp
  next
    assume "b = code v"
    then have "unat b = i + 1" using code [OF i(1)] small [OF i(1)] i(2) by simp
    then show "nth_code xs b = Some v" using i by (auto simp: nth_code_def)
  qed
qed

datatype secret_kind =
    PrivateKey | AwsAccessKey | AwsSecretKey | GithubToken | GitlabToken | PypiToken | DockerToken
    | NpmToken | BitbucketToken | VaultToken | FlyToken | WebhookSecret | MailgunKey | GoogleOauth
    | AzureKey | SlackToken | SlackWebhook | ChatWebhook | StripeKey | AnthropicKey | OpenaiKey
    | GoogleApiKey | Jwt | UrlPassword | UrlSecret | AuthHeader | SessionCookie | PasswordHash
    | AssignedSecret | EnvSecret | CliPassword | NetrcPassword | WifiPassword

definition secret_kind_ALL :: "secret_kind list" where
  "secret_kind_ALL =
    [PrivateKey, AwsAccessKey, AwsSecretKey, GithubToken, GitlabToken, PypiToken, DockerToken,
     NpmToken, BitbucketToken, VaultToken, FlyToken, WebhookSecret, MailgunKey, GoogleOauth,
     AzureKey, SlackToken, SlackWebhook, ChatWebhook, StripeKey, AnthropicKey, OpenaiKey,
     GoogleApiKey, Jwt, UrlPassword, UrlSecret, AuthHeader, SessionCookie, PasswordHash,
     AssignedSecret, EnvSecret, CliPassword, NetrcPassword, WifiPassword]"

fun secret_kind_as_str :: "secret_kind \<Rightarrow> bytes" where
  "secret_kind_as_str PrivateKey = ascii ''private-key''"
| "secret_kind_as_str AwsAccessKey = ascii ''aws-access-key''"
| "secret_kind_as_str AwsSecretKey = ascii ''aws-secret-key''"
| "secret_kind_as_str GithubToken = ascii ''github-token''"
| "secret_kind_as_str GitlabToken = ascii ''gitlab-token''"
| "secret_kind_as_str PypiToken = ascii ''pypi-token''"
| "secret_kind_as_str DockerToken = ascii ''docker-token''"
| "secret_kind_as_str NpmToken = ascii ''npm-token''"
| "secret_kind_as_str BitbucketToken = ascii ''bitbucket-token''"
| "secret_kind_as_str VaultToken = ascii ''vault-token''"
| "secret_kind_as_str FlyToken = ascii ''fly-token''"
| "secret_kind_as_str WebhookSecret = ascii ''webhook-secret''"
| "secret_kind_as_str MailgunKey = ascii ''mailgun-key''"
| "secret_kind_as_str GoogleOauth = ascii ''google-oauth''"
| "secret_kind_as_str AzureKey = ascii ''azure-key''"
| "secret_kind_as_str SlackToken = ascii ''slack-token''"
| "secret_kind_as_str SlackWebhook = ascii ''slack-webhook''"
| "secret_kind_as_str ChatWebhook = ascii ''chat-webhook''"
| "secret_kind_as_str StripeKey = ascii ''stripe-key''"
| "secret_kind_as_str AnthropicKey = ascii ''anthropic-key''"
| "secret_kind_as_str OpenaiKey = ascii ''openai-key''"
| "secret_kind_as_str GoogleApiKey = ascii ''google-api-key''"
| "secret_kind_as_str Jwt = ascii ''jwt''"
| "secret_kind_as_str UrlPassword = ascii ''url-password''"
| "secret_kind_as_str UrlSecret = ascii ''url-secret''"
| "secret_kind_as_str AuthHeader = ascii ''auth-header''"
| "secret_kind_as_str SessionCookie = ascii ''session-cookie''"
| "secret_kind_as_str PasswordHash = ascii ''password-hash''"
| "secret_kind_as_str AssignedSecret = ascii ''assigned-secret''"
| "secret_kind_as_str EnvSecret = ascii ''env-secret''"
| "secret_kind_as_str CliPassword = ascii ''cli-password''"
| "secret_kind_as_str NetrcPassword = ascii ''netrc-password''"
| "secret_kind_as_str WifiPassword = ascii ''wifi-password''"

fun kind_code :: "secret_kind \<Rightarrow> u8" where
  "kind_code PrivateKey = 1"
| "kind_code AwsAccessKey = 2"
| "kind_code AwsSecretKey = 3"
| "kind_code GithubToken = 4"
| "kind_code GitlabToken = 5"
| "kind_code PypiToken = 6"
| "kind_code DockerToken = 7"
| "kind_code NpmToken = 8"
| "kind_code BitbucketToken = 9"
| "kind_code VaultToken = 10"
| "kind_code FlyToken = 11"
| "kind_code WebhookSecret = 12"
| "kind_code MailgunKey = 13"
| "kind_code GoogleOauth = 14"
| "kind_code AzureKey = 15"
| "kind_code SlackToken = 16"
| "kind_code SlackWebhook = 17"
| "kind_code ChatWebhook = 18"
| "kind_code StripeKey = 19"
| "kind_code AnthropicKey = 20"
| "kind_code OpenaiKey = 21"
| "kind_code GoogleApiKey = 22"
| "kind_code Jwt = 23"
| "kind_code UrlPassword = 24"
| "kind_code UrlSecret = 25"
| "kind_code AuthHeader = 26"
| "kind_code SessionCookie = 27"
| "kind_code PasswordHash = 28"
| "kind_code AssignedSecret = 29"
| "kind_code EnvSecret = 30"
| "kind_code CliPassword = 31"
| "kind_code NetrcPassword = 32"
| "kind_code WifiPassword = 33"

definition kind_from :: "u8 \<Rightarrow> secret_kind option" where
  "kind_from code = map_of
    [(1, PrivateKey), (2, AwsAccessKey), (3, AwsSecretKey), (4, GithubToken), (5, GitlabToken),
     (6, PypiToken), (7, DockerToken), (8, NpmToken), (9, BitbucketToken), (10, VaultToken),
     (11, FlyToken), (12, WebhookSecret), (13, MailgunKey), (14, GoogleOauth), (15, AzureKey),
     (16, SlackToken), (17, SlackWebhook), (18, ChatWebhook), (19, StripeKey), (20, AnthropicKey),
     (21, OpenaiKey), (22, GoogleApiKey), (23, Jwt), (24, UrlPassword), (25, UrlSecret),
     (26, AuthHeader), (27, SessionCookie), (28, PasswordHash), (29, AssignedSecret),
     (30, EnvSecret), (31, CliPassword), (32, NetrcPassword), (33, WifiPassword)] code"

interpretation secret_kind: code_table kind_code kind_from
proof
  show "kind_from b = Some v \<longleftrightarrow> b = kind_code v" for b v
    by (cases v) (auto simp: kind_from_def)
qed

lemmas secret_kind_parse [parse] = secret_kind.coded.bind_exact [simplified]
lemmas secret_kind_run [run] = secret_kind.coded.bind_run [simplified]

datatype refusal_code =
    RC_PlaceholderNotAvailable | RC_UnparsedCommand | RC_SecretInHeredoc | RC_SecretInSubstitution
    | RC_SecretInInnerScript | RC_SecretSingleQuoted | RC_SecretAnsiQuoted | RC_SecretMixedQuoting
    | RC_SecretWithShellSyntax | RC_TooManySecrets | RC_ResidualSecret | RC_DetectionUnavailable
    | RC_RewrittenCommandTooLong | RC_SecretInCwd | RC_ModelSecretReference

definition refusal_kept :: "refusal_code \<Rightarrow> bool" where
  "refusal_kept code \<longleftrightarrow> code \<in> {RC_PlaceholderNotAvailable, RC_SecretInCwd, RC_DetectionUnavailable,
     RC_ModelSecretReference}"

fun refusal_as_str :: "refusal_code \<Rightarrow> bytes" where
  "refusal_as_str RC_PlaceholderNotAvailable = ascii ''placeholder_not_available''"
| "refusal_as_str RC_UnparsedCommand = ascii ''unparsed_command''"
| "refusal_as_str RC_SecretInHeredoc = ascii ''secret_in_heredoc''"
| "refusal_as_str RC_SecretInSubstitution = ascii ''secret_in_substitution''"
| "refusal_as_str RC_SecretInInnerScript = ascii ''secret_in_inner_script''"
| "refusal_as_str RC_SecretSingleQuoted = ascii ''secret_single_quoted''"
| "refusal_as_str RC_SecretAnsiQuoted = ascii ''secret_ansi_quoted''"
| "refusal_as_str RC_SecretMixedQuoting = ascii ''secret_mixed_quoting''"
| "refusal_as_str RC_SecretWithShellSyntax = ascii ''secret_with_shell_syntax''"
| "refusal_as_str RC_TooManySecrets = ascii ''too_many_secrets''"
| "refusal_as_str RC_ResidualSecret = ascii ''residual_secret''"
| "refusal_as_str RC_DetectionUnavailable = ascii ''secret_detection_unavailable''"
| "refusal_as_str RC_RewrittenCommandTooLong = ascii ''rewritten_command_too_long''"
| "refusal_as_str RC_SecretInCwd = ascii ''secret_in_cwd''"
| "refusal_as_str RC_ModelSecretReference = ascii ''model_secret_reference''"

fun refusal_code_byte :: "refusal_code \<Rightarrow> u8" where
  "refusal_code_byte RC_PlaceholderNotAvailable = 1"
| "refusal_code_byte RC_UnparsedCommand = 2"
| "refusal_code_byte RC_SecretInHeredoc = 3"
| "refusal_code_byte RC_SecretInSubstitution = 4"
| "refusal_code_byte RC_SecretInInnerScript = 5"
| "refusal_code_byte RC_SecretSingleQuoted = 6"
| "refusal_code_byte RC_SecretAnsiQuoted = 7"
| "refusal_code_byte RC_SecretMixedQuoting = 8"
| "refusal_code_byte RC_SecretWithShellSyntax = 9"
| "refusal_code_byte RC_TooManySecrets = 10"
| "refusal_code_byte RC_ResidualSecret = 11"
| "refusal_code_byte RC_DetectionUnavailable = 12"
| "refusal_code_byte RC_RewrittenCommandTooLong = 13"
| "refusal_code_byte RC_SecretInCwd = 14"
| "refusal_code_byte RC_ModelSecretReference = 15"

definition refusal_from :: "u8 \<Rightarrow> refusal_code option" where
  "refusal_from code = map_of
    [(1, RC_PlaceholderNotAvailable), (2, RC_UnparsedCommand), (3, RC_SecretInHeredoc),
     (4, RC_SecretInSubstitution), (5, RC_SecretInInnerScript), (6, RC_SecretSingleQuoted),
     (7, RC_SecretAnsiQuoted), (8, RC_SecretMixedQuoting), (9, RC_SecretWithShellSyntax),
     (10, RC_TooManySecrets), (11, RC_ResidualSecret), (12, RC_DetectionUnavailable),
     (13, RC_RewrittenCommandTooLong), (14, RC_SecretInCwd), (15, RC_ModelSecretReference)] code"

interpretation refusal_code: code_table refusal_code_byte refusal_from
proof
  show "refusal_from b = Some v \<longleftrightarrow> b = refusal_code_byte v" for b v
    by (cases v) (auto simp: refusal_from_def)
qed

datatype loss_reason =
    LineOverLimit | KeyBlockOverLimit | DetectorError

fun loss_code :: "loss_reason \<Rightarrow> u8" where
  "loss_code LineOverLimit = 1"
| "loss_code KeyBlockOverLimit = 2"
| "loss_code DetectorError = 3"

definition loss_from :: "u8 \<Rightarrow> loss_reason option" where
  "loss_from code = map_of
    [(1, LineOverLimit), (2, KeyBlockOverLimit), (3, DetectorError)] code"

interpretation loss_reason: code_table loss_code loss_from
proof
  show "loss_from b = Some v \<longleftrightarrow> b = loss_code v" for b v
    by (cases v) (auto simp: loss_from_def)
qed

lemmas loss_reason_parse [parse] = loss_reason.coded.bind_exact [simplified]
lemmas loss_reason_run [run] = loss_reason.coded.bind_run [simplified]

datatype number_origin =
    OriginCommand | OriginOutput

fun origin_code :: "number_origin \<Rightarrow> u8" where
  "origin_code OriginCommand = 1"
| "origin_code OriginOutput = 2"

definition origin_from :: "u8 \<Rightarrow> number_origin option" where
  "origin_from code = map_of
    [(1, OriginCommand), (2, OriginOutput)] code"

interpretation number_origin: code_table origin_code origin_from
proof
  show "origin_from b = Some v \<longleftrightarrow> b = origin_code v" for b v
    by (cases v) (auto simp: origin_from_def)
qed

lemmas number_origin_parse [parse] = number_origin.coded.bind_exact [simplified]
lemmas number_origin_run [run] = number_origin.coded.bind_run [simplified]

end
