(* ===== verification/ToolTypes.thy ===== *)
theory ToolTypes
  imports Secrets
begin

section \<open>The enumerations of tool call records\<close>

text \<open>
  The registered tools and the operation, decision, fault, reason and argument form codes of kind 14
  (\<open>authority/conversation/types.rs\<close>). The constructor prefixes are the aliases the source uses where it
  has one (\<open>D\<close> for decisions, \<open>F\<close> for faults, \<open>R\<close> for the reasons of text that is not retained).
\<close>

subsection \<open>Optional codes\<close>

text \<open>A byte that is zero for \<open>None\<close> and a table code otherwise.\<close>

definition opt_code :: "('a \<Rightarrow> u8) \<Rightarrow> 'a option \<Rightarrow> u8" where
  "opt_code code v = (case v of None \<Rightarrow> 0 | Some v \<Rightarrow> code v)"

definition rd_opt_coded :: "(u8 \<Rightarrow> 'a option) \<Rightarrow> (replay_error, 'a option) reading" where
  "rd_opt_coded from = rbind rd_byte (\<lambda>b. if b = 0 then rreturn None
    else case from b of None \<Rightarrow> rfail Corrupt | Some v \<Rightarrow> rreturn (Some v))"

locale nonzero_table = code_table code from_code
  for code :: "'a \<Rightarrow> u8" and from_code :: "u8 \<Rightarrow> 'a option" +
  assumes code_nonzero: "code v \<noteq> 0"
begin

lemma codec_opt: "codec (rd_opt_coded from_code) (\<lambda>v. [opt_code code v]) (\<lambda>_. True)"
proof (rule codecI, goal_cases)
  case (1 pre rest v r')
  then show ?case
    by (auto simp: rd_opt_coded_def opt_code_def byte_field.bind_exact if_reading from_code_iff
        split: option.splits if_splits)
next
  case (2 pre post v)
  then show ?case
    by (cases v) (auto simp: rd_opt_coded_def opt_code_def code_nonzero fixed_run)
qed

end

sublocale nonzero_table \<subseteq> opt: codec "rd_opt_coded from_code" "\<lambda>v. [opt_code code v]" "\<lambda>_. True"
  by (rule codec_opt)

text \<open>Numbered enumerations list their values from code 1 on.\<close>

lemma nth_code_nonzero_table:
  assumes "\<And>v. v \<in> set xs" "map code xs = map of_nat [1..<length xs + 1]" "length xs < 256"
  shows "nonzero_table code (nth_code xs)"
proof -
  have "code_table code (nth_code xs)" by (rule nth_code_table [OF assms])
  moreover from this have "code v \<noteq> 0" for v
    by (metis code_table.from_code_code nth_code_def option.distinct(1))
  ultimately show ?thesis by (simp add: nonzero_table_def nonzero_table_axioms_def)
qed

interpretation secret_kind_opt: nonzero_table kind_code kind_from
proof
  show "kind_code v \<noteq> 0" for v by (cases v) simp_all
qed

subsection \<open>Registered tools\<close>

datatype registered_tool = Project | Memory | Service | ExecCmd | Job

definition TOOL_NAMES :: "bytes list" where
  "TOOL_NAMES = map ascii [''project'', ''memory'', ''service'', ''exec_cmd'', ''job'']"

fun position :: "'a \<Rightarrow> 'a list \<Rightarrow> nat option" where
  "position x [] = None"
| "position x (y # ys) = (if y = x then Some 0 else map_option Suc (position x ys))"

definition tool_lookup :: "bytes \<Rightarrow> registered_tool option" where
  "tool_lookup name = map_option
    (\<lambda>i. if i = 0 then Project else if i = 1 then Memory else if i = 2 then Service
      else if i = 3 then ExecCmd else Job) (position name TOOL_NAMES)"

fun tool_index :: "registered_tool \<Rightarrow> nat" where
  "tool_index Project = 0"
| "tool_index Memory = 1"
| "tool_index Service = 2"
| "tool_index ExecCmd = 3"
| "tool_index Job = 4"

definition tool_name :: "registered_tool \<Rightarrow> bytes" where
  "tool_name tool = TOOL_NAMES ! tool_index tool"

text \<open>The lookup inverts the registry names.\<close>

lemma tool_lookup_iff: "tool_lookup name = Some tool \<longleftrightarrow> name = tool_name tool"
  by (cases tool) (auto simp: tool_lookup_def tool_name_def TOOL_NAMES_def ascii_def)


subsection \<open>Sources\<close>

datatype tool_call_source =
    GeneratedContent | ProviderJson

fun source_code :: "tool_call_source \<Rightarrow> u8" where
  "source_code GeneratedContent = 1"
| "source_code ProviderJson = 2"

definition source_from :: "u8 \<Rightarrow> tool_call_source option" where
  "source_from code = map_of
    [(1, GeneratedContent), (2, ProviderJson)] code"

interpretation call_source: code_table source_code source_from
proof
  show "source_from b = Some v \<longleftrightarrow> b = source_code v" for b v
    by (cases v) (auto simp: source_from_def)
qed

subsection \<open>Operations\<close>

datatype tool_operation =
    Op_ReadFile | Op_ListDirectory | Op_Status | Op_Tools | Op_Audit | Op_ListNotes | Op_GetNote
    | Op_NoteSources | Op_CreateNote | Op_ExecCmd | Op_JobList | Op_JobStatus | Op_JobRead
    | Op_JobWait | Op_JobCancel | Op_JobNote

fun tool_operation_code :: "tool_operation \<Rightarrow> u8" where
  "tool_operation_code Op_ReadFile = 1"
| "tool_operation_code Op_ListDirectory = 2"
| "tool_operation_code Op_Status = 3"
| "tool_operation_code Op_Tools = 4"
| "tool_operation_code Op_Audit = 5"
| "tool_operation_code Op_ListNotes = 6"
| "tool_operation_code Op_GetNote = 7"
| "tool_operation_code Op_NoteSources = 8"
| "tool_operation_code Op_CreateNote = 9"
| "tool_operation_code Op_ExecCmd = 10"
| "tool_operation_code Op_JobList = 11"
| "tool_operation_code Op_JobStatus = 12"
| "tool_operation_code Op_JobRead = 13"
| "tool_operation_code Op_JobWait = 14"
| "tool_operation_code Op_JobCancel = 15"
| "tool_operation_code Op_JobNote = 16"

definition tool_operation_ALL :: "tool_operation list" where
  "tool_operation_ALL =
    [Op_ReadFile, Op_ListDirectory, Op_Status, Op_Tools, Op_Audit, Op_ListNotes, Op_GetNote,
     Op_NoteSources, Op_CreateNote, Op_ExecCmd, Op_JobList, Op_JobStatus, Op_JobRead, Op_JobWait,
     Op_JobCancel, Op_JobNote]"

definition tool_operation_from_code :: "u8 \<Rightarrow> tool_operation option" where
  "tool_operation_from_code code = nth_code tool_operation_ALL code"

interpretation tool_operation: nonzero_table tool_operation_code tool_operation_from_code
proof (unfold tool_operation_from_code_def [abs_def], rule nth_code_nonzero_table)
  show "v \<in> set tool_operation_ALL" for v by (cases v) (simp_all add: tool_operation_ALL_def)
qed (simp_all add: tool_operation_ALL_def upt_rec)

fun tool_operation_as_str :: "tool_operation \<Rightarrow> bytes" where
  "tool_operation_as_str Op_ReadFile = ascii ''read_file''"
| "tool_operation_as_str Op_ListDirectory = ascii ''list_directory''"
| "tool_operation_as_str Op_Status = ascii ''status''"
| "tool_operation_as_str Op_Tools = ascii ''tools''"
| "tool_operation_as_str Op_Audit = ascii ''audit''"
| "tool_operation_as_str Op_ListNotes = ascii ''list_notes''"
| "tool_operation_as_str Op_GetNote = ascii ''get_note''"
| "tool_operation_as_str Op_NoteSources = ascii ''note_sources''"
| "tool_operation_as_str Op_CreateNote = ascii ''create_note''"
| "tool_operation_as_str Op_ExecCmd = ascii ''exec_cmd''"
| "tool_operation_as_str Op_JobList = ascii ''list''"
| "tool_operation_as_str Op_JobStatus = ascii ''status''"
| "tool_operation_as_str Op_JobRead = ascii ''read''"
| "tool_operation_as_str Op_JobWait = ascii ''wait''"
| "tool_operation_as_str Op_JobCancel = ascii ''cancel''"
| "tool_operation_as_str Op_JobNote = ascii ''note''"

fun operation_tool :: "tool_operation \<Rightarrow> registered_tool" where
  "operation_tool Op_ReadFile = Project"
| "operation_tool Op_ListDirectory = Project"
| "operation_tool Op_Status = Service"
| "operation_tool Op_Tools = Service"
| "operation_tool Op_Audit = Service"
| "operation_tool Op_ListNotes = Memory"
| "operation_tool Op_GetNote = Memory"
| "operation_tool Op_NoteSources = Memory"
| "operation_tool Op_CreateNote = Memory"
| "operation_tool Op_ExecCmd = ExecCmd"
| "operation_tool Op_JobList = Job"
| "operation_tool Op_JobStatus = Job"
| "operation_tool Op_JobRead = Job"
| "operation_tool Op_JobWait = Job"
| "operation_tool Op_JobCancel = Job"
| "operation_tool Op_JobNote = Job"

definition job_result_operation :: "tool_operation \<Rightarrow> bool" where
  "job_result_operation op \<longleftrightarrow> tool_operation_code Op_ExecCmd \<le> tool_operation_code op"

subsection \<open>Decisions\<close>

datatype tool_decision =
    D_Run | D_InvalidArguments | D_UnknownTool | D_Refused | D_Busy | D_Denied | D_Limit
    | D_Cancelled

fun tool_decision_code :: "tool_decision \<Rightarrow> u8" where
  "tool_decision_code D_Run = 1"
| "tool_decision_code D_InvalidArguments = 2"
| "tool_decision_code D_UnknownTool = 3"
| "tool_decision_code D_Refused = 4"
| "tool_decision_code D_Busy = 5"
| "tool_decision_code D_Denied = 6"
| "tool_decision_code D_Limit = 7"
| "tool_decision_code D_Cancelled = 8"

definition tool_decision_ALL :: "tool_decision list" where
  "tool_decision_ALL =
    [D_Run, D_InvalidArguments, D_UnknownTool, D_Refused, D_Busy, D_Denied, D_Limit, D_Cancelled]"

definition tool_decision_from_code :: "u8 \<Rightarrow> tool_decision option" where
  "tool_decision_from_code code = nth_code tool_decision_ALL code"

interpretation tool_decision: nonzero_table tool_decision_code tool_decision_from_code
proof (unfold tool_decision_from_code_def [abs_def], rule nth_code_nonzero_table)
  show "v \<in> set tool_decision_ALL" for v by (cases v) (simp_all add: tool_decision_ALL_def)
qed (simp_all add: tool_decision_ALL_def upt_rec)

fun tool_decision_as_str :: "tool_decision \<Rightarrow> bytes" where
  "tool_decision_as_str D_Run = ascii ''run''"
| "tool_decision_as_str D_InvalidArguments = ascii ''invalid_arguments''"
| "tool_decision_as_str D_UnknownTool = ascii ''unknown_tool''"
| "tool_decision_as_str D_Refused = ascii ''refused''"
| "tool_decision_as_str D_Busy = ascii ''busy''"
| "tool_decision_as_str D_Denied = ascii ''denied''"
| "tool_decision_as_str D_Limit = ascii ''limit''"
| "tool_decision_as_str D_Cancelled = ascii ''cancelled''"

fun decision_status :: "tool_decision \<Rightarrow> u8 option" where
  "decision_status D_Run = None"
| "decision_status D_InvalidArguments = Some 3"
| "decision_status D_UnknownTool = Some 3"
| "decision_status D_Refused = Some 3"
| "decision_status D_Busy = Some 4"
| "decision_status D_Denied = Some 2"
| "decision_status D_Limit = Some 7"
| "decision_status D_Cancelled = Some 6"

subsection \<open>Faults\<close>

datatype tool_fault =
    F_InvalidJson | F_JsonLimit | F_NotObject | F_DuplicateKey | F_UnknownCommand | F_MissingField
    | F_UnexpectedField | F_WrongType | F_OutOfRange | F_UnsafePath | F_InvalidVersionId
    | F_ArgumentsOverLimit | F_NameOverLimit | F_InvalidText | F_UnregisteredName | F_InvalidJobId

fun tool_fault_code :: "tool_fault \<Rightarrow> u8" where
  "tool_fault_code F_InvalidJson = 1"
| "tool_fault_code F_JsonLimit = 2"
| "tool_fault_code F_NotObject = 3"
| "tool_fault_code F_DuplicateKey = 4"
| "tool_fault_code F_UnknownCommand = 5"
| "tool_fault_code F_MissingField = 6"
| "tool_fault_code F_UnexpectedField = 7"
| "tool_fault_code F_WrongType = 8"
| "tool_fault_code F_OutOfRange = 9"
| "tool_fault_code F_UnsafePath = 10"
| "tool_fault_code F_InvalidVersionId = 11"
| "tool_fault_code F_ArgumentsOverLimit = 12"
| "tool_fault_code F_NameOverLimit = 13"
| "tool_fault_code F_InvalidText = 14"
| "tool_fault_code F_UnregisteredName = 15"
| "tool_fault_code F_InvalidJobId = 16"

definition tool_fault_ALL :: "tool_fault list" where
  "tool_fault_ALL =
    [F_InvalidJson, F_JsonLimit, F_NotObject, F_DuplicateKey, F_UnknownCommand, F_MissingField,
     F_UnexpectedField, F_WrongType, F_OutOfRange, F_UnsafePath, F_InvalidVersionId,
     F_ArgumentsOverLimit, F_NameOverLimit, F_InvalidText, F_UnregisteredName, F_InvalidJobId]"

definition tool_fault_from_code :: "u8 \<Rightarrow> tool_fault option" where
  "tool_fault_from_code code = nth_code tool_fault_ALL code"

interpretation tool_fault: nonzero_table tool_fault_code tool_fault_from_code
proof (unfold tool_fault_from_code_def [abs_def], rule nth_code_nonzero_table)
  show "v \<in> set tool_fault_ALL" for v by (cases v) (simp_all add: tool_fault_ALL_def)
qed (simp_all add: tool_fault_ALL_def upt_rec)

fun tool_fault_as_str :: "tool_fault \<Rightarrow> bytes" where
  "tool_fault_as_str F_InvalidJson = ascii ''invalid_json''"
| "tool_fault_as_str F_JsonLimit = ascii ''json_limit''"
| "tool_fault_as_str F_NotObject = ascii ''not_object''"
| "tool_fault_as_str F_DuplicateKey = ascii ''duplicate_key''"
| "tool_fault_as_str F_UnknownCommand = ascii ''unknown_command''"
| "tool_fault_as_str F_MissingField = ascii ''missing_field''"
| "tool_fault_as_str F_UnexpectedField = ascii ''unexpected_field''"
| "tool_fault_as_str F_WrongType = ascii ''wrong_type''"
| "tool_fault_as_str F_OutOfRange = ascii ''out_of_range''"
| "tool_fault_as_str F_UnsafePath = ascii ''unsafe_path''"
| "tool_fault_as_str F_InvalidVersionId = ascii ''invalid_version_id''"
| "tool_fault_as_str F_ArgumentsOverLimit = ascii ''arguments_over_limit''"
| "tool_fault_as_str F_NameOverLimit = ascii ''name_over_limit''"
| "tool_fault_as_str F_InvalidText = ascii ''invalid_text''"
| "tool_fault_as_str F_UnregisteredName = ascii ''unregistered_name''"
| "tool_fault_as_str F_InvalidJobId = ascii ''invalid_job_id''"

subsection \<open>Argument forms\<close>

datatype not_retained_reason =
    R_Oversized | R_DetectionUnavailable | R_UnverifiableEscape

fun not_retained_code :: "not_retained_reason \<Rightarrow> u8" where
  "not_retained_code R_Oversized = 1"
| "not_retained_code R_DetectionUnavailable = 2"
| "not_retained_code R_UnverifiableEscape = 3"

fun not_retained_as_str :: "not_retained_reason \<Rightarrow> bytes" where
  "not_retained_as_str R_Oversized = ascii ''oversized''"
| "not_retained_as_str R_DetectionUnavailable = ascii ''detection_unavailable''"
| "not_retained_as_str R_UnverifiableEscape = ascii ''unverifiable_escape''"

datatype argument_form = Verbatim | Canonical | Unparsed | NotRetained not_retained_reason

fun form_code :: "argument_form \<Rightarrow> u8" where
  "form_code Verbatim = 1"
| "form_code Canonical = 2"
| "form_code Unparsed = 3"
| "form_code (NotRetained _) = 4"

fun form_not_retained :: "argument_form \<Rightarrow> not_retained_reason option" where
  "form_not_retained (NotRetained reason) = Some reason"
| "form_not_retained _ = None"

definition form_from :: "u8 \<Rightarrow> u8 \<Rightarrow> argument_form option" where
  "form_from form reason = map_of
    [((1, 0), Verbatim), ((2, 0), Canonical), ((3, 0), Unparsed), ((4, 1), NotRetained R_Oversized),
     ((4, 2), NotRetained R_DetectionUnavailable), ((4, 3), NotRetained R_UnverifiableEscape)]
    (form, reason)"

definition rd_form :: "(replay_error, argument_form) reading" where
  "rd_form = rbind rd_byte (\<lambda>form. rbind rd_byte (\<lambda>reason.
    case form_from form reason of None \<Rightarrow> rfail Corrupt | Some v \<Rightarrow> rreturn v))"

definition w_form :: "argument_form \<Rightarrow> bytes" where
  "w_form form = [form_code form, opt_code not_retained_code (form_not_retained form)]"

lemma form_from_iff:
  "form_from a b = Some form \<longleftrightarrow> w_form form = [a, b]"
proof (cases form)
  case (NotRetained reason)
  then show ?thesis by (cases reason) (auto simp: form_from_def w_form_def opt_code_def)
qed (auto simp: form_from_def w_form_def opt_code_def)

lemma codec_form: "codec rd_form w_form (\<lambda>_. True)"
proof (rule codecI, goal_cases)
  case (1 pre rest v r')
  then show ?case
    by (auto simp: rd_form_def fixed_parse coded_eq_Inr form_from_iff)
next
  case (2 pre post v)
  obtain a b where ab: "w_form v = [a, b]" by (simp add: w_form_def)
  then have "form_from a b = Some v" by (simp add: form_from_iff)
  then show ?case
    by (simp add: rd_form_def ab fixed_run)
qed

interpretation argument_form: codec rd_form w_form "\<lambda>_. True"
  by (rule codec_form)


subsection \<open>Decision reasons\<close>

datatype tool_decision_reason =
    DR_QueueFull | DR_JobsFull | DR_Closed | DR_ExecutionOff | DR_PolicyDenied
    | DR_PolicyUnavailable | DR_PolicyBusy

definition decision_reason_ALL :: "tool_decision_reason list" where
  "decision_reason_ALL =
    [DR_QueueFull, DR_JobsFull, DR_Closed, DR_ExecutionOff, DR_PolicyDenied, DR_PolicyUnavailable,
     DR_PolicyBusy]"

fun reason_decision :: "tool_decision_reason \<Rightarrow> tool_decision" where
  "reason_decision DR_QueueFull = D_Busy"
| "reason_decision DR_JobsFull = D_Busy"
| "reason_decision DR_Closed = D_Busy"
| "reason_decision DR_ExecutionOff = D_Denied"
| "reason_decision DR_PolicyDenied = D_Denied"
| "reason_decision DR_PolicyUnavailable = D_Denied"
| "reason_decision DR_PolicyBusy = D_Busy"

fun reason_code :: "tool_decision_reason \<Rightarrow> u8" where
  "reason_code DR_QueueFull = 1"
| "reason_code DR_JobsFull = 2"
| "reason_code DR_Closed = 3"
| "reason_code DR_ExecutionOff = 1"
| "reason_code DR_PolicyDenied = 2"
| "reason_code DR_PolicyUnavailable = 3"
| "reason_code DR_PolicyBusy = 4"

definition reason_from_code :: "tool_decision \<Rightarrow> u8 \<Rightarrow> tool_decision_reason option option" where
  "reason_from_code decision code = (if code = 0 then Some None
    else map_option Some (find (\<lambda>r. reason_decision r = decision \<and> reason_code r = code) decision_reason_ALL))"

fun reason_as_str :: "tool_decision_reason \<Rightarrow> bytes" where
  "reason_as_str DR_QueueFull = ascii ''queue_full''"
| "reason_as_str DR_JobsFull = ascii ''jobs_full''"
| "reason_as_str DR_Closed = ascii ''closed''"
| "reason_as_str DR_ExecutionOff = ascii ''execution_off''"
| "reason_as_str DR_PolicyDenied = ascii ''policy_denied''"
| "reason_as_str DR_PolicyUnavailable = ascii ''policy_unavailable''"
| "reason_as_str DR_PolicyBusy = ascii ''policy_busy''"

definition reason_fits :: "tool_decision \<Rightarrow> tool_decision_reason option \<Rightarrow> bool" where
  "reason_fits decision r = (case r of None \<Rightarrow> True | Some r \<Rightarrow> reason_decision r = decision)"

lemma reason_from_code_iff:
  "reason_from_code decision code = Some r \<longleftrightarrow> reason_fits decision r \<and> code = opt_code reason_code r"
proof (cases r)
  case None
  have "reason_code x \<noteq> 0" for x by (cases x) simp_all
  then show ?thesis
    by (auto simp: None reason_from_code_def reason_fits_def opt_code_def)
next
  case (Some x)
  then show ?thesis
    by (cases x; cases decision)
      (auto simp: reason_from_code_def reason_fits_def opt_code_def decision_reason_ALL_def)
qed

definition rd_reason :: "tool_decision \<Rightarrow> (replay_error, tool_decision_reason option) reading" where
  "rd_reason decision = rd_coded (reason_from_code decision)"

lemma codec_reason: "codec (rd_reason decision) (\<lambda>r. [opt_code reason_code r]) (reason_fits decision)"
  by unfold_locales
    (auto simp: rd_reason_def coded_or_def rbind_eq_Inr byte_field.exact coded_eq_Inr reason_from_code_iff)

interpretation decision_reason: codec "rd_reason decision" "\<lambda>r. [opt_code reason_code r]" "reason_fits decision"
  for decision
  by (rule codec_reason)

subsection \<open>Reading and writing the codes\<close>

lemmas tool_code_parse [parse] =
  secret_kind_opt.opt.bind_exact [simplified] call_source.coded.bind_exact [simplified]
  tool_operation.opt.bind_exact [simplified] tool_decision.coded.bind_exact [simplified]
  tool_fault.opt.bind_exact [simplified] argument_form.bind_exact [simplified]
  decision_reason.bind_exact [simplified]

lemmas tool_code_run [run] =
  secret_kind_opt.opt.bind_run [simplified] call_source.coded.bind_run [simplified]
  tool_operation.opt.bind_run [simplified] tool_decision.coded.bind_run [simplified]
  tool_fault.opt.bind_run [simplified] argument_form.bind_run [simplified]
  decision_reason.bind_run [simplified]

end
