(* ===== verification/Texts.thy ===== *)
theory Texts
  imports Prelude
begin

section \<open>Text operations\<close>

text \<open>
  The operations of Rust's \<open>str\<close> and \<open>u8\<close> that the grammars of the sources use: ASCII classes, \<open>split\<close> and
  \<open>join\<close> at a separator, and the control characters. Splitting at an ASCII byte keeps UTF-8 validity, so
  the slices of the sources never fall inside a character.
\<close>

subsection \<open>Character classes\<close>

definition ascii_lowercase :: "u8 \<Rightarrow> bool" where
  "ascii_lowercase b \<longleftrightarrow> 0x61 \<le> b \<and> b \<le> 0x7A"

definition ascii_uppercase :: "u8 \<Rightarrow> bool" where
  "ascii_uppercase b \<longleftrightarrow> 0x41 \<le> b \<and> b \<le> 0x5A"

definition ascii_digit :: "u8 \<Rightarrow> bool" where
  "ascii_digit b \<longleftrightarrow> 0x30 \<le> b \<and> b \<le> 0x39"

definition ascii_alphabetic :: "u8 \<Rightarrow> bool" where
  "ascii_alphabetic b \<longleftrightarrow> ascii_lowercase b \<or> ascii_uppercase b"

definition ascii_alphanumeric :: "u8 \<Rightarrow> bool" where
  "ascii_alphanumeric b \<longleftrightarrow> ascii_alphabetic b \<or> ascii_digit b"

lemma ascii_range_small:
  "ascii_lowercase b \<Longrightarrow> b < 0x80" "ascii_uppercase b \<Longrightarrow> b < 0x80" "ascii_digit b \<Longrightarrow> b < 0x80"
  "b \<le> 0x7E \<Longrightarrow> b < (0x80 :: u8)"
  by (auto simp: ascii_lowercase_def ascii_uppercase_def ascii_digit_def intro: le_less_trans)

lemma ascii_alphanumeric_small: "ascii_alphanumeric b \<Longrightarrow> b < 0x80"
  by (auto simp: ascii_alphanumeric_def ascii_alphabetic_def intro: ascii_range_small)

text \<open>\<open>char::is_control\<close> is the general category Cc: U+0000 to U+001F and U+007F to U+009F, of which the last
  32 are the two-byte sequences \<open>C2 80\<close> to \<open>C2 9F\<close>. In valid UTF-8 the byte \<open>C2\<close> only starts a character.\<close>

fun has_control :: "bytes \<Rightarrow> bool" where
  "has_control [] = False"
| "has_control (a # s) \<longleftrightarrow> a < 0x20 \<or> a = 0x7F \<or>
    (a = 0xC2 \<and> (case s of b # _ \<Rightarrow> 0x80 \<le> b \<and> b \<le> 0x9F | [] \<Rightarrow> False)) \<or> has_control s"

lemma no_control_no_nul: "\<not> has_control s \<Longrightarrow> 0 \<notin> set s"
  by (induction s) auto

subsection \<open>Splitting and joining\<close>

fun split_on :: "'a \<Rightarrow> 'a list \<Rightarrow> 'a list list" where
  "split_on c [] = [[]]"
| "split_on c (x # xs) = (if x = c then [] # split_on c xs
    else case split_on c xs of [] \<Rightarrow> [[x]] | y # ys \<Rightarrow> (x # y) # ys)"

fun join :: "'a \<Rightarrow> 'a list list \<Rightarrow> 'a list" where
  "join c [] = []"
| "join c [x] = x"
| "join c (x # y # ys) = x @ c # join c (y # ys)"

lemma split_on_nonempty [simp]: "split_on c xs \<noteq> []"
  by (cases xs) (auto split: list.splits)

lemma join_Cons: "ys \<noteq> [] \<Longrightarrow> join c (x # ys) = x @ c # join c ys"
  by (cases ys) simp_all

lemma join_split_on [simp]: "join c (split_on c xs) = xs"
proof (induction xs)
  case (Cons x xs)
  obtain y ys where y: "split_on c xs = y # ys" by (cases "split_on c xs") auto
  with Cons have "join c (y # ys) = xs" by simp
  then show ?case using y by (cases ys) (auto simp: join_Cons)
qed simp

lemma split_on_parts: "part \<in> set (split_on c xs) \<Longrightarrow> c \<notin> set part"
proof (induction xs arbitrary: part)
  case (Cons x xs)
  then show ?case
  proof (cases "split_on c xs")
    case (Cons y ys)
    then show ?thesis using Cons.IH Cons.prems by (auto split: if_splits)
  qed simp
qed simp

lemma in_set_split_on: "part \<in> set (split_on c xs) \<Longrightarrow> x \<in> set part \<Longrightarrow> x \<in> set xs"
proof (induction xs arbitrary: part)
  case (Cons a xs)
  obtain y ys where y: "split_on c xs = y # ys" by (cases "split_on c xs") auto
  have "x \<in> set y \<Longrightarrow> x \<in> set xs" "\<And>q. q \<in> set ys \<Longrightarrow> x \<in> set q \<Longrightarrow> x \<in> set xs"
    using Cons.IH y by auto
  then show ?case using Cons.prems y by (auto split: if_splits)
qed simp

lemma split_on_free: "c \<notin> set x \<Longrightarrow> split_on c x = [x]"
  by (induction x) auto

lemma split_on_append: "c \<notin> set x \<Longrightarrow> split_on c (x @ c # y) = x # split_on c y"
  by (induction x) auto

lemma split_on_join: "xss \<noteq> [] \<Longrightarrow> \<forall>x\<in>set xss. c \<notin> set x \<Longrightarrow> split_on c (join c xss) = xss"
  by (induction xss rule: join.induct) (auto simp: split_on_free split_on_append)

lemma length_join: "xss \<noteq> [] \<Longrightarrow> Suc (length (join c xss)) = sum_list (map (\<lambda>x. Suc (length x)) xss)"
  by (induction xss rule: join.induct) auto

lemma set_join: "set (join c xss) \<subseteq> insert c (\<Union> (set ` set xss))"
  by (induction xss rule: join.induct) auto

lemma length_join_filter: "length (join c (filter P xss)) \<le> length (join c xss)"
proof (cases "filter P xss = []")
  case False
  then have "xss \<noteq> []" by auto
  moreover have "sum_list (map (\<lambda>x. Suc (length x)) (filter P xss)) \<le> sum_list (map (\<lambda>x. Suc (length x)) xss)"
    by (rule sum_list_filter_le_nat)
  ultimately show ?thesis using length_join [OF False, of c] length_join [of xss c] by linarith
qed simp

definition absolute :: "bytes \<Rightarrow> bool" where
  "absolute e \<longleftrightarrow> e \<noteq> [] \<and> hd e = 0x2F"

subsection \<open>Splitting at an ASCII byte keeps the characters\<close>

lemma utf8_tail_ascii_split:
  assumes "utf8_tail (a @ c # b) = Some r" "c < 0x80" "a \<noteq> []"
  shows "\<exists>a'. utf8_tail a = Some a' \<and> r = a' @ c # b"
proof -
  have c: "\<not> utf8_cont c" using assms(2) by (auto simp: utf8_cont_def)
  obtain x xs where a: "a = x # xs" using assms(3) by (cases a) auto
  show ?thesis
    using assms(1) c unfolding a
    by (cases xs; cases "tl xs"; cases "tl (tl xs)") (auto split: if_splits list.splits)
qed

lemma utf8_valid_mid: "c < 0x80 \<Longrightarrow> utf8_valid (a @ c # b) \<longleftrightarrow> utf8_valid a \<and> utf8_valid b"
proof (induction a rule: utf8_valid.induct)
  case (1 a)
  show ?case
  proof (cases "a = []")
    case True
    then show ?thesis using "1.prems" by (simp add: utf8_valid_Cons)
  next
    case False
    show ?thesis
    proof (cases "utf8_tail a")
      case None
      then have "utf8_tail (a @ c # b) = None"
        using utf8_tail_ascii_split [OF _ "1.prems" False] by (cases "utf8_tail (a @ c # b)") auto
      then show ?thesis using None False by (simp add: utf8_valid.simps [of a] utf8_valid.simps [of "a @ c # b"])
    next
      case (Some r)
      then show ?thesis
        using "1.IH" [OF False Some "1.prems"] utf8_tail_append [OF Some, of "c # b"] False
        by (simp add: utf8_valid.simps [of a] utf8_valid.simps [of "a @ c # b"])
    qed
  qed
qed

lemma utf8_valid_join:
  "c < 0x80 \<Longrightarrow> utf8_valid (join c xss) \<longleftrightarrow> (\<forall>x\<in>set xss. utf8_valid x)"
  by (induction xss rule: join.induct) (auto simp: utf8_valid_mid)

end
