(* ===== verification/PolicyFields.thy ===== *)
theory PolicyFields
  imports FieldCodec Texts
begin

section \<open>Policy texts and the policy refusal of a tool call\<close>

text \<open>
  The first part of \<open>authority/conversation/policy.rs\<close>: the grammars of reason codes, policy IDs, rule
  IDs, explanations and versions, and the policy refusal field that ends a kind 14 payload.
\<close>

subsection \<open>Grammars\<close>

abbreviation MAX_POLICY_RULES :: nat where "MAX_POLICY_RULES \<equiv> 8"
abbreviation MAX_POLICY_SCOPES :: nat where "MAX_POLICY_SCOPES \<equiv> 4"
abbreviation MAX_POLICY_REASON :: nat where "MAX_POLICY_REASON \<equiv> 48"
abbreviation MAX_POLICY_ID :: nat where "MAX_POLICY_ID \<equiv> 64"
abbreviation MAX_POLICY_RULE :: nat where "MAX_POLICY_RULE \<equiv> 75"
abbreviation MAX_POLICY_EXPLAIN :: nat where "MAX_POLICY_EXPLAIN \<equiv> 200"
abbreviation MAX_POLICY_VERSION :: nat where "MAX_POLICY_VERSION \<equiv> 16"
abbreviation MAX_POLICY_IDS :: nat where "MAX_POLICY_IDS \<equiv> 512"

definition POLICY_SCOPE_NAMES :: "bytes list" where
  "POLICY_SCOPE_NAMES = map ascii [''installation'', ''user'', ''workspace'', ''repository'']"

definition valid_policy_reason :: "bytes \<Rightarrow> bool" where
  "valid_policy_reason s \<longleftrightarrow> 1 \<le> length s \<and> length s \<le> MAX_POLICY_REASON \<and>
    (\<forall>b\<in>set s. ascii_lowercase b \<or> ascii_digit b \<or> b = 0x5F)"

definition valid_policy_id :: "bytes \<Rightarrow> bool" where
  "valid_policy_id s \<longleftrightarrow> 1 \<le> length s \<and> length s \<le> MAX_POLICY_ID \<and>
    (\<forall>b\<in>set s. ascii_lowercase b \<or> ascii_digit b \<or> b \<in> {0x5F, 0x2E, 0x2D})"

definition split_once :: "u8 \<Rightarrow> bytes \<Rightarrow> (bytes \<times> bytes) option" where
  "split_once c s = (if c \<in> set s
    then Some (takeWhile (\<lambda>b. b \<noteq> c) s, tl (dropWhile (\<lambda>b. b \<noteq> c) s)) else None)"

definition valid_policy_rule :: "bytes \<Rightarrow> bool" where
  "valid_policy_rule s = (case split_once 0x3A s of
      Some (scope, i) \<Rightarrow> scope \<in> set POLICY_SCOPE_NAMES \<and> valid_policy_id i
    | None \<Rightarrow> False)"

definition valid_policy_explain :: "bytes \<Rightarrow> bool" where
  "valid_policy_explain s \<longleftrightarrow> length s \<le> MAX_POLICY_EXPLAIN \<and> (\<forall>b\<in>set s. 0x20 \<le> b \<and> b \<le> 0x7E)"

definition valid_version :: "bytes \<Rightarrow> bool" where
  "valid_version s \<longleftrightarrow> 1 \<le> length s \<and> length s \<le> MAX_POLICY_VERSION \<and>
    (\<forall>b\<in>set s. ascii_digit b \<or> b = 0x2E)"

lemma split_once_eq:
  assumes "split_once c s = Some (a, b)"
  shows "s = a @ c # b \<and> c \<notin> set a"
proof -
  from assms have c: "c \<in> set s" and a: "a = takeWhile (\<lambda>b. b \<noteq> c) s" and b: "b = tl (dropWhile (\<lambda>b. b \<noteq> c) s)"
    by (auto simp: split_once_def split: if_splits)
  from c have "dropWhile (\<lambda>b. b \<noteq> c) s \<noteq> []" by (auto simp: dropWhile_eq_Nil_conv)
  moreover have "hd (dropWhile (\<lambda>b. b \<noteq> c) s) = c"
    using hd_dropWhile [OF calculation] by simp
  ultimately have "dropWhile (\<lambda>b. b \<noteq> c) s = c # b" using b by (metis list.collapse)
  then show ?thesis using a by (metis (lifting) set_takeWhileD takeWhile_dropWhile_id)
qed

lemma policy_id_ascii: "valid_policy_id s \<Longrightarrow> \<forall>b\<in>set s. b < 0x80"
  by (auto simp: valid_policy_id_def dest!: bspec intro: ascii_range_small)

lemma policy_rule_ascii:
  assumes "valid_policy_rule s"
  shows "\<forall>b\<in>set s. b < 0x80"
proof -
  obtain a b where "split_once 0x3A s = Some (a, b)" "a \<in> set POLICY_SCOPE_NAMES" "valid_policy_id b"
    using assms by (auto simp: valid_policy_rule_def split: option.splits)
  then show ?thesis
    using split_once_eq [of "0x3A" s a b] policy_id_ascii [of b]
    by (auto simp: POLICY_SCOPE_NAMES_def ascii_def)
qed

lemma policy_text_utf8:
  "valid_policy_reason s \<Longrightarrow> utf8_valid s" "valid_policy_id s \<Longrightarrow> utf8_valid s"
  "valid_policy_rule s \<Longrightarrow> utf8_valid s" "valid_policy_explain s \<Longrightarrow> utf8_valid s"
  "valid_version s \<Longrightarrow> utf8_valid s"
  using policy_id_ascii [of s] policy_rule_ascii [of s]
  by (auto simp: valid_policy_reason_def valid_policy_explain_def valid_version_def
      dest!: bspec intro!: utf8_valid_ascii intro: ascii_range_small)

lemma policy_text_length:
  "valid_policy_reason s \<Longrightarrow> length s \<le> MAX_POLICY_REASON" "valid_policy_id s \<Longrightarrow> length s \<le> MAX_POLICY_ID"
  "valid_policy_explain s \<Longrightarrow> length s \<le> MAX_POLICY_EXPLAIN" "valid_version s \<Longrightarrow> length s \<le> MAX_POLICY_VERSION"
  by (auto simp: valid_policy_reason_def valid_policy_id_def valid_policy_explain_def valid_version_def)

subsection \<open>The policy refusal field\<close>

record policy_refusal =
  pf_scope :: u8
  pf_reason :: bytes
  pf_rule :: bytes
  pf_explain :: bytes

definition policy_refusal_validate :: "policy_refusal \<Rightarrow> unit result" where
  "policy_refusal_validate p = require (pf_scope p \<le> 4 \<and> valid_policy_reason (pf_reason p) \<and>
    (pf_rule p = [] \<or> valid_policy_rule (pf_rule p)) \<and> valid_policy_explain (pf_explain p) \<and>
    (pf_explain p = [] \<or> pf_scope p \<in> {1, 2}))"

definition policy_refusal_fields :: "policy_refusal option \<Rightarrow> bytes" where
  "policy_refusal_fields v = (case v of
      None \<Rightarrow> [0]
    | Some p \<Rightarrow> [1] @ [pf_scope p] @ str32 (pf_reason p) @ str32 (pf_rule p) @ str32 (pf_explain p))"

definition read_policy_refusal :: "(replay_error, policy_refusal option) reading" where
  "read_policy_refusal = rbind rd_flag (\<lambda>present. if \<not> present then rreturn None else
    rbind rd_byte (\<lambda>scope. rbind (rd_bounded_string MAX_POLICY_REASON) (\<lambda>reason.
    rbind (rd_bounded_string MAX_POLICY_RULE) (\<lambda>rule. rbind (rd_bounded_string MAX_POLICY_EXPLAIN) (\<lambda>explain.
    let v = \<lparr>pf_scope = scope, pf_reason = reason, pf_rule = rule, pf_explain = explain\<rparr> in
    rbind (rlift (policy_refusal_validate v)) (\<lambda>_. rreturn (Some v)))))))"

text \<open>
  A refusal that reads back: valid, and with a rule ID that the reader's bound admits. The second
  part is not implied by the first, because an installation rule ID may be 77 bytes long.
\<close>

definition wf_policy_refusal :: "policy_refusal option \<Rightarrow> bool" where
  "wf_policy_refusal v = (case v of None \<Rightarrow> True
    | Some p \<Rightarrow> policy_refusal_validate p = Inr () \<and> length (pf_rule p) \<le> MAX_POLICY_RULE)"

lemma policy_refusal_codec: "codec read_policy_refusal policy_refusal_fields wf_policy_refusal"
proof (rule codecI, goal_cases)
  case (1 pre rest v r')
  then show ?case
    by (auto simp: read_policy_refusal_def policy_refusal_fields_def wf_policy_refusal_def w_flag_def
        if_reading parse lift_parse Let_def)
next
  case (2 pre post v)
  show ?case
  proof (cases v)
    case None
    then show ?thesis by (simp add: read_policy_refusal_def policy_refusal_fields_def run)
  next
    case (Some p)
    then have ok: "policy_refusal_validate p = Inr ()" "length (pf_rule p) \<le> MAX_POLICY_RULE"
      using 2 by (auto simp: wf_policy_refusal_def)
    then have texts: "utf8_valid (pf_reason p)" "utf8_valid (pf_rule p)" "utf8_valid (pf_explain p)"
      "length (pf_reason p) \<le> MAX_POLICY_REASON" "length (pf_explain p) \<le> MAX_POLICY_EXPLAIN"
      by (auto simp: policy_refusal_validate_def policy_text_utf8 policy_text_length)
    show ?thesis
      using ok texts
      by (cases p) (auto simp: Some read_policy_refusal_def policy_refusal_fields_def run Let_def)
  qed
qed

interpretation policy_refusal: codec read_policy_refusal policy_refusal_fields wf_policy_refusal
  by (rule policy_refusal_codec)

lemmas policy_refusal_parse [parse] = policy_refusal.bind_exact
lemmas policy_refusal_run [run] = policy_refusal.bind_run

end
