(* ===== verification/Placeholders.thy ===== *)
theory Placeholders
  imports Texts
begin

section \<open>Placeholder tokens\<close>

text \<open>
  The placeholder scanner of \<open>asura-platform/src/secrets/arguments.rs\<close>: \<open>tokens\<close>,
  \<open>placeholder_tokens\<close> and \<open>neutralize\<close>, and \<open>placeholder\<close> of \<open>secrets.rs\<close>. \<open>neutralize\<close> is the text that one call of the
  function appends to its output; what its callers write around that text is not modelled. A text is the list of its UTF-8 bytes. The scanner keeps a position \<open>from\<close>; the proofs
  show that it only depends on the bytes after \<open>from\<close> (\<open>scan\<close>), because \<open>from\<close> always stands after a
  byte that is neither a dollar sign nor a brace.
\<close>

subsection \<open>The scanner\<close>

definition TOKEN :: bytes where
  "TOKEN = ascii ''ASURA_SECRET_''"

abbreviation dollar :: u8 where "dollar \<equiv> 0x24"
abbreviation open_brace :: u8 where "open_brace \<equiv> 0x7B"
abbreviation close_brace :: u8 where "close_brace \<equiv> 0x7D"
abbreviation zero_digit :: u8 where "zero_digit \<equiv> 0x30"

fun find_bytes :: "bytes \<Rightarrow> bytes \<Rightarrow> nat option" where
  "find_bytes [] needle = None"
| "find_bytes (b # haystack) needle =
    (if take (length needle) (b # haystack) = needle then Some 0
     else map_option Suc (find_bytes haystack needle))"

text \<open>\<open>str::parse::<u32>\<close> on a run of decimal digits.\<close>

definition digits_value :: "bytes \<Rightarrow> nat" where
  "digits_value ds = foldl (\<lambda>n d. n * 10 + (unat d - 48)) 0 ds"

definition parse_u32 :: "bytes \<Rightarrow> u32 option" where
  "parse_u32 ds = (if digits_value ds < 2 ^ 32 then Some (of_nat (digits_value ds)) else None)"

definition token_number :: "bytes \<Rightarrow> u32 option" where
  "token_number ds = (if 1 < length ds \<and> hd ds = zero_digit then None else parse_u32 ds)"

record token =
  tok_start :: nat
  tok_end :: nat
  tok_number :: "u32 option"

definition token_prefixed :: "bytes \<Rightarrow> nat \<Rightarrow> bool" where
  "token_prefixed text at \<longleftrightarrow> (1 \<le> at \<and> text ! (at - 1) = dollar) \<or>
    (2 \<le> at \<and> text ! (at - 1) = open_brace \<and> text ! (at - 2) = dollar)"

lemma find_bytes_Some:
  "find_bytes h needle = Some f \<Longrightarrow> take (length needle) (drop f h) = needle \<and> f < length h"
  by (induction h needle arbitrary: f rule: find_bytes.induct) (auto split: if_splits)

lemma length_TOKEN [simp]: "length TOKEN = 13"
  by (simp add: TOKEN_def)

lemma TOKEN_nonempty [simp]: "TOKEN \<noteq> []"
  using length_TOKEN by (metis list.size(3) zero_neq_numeral)

lemma find_TOKEN_bound:
  assumes "find_bytes h TOKEN = Some f"
  shows "f + 13 \<le> length h"
proof -
  have "length (take 13 (drop f h)) = 13" "f < length h"
    using find_bytes_Some [OF assms] by (metis length_TOKEN, simp)
  then show ?thesis by (simp add: min_def split: if_splits)
qed

function tokens_from :: "bytes \<Rightarrow> nat \<Rightarrow> token list" where
  "tokens_from text from = (case find_bytes (drop from text) TOKEN of
      None \<Rightarrow> []
    | Some found \<Rightarrow>
        (let at = from + found;
             start = at + length TOKEN;
             digits = takeWhile ascii_digit (drop start text);
             after = start + length digits
         in if \<not> token_prefixed text at \<or> after = start then tokens_from text start
            else \<lparr>tok_start = start, tok_end = after, tok_number = token_number digits\<rparr>
              # tokens_from text after))"
  by pat_completeness auto
termination
  by (relation "measure (\<lambda>(text, from). length text - from)") (auto dest!: find_TOKEN_bound)

declare tokens_from.simps [simp del]

definition tokens :: "bytes \<Rightarrow> token list" where
  "tokens text = tokens_from text 0"

record placeholder_set =
  pt_max :: u32
  pt_distinct :: "u32 list"
  pt_zero :: u32
  pt_malformed :: bool

definition placeholder_default :: placeholder_set where
  "placeholder_default = \<lparr>pt_max = 0, pt_distinct = [], pt_zero = 0, pt_malformed = False\<rparr>"

text \<open>
  The list is kept sorted, so \<open>binary_search\<close> finds \<open>n\<close> exactly when it is a member, and inserting at
  the position it reports is \<^const>\<open>insort\<close>.
\<close>

definition count_token :: "placeholder_set \<Rightarrow> token \<Rightarrow> placeholder_set" where
  "count_token result token = (case tok_number token of
      None \<Rightarrow> result\<lparr>pt_malformed := True\<rparr>
    | Some n \<Rightarrow> if n = 0 then result\<lparr>pt_zero := pt_zero result + 1\<rparr>
        else result\<lparr>pt_max := max (pt_max result) n,
          pt_distinct := (if n \<in> set (pt_distinct result) then pt_distinct result
            else insort n (pt_distinct result))\<rparr>)"

definition placeholder_tokens :: "bytes \<Rightarrow> placeholder_set" where
  "placeholder_tokens text = foldl count_token placeholder_default (tokens text)"

fun neutralize_from :: "bytes \<Rightarrow> nat \<Rightarrow> token list \<Rightarrow> bytes" where
  "neutralize_from text cursor [] = drop cursor text"
| "neutralize_from text cursor (token # rest) =
    subrange cursor (tok_start token) text @ [zero_digit] @ neutralize_from text (tok_end token) rest"

definition neutralize :: "bytes \<Rightarrow> bytes" where
  "neutralize text = neutralize_from text 0 (tokens text)"

subsection \<open>The scanner depends on the remaining bytes only\<close>

definition boundary :: "bytes \<Rightarrow> bool" where
  "boundary pre \<longleftrightarrow> pre = [] \<or> last pre \<noteq> dollar \<and> last pre \<noteq> open_brace"

definition shift :: "nat \<Rightarrow> token \<Rightarrow> token" where
  "shift n token = token\<lparr>tok_start := tok_start token + n, tok_end := tok_end token + n\<rparr>"

abbreviation scan :: "bytes \<Rightarrow> token list" where
  "scan rest \<equiv> tokens_from rest 0"

lemma token_prefixed_append:
  assumes "boundary pre" "f < length rest"
  shows "token_prefixed (pre @ rest) (length pre + f) = token_prefixed rest f"
proof (cases "pre = []")
  case False
  then have pre: "0 < length pre" "pre ! (length pre - 1) \<noteq> dollar" "pre ! (length pre - 1) \<noteq> open_brace"
    using assms(1) by (auto simp: boundary_def last_conv_nth)
  consider "f = 0" | "f = 1" | "2 \<le> f" by linarith
  then show ?thesis
    using pre assms(2) by cases (auto simp: token_prefixed_def nth_append)
qed simp

lemma boundary_TOKEN [simp]: "boundary (pre @ TOKEN)"
  by (simp add: boundary_def TOKEN_def ascii_def)

lemma digit_ne: "ascii_digit b \<Longrightarrow> b \<noteq> dollar \<and> b \<noteq> open_brace"
  by (auto simp: ascii_digit_def)

lemma boundary_digits: "ds \<noteq> [] \<Longrightarrow> (\<forall>d\<in>set ds. ascii_digit d) \<Longrightarrow> boundary (pre @ ds)"
  unfolding boundary_def using digit_ne [of "last ds"] by simp

lemma shift_shift [simp]: "shift a \<circ> shift b = shift (a + b)"
  by (auto simp: shift_def fun_eq_iff)

lemma split_at_token:
  assumes "find_bytes rest TOKEN = Some f"
  obtains h t where "rest = h @ TOKEN @ t" "length h = f"
proof
  show "rest = take f rest @ TOKEN @ drop (f + 13) rest"
    using find_bytes_Some [OF assms] by (metis append_take_drop_id length_TOKEN drop_drop add.commute)
  show "length (take f rest) = f" using find_bytes_Some [OF assms] by simp
qed

lemma tokens_from_token:
  assumes "boundary pre" "find_bytes (h @ TOKEN @ t) TOKEN = Some (length h)"
  defines "ds \<equiv> takeWhile ascii_digit t" and "n \<equiv> length pre + length h + 13"
  shows "tokens_from (pre @ h @ TOKEN @ t) (length pre) =
    (if \<not> token_prefixed (h @ TOKEN @ t) (length h) \<or> ds = []
     then tokens_from ((pre @ h @ TOKEN) @ t) (length (pre @ h @ TOKEN))
     else \<lparr>tok_start = n, tok_end = n + length ds, tok_number = token_number ds\<rparr>
       # tokens_from ((pre @ h @ TOKEN @ ds) @ dropWhile ascii_digit t) (length (pre @ h @ TOKEN @ ds)))"
proof -
  have "(pre @ h @ TOKEN @ ds) @ dropWhile ascii_digit t = pre @ h @ TOKEN @ t"
    by (simp add: ds_def)
  moreover have "drop n (pre @ h @ TOKEN @ t) = t" by (simp add: n_def)
  ultimately show ?thesis
    using assms(2) token_prefixed_append [OF assms(1), of "length h" "h @ TOKEN @ t"]
    by (subst tokens_from.simps) (simp add: Let_def n_def ds_def add.assoc)
qed

lemma tokens_from_append:
  "boundary pre \<Longrightarrow> tokens_from (pre @ rest) (length pre) = map (shift (length pre)) (scan rest)"
proof (induction "length rest" arbitrary: pre rest rule: less_induct)
  case less
  show ?case
  proof (cases "find_bytes rest TOKEN")
    case None
    then show ?thesis by (simp add: tokens_from.simps [of "pre @ rest"] tokens_from.simps [of rest])
  next
    case (Some f)
    then obtain h t where rest: "rest = h @ TOKEN @ t" and f: "find_bytes (h @ TOKEN @ t) TOKEN = Some (length h)"
      by (metis split_at_token)
    let ?ds = "takeWhile ascii_digit t" and ?t = "dropWhile ascii_digit t"
    have shorter: "length t < length rest" "length ?t < length rest"
      using length_dropWhile_le [of ascii_digit t] by (simp_all add: rest)
    have digits: "boundary (p @ h @ TOKEN @ ?ds)" for p
      using boundary_digits [of ?ds "p @ h @ TOKEN"] boundary_TOKEN [of "p @ h"]
      by (cases "?ds = []") (auto dest: set_takeWhileD)
    have "boundary []" by (simp add: boundary_def)
    note step = tokens_from_token [OF _ f]
    show ?thesis
      unfolding rest using step [OF less.prems] step [OF \<open>boundary []\<close>]
        less.hyps [OF shorter(1) boundary_TOKEN [of "pre @ h"]] less.hyps [OF shorter(1) boundary_TOKEN [of h]]
        less.hyps [OF shorter(2) digits [of pre]] less.hyps [OF shorter(2) digits [of "[]"]]
      by (simp add: shift_def add.assoc)
  qed
qed

subsection \<open>Neutralised text\<close>

text \<open>\<open>neut\<close> is \<^const>\<open>neutralize\<close> by recursion on the remaining bytes.\<close>

lemma scan_None: "find_bytes rest TOKEN = None \<Longrightarrow> scan rest = []"
  by (simp add: tokens_from.simps [of rest])

lemma scan_token:
  assumes "find_bytes (h @ TOKEN @ t) TOKEN = Some (length h)"
  defines "ds \<equiv> takeWhile ascii_digit t" and "n \<equiv> length h + 13"
  shows "scan (h @ TOKEN @ t) =
    (if \<not> token_prefixed (h @ TOKEN @ t) (length h) \<or> ds = [] then map (shift n) (scan t)
     else \<lparr>tok_start = n, tok_end = n + length ds, tok_number = token_number ds\<rparr>
       # map (shift (n + length ds)) (scan (dropWhile ascii_digit t)))"
proof -
  have "boundary (h @ TOKEN @ ds)"
    using boundary_digits [of ds "h @ TOKEN"] boundary_TOKEN [of h]
    by (cases "ds = []") (auto simp: ds_def dest: set_takeWhileD)
  from tokens_from_append [OF this, of "dropWhile ascii_digit t"]
    tokens_from_append [OF boundary_TOKEN [of h], of t] tokens_from_token [OF _ assms(1), of "[]"]
  show ?thesis by (simp add: boundary_def ds_def n_def add.assoc)
qed

lemma neutralize_from_shift:
  "neutralize_from (pre @ rest) (length pre + c) (map (shift (length pre)) ts) = neutralize_from rest c ts"
proof (induction ts arbitrary: c)
  case (Cons x ts)
  then show ?case by (simp add: shift_def subrange_def add.commute [of _ "length pre"])
qed simp

lemma neutralize_from_skip:
  "neutralize_from (pre @ rest) 0 (map (shift (length pre)) ts) = pre @ neutralize_from rest 0 ts"
proof (cases ts)
  case (Cons x xs)
  then show ?thesis
    using neutralize_from_shift [of pre rest "tok_end x" xs]
    by (simp add: shift_def subrange_def add.commute)
qed simp

lemma neutralize_None: "find_bytes text TOKEN = None \<Longrightarrow> neutralize text = text"
  by (simp add: neutralize_def tokens_def scan_None)

lemma neutralize_token:
  assumes "find_bytes (h @ TOKEN @ t) TOKEN = Some (length h)"
  defines "ds \<equiv> takeWhile ascii_digit t"
  shows "neutralize (h @ TOKEN @ t) =
    (if \<not> token_prefixed (h @ TOKEN @ t) (length h) \<or> ds = [] then h @ TOKEN @ neutralize t
     else h @ TOKEN @ [zero_digit] @ neutralize (dropWhile ascii_digit t))"
proof -
  have t: "h @ TOKEN @ t = (h @ TOKEN @ ds) @ dropWhile ascii_digit t" by (simp add: ds_def)
  have "neutralize_from (h @ TOKEN @ t) (length h + 13 + length ds)
      (map (shift (length h + 13 + length ds)) (scan (dropWhile ascii_digit t)))
    = neutralize (dropWhile ascii_digit t)"
    unfolding t using neutralize_from_shift [of "h @ TOKEN @ ds" "dropWhile ascii_digit t" 0]
    by (simp add: neutralize_def tokens_def add.assoc)
  moreover have "neutralize_from (h @ TOKEN @ t) 0 (map (shift (length h + 13)) (scan t))
    = h @ TOKEN @ neutralize t"
    using neutralize_from_skip [of "h @ TOKEN" t "scan t"] by (simp add: neutralize_def tokens_def)
  moreover have "subrange 0 (length h + 13) (h @ TOKEN @ t) = h @ TOKEN" by (simp add: subrange_def)
  ultimately show ?thesis
    using scan_token [OF assms(1)] by (simp add: neutralize_def tokens_def ds_def [symmetric])
qed

lemma find_bytes_prefix:
  assumes "find_bytes (h @ needle @ t) needle = Some (length h)" "needle \<noteq> []"
  shows "find_bytes (h @ needle @ u) needle = Some (length h)"
  using assms
proof (induction h)
  case Nil
  then show ?case by (cases needle) auto
next
  case (Cons b h)
  have "take (length needle) (b # h @ needle @ t) = take (length needle) (b # h @ needle @ u)"
    by (simp add: take_Cons' )
  then show ?case using Cons by (auto split: if_splits)
qed

lemma token_cases:
  obtains (none) "find_bytes text TOKEN = None"
    | (token) h t where "text = h @ TOKEN @ t" "find_bytes (h @ TOKEN @ t) TOKEN = Some (length h)"
  by (metis not_Some_eq split_at_token)

lemma neutralize_digits: "takeWhile ascii_digit (neutralize t) = [] \<longleftrightarrow> takeWhile ascii_digit t = []"
proof (cases t rule: token_cases)
  case (token h u)
  have "takeWhile ascii_digit (h @ TOKEN @ x) = [] \<longleftrightarrow> takeWhile ascii_digit (h @ TOKEN) = []" for x
    by (cases h) (auto simp: TOKEN_def ascii_def)
  then show ?thesis unfolding token(1) neutralize_token [OF token(2)] by simp
qed (simp add: neutralize_None)

lemma token_prefixed_same:
  "token_prefixed (h @ x) (length h) = token_prefixed (h @ y) (length h)"
  by (auto simp: token_prefixed_def nth_append)

lemma dropWhile_digits: "takeWhile P (dropWhile P xs) = []"
  by (induction xs) auto

lemma token_number_0: "token_number [zero_digit] = Some 0"
  by (simp add: token_number_def parse_u32_def digits_value_def)

lemma tok_number_shift [simp]: "tok_number \<circ> shift n = tok_number"
  by (simp add: shift_def fun_eq_iff)

lemma scan_neutralize:
  "map tok_number (scan (neutralize s)) = replicate (length (scan s)) (Some 0)"
proof (induction "length s" arbitrary: s rule: less_induct)
  case less
  show ?case
  proof (cases s rule: token_cases)
    case (token h t)
    let ?ds = "takeWhile ascii_digit t" and ?t = "dropWhile ascii_digit t"
    have shorter: "length t < length s" "length ?t < length s"
      using length_dropWhile_le [of ascii_digit t] by (simp_all add: token(1))
    note find = find_bytes_prefix [OF token(2) TOKEN_nonempty]
    have prefixed: "token_prefixed (h @ TOKEN @ x) (length h) = token_prefixed (h @ TOKEN @ t) (length h)" for x
      by (rule token_prefixed_same)
    show ?thesis
    proof (cases "\<not> token_prefixed (h @ TOKEN @ t) (length h) \<or> ?ds = []")
      case True
      then have "neutralize s = h @ TOKEN @ neutralize t"
        "length (scan s) = length (scan t)"
        unfolding token(1) by (simp_all add: neutralize_token [OF token(2)] scan_token [OF token(2)])
      moreover have "\<not> token_prefixed (h @ TOKEN @ neutralize t) (length h)
          \<or> takeWhile ascii_digit (neutralize t) = []"
        using True prefixed [of "neutralize t"] neutralize_digits by simp
      ultimately show ?thesis
        using less [OF shorter(1)] scan_token [OF find, of "neutralize t"] by simp
    next
      case False
      have ds: "takeWhile ascii_digit (zero_digit # neutralize ?t) = [zero_digit]"
        "dropWhile ascii_digit (zero_digit # neutralize ?t) = neutralize ?t"
        using neutralize_digits [of ?t] dropWhile_digits [of ascii_digit t]
        by (simp_all add: ascii_digit_def takeWhile_eq_Nil_iff dropWhile_eq_self_iff)
      have "neutralize s = h @ TOKEN @ zero_digit # neutralize ?t"
        "length (scan s) = Suc (length (scan ?t))"
        using False unfolding token(1) by (simp_all add: neutralize_token [OF token(2)] scan_token [OF token(2)])
      then show ?thesis
        using False less [OF shorter(2)] prefixed [of "zero_digit # neutralize ?t"]
          scan_token [OF find, of "zero_digit # neutralize ?t", unfolded ds token_number_0] by simp
    qed
  qed (simp add: neutralize_None scan_None)
qed

subsection \<open>What the counts say\<close>

definition nonzero_numbers :: "token list \<Rightarrow> u32 set" where
  "nonzero_numbers ts = {n. n \<noteq> 0 \<and> Some n \<in> tok_number ` set ts}"

lemma nonzero_numbers_Nil [simp]: "nonzero_numbers [] = {}"
  by (simp add: nonzero_numbers_def)

lemma nonzero_numbers_snoc:
  "nonzero_numbers (ts @ [t]) = nonzero_numbers ts \<union> (case tok_number t of None \<Rightarrow> {} | Some n \<Rightarrow> {n} - {0})"
  by (auto simp: nonzero_numbers_def split: option.splits)

lemma finite_nonzero_numbers [simp]: "finite (nonzero_numbers ts)"
proof (rule finite_subset)
  show "nonzero_numbers ts \<subseteq> the ` tok_number ` set ts"
    by (auto simp: nonzero_numbers_def) (metis image_eqI option.sel)
qed simp

lemma foldl_count_token:
  fixes ts defines "p \<equiv> foldl count_token placeholder_default ts"
  shows "sorted (pt_distinct p)" "distinct (pt_distinct p)" "set (pt_distinct p) = nonzero_numbers ts"
    "pt_max p = Max (insert 0 (nonzero_numbers ts))"
    "pt_malformed p \<longleftrightarrow> None \<in> tok_number ` set ts"
    "pt_zero p = of_nat (length (filter (\<lambda>t. tok_number t = Some 0) ts))"
  unfolding p_def
proof (induction ts rule: rev_induct)
  case (snoc t ts)
  { case 1 show ?case using snoc(1) by (auto simp: count_token_def sorted_insort split: option.splits) }
  { case 2 show ?case using snoc(2) by (auto simp: count_token_def distinct_insort split: option.splits) }
  { case 3 show ?case using snoc(3)
      by (auto simp: count_token_def nonzero_numbers_snoc set_insort_key split: option.splits) }
  { case 4 show ?case using snoc(4)
      by (cases "tok_number t")
        (auto simp: count_token_def nonzero_numbers_snoc insert_commute Max_insert max.commute Un_Diff) }
  { case 5 show ?case using snoc(5) by (auto simp: count_token_def split: option.splits) }
  { case 6 show ?case using snoc(6) by (auto simp: count_token_def split: option.splits) }
qed (simp_all add: placeholder_default_def)

lemma foldl_count_zero:
  "map tok_number ts = replicate n (Some 0) \<Longrightarrow> foldl count_token p ts = p\<lparr>pt_zero := pt_zero p + of_nat n\<rparr>"
proof (induction n arbitrary: p ts)
  case (Suc n)
  then obtain t rest where ts: "ts = t # rest" "tok_number t = Some 0" "map tok_number rest = replicate n (Some 0)"
    by (cases ts) auto
  from Suc.IH [OF ts(3)] show ?case by (simp add: ts(1,2) count_token_def add.assoc)
qed simp

subsection \<open>Printed placeholders\<close>

fun decimal :: "nat \<Rightarrow> bytes" where
  "decimal n = (if n < 10 then [0x30 + of_nat n] else decimal (n div 10) @ [0x30 + of_nat (n mod 10)])"

declare decimal.simps [simp del]

definition placeholder :: "u32 \<Rightarrow> bytes" where
  "placeholder number = dollar # TOKEN @ decimal (unat number)"

lemma unat_digit: "d < 10 \<Longrightarrow> unat (0x30 + of_nat d :: u8) = 48 + d"
  by (simp add: unat_word_ariths unat_of_nat_u8)

lemma digit_is_digit: "d < 10 \<Longrightarrow> ascii_digit (0x30 + of_nat d)"
  by (simp add: ascii_digit_def word_le_nat_alt unat_digit)

lemma decimal_digits: "\<forall>d\<in>set (decimal n). ascii_digit d"
  by (induction n rule: decimal.induct) (subst decimal.simps, auto simp: digit_is_digit)

lemma digits_value_decimal: "digits_value (decimal n) = n"
  by (induction n rule: decimal.induct)
    (subst decimal.simps, auto simp: digits_value_def unat_digit)

lemma decimal_leading: "decimal n \<noteq> [] \<and> (hd (decimal n) = zero_digit \<longleftrightarrow> n = 0)"
proof (induction n rule: decimal.induct)
  case (1 n)
  show ?case
  proof (cases "n < 10")
    case True
    then have "(0x30 + of_nat n :: u8) = zero_digit \<longleftrightarrow> n = 0"
      by (simp add: word_unat_eq_iff unat_digit)
    then show ?thesis using True by (simp add: decimal.simps)
  next
    case False
    then show ?thesis using 1 by (subst (1 2) decimal.simps) (auto simp: div_eq_0_iff)
  qed
qed

lemma token_number_decimal: "token_number (decimal (unat number)) = Some number"
proof -
  have "\<not> (1 < length (decimal (unat number)) \<and> hd (decimal (unat number)) = zero_digit)"
    using decimal_leading [of "unat number"] by (auto simp: decimal.simps [of 0])
  then show ?thesis
    using unsigned_less [of number] by (simp add: token_number_def parse_u32_def digits_value_decimal)
qed

lemma tokens_placeholder:
  fixes number :: u32
  assumes "rest = [] \<or> \<not> ascii_digit (hd rest)"
  defines "n \<equiv> length (placeholder number)"
  shows "tokens (placeholder number @ rest) =
    \<lparr>tok_start = 14, tok_end = n, tok_number = Some number\<rparr> # map (shift n) (tokens rest)"
proof -
  have tw: "takeWhile ascii_digit (decimal (unat number) @ rest) = decimal (unat number)"
    "dropWhile ascii_digit (decimal (unat number) @ rest) = rest"
    using assms(1) decimal_digits [of "unat number"]
    by (cases rest, auto simp: takeWhile_append2 dropWhile_append2)+
  have "find_bytes ([dollar] @ TOKEN @ decimal (unat number) @ rest) TOKEN = Some (length [dollar])"
    by (simp add: TOKEN_def ascii_def)
  from scan_token [OF this] decimal_leading [of "unat number"]
  show ?thesis
    by (simp add: tokens_def placeholder_def n_def tw token_prefixed_def token_number_decimal)
qed

subsection \<open>Properties\<close>

text \<open>
  C24: Neutralised text holds no numbered placeholder. Whatever the model wrote, after \<open>neutralize\<close>
  the scanner finds exactly as many tokens as before, all of them unnumbered and none malformed.
\<close>

theorem neutralize_unnumbered:
  "placeholder_tokens (neutralize text) =
    \<lparr>pt_max = 0, pt_distinct = [], pt_zero = of_nat (length (tokens text)), pt_malformed = False\<rparr>"
  unfolding placeholder_tokens_def tokens_def
  by (subst foldl_count_zero [OF scan_neutralize]) (simp add: placeholder_default_def)

end
