(* ===== verification/ToolCalls.thy ===== *)
theory ToolCalls
  imports ToolTypes PolicyFields Placeholders
begin

unbundle bit_operations_syntax

section \<open>Tool call records (kind 14)\<close>

text \<open>
  \<open>ToolCall\<close> of \<open>authority/conversation/types.rs\<close> with \<open>validate\<close>, \<open>write_tool_call\<close>,
  \<open>tool_call_fields\<close> and \<open>read_tool_call\<close> of \<open>authority/conversation/codec.rs\<close>. The conjuncts of
  \<open>validate\<close> are one definition each, named as the source names them.
\<close>

abbreviation MAX_TOOL_ARGUMENTS :: nat where "MAX_TOOL_ARGUMENTS \<equiv> 64000"
abbreviation MAX_TOOL_NAME :: nat where "MAX_TOOL_NAME \<equiv> 256"
abbreviation MAX_STORED_TOOL_NAME :: nat where "MAX_STORED_TOOL_NAME \<equiv> 512"
abbreviation MAX_TOOL_NUMBERS :: nat where "MAX_TOOL_NUMBERS \<equiv> 256"
abbreviation MAX_TOOL_CALL_ORDINAL :: u32 where "MAX_TOOL_CALL_ORDINAL \<equiv> 201"
abbreviation MAX_EXEC_CMD_VARIABLES :: nat where "MAX_EXEC_CMD_VARIABLES \<equiv> 16"
abbreviation MAX_REFUSAL_WORD :: u16 where "MAX_REFUSAL_WORD \<equiv> 4096"
abbreviation MAX_TOOL_CALL_PAYLOAD :: nat where "MAX_TOOL_CALL_PAYLOAD \<equiv> 65203"

record exec_cmd_refusal =
  er_code :: refusal_code
  er_kind :: "secret_kind option"
  er_word :: "u16 option"

record tool_call =
  tc_operation :: id16
  tc_generation :: u64
  tc_ordinal :: u32
  tc_source :: tool_call_source
  tc_name :: bytes
  tc_name_bytes :: u32
  tc_tool_operation :: "tool_operation option"
  tc_decision :: tool_decision
  tc_fault :: "tool_fault option"
  tc_reason :: "tool_decision_reason option"
  tc_form :: argument_form
  tc_arguments_bytes :: u32
  tc_arguments :: bytes
  tc_number_kinds :: "secret_kind list"
  tc_unnumbered :: u32
  tc_rule_set_revision :: u32
  tc_rule_set_digest :: hash32
  tc_command_cut :: bool
  tc_whole_command :: bool
  tc_refusal :: "exec_cmd_refusal option"
  tc_policy :: "policy_refusal option"

definition received_secret_values :: "tool_call \<Rightarrow> bool" where
  "received_secret_values p \<longleftrightarrow> tc_tool_operation p = Some Op_ExecCmd \<and>
    (tc_number_kinds p \<noteq> [] \<or> tc_whole_command p)"

subsection \<open>Validation\<close>

definition tc_named :: "tool_call \<Rightarrow> bool" where
  "tc_named p \<longleftrightarrow> tc_name p \<noteq> []"

definition tc_exec :: "tool_call \<Rightarrow> bool" where
  "tc_exec p \<longleftrightarrow> tc_tool_operation p = Some Op_ExecCmd"

definition tc_rules :: "tool_call \<Rightarrow> bool" where
  "tc_rules p \<longleftrightarrow> tc_rule_set_revision p \<noteq> 0"

definition tc_received_text :: "tool_call \<Rightarrow> bool" where
  "tc_received_text p \<longleftrightarrow> unat (tc_arguments_bytes p) \<le> MAX_TOOL_ARGUMENTS"

definition tool_call_shape :: "tool_call \<Rightarrow> bool" where
  "tool_call_shape p \<longleftrightarrow>
    tc_operation p \<noteq> zero_id \<and> 1 \<le> tc_generation p \<and>
    1 \<le> tc_ordinal p \<and> tc_ordinal p \<le> MAX_TOOL_CALL_ORDINAL \<and>
    (tc_ordinal p \<noteq> MAX_TOOL_CALL_ORDINAL \<or> tc_decision p \<in> {D_Limit, D_Cancelled}) \<and>
    length (tc_name p) \<le> MAX_STORED_TOOL_NAME \<and> 1 \<le> tc_name_bytes p \<and>
    (\<not> tc_named p \<or> unat (tc_name_bytes p) \<le> MAX_TOOL_NAME) \<and>
    (case tc_form p of NotRetained _ \<Rightarrow> tc_arguments p = []
      | _ \<Rightarrow> length (tc_arguments p) \<le> MAX_TOOL_ARGUMENTS) \<and>
    (tc_received_text p \<or> form_not_retained (tc_form p) = Some R_Oversized) \<and>
    length (tc_number_kinds p) \<le> MAX_TOOL_NUMBERS"

definition tool_call_operation :: "tool_call \<Rightarrow> bool" where
  "tool_call_operation p = (case tc_tool_operation p of None \<Rightarrow> True
    | Some op \<Rightarrow> tool_lookup (tc_name p) = Some (operation_tool op) \<and> tc_received_text p \<and>
        tc_form p \<notin> {Unparsed, NotRetained R_UnverifiableEscape})"

definition fault_applies :: "tool_call \<Rightarrow> tool_fault \<Rightarrow> bool" where
  "fault_applies p fault = (let tool = tool_lookup (tc_name p) in
    case fault of
      F_InvalidJson \<Rightarrow> (tc_form p = Unparsed \<or> form_not_retained (tc_form p) \<noteq> None) \<and> tc_tool_operation p = None
    | F_JsonLimit \<Rightarrow> (tc_form p = Unparsed \<or> form_not_retained (tc_form p) \<noteq> None) \<and> tc_tool_operation p = None
    | F_DuplicateKey \<Rightarrow> (tc_form p = Unparsed \<or> form_not_retained (tc_form p) \<noteq> None) \<and> tc_tool_operation p = None
    | F_NotObject \<Rightarrow> tc_tool_operation p = None
    | F_UnknownCommand \<Rightarrow> tc_tool_operation p = None \<and> tool \<in> {Some Project, Some Memory, Some Service, Some Job}
    | F_InvalidJobId \<Rightarrow> tool = Some Job
    | F_ArgumentsOverLimit \<Rightarrow> form_not_retained (tc_form p) = Some R_Oversized
    | F_NameOverLimit \<Rightarrow> \<not> tc_named p
    | F_InvalidText \<Rightarrow> True
    | F_UnregisteredName \<Rightarrow> tc_named p \<and> tool = None
    | _ \<Rightarrow> tool \<noteq> None)"

definition tool_call_faults :: "tool_call \<Rightarrow> bool" where
  "tool_call_faults p \<longleftrightarrow>
    (case tc_decision p of
        D_InvalidArguments \<Rightarrow> (case tc_fault p of None \<Rightarrow> False | Some f \<Rightarrow> f \<noteq> F_UnregisteredName)
      | D_UnknownTool \<Rightarrow> tc_fault p = Some F_UnregisteredName
      | _ \<Rightarrow> tc_fault p = None) \<and>
    (case tc_fault p of None \<Rightarrow> True | Some f \<Rightarrow> fault_applies p f) \<and>
    (tc_received_text p \<or> tc_decision p \<noteq> D_InvalidArguments \<or> tc_fault p = Some F_ArgumentsOverLimit) \<and>
    (form_not_retained (tc_form p) \<noteq> Some R_Oversized \<or> tc_decision p \<noteq> D_InvalidArguments \<or>
      (case tc_fault p of None \<Rightarrow> False
        | Some f \<Rightarrow> tool_fault_code f \<le> tool_fault_code F_ArgumentsOverLimit)) \<and>
    (tc_form p \<noteq> Unparsed \<or> tc_decision p \<noteq> D_InvalidArguments \<or>
      tc_fault p \<in> {Some F_InvalidJson, Some F_JsonLimit, Some F_DuplicateKey})"

definition tool_call_decisions :: "tool_call \<Rightarrow> bool" where
  "tool_call_decisions p \<longleftrightarrow>
    (case tc_decision p of
        D_Run \<Rightarrow> tc_tool_operation p \<noteq> None \<and> tc_form p \<in> {Verbatim, Canonical} \<and> tc_rules p \<and>
          (\<not> tc_exec p \<or> tc_form p = Canonical \<and>
            (tc_whole_command p \<or> length (tc_number_kinds p) \<le> MAX_EXEC_CMD_VARIABLES))
      | D_UnknownTool \<Rightarrow> tc_named p \<and> tc_received_text p
      | D_Busy \<Rightarrow> tc_exec p \<and> tc_form p = Canonical
      | D_Refused \<Rightarrow> if tc_rules p then tc_exec p \<and> tc_form p = Canonical \<and> tc_refusal p \<noteq> None
          else tc_refusal p = None
      | _ \<Rightarrow> True) \<and>
    (case tc_form p of
        Unparsed \<Rightarrow> tc_decision p \<notin> {D_Run, D_UnknownTool, D_Busy}
      | NotRetained R_UnverifiableEscape \<Rightarrow> tc_decision p \<notin> {D_Run, D_UnknownTool, D_Busy}
      | NotRetained R_Oversized \<Rightarrow> tc_decision p \<noteq> D_Run
      | _ \<Rightarrow> True) \<and>
    (case tc_policy p of None \<Rightarrow> True | Some v \<Rightarrow> policy_refusal_validate v = Inr ()) \<and>
    (tc_policy p \<noteq> None \<longleftrightarrow> tc_reason p \<in> {Some DR_PolicyDenied, Some DR_PolicyUnavailable}) \<and>
    (case tc_reason p of None \<Rightarrow> tc_decision p \<noteq> D_Busy
      | Some reason \<Rightarrow> reason_decision reason = tc_decision p \<and> tc_exec p \<and> tc_form p = Canonical \<and> tc_rules p) \<and>
    (tc_named p \<or> tc_decision p \<in> {D_InvalidArguments, D_Refused, D_Limit, D_Cancelled})"

definition tool_call_rule_set :: "tool_call \<Rightarrow> bool" where
  "tool_call_rule_set p \<longleftrightarrow> (tc_rule_set_digest p = zero_hash \<longleftrightarrow> \<not> tc_rules p) \<and>
    (if tc_rules p then True
     else form_not_retained (tc_form p) = Some R_DetectionUnavailable \<and> \<not> tc_named p \<and>
       tc_number_kinds p = [] \<and> tc_unnumbered p = 0 \<and> tc_tool_operation p = None \<and>
       tc_decision p \<in> {D_Refused, D_Limit, D_Cancelled})"

definition tool_call_refusal :: "tool_call \<Rightarrow> bool" where
  "tool_call_refusal p = (case tc_refusal p of
      None \<Rightarrow> \<not> tc_command_cut p \<and> \<not> tc_whole_command p
    | Some r \<Rightarrow> tc_exec p \<and> tc_rules p \<and> er_code r \<noteq> RC_DetectionUnavailable \<and>
        (case er_word r of None \<Rightarrow> True | Some w \<Rightarrow> 1 \<le> w \<and> w \<le> MAX_REFUSAL_WORD) \<and>
        (if tc_whole_command p then tc_decision p = D_Run \<and> \<not> refusal_kept (er_code r)
         else tc_decision p = D_Refused \<and> refusal_kept (er_code r)))"

definition u32_checked_add :: "u32 \<Rightarrow> u32 \<Rightarrow> u32 option" where
  "u32_checked_add a b = (if unat a + unat b < 2 ^ 32 then Some (a + b) else None)"

definition tool_call_numbers :: "tool_call \<Rightarrow> bool" where
  "tool_call_numbers p = (let name_tokens = placeholder_tokens (tc_name p);
      text_tokens = placeholder_tokens (tc_arguments p);
      distincts = remdups_adj (sort (pt_distinct name_tokens @ pt_distinct text_tokens));
      highest = unat (max (pt_max name_tokens) (pt_max text_tokens))
    in \<not> pt_malformed name_tokens \<and> \<not> pt_malformed text_tokens \<and>
      highest = length (tc_number_kinds p) \<and> length distincts = highest \<and>
      u32_checked_add (pt_zero name_tokens) (pt_zero text_tokens) = Some (tc_unnumbered p))"

definition tool_call_validate :: "tool_call \<Rightarrow> unit result" where
  "tool_call_validate p = require (tool_call_shape p \<and> tool_call_operation p \<and> tool_call_faults p \<and>
    tool_call_decisions p \<and> tool_call_rule_set p \<and> tool_call_refusal p \<and> tool_call_numbers p)"

subsection \<open>Writing\<close>

definition w_kinds :: "secret_kind list \<Rightarrow> bytes" where
  "w_kinds kinds = be16 (of_nat (length kinds)) @ concat (map (\<lambda>k. [kind_code k]) kinds)"

definition w_call_flags :: "bool \<times> bool \<Rightarrow> bytes" where
  "w_call_flags f = [(if fst f then 1 else 0) OR push_bit 1 (if snd f then 1 else 0)]"

definition tool_call_fields :: "tool_call \<Rightarrow> bytes" where
  "tool_call_fields p =
    tc_operation p @ be64 (tc_generation p) @ be32 (tc_ordinal p) @ [source_code (tc_source p)] @
    str32 (tc_name p) @ be32 (tc_name_bytes p) @ [opt_code tool_operation_code (tc_tool_operation p)] @
    [tool_decision_code (tc_decision p)] @ [opt_code tool_fault_code (tc_fault p)] @
    [opt_code reason_code (tc_reason p)] @ w_form (tc_form p) @ be32 (tc_arguments_bytes p) @
    str32 (tc_arguments p) @ w_kinds (tc_number_kinds p) @ be32 (tc_unnumbered p) @
    be32 (tc_rule_set_revision p) @ tc_rule_set_digest p @
    w_call_flags (tc_command_cut p, tc_whole_command p) @
    [opt_code (refusal_code_byte \<circ> er_code) (tc_refusal p)] @
    [opt_code kind_code (Option.bind (tc_refusal p) er_kind)] @
    be16 (case Option.bind (tc_refusal p) er_word of None \<Rightarrow> 0 | Some w \<Rightarrow> w) @
    policy_refusal_fields (tc_policy p)"

definition write_tool_call :: "tool_call \<Rightarrow> bytes result" where
  "write_tool_call p =
    (if length (tc_arguments p) > MAX_TOOL_ARGUMENTS \<or> length (tc_name p) > MAX_STORED_TOOL_NAME
     then Inl Limit
     else result_bind (tool_call_validate p) (\<lambda>_. Inr (tool_call_fields p)))"

subsection \<open>Reading\<close>

definition rd_kinds :: "(replay_error, secret_kind list) reading" where
  "rd_kinds = rd_counted16 MAX_TOOL_NUMBERS (rd_coded kind_from)"

definition rd_call_flags :: "(replay_error, bool \<times> bool) reading" where
  "rd_call_flags = rbind rd_byte (\<lambda>flags. rbind (rd_require (flags AND NOT 3 = 0)) (\<lambda>_.
    rreturn (flags AND 1 \<noteq> 0, flags AND 2 \<noteq> 0)))"

definition rd_word :: "(replay_error, u16 option) reading" where
  "rd_word = rbind rd_u16 (\<lambda>w. rreturn (if w = 0 then None else Some w))"

definition make_refusal :: "u8 \<Rightarrow> secret_kind option \<Rightarrow> u16 option \<Rightarrow> exec_cmd_refusal option result" where
  "make_refusal code kind word = (if code = 0
    then result_bind (require (kind = None \<and> word = None)) (\<lambda>_. Inr None)
    else result_bind (ok_or_corrupt (refusal_from code)) (\<lambda>code.
      Inr (Some \<lparr>er_code = code, er_kind = kind, er_word = word\<rparr>)))"

definition read_tool_call :: "(replay_error, tool_call) reading" where
  "read_tool_call =
    rbind rd_id (\<lambda>operation. rbind rd_u64 (\<lambda>generation. rbind rd_u32 (\<lambda>ordinal.
    rbind (rd_coded source_from) (\<lambda>source. rbind (rd_bounded_string MAX_STORED_TOOL_NAME) (\<lambda>name.
    rbind rd_u32 (\<lambda>name_bytes. rbind (rd_opt_coded tool_operation_from_code) (\<lambda>tool_operation.
    rbind (rd_coded tool_decision_from_code) (\<lambda>decision. rbind (rd_opt_coded tool_fault_from_code) (\<lambda>fault.
    rbind (rd_reason decision) (\<lambda>reason. rbind rd_form (\<lambda>form. rbind rd_u32 (\<lambda>arguments_bytes.
    rbind (rd_bounded_string MAX_TOOL_ARGUMENTS) (\<lambda>arguments. rbind rd_kinds (\<lambda>number_kinds.
    rbind rd_u32 (\<lambda>unnumbered. rbind rd_u32 (\<lambda>rule_set_revision. rbind rd_hash (\<lambda>rule_set_digest.
    rbind rd_call_flags (\<lambda>flags. rbind rd_byte (\<lambda>code. rbind (rd_opt_coded kind_from) (\<lambda>kind.
    rbind rd_word (\<lambda>word. rbind read_policy_refusal (\<lambda>policy.
    rbind (rlift (make_refusal code kind word)) (\<lambda>refusal.
    let v = \<lparr>tc_operation = operation, tc_generation = generation, tc_ordinal = ordinal, tc_source = source,
      tc_name = name, tc_name_bytes = name_bytes, tc_tool_operation = tool_operation,
      tc_decision = decision, tc_fault = fault, tc_reason = reason, tc_form = form,
      tc_arguments_bytes = arguments_bytes, tc_arguments = arguments, tc_number_kinds = number_kinds,
      tc_unnumbered = unnumbered, tc_rule_set_revision = rule_set_revision,
      tc_rule_set_digest = rule_set_digest, tc_command_cut = fst flags, tc_whole_command = snd flags,
      tc_refusal = refusal, tc_policy = policy\<rparr> in
    rbind (rlift (tool_call_validate v)) (\<lambda>_. rreturn v))))))))))))))))))))))))"

subsection \<open>Field contracts\<close>

definition wf_kinds :: "secret_kind list \<Rightarrow> bool" where
  "wf_kinds kinds \<longleftrightarrow> length kinds \<le> MAX_TOOL_NUMBERS"

lemma codec_kinds: "codec rd_kinds w_kinds wf_kinds"
  using codec_counted16 [OF secret_kind.codec_coded [of Corrupt Corrupt], of MAX_TOOL_NUMBERS]
  unfolding rd_kinds_def w_kinds_def [abs_def] wf_kinds_def [abs_def] by simp

interpretation number_kinds: codec rd_kinds w_kinds wf_kinds
  by (rule codec_kinds)

lemma two_bits_cases:
  fixes flags :: u8
  assumes "flags AND NOT 3 = 0"
  shows "flags = 0 \<or> flags = 1 \<or> flags = 2 \<or> flags = 3"
proof -
  have "flags = (flags AND 3) OR (flags AND NOT 3)"
    by (rule bit_eqI) (auto simp: bit_simps)
  then have "flags = take_bit 2 flags" using assms by (simp add: take_bit_eq_mask mask_numeral)
  then have "unat flags = unat (take_bit 2 flags)" by (rule arg_cong)
  also have "\<dots> = take_bit 2 (unat flags)" by (rule unsigned_take_bit_eq)
  also have "\<dots> < 2 ^ 2" by (rule take_bit_nat_less_exp)
  finally have "unat flags < 4" by simp
  then have "unat flags = 0 \<or> unat flags = 1 \<or> unat flags = 2 \<or> unat flags = 3" by linarith
  then show ?thesis by (simp add: word_unat_eq_iff)
qed

lemma codec_call_flags: "codec rd_call_flags w_call_flags (\<lambda>_. True)"
proof (rule codecI, goal_cases)
  case (1 pre rest v r')
  then obtain flags post where f: "flags AND NOT 3 = 0" "rest = flags # post" "r' = rd (pre @ [flags]) post"
    and v: "v = (flags AND 1 \<noteq> 0, flags AND 2 \<noteq> 0)"
    by (auto simp: rd_call_flags_def parse)
  from two_bits_cases [OF f(1)] have "w_call_flags v = [flags]"
    by (auto simp: v w_call_flags_def)
  then show ?case using f by auto
next
  case (2 pre post v)
  show ?case by (cases v) (auto simp: rd_call_flags_def w_call_flags_def run)
qed

interpretation call_flags: codec rd_call_flags w_call_flags "\<lambda>_. True"
  by (rule codec_call_flags)

lemma codec_word: "codec rd_word (\<lambda>w. be16 (case w of None \<Rightarrow> 0 | Some w \<Rightarrow> w)) (\<lambda>w. w \<noteq> Some 0)"
proof (rule codecI, goal_cases)
  case (1 pre rest v r')
  then show ?case by (auto simp: rd_word_def parse split: if_splits)
next
  case (2 pre post v)
  then show ?case by (cases v) (auto simp: rd_word_def run)
qed

interpretation refusal_word: codec rd_word "\<lambda>w. be16 (case w of None \<Rightarrow> 0 | Some w \<Rightarrow> w)" "\<lambda>w. w \<noteq> Some 0"
  by (rule codec_word)

lemma refusal_code_nonzero: "refusal_code_byte c \<noteq> 0"
  by (cases c) simp_all

text \<open>The three refusal bytes determine the refusal.\<close>

lemma make_refusal_iff:
  assumes "word \<noteq> Some 0"
  shows "make_refusal code kind word = Inr r \<longleftrightarrow>
    code = opt_code (refusal_code_byte \<circ> er_code) r \<and> kind = Option.bind r er_kind \<and> word = Option.bind r er_word"
proof (cases r)
  case None
  then show ?thesis
    by (auto simp: make_refusal_def opt_code_def result_bind_eq_Inr refusal_code_nonzero)
next
  case (Some x)
  then show ?thesis
    by (cases x) (auto simp: make_refusal_def opt_code_def result_bind_eq_Inr refusal_code_nonzero
        refusal_code.from_code_iff)
qed

lemmas call_parse = number_kinds.bind_exact call_flags.bind_exact [simplified] refusal_word.bind_exact
  lift_parse make_refusal_iff

lemmas call_run = number_kinds.bind_run call_flags.bind_run [simplified] refusal_word.bind_run

subsection \<open>The record contract\<close>

definition wf_tool_call :: "tool_call \<Rightarrow> bool" where
  "wf_tool_call p \<longleftrightarrow> is_id (tc_operation p) \<and> is_hash (tc_rule_set_digest p) \<and>
    utf8_valid (tc_name p) \<and> utf8_valid (tc_arguments p) \<and> wf_policy_refusal (tc_policy p)"

lemma tool_call_validD:
  assumes "tool_call_validate p = Inr ()"
  shows "tool_call_shape p" "tool_call_operation p" "tool_call_faults p" "tool_call_decisions p"
    "tool_call_rule_set p" "tool_call_refusal p" "tool_call_numbers p"
  using assms by (simp_all add: tool_call_validate_def)

lemma tool_call_shapeD:
  assumes "tool_call_shape p"
  shows "length (tc_name p) \<le> MAX_STORED_TOOL_NAME" "wf_kinds (tc_number_kinds p)"
    "length (tc_arguments p) \<le> MAX_TOOL_ARGUMENTS"
proof -
  have "case tc_form p of NotRetained _ \<Rightarrow> tc_arguments p = []
      | _ \<Rightarrow> length (tc_arguments p) \<le> MAX_TOOL_ARGUMENTS"
    using assms by (simp add: tool_call_shape_def)
  then show "length (tc_arguments p) \<le> MAX_TOOL_ARGUMENTS" by (cases "tc_form p") simp_all
qed (use assms in \<open>simp_all add: tool_call_shape_def wf_kinds_def\<close>)

lemma tool_call_decisionsD:
  assumes "tool_call_decisions p"
  shows "reason_fits (tc_decision p) (tc_reason p)"
    "\<And>v. tc_policy p = Some v \<Longrightarrow> policy_refusal_validate v = Inr ()"
proof -
  have "case tc_reason p of None \<Rightarrow> tc_decision p \<noteq> D_Busy
      | Some reason \<Rightarrow> reason_decision reason = tc_decision p \<and> tc_exec p \<and> tc_form p = Canonical \<and> tc_rules p"
    using assms unfolding tool_call_decisions_def by blast
  then show "reason_fits (tc_decision p) (tc_reason p)"
    by (cases "tc_reason p") (simp_all add: reason_fits_def)
  have "case tc_policy p of None \<Rightarrow> True | Some v \<Rightarrow> policy_refusal_validate v = Inr ()"
    using assms unfolding tool_call_decisions_def by blast
  then show "policy_refusal_validate v = Inr ()" if "tc_policy p = Some v" for v
    using that by simp
qed

lemma tool_call_refusalD: "tool_call_refusal p \<Longrightarrow> Option.bind (tc_refusal p) er_word \<noteq> Some 0"
  by (auto simp: tool_call_refusal_def bind_eq_Some_conv)

lemma tool_call_valid_fields:
  assumes "tool_call_validate p = Inr ()"
  shows "length (tc_name p) \<le> MAX_STORED_TOOL_NAME" "length (tc_arguments p) \<le> MAX_TOOL_ARGUMENTS"
    "wf_kinds (tc_number_kinds p)" "reason_fits (tc_decision p) (tc_reason p)"
    "Option.bind (tc_refusal p) er_word \<noteq> Some 0"
  using tool_call_shapeD [OF tool_call_validD(1) [OF assms]]
    tool_call_decisionsD(1) [OF tool_call_validD(4) [OF assms]]
    tool_call_refusalD [OF tool_call_validD(6) [OF assms]]
  by simp_all

lemma tool_call_eta:
  "\<lparr>tc_operation = tc_operation v, tc_generation = tc_generation v, tc_ordinal = tc_ordinal v,
    tc_source = tc_source v, tc_name = tc_name v, tc_name_bytes = tc_name_bytes v,
    tc_tool_operation = tc_tool_operation v, tc_decision = tc_decision v, tc_fault = tc_fault v,
    tc_reason = tc_reason v, tc_form = tc_form v, tc_arguments_bytes = tc_arguments_bytes v,
    tc_arguments = tc_arguments v, tc_number_kinds = tc_number_kinds v,
    tc_unnumbered = tc_unnumbered v, tc_rule_set_revision = tc_rule_set_revision v,
    tc_rule_set_digest = tc_rule_set_digest v, tc_command_cut = tc_command_cut v,
    tc_whole_command = tc_whole_command v, tc_refusal = tc_refusal v, tc_policy = tc_policy v\<rparr> = v"
  by (cases v) simp

lemma tool_call_codec: "record_codec read_tool_call write_tool_call wf_tool_call"
proof (rule record_codecI, goal_cases)
  case (1 pre rest v r')
  then show ?case
    by (simp add: read_tool_call_def parse call_parse Let_def)
      (elim exE conjE, simp add: write_tool_call_def tool_call_fields_def wf_tool_call_def make_refusal_iff)
next
  case (2 pre post v bs)
  from 2(2) have valid: "tool_call_validate v = Inr ()" and bs: "bs = tool_call_fields v"
    by (auto simp: write_tool_call_def result_bind_eq_Inr split: if_splits)
  note facts = tool_call_valid_fields [OF valid]
  have refusal: "make_refusal (opt_code (refusal_code_byte \<circ> er_code) (tc_refusal v))
      (Option.bind (tc_refusal v) er_kind) (Option.bind (tc_refusal v) er_word) = Inr (tc_refusal v)"
    using facts(5) by (simp add: make_refusal_iff)
  show ?case
    using 2(1) valid facts unfolding bs wf_tool_call_def
    by (simp add: read_tool_call_def tool_call_fields_def run call_run Let_def refusal tool_call_eta)
qed

interpretation tool_call: record_codec read_tool_call write_tool_call wf_tool_call
  by (rule tool_call_codec)

subsection \<open>What a valid call says\<close>

lemma distinct_remdups_adj: "sorted xs \<Longrightarrow> distinct (remdups_adj xs)"
  by (induction xs rule: remdups_adj.induct) auto

lemma length_remdups_adj_sort: "length (remdups_adj (sort xs)) = card (set xs)"
proof -
  have "distinct (remdups_adj (sort xs))" by (simp add: distinct_remdups_adj)
  then show ?thesis using distinct_card [of "remdups_adj (sort xs)"] by simp
qed

lemma full_initial_segment:
  fixes D :: "u32 set"
  assumes "finite D" "0 \<notin> D" "card D = unat (Max (insert 0 D))"
  shows "unat ` D = {1..card D}"
proof (rule card_subset_eq)
  have "unat n \<le> card D" if "n \<in> D" for n
    using assms(1,3) that Max_ge [of "insert 0 D" n] by (simp add: word_le_nat_alt)
  moreover have "1 \<le> unat n" if "n \<in> D" for n
    using assms(2) that by (metis One_nat_def Suc_leI unat_gt_0)
  ultimately show "unat ` D \<subseteq> {1..card D}" by auto
  show "card (unat ` D) = card {1..card D}"
    using card_image [of unat D] by (simp add: inj_on_def word_unat_eq_iff [symmetric])
qed simp

lemma Max_insert_0_Un:
  fixes A B :: "u32 set"
  assumes "finite A" "finite B"
  shows "max (Max (insert 0 A)) (Max (insert 0 B)) = Max (insert 0 (A \<union> B))"
  using Max_Un [of "insert 0 A" "insert 0 B"] assms by simp

lemma tool_call_numbersD:
  assumes "tool_call_numbers p"
  defines "ts \<equiv> tokens (tc_name p) @ tokens (tc_arguments p)"
  shows "unat ` nonzero_numbers ts = {1..length (tc_number_kinds p)}" "None \<notin> tok_number ` set ts"
proof -
  define A where "A = nonzero_numbers (tokens (tc_name p))"
  define B where "B = nonzero_numbers (tokens (tc_arguments p))"
  have D: "nonzero_numbers ts = A \<union> B" and fin: "finite A" "finite B" and zero: "0 \<notin> A \<union> B"
    by (auto simp: nonzero_numbers_def ts_def A_def B_def image_Un intro: finite_nonzero_numbers [unfolded nonzero_numbers_def])
  note count = foldl_count_token [where ts = "tokens (tc_name p)", folded placeholder_tokens_def, folded A_def]
    foldl_count_token [where ts = "tokens (tc_arguments p)", folded placeholder_tokens_def, folded B_def]
  have "unat (Max (insert 0 (A \<union> B))) = length (tc_number_kinds p)" "card (A \<union> B) = length (tc_number_kinds p)"
    and ok: "None \<notin> tok_number ` set ts"
    using assms(1) unfolding tool_call_numbers_def Let_def length_remdups_adj_sort
    by (auto simp: count Max_insert_0_Un [OF fin] ts_def)
  then show "unat ` nonzero_numbers ts = {1..length (tc_number_kinds p)}"
    using full_initial_segment [of "A \<union> B"] fin zero by (simp add: D)
  show "None \<notin> tok_number ` set ts" by (rule ok)
qed

lemma length_tool_call_fields:
  assumes "is_id (tc_operation p)" "is_hash (tc_rule_set_digest p)"
  shows "length (tool_call_fields p) = 98 + length (tc_name p) + length (tc_arguments p) +
    length (tc_number_kinds p) + length (policy_refusal_fields (tc_policy p))"
proof -
  have "length (concat (map (\<lambda>k. [kind_code k]) ks)) = length ks" for ks
    by (induction ks) simp_all
  then show ?thesis
    using assms by (simp add: tool_call_fields_def str32_def w_form_def w_kinds_def w_call_flags_def)
qed

lemma length_policy_refusal_fields:
  "wf_policy_refusal v \<Longrightarrow> length (policy_refusal_fields v) \<le> 337"
  by (auto simp: wf_policy_refusal_def policy_refusal_fields_def policy_refusal_validate_def str32_def
      dest!: policy_text_length split: option.splits)

subsection \<open>Properties\<close>

text \<open>C25: The placeholder numbers of a valid call are exactly 1 to the number of secret kinds it
  stores. A number occurs as a nonzero placeholder in the stored name or arguments of a call that
  \<open>ToolCall::validate\<close> accepts if and only if it indexes an entry of \<open>number_kinds\<close>, and no token is
  malformed.\<close>

theorem valid_call_numbers:
  assumes "tool_call_validate p = Inr ()"
  defines "found \<equiv> tok_number ` set (tokens (tc_name p) @ tokens (tc_arguments p))"
  shows "(\<forall>n. n \<noteq> 0 \<and> Some n \<in> found \<longleftrightarrow> unat n \<in> {1..length (tc_number_kinds p)}) \<and> None \<notin> found"
  unfolding found_def tool_call_numbersD(1) [OF tool_call_validD(7) [OF assms(1)], symmetric]
  using tool_call_numbersD(2) [OF tool_call_validD(7) [OF assms(1)]]
  by (auto simp: nonzero_numbers_def image_iff word_unat_eq_iff [symmetric])

definition demo_call :: tool_call where
  "demo_call = \<lparr>tc_operation = replicate 16 1, tc_generation = 1, tc_ordinal = 1,
    tc_source = ProviderJson, tc_name = ascii ''exec_cmd'', tc_name_bytes = 8,
    tc_tool_operation = Some Op_ExecCmd, tc_decision = D_Run, tc_fault = None, tc_reason = None,
    tc_form = Canonical, tc_arguments_bytes = 20, tc_arguments = placeholder 1,
    tc_number_kinds = [GithubToken], tc_unnumbered = 0, tc_rule_set_revision = 1,
    tc_rule_set_digest = replicate 32 1, tc_command_cut = False, tc_whole_command = False,
    tc_refusal = None, tc_policy = None\<rparr>"

lemma demo_tokens:
  "tokens (ascii ''exec_cmd'') = []"
  "tokens (placeholder 1) = [\<lparr>tok_start = 14, tok_end = 15, tok_number = Some 1\<rparr>]"
proof -
  have "tokens [] = []" by (simp add: tokens_def scan_None)
  moreover have "decimal 1 = [0x31]" by (simp add: decimal.simps)
  ultimately show "tokens (placeholder 1) = [\<lparr>tok_start = 14, tok_end = 15, tok_number = Some 1\<rparr>]"
    using tokens_placeholder [of "[]" 1] by (simp add: placeholder_def)
  show "tokens (ascii ''exec_cmd'') = []"
    unfolding tokens_def by (rule scan_None) (simp add: ascii_def TOKEN_def)
qed

lemma demo_lookup: "tool_lookup (ascii ''exec_cmd'') = Some ExecCmd"
  by (simp add: tool_lookup_iff tool_name_def TOOL_NAMES_def)

lemma demo_call_valid: "tool_call_validate demo_call = Inr ()"
proof -
  have "length (placeholder 1) = 15" by (simp add: placeholder_def decimal.simps)
  moreover have "ascii ''exec_cmd'' \<noteq> []" by (simp add: ascii_def)
  moreover have "replicate 16 1 \<noteq> zero_id" "replicate 32 1 \<noteq> zero_hash"
    by (simp_all add: zero_id_def zero_hash_def)
  ultimately show ?thesis
    by (simp add: tool_call_validate_def tool_call_shape_def tool_call_operation_def tool_call_faults_def
        tool_call_decisions_def tool_call_rule_set_def tool_call_refusal_def tool_call_numbers_def
        tc_named_def tc_exec_def tc_rules_def tc_received_text_def demo_call_def demo_lookup
        placeholder_tokens_def demo_tokens count_token_def placeholder_default_def u32_checked_add_def
        Let_def)
qed

theorem valid_call_numbers_witness:
  "tool_call_validate demo_call = Inr () \<and>
    Some 1 \<in> tok_number ` set (tokens (tc_name demo_call) @ tokens (tc_arguments demo_call))"
  using demo_call_valid conjunct1 [OF valid_call_numbers [OF demo_call_valid], rule_format, of 1]
  by (simp add: demo_call_def)

text \<open>C30: A call that runs was checked. When \<open>ToolCall::validate\<close> accepts a call with decision \<open>run\<close>, it
  has an operation of the registered tool that its name looks up, no fault, no decision reason and no
  policy refusal, a rule set that passed its self-check, and a retained text. An \<open>exec_cmd\<close> call has at
  most 16 secret variables, unless the whole command is one, and then its fallback reason is stored and
  is not one of the refusals that are kept.\<close>

theorem valid_run_call:
  assumes "tool_call_validate p = Inr ()" "tc_decision p = D_Run"
  shows "(\<exists>op. tc_tool_operation p = Some op \<and> tool_lookup (tc_name p) = Some (operation_tool op)) \<and>
    tc_fault p = None \<and> tc_reason p = None \<and> tc_policy p = None \<and>
    tc_rule_set_revision p \<noteq> 0 \<and> tc_rule_set_digest p \<noteq> zero_hash \<and> form_not_retained (tc_form p) = None \<and>
    (tc_tool_operation p = Some Op_ExecCmd \<longrightarrow>
      length (tc_number_kinds p) \<le> 16 \<or> tc_whole_command p) \<and>
    (tc_whole_command p \<longrightarrow> (\<exists>r. tc_refusal p = Some r \<and> \<not> refusal_kept (er_code r)))"
proof -
  note valid = tool_call_validD [OF assms(1)]
  have reason: "tc_reason p = None" using tool_call_decisionsD(1) [OF valid(4)] assms(2)
    by (cases "tc_reason p"; cases "the (tc_reason p)") (simp_all add: reason_fits_def)
  have "tc_fault p = None" using valid(3) by (simp add: tool_call_faults_def assms(2))
  moreover have run: "tc_tool_operation p \<noteq> None" "tc_form p \<in> {Verbatim, Canonical}" "tc_rules p"
    "\<not> tc_exec p \<or> tc_whole_command p \<or> length (tc_number_kinds p) \<le> MAX_EXEC_CMD_VARIABLES"
    "tc_policy p = None"
    using valid(4) by (auto simp: tool_call_decisions_def assms(2) reason)
  moreover have "\<exists>op. tc_tool_operation p = Some op \<and> tool_lookup (tc_name p) = Some (operation_tool op)"
    using run(1) valid(2) by (auto simp: tool_call_operation_def)
  moreover have "tc_whole_command p \<longrightarrow> (\<exists>r. tc_refusal p = Some r \<and> \<not> refusal_kept (er_code r))"
    using valid(6) by (auto simp: tool_call_refusal_def split: option.splits if_splits)
  moreover have "tc_rule_set_digest p \<noteq> zero_hash"
    using valid(5) run(3) by (simp add: tool_call_rule_set_def)
  ultimately show ?thesis using reason by (auto simp: tc_exec_def tc_rules_def)
qed

theorem valid_run_call_witness:
  "tool_call_validate demo_call = Inr () \<and> tc_decision demo_call = D_Run \<and>
    (\<exists>op. tc_tool_operation demo_call = Some op \<and> tool_lookup (tc_name demo_call) = Some (operation_tool op))"
  using demo_call_valid valid_run_call [OF demo_call_valid] by (simp add: demo_call_def)

text \<open>A written tool call fits the bound its reader enforces. When \<open>write_tool_call\<close> accepts a
  call whose policy refusal reads back, the payload is at most \<open>MAX_TOOL_CALL_PAYLOAD\<close> bytes.\<close>

lemma tool_call_payload_bound:
  assumes "wf_tool_call p" "write_tool_call p = Inr bs"
  shows "length bs \<le> MAX_TOOL_CALL_PAYLOAD"
proof -
  from assms(2) have valid: "tool_call_validate p = Inr ()" and bs: "bs = tool_call_fields p"
    by (auto simp: write_tool_call_def result_bind_eq_Inr split: if_splits)
  show ?thesis
    using assms(1) tool_call_valid_fields(1,2,3) [OF valid] length_policy_refusal_fields [of "tc_policy p"]
    unfolding bs wf_tool_call_def wf_kinds_def by (simp add: length_tool_call_fields)
qed

lemma demo_call_written: "wf_tool_call demo_call" "write_tool_call demo_call = Inr (tool_call_fields demo_call)"
proof -
  have "\<forall>b\<in>set (placeholder 1). b < 0x80" "\<forall>b\<in>set (ascii ''exec_cmd''). b < 0x80"
    by (simp_all add: placeholder_def TOKEN_def ascii_def decimal.simps)
  then show "wf_tool_call demo_call"
    by (simp add: wf_tool_call_def demo_call_def wf_policy_refusal_def utf8_valid_ascii)
  show "write_tool_call demo_call = Inr (tool_call_fields demo_call)"
    using demo_call_valid tool_call_valid_fields(1,2) [OF demo_call_valid] by (simp add: write_tool_call_def)
qed

definition long_rule_refusal :: policy_refusal where
  "long_rule_refusal = \<lparr>pf_scope = 1, pf_reason = ascii ''denied'',
    pf_rule = ascii ''installation:'' @ replicate 64 0x61, pf_explain = []\<rparr>"

definition long_rule_call :: tool_call where
  "long_rule_call = demo_call\<lparr>tc_decision := D_Denied, tc_reason := Some DR_PolicyDenied,
    tc_policy := Some long_rule_refusal\<rparr>"

lemma long_bounded_string:
  "limit < length s \<Longrightarrow> length s < 2 ^ 32 \<Longrightarrow> rd_bounded_string limit (rd pre (str32 s @ post)) = Inl Corrupt"
  by (simp add: rd_bounded_string_def str32_def fixed_run unat_u32_length rfail_def)

lemma long_rule_valid: "policy_refusal_validate long_rule_refusal = Inr ()"
proof -
  have "split_once 0x3A (pf_rule long_rule_refusal) = Some (ascii ''installation'', replicate 64 0x61)"
    by (simp add: long_rule_refusal_def split_once_def ascii_def)
  then have "valid_policy_rule (pf_rule long_rule_refusal)"
    by (simp add: valid_policy_rule_def POLICY_SCOPE_NAMES_def valid_policy_id_def ascii_lowercase_def)
  moreover have "valid_policy_reason (ascii ''denied'')"
    by (simp add: valid_policy_reason_def ascii_def ascii_lowercase_def)
  ultimately show ?thesis
    by (simp add: policy_refusal_validate_def long_rule_refusal_def valid_policy_explain_def)
qed

lemma long_rule_refused:
  "read_policy_refusal (rd pre (policy_refusal_fields (Some long_rule_refusal) @ post)) = Inl Corrupt"
proof -
  have texts: "length (pf_reason long_rule_refusal) \<le> MAX_POLICY_REASON" "utf8_valid (pf_reason long_rule_refusal)"
    using long_rule_valid by (auto simp: policy_refusal_validate_def policy_text_utf8 policy_text_length)
  have "rbind (rd_bounded_string MAX_POLICY_RULE) f (rd p (str32 (pf_rule long_rule_refusal) @ x)) = Inl Corrupt" for f p x
    by (rule rbind_Inl, rule long_bounded_string) (simp_all add: long_rule_refusal_def)
  then show ?thesis
    using texts by (simp add: read_policy_refusal_def policy_refusal_fields_def run)
qed

lemma long_rule_call_valid: "tool_call_validate long_rule_call = Inr ()"
proof -
  note valid = tool_call_validD [OF demo_call_valid]
  have "tool_call_shape long_rule_call" "tool_call_operation long_rule_call" "tool_call_numbers long_rule_call"
    "tool_call_rule_set long_rule_call" "tool_call_refusal long_rule_call"
    using valid(1,2,5,6,7)
    by (simp_all add: long_rule_call_def tool_call_shape_def tool_call_operation_def tool_call_rule_set_def
        tool_call_refusal_def tool_call_numbers_def tc_named_def tc_received_text_def tc_rules_def
        tc_exec_def demo_call_def)
  moreover have "tool_call_decisions long_rule_call" "tool_call_faults long_rule_call"
    using valid(4) long_rule_valid
    by (simp_all add: long_rule_call_def tool_call_decisions_def tool_call_faults_def demo_call_def
        tc_named_def tc_rules_def tc_exec_def tc_received_text_def)
  ultimately show ?thesis by (simp add: tool_call_validate_def)
qed

text \<open>C35: The bound on rule IDs is too small for installation rules. A denied call whose policy
  refusal names the rule \<open>installation:\<close> with a policy ID of 64 bytes passes \<open>ToolCall::validate\<close> and is
  written, and \<open>read_tool_call\<close> then refuses the bytes as \<open>Corrupt\<close>: \<open>MAX_POLICY_RULE\<close> allows for a scope
  name of 10 bytes, and \<open>installation\<close> has 12.\<close>

theorem long_rule_not_read_back:
  "\<exists>bs. write_tool_call long_rule_call = Inr bs \<and> read_tool_call (rd [] bs) = Inl Corrupt"
proof (intro exI conjI)
  note facts = tool_call_valid_fields [OF long_rule_call_valid]
  show "write_tool_call long_rule_call = Inr (tool_call_fields long_rule_call)"
    using facts(1,2) by (simp add: write_tool_call_def long_rule_call_valid)
  have policy: "tc_policy long_rule_call = Some long_rule_refusal" by (simp add: long_rule_call_def)
  have wf: "is_id (tc_operation long_rule_call)" "is_hash (tc_rule_set_digest long_rule_call)"
    "utf8_valid (tc_name long_rule_call)" "utf8_valid (tc_arguments long_rule_call)"
    using demo_call_written(1) by (simp_all add: wf_tool_call_def long_rule_call_def)
  have stop: "rbind read_policy_refusal f (rd pre (policy_refusal_fields (Some long_rule_refusal))) = Inl Corrupt" for f pre
    using long_rule_refused [of pre "[]"] by (simp add: rbind_Inl)
  show "read_tool_call (rd [] (tool_call_fields long_rule_call)) = Inl Corrupt"
    using wf facts by (simp add: read_tool_call_def tool_call_fields_def run call_run policy stop)
qed

end
