(* ===== verification/Environment.thy ===== *)
theory Environment
  imports Texts
begin

section \<open>The environment of person commands\<close>

text \<open>
  \<open>asura-platform/src/exec_cmd/environment.rs\<close>: the terminal table, the value classes, the PATH
  sanitizer, the rules for declared variables, the construction of a submit's terminal variables and the
  check of the frame that the setup thread hands over. All of it is pure; the finding of the secret scanner
  is an argument, as in the source.
\<close>

subsection \<open>The terminal table\<close>

datatype value_class = LocaleValue | WordValue | PathValue | PathListValue | SocketValue

datatype name_source = BaseSource | ToolchainSource

record terminal_name =
  tn_code :: u8
  tn_name :: bytes
  tn_class :: value_class
  tn_source :: name_source

definition terminal_entry :: "u8 \<Rightarrow> string \<Rightarrow> value_class \<Rightarrow> name_source \<Rightarrow> terminal_name" where
  "terminal_entry code name class source =
    \<lparr>tn_code = code, tn_name = ascii name, tn_class = class, tn_source = source\<rparr>"

abbreviation TERMINAL_COUNT :: nat where "TERMINAL_COUNT \<equiv> 39"

definition TERMINAL :: "terminal_name list" where
  "TERMINAL =
    [terminal_entry 1 ''LANG'' LocaleValue BaseSource,
     terminal_entry 2 ''LC_ALL'' LocaleValue BaseSource,
     terminal_entry 3 ''LC_COLLATE'' LocaleValue BaseSource,
     terminal_entry 4 ''LC_CTYPE'' LocaleValue BaseSource,
     terminal_entry 5 ''LC_MESSAGES'' LocaleValue BaseSource,
     terminal_entry 6 ''LC_MONETARY'' LocaleValue BaseSource,
     terminal_entry 7 ''LC_NUMERIC'' LocaleValue BaseSource,
     terminal_entry 8 ''LC_TIME'' LocaleValue BaseSource,
     terminal_entry 9 ''SSH_AUTH_SOCK'' SocketValue BaseSource,
     terminal_entry 10 ''TZ'' WordValue BaseSource,
     terminal_entry 11 ''XDG_CONFIG_HOME'' PathValue BaseSource,
     terminal_entry 12 ''XDG_CACHE_HOME'' PathValue BaseSource,
     terminal_entry 13 ''XDG_DATA_HOME'' PathValue BaseSource,
     terminal_entry 14 ''XDG_STATE_HOME'' PathValue BaseSource,
     terminal_entry 15 ''CARGO_HOME'' PathValue ToolchainSource,
     terminal_entry 16 ''RUSTUP_HOME'' PathValue ToolchainSource,
     terminal_entry 17 ''RUSTUP_TOOLCHAIN'' WordValue ToolchainSource,
     terminal_entry 18 ''CARGO_TARGET_DIR'' PathValue ToolchainSource,
     terminal_entry 19 ''DEVELOPER_DIR'' PathValue ToolchainSource,
     terminal_entry 20 ''SDKROOT'' PathValue ToolchainSource,
     terminal_entry 21 ''TOOLCHAINS'' WordValue ToolchainSource,
     terminal_entry 22 ''HOMEBREW_PREFIX'' PathValue ToolchainSource,
     terminal_entry 23 ''HOMEBREW_CELLAR'' PathValue ToolchainSource,
     terminal_entry 24 ''HOMEBREW_REPOSITORY'' PathValue ToolchainSource,
     terminal_entry 25 ''GOPATH'' PathListValue ToolchainSource,
     terminal_entry 26 ''GOROOT'' PathValue ToolchainSource,
     terminal_entry 27 ''GOMODCACHE'' PathValue ToolchainSource,
     terminal_entry 28 ''GOCACHE'' PathValue ToolchainSource,
     terminal_entry 29 ''NVM_DIR'' PathValue ToolchainSource,
     terminal_entry 30 ''VOLTA_HOME'' PathValue ToolchainSource,
     terminal_entry 31 ''PNPM_HOME'' PathValue ToolchainSource,
     terminal_entry 32 ''BUN_INSTALL'' PathValue ToolchainSource,
     terminal_entry 33 ''PYENV_ROOT'' PathValue ToolchainSource,
     terminal_entry 34 ''VIRTUAL_ENV'' PathValue ToolchainSource,
     terminal_entry 35 ''CONDA_PREFIX'' PathValue ToolchainSource,
     terminal_entry 36 ''JAVA_HOME'' PathValue ToolchainSource,
     terminal_entry 37 ''RBENV_ROOT'' PathValue ToolchainSource,
     terminal_entry 38 ''GEM_HOME'' PathValue ToolchainSource,
     terminal_entry 39 ''GEM_PATH'' PathListValue ToolchainSource]"

definition ASURA_SET :: "bytes list" where
  "ASURA_SET = map ascii [''PATH'', ''HOME'', ''USER'', ''LOGNAME'', ''SHELL'', ''TMPDIR'', ''TERM'', ''GIT_TERMINAL_PROMPT'']"

definition RESERVED_PREFIXES :: "bytes list" where
  "RESERVED_PREFIXES = map ascii [''ASURA_SECRET_'', ''ASURA_JOB_'']"

definition ASURA_PREFIX :: bytes where
  "ASURA_PREFIX = ascii ''ASURA_''"

abbreviation MAX_PATH_BYTES :: nat where "MAX_PATH_BYTES \<equiv> 4096"
abbreviation MAX_PATH_ENTRIES :: nat where "MAX_PATH_ENTRIES \<equiv> 64"
abbreviation MAX_DECLARED :: nat where "MAX_DECLARED \<equiv> 32"
abbreviation MAX_NAME_BYTES :: nat where "MAX_NAME_BYTES \<equiv> 64"
abbreviation MAX_DECLARED_VALUE_BYTES :: nat where "MAX_DECLARED_VALUE_BYTES \<equiv> 1024"
abbreviation MAX_DECLARED_BYTES :: nat where "MAX_DECLARED_BYTES \<equiv> 4096"

definition terminal_of :: "bytes \<Rightarrow> terminal_name option" where
  "terminal_of name = find (\<lambda>t. tn_name t = name) TERMINAL"

definition by_code :: "u8 \<Rightarrow> terminal_name option" where
  "by_code code = (if code = 0 then None
    else if unat code - 1 < length TERMINAL then Some (TERMINAL ! (unat code - 1)) else None)"

subsection \<open>Value classes\<close>

definition control_free :: "bytes \<Rightarrow> bool" where
  "control_free value_bytes \<longleftrightarrow> utf8_valid value_bytes \<and> \<not> has_control value_bytes"

definition class_valid :: "value_class \<Rightarrow> bytes \<Rightarrow> bool" where
  "class_valid class v = (case class of
      LocaleValue \<Rightarrow> 1 \<le> length v \<and> length v \<le> 64 \<and>
        (\<forall>b\<in>set v. ascii_alphanumeric b \<or> b \<in> set (ascii ''_-.@''))
    | WordValue \<Rightarrow> 1 \<le> length v \<and> length v \<le> 128 \<and>
        (\<forall>b\<in>set v. ascii_alphanumeric b \<or> b \<in> set (ascii ''_-.@+:/''))
    | PathValue \<Rightarrow> 1 \<le> length v \<and> length v \<le> 512 \<and> v ! 0 = 0x2F \<and> control_free v
    | PathListValue \<Rightarrow> 1 \<le> length v \<and> length v \<le> 2048 \<and> control_free v \<and>
        length (split_on 0x3A v) \<le> 64 \<and> (\<forall>e\<in>set (split_on 0x3A v). e \<noteq> [] \<and> hd e = 0x2F)
    | SocketValue \<Rightarrow> 1 \<le> length v \<and> length v \<le> 103 \<and> v ! 0 = 0x2F \<and> 0 \<notin> set v)"

subsection \<open>PATH\<close>

definition sanitize_path :: "bytes \<Rightarrow> bytes option" where
  "sanitize_path raw =
    (if length raw > MAX_PATH_BYTES \<or> 0 \<in> set raw then None
     else if \<not> utf8_valid raw then None
     else if length (split_on 0x3A raw) > MAX_PATH_ENTRIES then None
     else let kept = filter absolute (split_on 0x3A raw) in
       if kept = [] then None else Some (join 0x3A kept))"

subsection \<open>Names and declared variables\<close>

definition name_byte :: "u8 \<Rightarrow> bool" where
  "name_byte b \<longleftrightarrow> ascii_alphanumeric b \<or> b = 0x5F"

definition name_form :: "bytes \<Rightarrow> bool" where
  "name_form name \<longleftrightarrow> 1 \<le> length name \<and> length name \<le> MAX_NAME_BYTES \<and>
    (ascii_alphabetic (name ! 0) \<or> name ! 0 = 0x5F) \<and> (\<forall>b\<in>set name. name_byte b)"

definition starts_with :: "bytes \<Rightarrow> bytes \<Rightarrow> bool" where
  "starts_with p s \<longleftrightarrow> take (length p) s = p"

definition reserved :: "bytes \<Rightarrow> bool" where
  "reserved name \<longleftrightarrow> (\<exists>p\<in>set RESERVED_PREFIXES. starts_with p name)"

definition declared_name_valid :: "bytes \<Rightarrow> bool" where
  "declared_name_valid name \<longleftrightarrow> name_form name \<and> terminal_of name = None \<and> name \<notin> set ASURA_SET \<and>
    \<not> starts_with ASURA_PREFIX name"

definition declared_value_valid :: "bytes \<Rightarrow> bool" where
  "declared_value_valid v \<longleftrightarrow> 1 \<le> length v \<and> length v \<le> MAX_DECLARED_VALUE_BYTES \<and> control_free v"

fun declared_loop :: "bytes option \<Rightarrow> nat \<Rightarrow> nat \<Rightarrow> (bytes \<times> bytes) list \<Rightarrow> bool" where
  "declared_loop previous count used [] = True"
| "declared_loop previous count used ((name, v) # rest) =
    (let count = count + 1; used = used + (length name + length v) in
     if count > MAX_DECLARED \<or> used > MAX_DECLARED_BYTES \<or> \<not> declared_name_valid name \<or>
        \<not> declared_value_valid v \<or> (case previous of None \<Rightarrow> False | Some l \<Rightarrow> l \<ge> name)
     then False else declared_loop (Some name) count used rest)"

definition declared_valid :: "(bytes \<times> bytes) list \<Rightarrow> bool" where
  "declared_valid entries = declared_loop None 0 0 entries"

subsection \<open>The variables of a submit\<close>

datatype 'f not_passed = Flagged 'f | InvalidValue

record 'f built =
  bu_path :: "bytes option"
  bu_passed :: "(u8 \<times> bytes) list"
  bu_not_passed :: "(bytes \<times> 'f not_passed) list"

definition value_of :: "(bytes \<times> bytes) list \<Rightarrow> bytes \<Rightarrow> bytes option" where
  "value_of captured name = map_option snd (find (\<lambda>e. fst e = name) captured)"

definition build_entry ::
  "(bytes \<times> bytes) list \<Rightarrow> (bytes \<Rightarrow> 'f option) \<Rightarrow> terminal_name \<Rightarrow> 'f built \<Rightarrow> 'f built" where
  "build_entry captured flagged entry b =
    (case value_of captured (tn_name entry) of
       None \<Rightarrow> b
     | Some v \<Rightarrow> (case flagged (tn_name entry) of
         Some finding \<Rightarrow> b\<lparr>bu_not_passed := bu_not_passed b @ [(tn_name entry, Flagged finding)]\<rparr>
       | None \<Rightarrow>
         if \<not> class_valid (tn_class entry) v
         then b\<lparr>bu_not_passed := bu_not_passed b @ [(tn_name entry, InvalidValue)]\<rparr>
         else if utf8_valid v then b\<lparr>bu_passed := bu_passed b @ [(tn_code entry, v)]\<rparr>
         else b\<lparr>bu_not_passed := bu_not_passed b @ [(tn_name entry, InvalidValue)]\<rparr>))"

definition build :: "(bytes \<times> bytes) list \<Rightarrow> (bytes \<Rightarrow> 'f option) \<Rightarrow> 'f built" where
  "build captured flagged = fold (build_entry captured flagged) TERMINAL
    \<lparr>bu_path = Option.bind (value_of captured (ascii ''PATH'')) sanitize_path, bu_passed = [], bu_not_passed = []\<rparr>"

subsection \<open>The frame of the setup thread\<close>

fun frame_loop :: "nat \<Rightarrow> nat \<Rightarrow> bytes list \<Rightarrow> nat \<Rightarrow> (bytes \<times> bytes) list \<Rightarrow> bytes list option" where
  "frame_loop max_entries max_bytes names used [] = Some names"
| "frame_loop max_entries max_bytes names used ((name, v) # rest) =
    (let used = used + (length name + length v) in
     if length names = max_entries \<or> used > max_bytes \<or> \<not> name_form name \<or> reserved name \<or> 0 \<in> set v \<or>
        name \<in> set names \<or> (case terminal_of name of None \<Rightarrow> False | Some t \<Rightarrow> \<not> class_valid (tn_class t) v)
     then None else frame_loop max_entries max_bytes (names @ [name]) used rest)"

definition frame_entries_valid :: "(bytes \<times> bytes) list \<Rightarrow> nat \<Rightarrow> nat \<Rightarrow> bool" where
  "frame_entries_valid entries max_entries max_bytes =
    (case frame_loop max_entries max_bytes [] 0 entries of None \<Rightarrow> False
     | Some names \<Rightarrow> set (map ascii [''PATH'', ''HOME'', ''TMPDIR'']) \<subseteq> set names)"

definition client_entry_valid :: "bytes \<Rightarrow> bytes \<Rightarrow> bool" where
  "client_entry_valid name v = (case terminal_of name of
      Some t \<Rightarrow> class_valid (tn_class t) v
    | None \<Rightarrow> declared_name_valid name \<and> declared_value_valid v)"

subsection \<open>The table\<close>

lemma length_TERMINAL: "length TERMINAL = TERMINAL_COUNT"
  by (simp add: TERMINAL_def)

lemma TERMINAL_codes: "map tn_code TERMINAL = map of_nat [1..<40]"
  by (simp add: TERMINAL_def terminal_entry_def upt_rec)

lemma TERMINAL_names_distinct: "distinct (map tn_name TERMINAL)"
  by (simp add: TERMINAL_def terminal_entry_def ascii_def)

lemma TERMINAL_code_nth: "i < TERMINAL_COUNT \<Longrightarrow> tn_code (TERMINAL ! i) = of_nat (i + 1)"
proof -
  assume i: "i < TERMINAL_COUNT"
  then have "tn_code (TERMINAL ! i) = map tn_code TERMINAL ! i" by (simp add: length_TERMINAL)
  then show ?thesis using i unfolding TERMINAL_codes by simp
qed

lemma by_code_entry:
  assumes "t \<in> set TERMINAL"
  shows "by_code (tn_code t) = Some t"
proof -
  obtain i where i: "i < TERMINAL_COUNT" "t = TERMINAL ! i"
    using assms by (auto simp: in_set_conv_nth length_TERMINAL)
  have code: "unat (tn_code t) = i + 1"
    unfolding i(2) TERMINAL_code_nth [OF i(1)] by (subst unat_of_nat) (use i(1) in simp)
  then have "tn_code t \<noteq> 0" by (metis add_is_0 one_neq_zero unat_0)
  then show ?thesis
    unfolding by_code_def code using i by (simp add: length_TERMINAL)
qed

lemma terminal_of_entry:
  assumes "t \<in> set TERMINAL"
  shows "terminal_of (tn_name t) = Some t"
proof -
  have "find (\<lambda>u. tn_name u = tn_name t) ts = Some t"
    if "t \<in> set ts" "distinct (map tn_name ts)" for ts
    using that by (induction ts) (auto simp: image_iff)
  then show ?thesis using assms TERMINAL_names_distinct by (simp add: terminal_of_def)
qed

lemma TERMINAL_codes_ascending: "sorted_wrt (\<lambda>a b. tn_code a < tn_code b) TERMINAL"
  by (simp add: TERMINAL_def terminal_entry_def)

subsection \<open>PATH entries\<close>

lemma sanitize_path_SomeD:
  assumes "sanitize_path raw = Some p"
  shows "split_on 0x3A p = filter absolute (split_on 0x3A raw)" "filter absolute (split_on 0x3A raw) \<noteq> []"
    "length p \<le> length raw" "length raw \<le> MAX_PATH_BYTES" "utf8_valid p" "0 \<notin> set p" "p \<noteq> []"
    "length (split_on 0x3A raw) \<le> MAX_PATH_ENTRIES"
proof -
  let ?kept = "filter absolute (split_on 0x3A raw)"
  from assms have facts: "length raw \<le> MAX_PATH_BYTES" "0 \<notin> set raw" "utf8_valid raw"
    "length (split_on 0x3A raw) \<le> MAX_PATH_ENTRIES" "?kept \<noteq> []" and p: "p = join 0x3A ?kept"
    by (auto simp: sanitize_path_def Let_def split: if_splits)
  show split: "split_on 0x3A p = ?kept"
    unfolding p using facts(5) by (intro split_on_join) (auto dest: split_on_parts)
  show "?kept \<noteq> []" "length raw \<le> MAX_PATH_BYTES" "length (split_on 0x3A raw) \<le> MAX_PATH_ENTRIES"
    using facts by auto
  show "length p \<le> length raw"
    using length_join_filter [of "0x3A" absolute "split_on 0x3A raw"] unfolding p by simp
  have "\<forall>x\<in>set (split_on 0x3A raw). utf8_valid x"
    using utf8_valid_join [of "0x3A" "split_on 0x3A raw"] facts(3) by simp
  then show "utf8_valid p" unfolding p by (simp add: utf8_valid_join)
  have "0 \<notin> set x" if "x \<in> set (split_on 0x3A raw)" for x
    using that facts(2) by (meson in_set_split_on)
  then show "0 \<notin> set p" using set_join [of "0x3A" ?kept] unfolding p by auto
  show "p \<noteq> []"
  proof
    assume "p = []"
    then have "?kept = [[]]" using split by simp
    then have "[] \<in> set ?kept" by simp
    then show False by (simp add: absolute_def)
  qed
qed

lemma sanitize_path_fixed:
  assumes "p \<noteq> []" "length p \<le> MAX_PATH_BYTES" "0 \<notin> set p" "utf8_valid p"
    "length (split_on 0x3A p) \<le> MAX_PATH_ENTRIES" "\<forall>e\<in>set (split_on 0x3A p). absolute e"
  shows "sanitize_path p = Some p"
proof -
  have "filter absolute (split_on 0x3A p) = split_on 0x3A p" using assms(6) by (simp add: filter_id_conv)
  then show ?thesis using assms by (simp add: sanitize_path_def)
qed

subsection \<open>Declared variables\<close>

lemma declared_loop_iff:
  "declared_loop previous count used es \<longleftrightarrow>
    (es = [] \<or> count + length es \<le> MAX_DECLARED \<and>
      used + sum_list (map (\<lambda>(n, v). length n + length v) es) \<le> MAX_DECLARED_BYTES) \<and>
    (\<forall>(n, v)\<in>set es. declared_name_valid n \<and> declared_value_valid v) \<and>
    sorted_wrt (<) ((case previous of None \<Rightarrow> [] | Some l \<Rightarrow> [l]) @ map fst es)"
proof (induction es arbitrary: previous count used)
  case (Cons e es)
  obtain n v where e: "e = (n, v)" by (cases e)
  have order: "(case previous of None \<Rightarrow> True | Some l \<Rightarrow> l < n) \<and> sorted_wrt (<) (n # names) \<longleftrightarrow>
      sorted_wrt (<) ((case previous of None \<Rightarrow> [] | Some l \<Rightarrow> [l]) @ n # names)" for names
    by (cases previous) (auto intro: less_trans)
  have bound: "c + 1 \<le> 32 \<and> u \<le> 4096 \<and> (es = [] \<or> c + 1 + length es \<le> 32 \<and> u + k \<le> 4096) \<longleftrightarrow>
      c + length (e # es) \<le> 32 \<and> u + (if es = [] then 0 else k) \<le> 4096" for c u k :: nat
    by auto
  show ?case
    using order [of "map fst es"] bound [of count "used + (length n + length v)" "sum_list (map (\<lambda>(n, v). length n + length v) es)"]
    unfolding e by (cases previous) (auto simp: Cons.IH Let_def not_le not_less split: if_splits)
qed (simp split: option.splits)

subsection \<open>What a submit passes\<close>

definition passed_of :: "(bytes \<times> bytes) list \<Rightarrow> (bytes \<Rightarrow> 'f option) \<Rightarrow> terminal_name \<Rightarrow> (u8 \<times> bytes) option" where
  "passed_of captured flagged t = (case value_of captured (tn_name t) of None \<Rightarrow> None
    | Some v \<Rightarrow> if flagged (tn_name t) = None \<and> class_valid (tn_class t) v \<and> utf8_valid v
        then Some (tn_code t, v) else None)"

lemma build_entry_passed:
  "bu_passed (build_entry captured flagged t b) = bu_passed b @
    (case passed_of captured flagged t of None \<Rightarrow> [] | Some e \<Rightarrow> [e])"
  "bu_path (build_entry captured flagged t b) = bu_path b"
  by (auto simp: build_entry_def passed_of_def split: option.splits)

lemma build_fold_passed:
  "bu_passed (fold (build_entry captured flagged) ts b) = bu_passed b @ List.map_filter (passed_of captured flagged) ts"
  "bu_path (fold (build_entry captured flagged) ts b) = bu_path b"
  by (induction ts arbitrary: b) (auto simp: build_entry_passed map_filter_simps split: option.splits)

lemma build_passed: "bu_passed (build captured flagged) = List.map_filter (passed_of captured flagged) TERMINAL"
  by (simp add: build_def build_fold_passed)

lemma build_path: "bu_path (build captured flagged) = Option.bind (value_of captured (ascii ''PATH'')) sanitize_path"
  by (simp add: build_def build_fold_passed)

lemma map_filter_ascending:
  "sorted_wrt (\<lambda>a b. tn_code a < tn_code b) ts \<Longrightarrow>
    sorted_wrt (\<lambda>a b. fst a < fst b) (List.map_filter (passed_of captured flagged) ts)"
proof (induction ts)
  case (Cons t ts)
  have "fst x = tn_code t" if "passed_of captured flagged t = Some x" for t x
    using that by (auto simp: passed_of_def split: option.splits if_splits)
  then show ?case
    using Cons by (fastforce simp: List.map_filter_def)
qed (simp add: List.map_filter_def)

subsection \<open>The frame loop\<close>

lemma frame_loop_iff:
  "frame_loop max_entries max_bytes names used es = Some result \<longleftrightarrow>
    result = names @ map fst es \<and> (\<forall>k < length es. length names + k \<noteq> max_entries) \<and>
    (es = [] \<or> used + sum_list (map (\<lambda>(n, v). length n + length v) es) \<le> max_bytes) \<and>
    (\<forall>(n, v)\<in>set es. name_form n \<and> \<not> reserved n \<and> 0 \<notin> set v \<and>
      (case terminal_of n of None \<Rightarrow> True | Some t \<Rightarrow> class_valid (tn_class t) v)) \<and>
    distinct (map fst es) \<and> set names \<inter> fst ` set es = {}"
proof (induction es arbitrary: names used)
  case (Cons e es)
  obtain n v where e: "e = (n, v)" by (cases e)
  have split: "(\<forall>k < Suc m. l + k \<noteq> max_entries) \<longleftrightarrow> l \<noteq> max_entries \<and> (\<forall>k < m. Suc l + k \<noteq> max_entries)" for l m
    by (auto simp: less_Suc_eq_0_disj)
  let ?ok = "length names \<noteq> max_entries \<and> used + (length n + length v) \<le> max_bytes \<and> name_form n \<and>
    \<not> reserved n \<and> 0 \<notin> set v \<and> n \<notin> set names \<and>
    (case terminal_of n of None \<Rightarrow> True | Some t \<Rightarrow> class_valid (tn_class t) v)"
  have "frame_loop max_entries max_bytes names used (e # es) = Some result \<longleftrightarrow>
      ?ok \<and> frame_loop max_entries max_bytes (names @ [n]) (used + (length n + length v)) es = Some result"
    unfolding e by (cases "terminal_of n") (auto simp: Let_def)
  then show ?case
    unfolding Cons.IH unfolding e by (cases "es = []") (auto simp: split)
qed auto

subsection \<open>Properties\<close>

text \<open>C37: The one-pass check of a project's declared variables accepts exactly the lists with at most 32 entries
  and 4,096 bytes of names and values, each name and value valid, and the names in strictly increasing byte
  order.\<close>

theorem declared_valid_spec:
  "declared_valid es \<longleftrightarrow> length es \<le> MAX_DECLARED \<and>
    sum_list (map (\<lambda>(n, v). length n + length v) es) \<le> MAX_DECLARED_BYTES \<and>
    list_all (\<lambda>(n, v). declared_name_valid n \<and> declared_value_valid v) es \<and> sorted_wrt (<) (map fst es)"
  by (cases "es = []") (auto simp: declared_valid_def declared_loop_iff list_all_iff)

text \<open>C38: The frame check accepts exactly the environments within the two bounds that name PATH, HOME and TMPDIR,
  name nothing twice, use only names of the form of a variable name (1 to 64 bytes, ASCII letters, digits and
  underscores, the first no digit) without a reserved prefix, hold no NUL in a value, and give every name of the terminal
  table a value of its class.\<close>

theorem frame_entries_valid_spec:
  "frame_entries_valid es max_entries max_bytes \<longleftrightarrow> length es \<le> max_entries \<and>
    sum_list (map (\<lambda>(n, v). length n + length v) es) \<le> max_bytes \<and> distinct (map fst es) \<and>
    {ascii ''PATH'', ascii ''HOME'', ascii ''TMPDIR''} \<subseteq> set (map fst es) \<and>
    list_all (\<lambda>(n, v). name_form n \<and> \<not> reserved n \<and> 0 \<notin> set v \<and>
      (case terminal_of n of None \<Rightarrow> True | Some t \<Rightarrow> class_valid (tn_class t) v)) es"
proof -
  have count: "(\<forall>k < length es. k \<noteq> max_entries) \<longleftrightarrow> length es \<le> max_entries" by (auto simp: not_less [symmetric])
  have result: "names = map fst es" if "frame_loop max_entries max_bytes [] 0 es = Some names" for names
    using that by (simp add: frame_loop_iff)
  have "frame_entries_valid es max_entries max_bytes \<longleftrightarrow>
      frame_loop max_entries max_bytes [] 0 es = Some (map fst es) \<and>
      {ascii ''PATH'', ascii ''HOME'', ascii ''TMPDIR''} \<subseteq> set (map fst es)"
  proof (cases "frame_loop max_entries max_bytes [] 0 es")
    case (Some names)
    then show ?thesis using result [OF Some] by (simp add: frame_entries_valid_def)
  qed (simp add: frame_entries_valid_def)
  moreover have "{ascii ''PATH'', ascii ''HOME'', ascii ''TMPDIR''} \<subseteq> set (map fst es) \<Longrightarrow> es \<noteq> []" by auto
  ultimately show ?thesis
    by (auto simp: frame_loop_iff count list_all_iff)
qed

end
