(* ===== verification/NamedSecrets.thy ===== *)
theory NamedSecrets
  imports Environment Placeholders
begin

section \<open>Named secret references\<close>

text \<open>
  \<open>asura-platform/src/secrets/named.rs\<close>: the rule for secret names, the parser of named references in a
  command, and the resolver that replaces them with numbered variables. The scanner of the source moves an
  index over the bytes; here it recurses on the bytes that are left, with the index as an argument.
\<close>

definition NAMED_PREFIX :: bytes where
  "NAMED_PREFIX = ascii ''ASURA_SECRET_''"

abbreviation MAX_SECRET_NAME :: nat where "MAX_SECRET_NAME \<equiv> 48"

definition RESERVED_NAME :: bytes where
  "RESERVED_NAME = ascii ''COMMAND''"

abbreviation MAX_SECRET_VARIABLES :: nat where "MAX_SECRET_VARIABLES \<equiv> 16"
abbreviation MAX_REWRITTEN_COMMAND :: nat where "MAX_REWRITTEN_COMMAND \<equiv> 8192"

definition secret_name_valid :: "bytes \<Rightarrow> bool" where
  "secret_name_valid name \<longleftrightarrow> 1 \<le> length name \<and> length name \<le> MAX_SECRET_NAME \<and>
    (ascii_alphabetic (name ! 0) \<or> name ! 0 = 0x5F) \<and> (\<forall>b\<in>set name. name_byte b) \<and> name \<noteq> RESERVED_NAME"

definition reference_text :: "bytes \<Rightarrow> bytes" where
  "reference_text name = ascii ''${'' @ NAMED_PREFIX @ name @ ascii ''}''"

record secret_reference =
  sf_start :: nat
  sf_end :: nat
  sf_name :: bytes

datatype reference_error = ReferenceInvalid | ReferenceTooMany

text \<open>What the scanner does at one position: go on by one byte, fail, or take a reference of the given length.\<close>

datatype reference_step = NoReference | BadReference | FoundReference nat bytes

definition reference_at :: "bytes \<Rightarrow> reference_step" where
  "reference_at rest =
    (let braced = starts_with (ascii ''${'') rest in
     if \<not> braced \<and> \<not> starts_with (ascii ''$'') rest then NoReference
     else let opening = (if braced then 2 else 1) in
     if \<not> starts_with NAMED_PREFIX (drop opening rest) then NoReference
     else let name_start = opening + length NAMED_PREFIX;
              name = takeWhile name_byte (drop name_start rest);
              stop = name_start + length name in
     if name = [] \<or> (\<forall>b\<in>set name. ascii_digit b) \<or> name = RESERVED_NAME then NoReference
     else if braced \<and> \<not> (stop < length rest \<and> rest ! stop = 0x7D) then BadReference
     else if \<not> secret_name_valid name then BadReference
     else FoundReference (if braced then stop + 1 else stop) name)"

lemma found_reference_positive: "reference_at rest = FoundReference n name \<Longrightarrow> 0 < n"
  by (auto simp: reference_at_def Let_def split: if_splits)

lemma found_reference_length: "reference_at rest = FoundReference n name \<Longrightarrow> n \<le> length rest"
proof -
  assume found: "reference_at rest = FoundReference n name"
  have fit: "k + length (takeWhile name_byte (drop k rest)) \<le> length rest"
    if "takeWhile name_byte (drop k rest) \<noteq> []" for k
  proof -
    have "length (takeWhile name_byte (drop k rest)) \<le> length rest - k"
      by (metis length_drop length_takeWhile_le)
    moreover have "k \<le> length rest" using that by (cases "k \<le> length rest") auto
    ultimately show ?thesis by simp
  qed
  show ?thesis
    using found fit [of "1 + length NAMED_PREFIX"] fit [of "2 + length NAMED_PREFIX"]
    by (auto simp: reference_at_def Let_def split: if_splits)
qed

function references_from :: "nat \<Rightarrow> bytes \<Rightarrow> reference_error + secret_reference list" where
  "references_from at rest =
    (if rest = [] then Inr []
     else case reference_at rest of
        NoReference \<Rightarrow> references_from (at + 1) (drop 1 rest)
      | BadReference \<Rightarrow> Inl ReferenceInvalid
      | FoundReference n name \<Rightarrow>
          result_bind (references_from (at + n) (drop n rest)) (\<lambda>found.
          Inr (\<lparr>sf_start = at, sf_end = at + n, sf_name = name\<rparr> # found)))"
  by auto
termination
  by (relation "measure (\<lambda>(at, rest). length rest)") (auto dest: found_reference_positive)

declare references_from.simps [simp del]

definition references :: "bytes \<Rightarrow> reference_error + secret_reference list" where
  "references t = references_from 0 t"

definition holds_reference :: "bytes \<Rightarrow> bool" where
  "holds_reference b \<longleftrightarrow> utf8_valid b \<and> references b \<noteq> Inr []"

subsection \<open>The resolver\<close>

record resolved =
  rs_command :: bytes
  rs_names :: "(u8 \<times> bytes) list"

definition numbered_text :: "u8 \<Rightarrow> bytes" where
  "numbered_text number = ascii ''${'' @ NAMED_PREFIX @ decimal (unat number) @ ascii ''}''"

definition assign_number ::
  "nat \<Rightarrow> (u8 \<times> bytes) list \<Rightarrow> bytes \<Rightarrow> reference_error + u8 \<times> (u8 \<times> bytes) list" where
  "assign_number numbered names name = (case find (\<lambda>e. snd e = name) names of
      Some (number, _) \<Rightarrow> Inr (number, names)
    | None \<Rightarrow> let following = numbered + length names + 1 in
        if following > MAX_SECRET_VARIABLES then Inl ReferenceTooMany
        else Inr (of_nat following, names @ [(of_nat following, name)]))"

fun resolve_loop :: "nat \<Rightarrow> bytes \<Rightarrow> nat \<Rightarrow> (u8 \<times> bytes) list \<Rightarrow> bytes \<Rightarrow> secret_reference list
    \<Rightarrow> reference_error + bytes \<times> (u8 \<times> bytes) list" where
  "resolve_loop numbered command cursor names out [] = Inr (out @ drop cursor command, names)"
| "resolve_loop numbered command cursor names out (r # rs) =
    result_bind (assign_number numbered names (sf_name r)) (\<lambda>(number, names).
    resolve_loop numbered command (sf_end r) names
      (out @ subrange cursor (sf_start r) command @ numbered_text number) rs)"

definition resolve :: "bytes \<Rightarrow> nat \<Rightarrow> reference_error + resolved" where
  "resolve command numbered =
    result_bind (references command) (\<lambda>rs.
    result_bind (resolve_loop numbered command 0 [] [] rs) (\<lambda>(out, names).
    if length out > MAX_REWRITTEN_COMMAND then Inl ReferenceTooMany
    else Inr \<lparr>rs_command = out, rs_names = names\<rparr>))"

subsection \<open>The scan depends on the text up to the next dollar sign\<close>

definition same_to_dollar :: "bytes \<Rightarrow> bytes \<Rightarrow> bool" where
  "same_to_dollar s t \<longleftrightarrow> s = t \<or> (\<exists>u x y. s = u @ 0x24 # x \<and> t = u @ 0x24 # y)"

lemma same_to_dollar_Cons: "same_to_dollar s t \<Longrightarrow> same_to_dollar (a # s) (a # t)"
  unfolding same_to_dollar_def by (metis append_Cons)

lemma same_to_dollar_tl:
  assumes "same_to_dollar s t" "starts_with p s" "0x24 \<notin> set p"
  shows "starts_with p t \<and> same_to_dollar (drop (length p) s) (drop (length p) t)"
proof -
  consider "s = t" | u x y where "s = u @ 0x24 # x" "t = u @ 0x24 # y"
    using assms(1) unfolding same_to_dollar_def by blast
  then show ?thesis
  proof cases
    case 2
    have le: "length p \<le> length u"
    proof (rule ccontr)
      assume "\<not> length p \<le> length u"
      then have "length u < length p" by simp
      then have "p ! length u = s ! length u"
        using assms(2) by (metis nth_take starts_with_def)
      then have "p ! length u = 0x24" using 2 by simp
      then show False using assms(3) \<open>length u < length p\<close> by (metis nth_mem)
    qed
    then show ?thesis using assms(2) 2 by (auto simp: starts_with_def same_to_dollar_def)
  qed (use assms(2) in \<open>simp add: same_to_dollar_def\<close>)
qed

lemma same_to_dollar_sym: "same_to_dollar s t \<Longrightarrow> same_to_dollar t s"
  by (auto simp: same_to_dollar_def)

lemma same_to_dollar_starts:
  "same_to_dollar s t \<Longrightarrow> 0x24 \<notin> set p \<Longrightarrow> starts_with p s \<longleftrightarrow> starts_with p t"
  using same_to_dollar_tl same_to_dollar_sym by blast

lemma name_byte_dollar: "\<not> name_byte 0x24"
  by (simp add: name_byte_def ascii_alphanumeric_def ascii_alphabetic_def ascii_lowercase_def ascii_uppercase_def
      ascii_digit_def)

lemma same_to_dollar_name: "same_to_dollar s t \<Longrightarrow> takeWhile name_byte s = takeWhile name_byte t"
  by (auto simp: same_to_dollar_def takeWhile_append name_byte_dollar)

lemma prefix_no_dollar: "0x24 \<notin> set NAMED_PREFIX" "0x24 \<notin> set (ascii ''{'')"
  by (simp_all add: NAMED_PREFIX_def ascii_def)

lemma starts_with_Cons: "starts_with (a # p) (b # s) \<longleftrightarrow> a = b \<and> starts_with p s"
  by (auto simp: starts_with_def)

lemma dollar_texts: "ascii ''${'' = 0x24 # ascii ''{''" "ascii ''$'' = [0x24]"
  by (simp_all add: ascii_def)

lemma starts_with_Nil [simp]: "starts_with [] s"
  by (simp add: starts_with_def)

lemma reference_at_other: "a \<noteq> 0x24 \<Longrightarrow> reference_at (a # s) = NoReference"
  by (simp add: reference_at_def Let_def dollar_texts starts_with_Cons)

text \<open>The name that a reference would have.\<close>

definition no_name :: "bytes \<Rightarrow> bool" where
  "no_name s \<longleftrightarrow> \<not> starts_with NAMED_PREFIX s \<or>
    (let name = takeWhile name_byte (drop (length NAMED_PREFIX) s) in
     name = [] \<or> (\<forall>b\<in>set name. ascii_digit b) \<or> name = RESERVED_NAME)"

lemma no_reference_iff:
  "reference_at (0x24 # s) = NoReference \<longleftrightarrow> no_name (if starts_with (ascii ''{'') s then drop 1 s else s)"
  by (auto simp: reference_at_def no_name_def Let_def dollar_texts starts_with_Cons)

lemma no_name_same: "same_to_dollar s t \<Longrightarrow> no_name s \<Longrightarrow> no_name t"
proof -
  assume same: "same_to_dollar s t" and s: "no_name s"
  show "no_name t"
  proof (cases "starts_with NAMED_PREFIX s")
    case True
    then have "same_to_dollar (drop (length NAMED_PREFIX) s) (drop (length NAMED_PREFIX) t)"
      using same_to_dollar_tl [OF same True prefix_no_dollar(1)] by simp
    then show ?thesis using s True by (simp add: no_name_def Let_def same_to_dollar_name)
  next
    case False
    then show ?thesis using same_to_dollar_starts [OF same prefix_no_dollar(1)] by (simp add: no_name_def)
  qed
qed

lemma no_reference_same:
  assumes "reference_at (a # s) = NoReference" "same_to_dollar s t"
  shows "reference_at (a # t) = NoReference"
proof (cases "a = 0x24")
  case True
  have brace: "starts_with (ascii ''{'') s \<longleftrightarrow> starts_with (ascii ''{'') t"
    by (rule same_to_dollar_starts [OF assms(2) prefix_no_dollar(2)])
  have "same_to_dollar (drop 1 s) (drop 1 t)" if "starts_with (ascii ''{'') s"
    using same_to_dollar_tl [OF assms(2) that prefix_no_dollar(2)] by (simp add: ascii_def)
  then show ?thesis
    using assms(1,2) no_name_same brace unfolding True no_reference_iff by (auto split: if_splits)
qed (simp add: reference_at_other)

subsection \<open>A resolved command has no reference left\<close>

text \<open>\<open>replaces names text out\<close>: \<open>out\<close> is \<open>text\<close> with every named reference replaced by the variable of the number
  that \<open>names\<close> gives to its name.\<close>

inductive replaces :: "(u8 \<times> bytes) list \<Rightarrow> bytes \<Rightarrow> bytes \<Rightarrow> bool" for names where
  replaces_end: "replaces names [] []"
| replaces_keep: "reference_at (a # s) = NoReference \<Longrightarrow> replaces names s t \<Longrightarrow> replaces names (a # s) (a # t)"
| replaces_found: "reference_at s = FoundReference n name \<Longrightarrow> (number, name) \<in> set names \<Longrightarrow>
    replaces names (drop n s) t \<Longrightarrow> replaces names s (numbered_text number @ t)"

lemma replaces_mono: "replaces names s t \<Longrightarrow> set names \<subseteq> set names' \<Longrightarrow> replaces names' s t"
  by (induction rule: replaces.induct) (auto intro: replaces.intros)

lemma found_starts_dollar: "reference_at s = FoundReference n name \<Longrightarrow> \<exists>x. s = 0x24 # x"
  by (cases s) (auto simp: reference_at_def Let_def dollar_texts starts_with_Cons starts_with_def split: if_splits)

lemma numbered_text_dollar: "\<exists>x. numbered_text number @ t = 0x24 # x"
  by (simp add: numbered_text_def ascii_def)

lemma replaces_same: "replaces names s t \<Longrightarrow> same_to_dollar s t"
proof (induction rule: replaces.induct)
  case (replaces_found s n name number t)
  then show ?case
    using found_starts_dollar [OF replaces_found.hyps(1)] numbered_text_dollar [of number t]
    unfolding same_to_dollar_def by (metis append_Nil)
qed (simp_all add: same_to_dollar_def [of "[]"] same_to_dollar_Cons)

lemma references_skip: "reference_at (a # s) = NoReference \<Longrightarrow> references_from at (a # s) = references_from (at + 1) s"
  by (subst references_from.simps) simp

lemma references_skip_text: "0x24 \<notin> set w \<Longrightarrow> references_from at (w @ s) = references_from (at + length w) s"
  by (induction w arbitrary: at) (simp_all add: references_skip reference_at_other)

lemma numbered_text_split:
  "numbered_text number = 0x24 # (ascii ''{'' @ NAMED_PREFIX @ decimal (unat number) @ ascii ''}'')"
  "0x24 \<notin> set (ascii ''{'' @ NAMED_PREFIX @ decimal (unat number) @ ascii ''}'')"
  using decimal_digits [of "unat number"] prefix_no_dollar
  by (auto simp: numbered_text_def dollar_texts ascii_digit_def) (simp_all add: ascii_def)

lemma takeWhile_decimal: "takeWhile name_byte (decimal n @ ascii ''}'' @ t) = decimal n"
proof -
  have "\<forall>d\<in>set (decimal n). name_byte d"
    using decimal_digits [of n] by (auto simp: name_byte_def ascii_alphanumeric_def)
  moreover have "\<not> name_byte 0x7D"
    by (simp add: name_byte_def ascii_alphanumeric_def ascii_alphabetic_def ascii_lowercase_def ascii_uppercase_def
        ascii_digit_def)
  ultimately show ?thesis by (simp add: takeWhile_append ascii_def)
qed

lemma numbered_no_reference: "reference_at (numbered_text number @ t) = NoReference"
proof -
  have "starts_with (ascii ''{'') (ascii ''{'' @ x)" "drop 1 (ascii ''{'' @ x) = x" for x
    by (simp_all add: starts_with_def ascii_def)
  moreover have "no_name (NAMED_PREFIX @ decimal (unat number) @ ascii ''}'' @ t)"
    using decimal_digits [of "unat number"] by (simp add: no_name_def Let_def takeWhile_decimal)
  ultimately show ?thesis
    unfolding numbered_text_split(1) append_Cons no_reference_iff append_assoc by simp
qed

lemma references_skip_numbered:
  "references_from at (numbered_text number @ t) = references_from (at + length (numbered_text number)) t"
proof -
  let ?w = "ascii ''{'' @ NAMED_PREFIX @ decimal (unat number) @ ascii ''}''"
  have "references_from at (0x24 # ?w @ t) = references_from (at + 1) (?w @ t)"
    using numbered_no_reference [of number t] unfolding numbered_text_split(1) append_Cons by (rule references_skip)
  then show ?thesis
    unfolding numbered_text_split(1) append_Cons
    by (simp only: references_skip_text [OF numbered_text_split(2)]) simp
qed

lemma replaces_no_reference: "replaces names s t \<Longrightarrow> references_from at t = Inr []"
proof (induction arbitrary: at rule: replaces.induct)
  case replaces_end
  then show ?case by (simp add: references_from.simps)
next
  case (replaces_keep a s t)
  then show ?case
    using no_reference_same [OF replaces_keep.hyps(1) replaces_same [OF replaces_keep.hyps(2)]]
    by (simp add: references_skip)
qed (simp add: references_skip_numbered)

subsection \<open>The loop\<close>

lemma find_SomeD: "find P xs = Some x \<Longrightarrow> P x \<and> x \<in> set xs"
  by (induction xs) (auto split: if_splits)

lemma assign_number_Inr:
  assumes "assign_number numbered names name = Inr (number, names')"
  shows "\<exists>extra. names' = names @ extra" "(number, name) \<in> set names'"
  using assms by (auto simp: assign_number_def Let_def dest!: find_SomeD split: option.splits if_splits)

lemma resolve_loop_replaces:
  "references_from at rest = Inr rs \<Longrightarrow> rest = drop at command \<Longrightarrow> cursor \<le> at \<Longrightarrow> at \<le> length command \<Longrightarrow>
    resolve_loop numbered command cursor names out rs = Inr (out', names') \<Longrightarrow>
    \<exists>w extra. out' = out @ subrange cursor at command @ w \<and> replaces names' rest w \<and> names' = names @ extra"
proof (induction at rest arbitrary: rs cursor names out rule: references_from.induct)
  case (1 at rest)
  show ?case
  proof (cases "rest = []")
    case True
    then have "rs = []" using "1.prems"(1) by (simp add: references_from.simps)
    moreover have "drop cursor command = subrange cursor at command"
      using True "1.prems"(2,4) by (simp add: subrange_def)
    ultimately show ?thesis using "1.prems"(5) True by (auto intro: replaces_end)
  next
    case False
    then obtain a s where s: "rest = a # s" by (cases rest) auto
    have at: "at < length command" using False "1.prems"(2) by simp
    show ?thesis
    proof (cases "reference_at rest")
      case NoReference
      then have "references_from (at + 1) (drop 1 rest) = Inr rs"
        using "1.prems"(1) s by (simp add: references_skip)
      moreover have "drop 1 rest = drop (at + 1) command" using "1.prems"(2) by simp
      ultimately obtain w extra where w: "out' = out @ subrange cursor (at + 1) command @ w"
        "replaces names' (drop 1 rest) w" "names' = names @ extra"
        using "1.IH"(1) [OF False NoReference, of rs cursor names out] "1.prems"(3,5) at by auto
      have "subrange at (at + 1) command = [a]"
        using s "1.prems"(2) by (simp add: subrange_def take_Suc)
      then have "subrange cursor (at + 1) command = subrange cursor at command @ [a]"
        using subrange_subrange [of cursor at "at + 1" command] "1.prems"(3) by simp
      then show ?thesis using w NoReference s by (auto intro: replaces_keep)
    next
      case BadReference
      then show ?thesis using "1.prems"(1) False by (simp add: references_from.simps [of at rest])
    next
      case (FoundReference n name)
      then obtain found where found: "references_from (at + n) (drop n rest) = Inr found"
        and rs: "rs = \<lparr>sf_start = at, sf_end = at + n, sf_name = name\<rparr> # found"
        using "1.prems"(1) False by (auto simp: references_from.simps [of at rest] result_bind_eq_Inr)
      obtain number names1 where assign: "assign_number numbered names name = Inr (number, names1)"
        and loop: "resolve_loop numbered command (at + n) names1
          (out @ subrange cursor at command @ numbered_text number) found = Inr (out', names')"
        using "1.prems"(5) unfolding rs by (auto simp: result_bind_eq_Inr)
      have n: "at + n \<le> length command"
        using found_reference_length [OF FoundReference] "1.prems"(2) at by simp
      obtain w extra where w: "out' = (out @ subrange cursor at command @ numbered_text number) @
            subrange (at + n) (at + n) command @ w" "replaces names' (drop n rest) w" "names' = names1 @ extra"
        using "1.IH"(2) [OF False FoundReference found _ _ n loop] "1.prems"(2) by (auto simp: add.commute)
      have "(number, name) \<in> set names'" using assign_number_Inr(2) [OF assign] w(3) by simp
      then have "replaces names' rest (numbered_text number @ w)"
        by (rule replaces_found [OF FoundReference _ w(2)])
      then show ?thesis using w(1,3) assign_number_Inr(1) [OF assign] by (auto simp: subrange_def)
    qed
  qed
qed

subsection \<open>The numbers\<close>

definition numbers_assigned :: "nat \<Rightarrow> (u8 \<times> bytes) list \<Rightarrow> bool" where
  "numbers_assigned numbered names \<longleftrightarrow>
    map fst names = map of_nat [numbered + 1..<numbered + 1 + length names] \<and> distinct (map snd names) \<and>
    (names = [] \<or> numbered + length names \<le> MAX_SECRET_VARIABLES) \<and> (\<forall>e\<in>set names. secret_name_valid (snd e))"

lemma assign_number_assigned:
  assumes "assign_number numbered names name = Inr (number, names')" "numbers_assigned numbered names"
    "secret_name_valid name"
  shows "numbers_assigned numbered names'"
proof (cases "find (\<lambda>e. snd e = name) names")
  case None
  then have "name \<notin> set (map snd names)" by (auto simp: find_None_iff)
  moreover have "names' = names @ [(of_nat (numbered + length names + 1), name)]"
    "numbered + length names + 1 \<le> MAX_SECRET_VARIABLES"
    using assms(1) None by (auto simp: assign_number_def Let_def split: if_splits)
  ultimately show ?thesis using assms(2,3) by (auto simp: numbers_assigned_def add.commute)
next
  case (Some e)
  then show ?thesis using assms by (cases e) (simp add: assign_number_def)
qed

lemma resolve_loop_assigned:
  "resolve_loop numbered command cursor names out rs = Inr (out', names') \<Longrightarrow> numbers_assigned numbered names \<Longrightarrow>
    \<forall>r\<in>set rs. secret_name_valid (sf_name r) \<Longrightarrow> numbers_assigned numbered names'"
  by (induction rs arbitrary: cursor names out) (auto simp: result_bind_eq_Inr dest: assign_number_assigned)

lemma found_name_valid: "reference_at rest = FoundReference n name \<Longrightarrow> secret_name_valid name"
  by (auto simp: reference_at_def Let_def split: if_splits)

lemma references_valid: "references_from at rest = Inr rs \<Longrightarrow> \<forall>r\<in>set rs. secret_name_valid (sf_name r)"
proof (induction at rest arbitrary: rs rule: references_from.induct)
  case (1 at rest)
  show ?case
  proof (cases "rest = []")
    case True
    then show ?thesis using "1.prems" by (simp add: references_from.simps [of at "[]"])
  next
    case False
    then show ?thesis
      using 1 found_name_valid [of rest]
      by (cases "reference_at rest") (auto simp: references_from.simps [of at rest] result_bind_eq_Inr)
  qed
qed

lemma resolve_InrD:
  assumes "resolve command numbered = Inr r"
  obtains rs where "references_from 0 command = Inr rs"
    "resolve_loop numbered command 0 [] [] rs = Inr (rs_command r, rs_names r)"
    "length (rs_command r) \<le> MAX_REWRITTEN_COMMAND"
  using assms by (auto simp: resolve_def references_def result_bind_eq_Inr split: if_splits)

subsection \<open>Properties\<close>

text \<open>C13: Resolving a command leaves no named reference in it: \<open>references\<close> finds none in the result, and the
  result is the command with each reference replaced by the variable whose number the returned list gives to
  its name, and every other byte kept.\<close>

theorem resolve_removes_references:
  assumes "resolve command numbered = Inr r"
  shows "references (rs_command r) = Inr [] \<and> replaces (rs_names r) command (rs_command r)"
proof -
  obtain rs where rs: "references_from 0 command = Inr rs"
    "resolve_loop numbered command 0 [] [] rs = Inr (rs_command r, rs_names r)"
    using resolve_InrD [OF assms] .
  from resolve_loop_replaces [OF rs(1) _ _ _ rs(2)]
  have "replaces (rs_names r) command (rs_command r)" by (auto simp: subrange_def)
  then show ?thesis by (simp add: references_def replaces_no_reference)
qed

definition demo_reference :: bytes where
  "demo_reference = ascii ''a $ASURA_SECRET_B''"

lemma demo_resolve:
  "resolve demo_reference 1 = Inr \<lparr>rs_command = ascii ''a ${ASURA_SECRET_2}'', rs_names = [(2, ascii ''B'')]\<rparr>"
  by code_simp

theorem resolve_removes_references_witness:
  "references (ascii ''a ${ASURA_SECRET_2}'') = Inr []"
  using resolve_removes_references [OF demo_resolve] by simp

text \<open>C39: The names of a resolved command get the numbers after the rewrite's own variables, one number for each
  distinct valid name in order, within the limit of 16 variables, and the command keeps its bound.\<close>

theorem resolve_numbers_names:
  assumes "resolve command numbered = Inr r"
  shows "map fst (rs_names r) = map of_nat [numbered + 1..<numbered + 1 + length (rs_names r)] \<and>
    distinct (map snd (rs_names r)) \<and> list_all secret_name_valid (map snd (rs_names r)) \<and>
    (rs_names r = [] \<or> numbered + length (rs_names r) \<le> MAX_SECRET_VARIABLES) \<and>
    length (rs_command r) \<le> MAX_REWRITTEN_COMMAND"
proof -
  obtain rs where rs: "references_from 0 command = Inr rs"
    "resolve_loop numbered command 0 [] [] rs = Inr (rs_command r, rs_names r)"
    "length (rs_command r) \<le> MAX_REWRITTEN_COMMAND"
    using resolve_InrD [OF assms] .
  have "numbers_assigned numbered (rs_names r)"
    using resolve_loop_assigned [OF rs(2) _ references_valid [OF rs(1)]] by (simp add: numbers_assigned_def)
  then show ?thesis using rs(3) by (auto simp: numbers_assigned_def list_all_iff)
qed

theorem resolve_numbers_names_witness:
  "resolve demo_reference 1 = Inr \<lparr>rs_command = ascii ''a ${ASURA_SECRET_2}'', rs_names = [(2, ascii ''B'')]\<rparr> \<and>
    map fst [(2, ascii ''B'')] = map of_nat [1 + 1..<1 + 1 + 1] \<and> secret_name_valid (ascii ''B'') \<and>
    length (ascii ''a ${ASURA_SECRET_2}'') \<le> MAX_REWRITTEN_COMMAND"
  using demo_resolve resolve_numbers_names [OF demo_resolve] by simp

end
