(* ===== verification/PersonCommands.thy ===== *)
theory PersonCommands
  imports ToolCalls NamedSecrets
begin

section \<open>Queued person commands (kind 31)\<close>

text \<open>
  \<open>PersonCommandQueued\<close> and \<open>PersonCommandRequest\<close> of \<open>authority/conversation/types.rs\<close> with their rules,
  writer and reader in \<open>authority/conversation/codec.rs\<close>. A record stores the digest of the request it was
  made from, so validation computes that digest; SHA-256 is the parameter \<open>sha\<close>.
\<close>

abbreviation MAX_PERSON_COMMAND :: nat where "MAX_PERSON_COMMAND \<equiv> 8192"
abbreviation MAX_PERSON_CWD :: nat where "MAX_PERSON_CWD \<equiv> 1024"
abbreviation MAX_SEARCH_PATH :: nat where "MAX_SEARCH_PATH \<equiv> 4096"
abbreviation MAX_SEARCH_PATH_ENTRIES :: nat where "MAX_SEARCH_PATH_ENTRIES \<equiv> 64"
abbreviation MAX_PERSON_REWRITE_NUMBERS :: nat where "MAX_PERSON_REWRITE_NUMBERS \<equiv> 16"
abbreviation MAX_PERSON_COMMAND_PAYLOAD :: nat where "MAX_PERSON_COMMAND_PAYLOAD \<equiv> 44943"
abbreviation MAX_PERSON_NAMED :: nat where "MAX_PERSON_NAMED \<equiv> 16"

definition WHOLE_COMMAND :: bytes where
  "WHOLE_COMMAND = ascii ''eval '' @ [0x22] @ ascii ''$ASURA_SECRET_COMMAND'' @ [0x22]"

subsection \<open>Requests and records\<close>

record person_request =
  pq_project :: id16
  pq_conversation :: "id16 option"
  pq_expected_generation :: u64
  pq_new_conversation :: bool
  pq_outside_sandbox :: bool
  pq_command :: bytes
  pq_display_command :: bytes
  pq_cwd :: bytes
  pq_search_path :: bytes
  pq_environment :: "(u8 \<times> bytes) list"
  pq_declared :: "(bytes \<times> bytes) list"
  pq_named :: "(u8 \<times> bytes) list"

record person_command =
  pc_request :: id16
  pc_digest :: hash32
  pc_input :: id16
  pc_project :: id16
  pc_conversation :: id16
  pc_expected_generation :: u64
  pc_new_conversation :: bool
  pc_outside_sandbox :: bool
  pc_command :: bytes
  pc_display_command :: bytes
  pc_cwd :: bytes
  pc_search_path :: bytes
  pc_environment :: "(u8 \<times> bytes) list"
  pc_declared :: "(bytes \<times> bytes) list"
  pc_named :: "(u8 \<times> bytes) list"
  pc_order_revision :: u64
  pc_number_kinds :: "secret_kind list"
  pc_unnumbered :: u32
  pc_command_cut :: bool
  pc_whole_command :: bool
  pc_rule_set_revision :: u32
  pc_rule_set_digest :: hash32
  pc_fallback :: "exec_cmd_refusal option"

definition person_request_of :: "person_command \<Rightarrow> person_request" where
  "person_request_of p = \<lparr>pq_project = pc_project p,
    pq_conversation = (if \<not> pc_new_conversation p then Some (pc_conversation p) else None),
    pq_expected_generation = pc_expected_generation p, pq_new_conversation = pc_new_conversation p,
    pq_outside_sandbox = pc_outside_sandbox p, pq_command = pc_command p,
    pq_display_command = pc_display_command p, pq_cwd = pc_cwd p, pq_search_path = pc_search_path p,
    pq_environment = pc_environment p, pq_declared = pc_declared p, pq_named = pc_named p\<rparr>"

definition command_text :: "person_command \<Rightarrow> bytes" where
  "command_text p = (if pc_whole_command p then pc_display_command p else pc_command p)"

definition has_secret_item :: "person_command \<Rightarrow> bool" where
  "has_secret_item p \<longleftrightarrow> pc_number_kinds p \<noteq> [] \<or> pc_whole_command p"

definition person_received_secret_values :: "person_command \<Rightarrow> bool" where
  "person_received_secret_values p \<longleftrightarrow> pc_number_kinds p \<noteq> [] \<or> pc_whole_command p"

subsection \<open>Request rules\<close>

definition valid_person_cwd :: "bytes \<Rightarrow> bool" where
  "valid_person_cwd cwd \<longleftrightarrow> 1 \<le> length cwd \<and> length cwd \<le> MAX_PERSON_CWD \<and> \<not> absolute cwd \<and> 0 \<notin> set cwd \<and>
    (\<forall>c\<in>set (split_on 0x2F cwd). c \<noteq> ascii ''..'')"

definition valid_search_path :: "bytes \<Rightarrow> bool" where
  "valid_search_path path \<longleftrightarrow> 1 \<le> length path \<and> length path \<le> MAX_SEARCH_PATH \<and> 0 \<notin> set path \<and>
    length (split_on 0x3A path) \<le> MAX_SEARCH_PATH_ENTRIES \<and> (\<forall>e\<in>set (split_on 0x3A path). absolute e)"

definition environment_ok :: "(u8 \<times> bytes) list \<Rightarrow> bool" where
  "environment_ok environment \<longleftrightarrow> length environment \<le> TERMINAL_COUNT \<and>
    successively (\<lambda>a b. fst a < fst b) environment \<and>
    (\<forall>(code, v)\<in>set environment. case by_code code of None \<Rightarrow> False | Some t \<Rightarrow> class_valid (tn_class t) v)"

definition launch_ok :: "person_request \<Rightarrow> bool" where
  "launch_ok p \<longleftrightarrow> valid_search_path (pq_search_path p) \<and> environment_ok (pq_environment p) \<and>
    declared_valid (pq_declared p)"

definition named_ok :: "(u8 \<times> bytes) list \<Rightarrow> bool" where
  "named_ok named \<longleftrightarrow> length named \<le> MAX_PERSON_NAMED \<and> successively (\<lambda>a b. fst a < fst b) named \<and>
    (\<forall>e\<in>set named. secret_name_valid (snd e)) \<and>
    (\<forall>i < length named. \<forall>j < i. snd (named ! i) \<noteq> snd (named ! j))"

definition valid_person_request :: "person_request \<Rightarrow> unit result" where
  "valid_person_request p = require (pq_project p \<noteq> zero_id \<and>
    (if pq_new_conversation p then pq_conversation p = None \<and> pq_expected_generation p = 0
     else case pq_conversation p of None \<Rightarrow> False | Some c \<Rightarrow> c \<noteq> zero_id) \<and>
    (1 \<le> length (pq_command p) \<and> length (pq_command p) \<le> MAX_PERSON_COMMAND \<and> 0 \<notin> set (pq_command p)) \<and>
    length (pq_display_command p) \<le> MAX_PERSON_COMMAND \<and> valid_person_cwd (pq_cwd p) \<and> launch_ok p \<and>
    named_ok (pq_named p))"

subsection \<open>The request digest\<close>

definition w_environment :: "(u8 \<times> bytes) list \<Rightarrow> bytes" where
  "w_environment es = [of_nat (length es)] @ concat (map (\<lambda>e. fst e # str16 (snd e)) es)"

definition w_declared :: "(bytes \<times> bytes) list \<Rightarrow> bytes" where
  "w_declared es = [of_nat (length es)] @ concat (map (\<lambda>e. str8 (fst e) @ str16 (snd e)) es)"

definition w_named :: "(u8 \<times> bytes) list \<Rightarrow> bytes" where
  "w_named es = [of_nat (length es)] @ concat (map (\<lambda>e. fst e # str8 (snd e)) es)"

definition person_request_fields :: "person_request \<Rightarrow> bytes" where
  "person_request_fields p = w_call_flags (pq_new_conversation p, pq_outside_sandbox p) @
    str32 (pq_command p) @ str32 (pq_display_command p) @ str32 (pq_cwd p) @ str32 (pq_search_path p) @
    w_environment (pq_environment p) @ w_declared (pq_declared p) @ w_named (pq_named p)"

definition person_digest_text :: "person_request \<Rightarrow> bytes" where
  "person_digest_text p = [31] @ pq_project p @ (case pq_conversation p of None \<Rightarrow> zero_id | Some c \<Rightarrow> c) @
    be64 (pq_expected_generation p) @ person_request_fields p"

definition person_request_digest :: "(bytes \<Rightarrow> bytes) \<Rightarrow> person_request \<Rightarrow> hash32 result" where
  "person_request_digest sha p = result_bind (valid_person_request p) (\<lambda>_. Inr (sha (person_digest_text p)))"

subsection \<open>Record rules\<close>

definition person_form_ok :: "person_command \<Rightarrow> bool" where
  "person_form_ok p = (if pc_whole_command p
    then pc_command p = WHOLE_COMMAND \<and> pc_display_command p \<noteq> [] \<and>
      (case pc_fallback p of None \<Rightarrow> False | Some r \<Rightarrow> \<not> refusal_kept (er_code r) \<and>
        er_code r \<noteq> RC_DetectionUnavailable \<and>
        (case er_word r of None \<Rightarrow> True | Some w \<Rightarrow> 1 \<le> w \<and> w \<le> MAX_REFUSAL_WORD))
    else pc_display_command p = [] \<and> \<not> pc_command_cut p \<and> pc_fallback p = None)"

definition person_named_ok :: "person_command \<Rightarrow> bool" where
  "person_named_ok p = (let first_named = length (pc_number_kinds p) - length (pc_named p) + 1 in
    (pc_named p = [] \<or> \<not> pc_whole_command p) \<and> length (pc_named p) \<le> length (pc_number_kinds p) \<and>
    (\<forall>i < length (pc_named p). unat (fst (pc_named p ! i)) = first_named + i \<and>
      pc_number_kinds p ! (unat (fst (pc_named p ! i)) - 1) = EnvSecret))"

definition person_placeholders_ok :: "person_command \<Rightarrow> bool" where
  "person_placeholders_ok p = (let ts = placeholder_tokens (command_text p) in
    \<not> pt_malformed ts \<and> unat (pt_max ts) = length (pc_number_kinds p) \<and>
    length (pt_distinct ts) = length (pc_number_kinds p) \<and> pt_zero ts = pc_unnumbered p)"

definition person_command_validate :: "(bytes \<Rightarrow> bytes) \<Rightarrow> person_command \<Rightarrow> unit result" where
  "person_command_validate sha p =
    result_bind (valid_person_request (person_request_of p)) (\<lambda>_.
    result_bind (person_request_digest sha (person_request_of p)) (\<lambda>digest.
    require (pc_request p \<noteq> zero_id \<and> pc_input p \<noteq> zero_id \<and> pc_input p \<noteq> pc_request p \<and>
      pc_digest p = digest \<and>
      length (pc_number_kinds p) \<le> (if pc_whole_command p then MAX_TOOL_NUMBERS else MAX_PERSON_REWRITE_NUMBERS) \<and>
      person_form_ok p \<and> person_named_ok p \<and> person_placeholders_ok p \<and>
      pc_rule_set_revision p \<noteq> 0 \<and> pc_rule_set_digest p \<noteq> zero_hash)))"

subsection \<open>Writing and reading\<close>

definition person_command_fields :: "person_command \<Rightarrow> bytes" where
  "person_command_fields p = pc_request p @ pc_digest p @ pc_input p @ pc_project p @ pc_conversation p @
    be64 (pc_expected_generation p) @ person_request_fields (person_request_of p) @ be64 (pc_order_revision p) @
    w_kinds (pc_number_kinds p) @ be32 (pc_unnumbered p) @ w_call_flags (pc_command_cut p, pc_whole_command p) @
    be32 (pc_rule_set_revision p) @ pc_rule_set_digest p @
    [opt_code (refusal_code_byte \<circ> er_code) (pc_fallback p)] @
    [opt_code kind_code (Option.bind (pc_fallback p) er_kind)] @
    be16 (case Option.bind (pc_fallback p) er_word of None \<Rightarrow> 0 | Some w \<Rightarrow> w)"

definition write_person_command :: "(bytes \<Rightarrow> bytes) \<Rightarrow> person_command \<Rightarrow> bytes result" where
  "write_person_command sha p =
    (if length (pc_command p) > MAX_PERSON_COMMAND \<or> length (pc_display_command p) > MAX_PERSON_COMMAND
     then Inl Limit
     else result_bind (person_command_validate sha p) (\<lambda>_. Inr (person_command_fields p)))"

definition rd_environment :: "(replay_error, (u8 \<times> bytes) list) reading" where
  "rd_environment = rd_counted8 0 TERMINAL_COUNT (rbind rd_byte (\<lambda>code. rbind rd_str16 (\<lambda>v. rreturn (code, v))))"

definition rd_declared :: "(replay_error, (bytes \<times> bytes) list) reading" where
  "rd_declared = rd_counted8 0 MAX_DECLARED (rbind rd_str8 (\<lambda>name. rbind rd_str16 (\<lambda>v. rreturn (name, v))))"

definition rd_named :: "(replay_error, (u8 \<times> bytes) list) reading" where
  "rd_named = rd_counted8 0 MAX_PERSON_NAMED (rbind rd_byte (\<lambda>number. rbind rd_str8 (\<lambda>name. rreturn (number, name))))"

definition read_person_command :: "(bytes \<Rightarrow> bytes) \<Rightarrow> (replay_error, person_command) reading" where
  "read_person_command sha =
    rbind rd_id (\<lambda>request. rbind rd_hash (\<lambda>digest. rbind rd_id (\<lambda>input. rbind rd_id (\<lambda>project.
    rbind rd_id (\<lambda>conversation. rbind rd_u64 (\<lambda>expected_generation. rbind rd_call_flags (\<lambda>flags.
    rbind (rd_bounded_string MAX_PERSON_COMMAND) (\<lambda>command.
    rbind (rd_bounded_string MAX_PERSON_COMMAND) (\<lambda>display_command.
    rbind (rd_bounded_string MAX_PERSON_CWD) (\<lambda>cwd. rbind (rd_bounded_string MAX_SEARCH_PATH) (\<lambda>search_path.
    rbind rd_environment (\<lambda>environment. rbind rd_declared (\<lambda>declared. rbind rd_named (\<lambda>named.
    rbind rd_u64 (\<lambda>order_revision. rbind rd_kinds (\<lambda>number_kinds. rbind rd_u32 (\<lambda>unnumbered.
    rbind rd_call_flags (\<lambda>command_flags. rbind rd_u32 (\<lambda>rule_set_revision. rbind rd_hash (\<lambda>rule_set_digest.
    rbind rd_byte (\<lambda>code. rbind (rd_opt_coded kind_from) (\<lambda>kind. rbind rd_word (\<lambda>word.
    rbind (rlift (make_refusal code kind word)) (\<lambda>fallback.
    let v = \<lparr>pc_request = request, pc_digest = digest, pc_input = input, pc_project = project,
      pc_conversation = conversation, pc_expected_generation = expected_generation,
      pc_new_conversation = fst flags, pc_outside_sandbox = snd flags, pc_command = command,
      pc_display_command = display_command, pc_cwd = cwd, pc_search_path = search_path,
      pc_environment = environment, pc_declared = declared, pc_named = named,
      pc_order_revision = order_revision, pc_number_kinds = number_kinds, pc_unnumbered = unnumbered,
      pc_command_cut = fst command_flags, pc_whole_command = snd command_flags,
      pc_rule_set_revision = rule_set_revision, pc_rule_set_digest = rule_set_digest, pc_fallback = fallback\<rparr> in
    rbind (rlift (person_command_validate sha v)) (\<lambda>_. rreturn v)))))))))))))))))))))))))"

subsection \<open>Field contracts\<close>

lemma codec_environment:
  "codec rd_environment w_environment (\<lambda>es. length es \<le> TERMINAL_COUNT \<and> (\<forall>e\<in>set es. short_text 65536 (snd e)))"
proof -
  have "codec (rbind rd_byte (\<lambda>code. rbind rd_str16 (\<lambda>v. rreturn (code, v)))) (\<lambda>e. fst e # str16 (snd e))
      (\<lambda>e. short_text 65536 (snd e))"
    by (rule codecI) (auto simp: parse run text16.bind_exact text16.bind_run)
  from codec_counted8 [OF this, of TERMINAL_COUNT 0] show ?thesis
    unfolding rd_environment_def w_environment_def [abs_def] by simp
qed

lemma codec_declared:
  "codec rd_declared w_declared (\<lambda>es. length es \<le> MAX_DECLARED \<and>
    (\<forall>e\<in>set es. short_text 256 (fst e) \<and> short_text 65536 (snd e)))"
proof -
  have "codec (rbind rd_str8 (\<lambda>name. rbind rd_str16 (\<lambda>v. rreturn (name, v)))) (\<lambda>e. str8 (fst e) @ str16 (snd e))
      (\<lambda>e. short_text 256 (fst e) \<and> short_text 65536 (snd e))"
    by (rule codecI) (auto simp: text8.bind_exact text8.bind_run text16.bind_exact text16.bind_run)
  from codec_counted8 [OF this, of MAX_DECLARED 0] show ?thesis
    unfolding rd_declared_def w_declared_def [abs_def] by simp
qed

lemma codec_named:
  "codec rd_named w_named (\<lambda>es. length es \<le> MAX_PERSON_NAMED \<and> (\<forall>e\<in>set es. short_text 256 (snd e)))"
proof -
  have "codec (rbind rd_byte (\<lambda>number. rbind rd_str8 (\<lambda>name. rreturn (number, name)))) (\<lambda>e. fst e # str8 (snd e))
      (\<lambda>e. short_text 256 (snd e))"
    by (rule codecI) (auto simp: parse run text8.bind_exact text8.bind_run)
  from codec_counted8 [OF this, of MAX_PERSON_NAMED 0] show ?thesis
    unfolding rd_named_def w_named_def [abs_def] by simp
qed

definition wf_person_lists :: "person_command \<Rightarrow> bool" where
  "wf_person_lists p \<longleftrightarrow> (\<forall>e\<in>set (pc_environment p). utf8_valid (snd e)) \<and>
    (\<forall>e\<in>set (pc_declared p). utf8_valid (fst e) \<and> utf8_valid (snd e)) \<and> (\<forall>e\<in>set (pc_named p). utf8_valid (snd e))"

definition wf_person_command :: "person_command \<Rightarrow> bool" where
  "wf_person_command p \<longleftrightarrow> is_id (pc_request p) \<and> is_hash (pc_digest p) \<and> is_id (pc_input p) \<and> is_id (pc_project p) \<and>
    is_id (pc_conversation p) \<and> is_hash (pc_rule_set_digest p) \<and> utf8_valid (pc_command p) \<and>
    utf8_valid (pc_display_command p) \<and> utf8_valid (pc_cwd p) \<and> utf8_valid (pc_search_path p) \<and> wf_person_lists p"

subsection \<open>What validation bounds\<close>

lemma class_valid_length: "class_valid class v \<Longrightarrow> length v \<le> 2048"
  by (cases "class") (auto simp: class_valid_def)

lemma person_command_validD:
  assumes "person_command_validate sha p = Inr ()"
  shows "valid_person_request (person_request_of p) = Inr ()"
    "pc_digest p = sha (person_digest_text (person_request_of p))"
    "length (pc_number_kinds p) \<le> (if pc_whole_command p then MAX_TOOL_NUMBERS else MAX_PERSON_REWRITE_NUMBERS)"
    "person_form_ok p" "person_named_ok p" "person_placeholders_ok p"
  using assms by (simp_all add: person_command_validate_def person_request_digest_def result_bind_eq_Inr)

lemma person_requestD:
  assumes "valid_person_request (person_request_of p) = Inr ()"
  shows "length (pc_command p) \<le> MAX_PERSON_COMMAND" "length (pc_display_command p) \<le> MAX_PERSON_COMMAND"
    "length (pc_cwd p) \<le> MAX_PERSON_CWD" "length (pc_search_path p) \<le> MAX_SEARCH_PATH"
    "environment_ok (pc_environment p)" "declared_valid (pc_declared p)" "named_ok (pc_named p)"
  using assms by (simp_all add: valid_person_request_def person_request_of_def launch_ok_def valid_person_cwd_def
      valid_search_path_def)

lemma environment_ok_lengths: "environment_ok es \<Longrightarrow> e \<in> set es \<Longrightarrow> length (snd e) < 65536"
  by (cases e) (fastforce simp: environment_ok_def dest!: bspec class_valid_length split: option.splits)

lemma declared_valid_lengths:
  "declared_valid es \<Longrightarrow> e \<in> set es \<Longrightarrow> length (fst e) < 256 \<and> length (snd e) < 65536"
  by (cases e) (fastforce simp: declared_valid_def declared_loop_iff declared_name_valid_def name_form_def
      declared_value_valid_def)

lemma named_ok_lengths: "named_ok es \<Longrightarrow> e \<in> set es \<Longrightarrow> length (snd e) < 256"
  by (fastforce simp: named_ok_def secret_name_valid_def)

lemma declared_valid_count: "declared_valid es \<Longrightarrow> length es \<le> MAX_DECLARED"
  by (auto simp: declared_valid_def declared_loop_iff)

lemma person_lists_short:
  assumes "valid_person_request (person_request_of p) = Inr ()" "wf_person_lists p"
  shows "length (pc_environment p) \<le> TERMINAL_COUNT \<and> (\<forall>e\<in>set (pc_environment p). short_text 65536 (snd e))"
    "length (pc_declared p) \<le> MAX_DECLARED \<and>
      (\<forall>e\<in>set (pc_declared p). short_text 256 (fst e) \<and> short_text 65536 (snd e))"
    "length (pc_named p) \<le> MAX_PERSON_NAMED \<and> (\<forall>e\<in>set (pc_named p). short_text 256 (snd e))"
  using person_requestD(5-7) [OF assms(1)] assms(2) environment_ok_lengths declared_valid_lengths named_ok_lengths
    declared_valid_count
  by (auto simp: wf_person_lists_def short_text_def) (auto simp: environment_ok_def named_ok_def)

lemma person_fallback_word: "person_form_ok p \<Longrightarrow> Option.bind (pc_fallback p) er_word \<noteq> Some 0"
  by (auto simp: person_form_ok_def bind_eq_Some_conv split: if_splits)

lemma person_kinds_wf: "person_command_validate sha p = Inr () \<Longrightarrow> wf_kinds (pc_number_kinds p)"
  using person_command_validD(3) [of sha p] by (simp add: wf_kinds_def split: if_splits)

lemma person_command_eta:
  "\<lparr>pc_request = pc_request v, pc_digest = pc_digest v, pc_input = pc_input v,
    pc_project = pc_project v, pc_conversation = pc_conversation v, pc_expected_generation = pc_expected_generation v,
    pc_new_conversation = pc_new_conversation v, pc_outside_sandbox = pc_outside_sandbox v, pc_command = pc_command v,
    pc_display_command = pc_display_command v, pc_cwd = pc_cwd v, pc_search_path = pc_search_path v,
    pc_environment = pc_environment v, pc_declared = pc_declared v, pc_named = pc_named v,
    pc_order_revision = pc_order_revision v, pc_number_kinds = pc_number_kinds v, pc_unnumbered = pc_unnumbered v,
    pc_command_cut = pc_command_cut v, pc_whole_command = pc_whole_command v, pc_rule_set_revision = pc_rule_set_revision v,
    pc_rule_set_digest = pc_rule_set_digest v, pc_fallback = pc_fallback v\<rparr> = v"
  by (cases v) simp

subsection \<open>The record contract\<close>

lemmas person_parse = call_parse codec.bind_exact [OF codec_environment] codec.bind_exact [OF codec_declared]
  codec.bind_exact [OF codec_named]

lemmas person_run = call_run codec.bind_run [OF codec_environment, simplified]
  codec.bind_run [OF codec_declared, simplified] codec.bind_run [OF codec_named, simplified]

lemma person_command_codec:
  "record_codec (read_person_command sha) (write_person_command sha) wf_person_command"
proof (rule record_codecI, goal_cases)
  case (1 pre rest v r')
  then show ?case
    by (simp add: read_person_command_def parse person_parse Let_def)
      (elim exE conjE, simp add: write_person_command_def person_command_fields_def person_request_fields_def
        person_request_of_def wf_person_command_def wf_person_lists_def make_refusal_iff short_text_def)
next
  case (2 pre post v bs)
  from 2(2) have valid: "person_command_validate sha v = Inr ()" and bs: "bs = person_command_fields v"
    by (auto simp: write_person_command_def result_bind_eq_Inr split: if_splits)
  note request = person_command_validD(1) [OF valid]
  have lists: "wf_person_lists v" using 2(1) by (simp add: wf_person_command_def)
  note facts = person_requestD(1-4) [OF request] person_lists_short [OF request lists] person_kinds_wf [OF valid]
    person_fallback_word [OF person_command_validD(4) [OF valid]]
  have refusal: "make_refusal (opt_code (refusal_code_byte \<circ> er_code) (pc_fallback v))
      (Option.bind (pc_fallback v) er_kind) (Option.bind (pc_fallback v) er_word) = Inr (pc_fallback v)"
    using facts(9) by (simp add: make_refusal_iff)
  have request_fields: "person_request_fields (person_request_of v) =
      w_call_flags (pc_new_conversation v, pc_outside_sandbox v) @ str32 (pc_command v) @
      str32 (pc_display_command v) @ str32 (pc_cwd v) @ str32 (pc_search_path v) @
      w_environment (pc_environment v) @ w_declared (pc_declared v) @ w_named (pc_named v)"
    by (simp add: person_request_fields_def person_request_of_def)
  show ?case
    using 2(1) valid facts unfolding bs wf_person_command_def
    by (simp add: read_person_command_def person_command_fields_def request_fields run person_run Let_def refusal
        person_command_eta)
qed

interpretation person_command:
  record_codec "read_person_command sha" "write_person_command sha" wf_person_command for sha
  by (rule person_command_codec)

subsection \<open>The size of the environment\<close>

fun class_max :: "value_class \<Rightarrow> nat" where
  "class_max LocaleValue = 64"
| "class_max WordValue = 128"
| "class_max PathValue = 512"
| "class_max PathListValue = 2048"
| "class_max SocketValue = 103"

lemma class_valid_max: "class_valid class v \<Longrightarrow> length v \<le> class_max class"
  by (cases "class") (simp_all add: class_valid_def)

definition code_max :: "u8 \<Rightarrow> nat" where
  "code_max code = (case by_code code of None \<Rightarrow> 0 | Some t \<Rightarrow> class_max (tn_class t))"

lemma by_code_SomeD: "by_code code = Some t \<Longrightarrow> t \<in> set TERMINAL \<and> tn_code t = code"
proof -
  assume some: "by_code code = Some t"
  then have code: "code \<noteq> 0" "unat code - 1 < TERMINAL_COUNT" and t: "t = TERMINAL ! (unat code - 1)"
    by (auto simp: by_code_def length_TERMINAL split: if_splits)
  have "unat code \<noteq> 0" using code(1) by (simp add: unat_eq_zero)
  then have "tn_code t = of_nat (unat code)" using TERMINAL_code_nth [OF code(2)] t by simp
  then show ?thesis using t code(2) by (simp add: length_TERMINAL)
qed

lemma sum_code_max: "sum code_max (set (map tn_code TERMINAL)) = 17895"
proof -
  have "distinct (map tn_code TERMINAL)"
    using TERMINAL_codes_ascending strict_sorted_iff [of "map tn_code TERMINAL"] by (simp add: sorted_wrt_map)
  then have "sum code_max (set (map tn_code TERMINAL)) = sum_list (map code_max (map tn_code TERMINAL))"
    by (simp only: sum_list_distinct_conv_sum_set)
  also have "map code_max (map tn_code TERMINAL) = map (\<lambda>t. class_max (tn_class t)) TERMINAL"
    by (simp add: code_max_def by_code_entry)
  also have "sum_list \<dots> = 17895" by (simp add: TERMINAL_def terminal_entry_def)
  finally show ?thesis .
qed

lemma successively_less:
  fixes f :: "'a \<Rightarrow> 'b :: order"
  shows "successively (\<lambda>a b. f a < f b) xs \<longleftrightarrow> sorted_wrt (<) (map f xs)"
proof -
  have "transp (\<lambda>a b. f a < f b)" by (auto intro: transpI)
  then show ?thesis by (simp add: successively_conv_sorted_wrt sorted_wrt_map)
qed

lemma environment_bytes:
  assumes "environment_ok es"
  shows "sum_list (map (\<lambda>e. length (snd e)) es) \<le> 17895"
proof -
  have known: "\<exists>t. by_code (fst e) = Some t \<and> class_valid (tn_class t) (snd e)" if "e \<in> set es" for e
  proof -
    have "case e of (code, v) \<Rightarrow> (case by_code code of None \<Rightarrow> False | Some t \<Rightarrow> class_valid (tn_class t) v)"
      using assms that unfolding environment_ok_def by blast
    then show ?thesis by (auto split: prod.splits option.splits)
  qed
  have "sorted_wrt (<) (map fst es)"
    using assms by (simp add: environment_ok_def successively_less)
  then have distinct: "distinct (map fst es)" by (simp add: strict_sorted_iff)
  have "length (snd e) \<le> code_max (fst e)" if "e \<in> set es" for e
    using known [OF that] class_valid_max by (auto simp: code_max_def)
  then have "sum_list (map (\<lambda>e. length (snd e)) es) \<le> sum_list (map code_max (map fst es))"
    by (simp add: sum_list_mono comp_def)
  also have "\<dots> = sum code_max (set (map fst es))" using distinct by (simp only: sum_list_distinct_conv_sum_set)
  also have "set (map fst es) \<subseteq> set (map tn_code TERMINAL)"
  proof
    fix code assume "code \<in> set (map fst es)"
    then obtain t where "by_code code = Some t" using known by auto
    then show "code \<in> set (map tn_code TERMINAL)" using by_code_SomeD by force
  qed
  then have "sum code_max (set (map fst es)) \<le> sum code_max (set (map tn_code TERMINAL))"
    by (intro sum_mono2) auto
  finally show ?thesis by (simp only: sum_code_max)
qed

lemma length_w_environment: "length (w_environment es) = 1 + 3 * length es + sum_list (map (\<lambda>e. length (snd e)) es)"
  unfolding w_environment_def by (induction es) (simp_all add: str16_def)

lemma length_w_declared:
  "length (w_declared es) = 1 + 3 * length es + sum_list (map (\<lambda>(n, v). length n + length v) es)"
  unfolding w_declared_def by (induction es) (auto simp: str8_def str16_def)

lemma length_w_named: "(\<forall>e\<in>set es. length (snd e) \<le> 48) \<Longrightarrow> length (w_named es) \<le> 1 + 50 * length es"
  unfolding w_named_def by (induction es) (auto simp: str8_def)

lemma length_w_kinds: "length (w_kinds ks) = 2 + length ks"
  unfolding w_kinds_def by (induction ks) simp_all

lemma length_person_request_fields:
  assumes "valid_person_request (person_request_of p) = Inr ()"
  shows "length (person_request_fields (person_request_of p)) \<le> 44528"
proof -
  note facts = person_requestD [OF assms]
  have "length (w_environment (pc_environment p)) \<le> 18013"
    using environment_bytes [OF facts(5)] facts(5) by (simp add: length_w_environment environment_ok_def)
  moreover have "length (w_declared (pc_declared p)) \<le> 4193"
    using facts(6) declared_valid_count [OF facts(6)]
    by (cases "pc_declared p = []") (auto simp: length_w_declared declared_valid_def declared_loop_iff)
  moreover have "length (w_named (pc_named p)) \<le> 801"
    using facts(7) length_w_named [of "pc_named p"] by (fastforce simp: named_ok_def secret_name_valid_def)
  ultimately show ?thesis
    using facts(1-4) by (simp add: person_request_fields_def person_request_of_def str32_def w_call_flags_def)
qed

subsection \<open>The digest text determines the request\<close>

definition wf_person_request :: "person_request \<Rightarrow> bool" where
  "wf_person_request p \<longleftrightarrow> is_id (pq_project p) \<and> (case pq_conversation p of None \<Rightarrow> True | Some c \<Rightarrow> is_id c) \<and>
    utf8_valid (pq_command p) \<and> utf8_valid (pq_display_command p) \<and> utf8_valid (pq_cwd p) \<and>
    utf8_valid (pq_search_path p) \<and> (\<forall>e\<in>set (pq_environment p). utf8_valid (snd e)) \<and>
    (\<forall>e\<in>set (pq_declared p). utf8_valid (fst e) \<and> utf8_valid (snd e)) \<and>
    (\<forall>e\<in>set (pq_named p). utf8_valid (snd e))"

definition rd_person_request :: "(replay_error, person_request) reading" where
  "rd_person_request = rbind rd_byte (\<lambda>_. rbind rd_id (\<lambda>project. rbind rd_id (\<lambda>conversation. rbind rd_u64 (\<lambda>generation.
    rbind rd_call_flags (\<lambda>flags. rbind (rd_bounded_string MAX_PERSON_COMMAND) (\<lambda>command.
    rbind (rd_bounded_string MAX_PERSON_COMMAND) (\<lambda>display. rbind (rd_bounded_string MAX_PERSON_CWD) (\<lambda>cwd.
    rbind (rd_bounded_string MAX_SEARCH_PATH) (\<lambda>search_path. rbind rd_environment (\<lambda>environment.
    rbind rd_declared (\<lambda>declared. rbind rd_named (\<lambda>named.
    rreturn \<lparr>pq_project = project, pq_conversation = (if fst flags then None else Some conversation),
      pq_expected_generation = generation, pq_new_conversation = fst flags, pq_outside_sandbox = snd flags,
      pq_command = command, pq_display_command = display, pq_cwd = cwd, pq_search_path = search_path,
      pq_environment = environment, pq_declared = declared, pq_named = named\<rparr>))))))))))))"

lemma person_digest_text_read:
  assumes "valid_person_request p = Inr ()" "wf_person_request p"
  shows "rd_person_request (rd [] (person_digest_text p)) = Inr (p, rd (person_digest_text p) [])"
proof -
  have lengths: "length (pq_command p) \<le> MAX_PERSON_COMMAND" "length (pq_display_command p) \<le> MAX_PERSON_COMMAND"
    "length (pq_cwd p) \<le> MAX_PERSON_CWD" "length (pq_search_path p) \<le> MAX_SEARCH_PATH"
    and parts: "environment_ok (pq_environment p)" "declared_valid (pq_declared p)" "named_ok (pq_named p)"
    and conversation: "if pq_new_conversation p then pq_conversation p = None
      else case pq_conversation p of None \<Rightarrow> False | Some c \<Rightarrow> c \<noteq> zero_id"
    using assms(1) by (auto simp: valid_person_request_def launch_ok_def valid_person_cwd_def valid_search_path_def
        split: if_splits)
  have environment: "length (pq_environment p) \<le> TERMINAL_COUNT" "\<forall>e\<in>set (pq_environment p). short_text 65536 (snd e)"
    using parts(1) assms(2) environment_ok_lengths [OF parts(1)]
    by (auto simp: environment_ok_def wf_person_request_def short_text_def)
  have declared: "length (pq_declared p) \<le> MAX_DECLARED"
    "\<forall>e\<in>set (pq_declared p). short_text 256 (fst e) \<and> short_text 65536 (snd e)"
    using assms(2) declared_valid_lengths [OF parts(2)] declared_valid_count [OF parts(2)]
    by (auto simp: wf_person_request_def short_text_def)
  have named: "length (pq_named p) \<le> MAX_PERSON_NAMED" "\<forall>e\<in>set (pq_named p). short_text 256 (snd e)"
    using parts(3) assms(2) named_ok_lengths [OF parts(3)]
    by (auto simp: named_ok_def wf_person_request_def short_text_def)
  have named_end: "rbind rd_named f (rd pre (w_named (pq_named p))) = f (pq_named p) (rd (pre @ w_named (pq_named p)) [])"
    for f :: "(u8 \<times> bytes) list \<Rightarrow> (replay_error, person_request) reading" and pre
    using codec.bind_run [OF codec_named, of "pq_named p" f pre "[]"] named by simp
  define c where "c = (case pq_conversation p of None \<Rightarrow> zero_id | Some c \<Rightarrow> c)"
  have c: "is_id c" "(case pq_conversation p of None \<Rightarrow> zero_id | Some c \<Rightarrow> c) = c"
    "(if pq_new_conversation p then None else Some c) = pq_conversation p"
    using assms(2) conversation
    by (cases "pq_conversation p"; simp add: c_def wf_person_request_def zero_id_def split: if_splits)+
  show ?thesis
    using assms(2) lengths environment declared c(1)
    by (simp add: rd_person_request_def person_digest_text_def person_request_fields_def wf_person_request_def run
        person_run named_end c(2,3))
qed

lemma wf_person_request_of: "wf_person_command p \<Longrightarrow> wf_person_request (person_request_of p)"
  by (simp add: wf_person_command_def wf_person_lists_def wf_person_request_def person_request_of_def)

subsection \<open>Properties\<close>

text \<open>A written person command fits the payload bound of its reader, \<open>MAX_PERSON_COMMAND_PAYLOAD\<close>. The bound rests
  on the terminal table: strictly increasing name codes and the value classes keep the values of all terminal
  variables together within 17,895 bytes.\<close>

lemma person_command_payload_bound:
  assumes "wf_person_command p" "write_person_command sha p = Inr bs"
  shows "length bs \<le> MAX_PERSON_COMMAND_PAYLOAD"
proof -
  from assms(2) have valid: "person_command_validate sha p = Inr ()" and bs: "bs = person_command_fields p"
    by (auto simp: write_person_command_def result_bind_eq_Inr split: if_splits)
  show ?thesis
    using assms(1) length_person_request_fields [OF person_command_validD(1) [OF valid]] person_kinds_wf [OF valid]
    unfolding bs by (simp add: person_command_fields_def wf_person_command_def length_w_kinds wf_kinds_def w_call_flags_def)
qed

definition demo_person_request :: person_request where
  "demo_person_request = \<lparr>pq_project = replicate 16 1, pq_conversation = None, pq_expected_generation = 0,
    pq_new_conversation = True, pq_outside_sandbox = False, pq_command = ascii ''ls'', pq_display_command = [],
    pq_cwd = ascii ''.'', pq_search_path = ascii ''/bin'', pq_environment = [(1, ascii ''C'')], pq_declared = [],
    pq_named = []\<rparr>"

definition demo_person_command :: person_command where
  "demo_person_command = \<lparr>pc_request = replicate 16 2, pc_digest = replicate 32 9, pc_input = replicate 16 3,
    pc_project = replicate 16 1, pc_conversation = replicate 16 4, pc_expected_generation = 0,
    pc_new_conversation = True, pc_outside_sandbox = False, pc_command = ascii ''ls'', pc_display_command = [],
    pc_cwd = ascii ''.'', pc_search_path = ascii ''/bin'', pc_environment = [(1, ascii ''C'')], pc_declared = [],
    pc_named = [], pc_order_revision = 1, pc_number_kinds = [], pc_unnumbered = 0, pc_command_cut = False,
    pc_whole_command = False, pc_rule_set_revision = 1, pc_rule_set_digest = replicate 32 5, pc_fallback = None\<rparr>"

lemma demo_request_of: "person_request_of demo_person_command = demo_person_request"
  by (simp add: person_request_of_def demo_person_command_def demo_person_request_def)

lemma demo_request_valid: "valid_person_request demo_person_request = Inr ()"
  by code_simp

lemma demo_person_placeholders: "person_placeholders_ok demo_person_command"
  by code_simp

lemma demo_person_wf: "wf_person_command demo_person_command"
  by (simp add: wf_person_command_def wf_person_lists_def demo_person_command_def ascii_def utf8_valid_Cons)

lemma demo_person_valid: "person_command_validate (\<lambda>_. replicate 32 9) demo_person_command = Inr ()"
  using demo_person_placeholders
  by (simp add: person_command_validate_def demo_request_of demo_request_valid person_request_digest_def)
    (simp add: demo_person_command_def person_form_ok_def person_named_ok_def zero_id_def zero_hash_def)

text \<open>The digest of a person command covers its whole request: a valid record stores the hash of a text that
  determines the request, so that two valid records of different requests hash different texts.\<close>

lemma person_digest_identifies:
  assumes "wf_person_command p" "wf_person_command q" "person_command_validate sha p = Inr ()"
    "person_command_validate sha q = Inr ()"
  shows "pc_digest p = sha (person_digest_text (person_request_of p)) \<and>
    (person_digest_text (person_request_of p) = person_digest_text (person_request_of q) \<longleftrightarrow>
      person_request_of p = person_request_of q)"
proof -
  have read: "rd_person_request (rd [] (person_digest_text (person_request_of x))) =
      Inr (person_request_of x, rd (person_digest_text (person_request_of x)) [])"
    if "wf_person_command x" "person_command_validate sha x = Inr ()" for x
    using that by (intro person_digest_text_read person_command_validD(1) wf_person_request_of)
  have "person_request_of p = person_request_of q"
    if "person_digest_text (person_request_of p) = person_digest_text (person_request_of q)"
  proof -
    have "Inr (person_request_of p, rd (person_digest_text (person_request_of p)) []) =
        (Inr (person_request_of q, rd (person_digest_text (person_request_of q)) []) :: replay_error + _)"
      unfolding read [OF assms(1,3), symmetric] read [OF assms(2,4), symmetric] by (simp only: that)
    then show ?thesis unfolding sum.inject prod.inject by (rule conjunct1)
  qed
  note same_request = this
  show ?thesis
  proof (intro conjI iffI)
    show "pc_digest p = sha (person_digest_text (person_request_of p))"
      by (rule person_command_validD(2) [OF assms(3)])
    show "person_request_of p = person_request_of q"
      if "person_digest_text (person_request_of p) = person_digest_text (person_request_of q)"
      using that by (rule same_request)
    show "person_digest_text (person_request_of p) = person_digest_text (person_request_of q)"
      if "person_request_of p = person_request_of q"
      by (simp only: that)
  qed
qed

text \<open>C15: What the client builds the service accepts: the terminal variables that \<open>build\<close> passes, and the search path
  that \<open>sanitize_path\<close> makes of PATH, satisfy the kind 31 rules for them, whatever the captured environment and
  the scanner's findings are.\<close>

theorem built_environment_accepted:
  "environment_ok (bu_passed (build captured flagged)) \<and>
    (case bu_path (build captured flagged) of None \<Rightarrow> True | Some path \<Rightarrow> valid_search_path path \<and> utf8_valid path)"
proof
  let ?passed = "bu_passed (build captured flagged)"
  have entry: "\<exists>t\<in>set TERMINAL. e = (tn_code t, snd e) \<and> class_valid (tn_class t) (snd e)" if "e \<in> set ?passed" for e
    using that unfolding build_passed
    by (fastforce simp: List.map_filter_def passed_of_def split: option.splits if_splits)
  have "sorted_wrt (\<lambda>a b. fst a < fst b) ?passed"
    unfolding build_passed by (rule map_filter_ascending [OF TERMINAL_codes_ascending])
  then have "successively (\<lambda>a b. fst a < fst b) ?passed" by (simp add: successively_less sorted_wrt_map)
  moreover have "length ?passed \<le> TERMINAL_COUNT"
    using length_filter_le [of "\<lambda>t. passed_of captured flagged t \<noteq> None" TERMINAL]
    by (simp add: build_passed List.map_filter_def length_TERMINAL)
  moreover have "case e of (code, v) \<Rightarrow> (case by_code code of None \<Rightarrow> False | Some t \<Rightarrow> class_valid (tn_class t) v)"
    if "e \<in> set ?passed" for e
  proof -
    obtain t where "t \<in> set TERMINAL" "e = (tn_code t, snd e)" "class_valid (tn_class t) (snd e)"
      using entry [OF \<open>e \<in> set ?passed\<close>] by blast
    then show ?thesis by (metis (mono_tags, lifting) by_code_entry case_prod_conv option.simps(5))
  qed
  ultimately show "environment_ok ?passed" unfolding environment_ok_def by blast
  show "case bu_path (build captured flagged) of None \<Rightarrow> True | Some path \<Rightarrow> valid_search_path path \<and> utf8_valid path"
  proof (cases "bu_path (build captured flagged)")
    case (Some path)
    then obtain raw where "sanitize_path raw = Some path" by (auto simp: build_path bind_eq_Some_conv)
    note facts = sanitize_path_SomeD [OF this]
    have "length (split_on 0x3A path) \<le> 64" using facts(1,8) length_filter_le by (metis le_trans)
    then show ?thesis using facts Some by (auto simp: valid_search_path_def Suc_le_eq)
  qed simp
qed

text \<open>C40: The names that \<open>resolve\<close> returns are accepted in the record: with the rewrite's own kinds followed by one
  \<open>env-secret\<close> for each name, field 24 passes both the request rules and the number rules of the record.\<close>

theorem resolved_names_accepted:
  assumes "resolve command (length kinds) = Inr r" "length kinds \<le> MAX_SECRET_VARIABLES"
    "pc_named p = rs_names r" "pc_number_kinds p = kinds @ replicate (length (rs_names r)) EnvSecret"
    "\<not> pc_whole_command p"
  shows "named_ok (pc_named p) \<and> person_named_ok p"
proof -
  obtain rs where rs: "references_from 0 command = Inr rs"
    "resolve_loop (length kinds) command 0 [] [] rs = Inr (rs_command r, rs_names r)"
    using resolve_InrD [OF assms(1)] .
  have "numbers_assigned (length kinds) (rs_names r)"
    using resolve_loop_assigned [OF rs(2) _ references_valid [OF rs(1)]] by (simp add: numbers_assigned_def)
  then have numbers: "map fst (rs_names r) = map of_nat [length kinds + 1..<length kinds + 1 + length (rs_names r)]"
    and names: "distinct (map snd (rs_names r))" "\<forall>e\<in>set (rs_names r). secret_name_valid (snd e)"
    and bound: "rs_names r = [] \<or> length kinds + length (rs_names r) \<le> MAX_SECRET_VARIABLES"
    by (auto simp: numbers_assigned_def)
  have number: "unat (fst (rs_names r ! i)) = length kinds + 1 + i" if "i < length (rs_names r)" for i
  proof -
    have "fst (rs_names r ! i) = map fst (rs_names r) ! i" using that by simp
    also have "\<dots> = of_nat (length kinds + 1 + i)" using that unfolding numbers by (simp del: upt_Suc of_nat_add of_nat_Suc)
    finally show ?thesis using that bound by (simp only: unat_of_nat) (auto intro!: mod_less)
  qed
  have "fst (rs_names r ! i) < fst (rs_names r ! j)" if "i < j" "j < length (rs_names r)" for i j
    using number [of i] number [of j] that by (simp add: word_less_nat_alt)
  then have "successively (\<lambda>a b. fst a < fst b) (rs_names r)"
    by (simp add: successively_less sorted_wrt_iff_nth_less)
  moreover have "length (rs_names r) \<le> MAX_PERSON_NAMED" using bound by auto
  moreover have "\<forall>i < length (rs_names r). \<forall>j < i. snd (rs_names r ! i) \<noteq> snd (rs_names r ! j)"
    using names(1) by (auto simp: distinct_conv_nth)
  ultimately have "named_ok (pc_named p)" using names(2) assms(3) by (simp add: named_ok_def)
  moreover have "person_named_ok p"
    using number assms(3-5) by (auto simp: person_named_ok_def nth_append)
  ultimately show ?thesis ..
qed

theorem resolved_names_accepted_witness:
  "named_ok [(2, ascii ''B'')] \<and> person_named_ok (demo_person_command\<lparr>pc_named := [(2, ascii ''B'')],
    pc_number_kinds := [EnvSecret, EnvSecret]\<rparr>)"
proof -
  have "resolve demo_reference (length [EnvSecret]) =
      Inr \<lparr>rs_command = ascii ''a ${ASURA_SECRET_2}'', rs_names = [(2, ascii ''B'')]\<rparr>"
    using demo_resolve by simp
  from resolved_names_accepted [OF this, of "demo_person_command\<lparr>pc_named := [(2, ascii ''B'')],
    pc_number_kinds := [EnvSecret, EnvSecret]\<rparr>"]
  show ?thesis by (simp add: demo_person_command_def)
qed

end
