(* ===== verification/Records.thy ===== *)
theory Records
  imports FieldCodec
begin

section \<open>The small journal records\<close>

text \<open>
  The record structs of \<open>authority/conversation/types.rs\<close> whose payload is a plain sequence of fields
  (kinds 4, 6 to 11, 13, 15, 16, 18 to 20, 24, 25 and 33), each with its arm of \<open>payload\<close> and of
  \<open>decode_record\<close> in \<open>authority/conversation/codec.rs\<close>. Every pair is proved to satisfy the
  \<open>record_codec\<close> contract.
\<close>

datatype input_action = Resume | Drop | Hold

fun input_action_code :: "input_action \<Rightarrow> u8" where
  "input_action_code Resume = 1"
| "input_action_code Drop = 2"
| "input_action_code Hold = 3"

definition input_action_from_code :: "u8 \<Rightarrow> input_action option" where
  "input_action_from_code code = map_of [(1, Resume), (2, Drop), (3, Hold)] code"

interpretation input_action: code_table input_action_code input_action_from_code
proof
  show "input_action_from_code b = Some v \<longleftrightarrow> b = input_action_code v" for b v
    by (cases v) (auto simp: input_action_from_code_def)
qed

lemmas input_action_parse [parse] = input_action.coded.bind_exact [simplified]
lemmas input_action_run [run] = input_action.coded.bind_run [simplified]

subsection \<open>Inputs: kinds 18, 19, 13 and 16\<close>

record input_queued =
  iq_request :: id16
  iq_digest :: hash32
  iq_input :: id16
  iq_dispatch_request :: id16
  iq_project :: id16
  iq_conversation :: id16
  iq_expected_generation :: u64
  iq_new_conversation :: bool
  iq_prompt :: bytes
  iq_order_revision :: u64

definition input_queued_payload :: "input_queued \<Rightarrow> bytes result" where
  "input_queued_payload p = w_all
    [w_bytes (iq_request p), w_bytes (iq_digest p), w_bytes (iq_input p),
     w_bytes (iq_dispatch_request p), w_bytes (iq_project p), w_bytes (iq_conversation p),
     w_u64 (iq_expected_generation p), w_bytes (w_flag (iq_new_conversation p)),
     w_string 32768 (iq_prompt p), w_u64 (iq_order_revision p)]"

definition read_input_queued :: "(replay_error, input_queued) reading" where
  "read_input_queued =
    rbind rd_id (\<lambda>request. rbind rd_hash (\<lambda>digest. rbind rd_id (\<lambda>input.
    rbind rd_id (\<lambda>dispatch_request. rbind rd_id (\<lambda>project.
    rbind rd_id (\<lambda>conversation. rbind rd_u64 (\<lambda>expected_generation.
    rbind rd_flag (\<lambda>new_conversation. rbind (rd_string 32768) (\<lambda>prompt.
    rbind rd_u64 (\<lambda>order_revision.
    rreturn \<lparr>iq_request = request, iq_digest = digest, iq_input = input,
      iq_dispatch_request = dispatch_request, iq_project = project, iq_conversation = conversation,
      iq_expected_generation = expected_generation, iq_new_conversation = new_conversation,
      iq_prompt = prompt, iq_order_revision = order_revision\<rparr>))))))))))"

definition wf_input_queued :: "input_queued \<Rightarrow> bool" where
  "wf_input_queued p \<longleftrightarrow> is_id (iq_request p) \<and> is_hash (iq_digest p) \<and> is_id (iq_input p) \<and>
    is_id (iq_dispatch_request p) \<and> is_id (iq_project p) \<and>
    is_id (iq_conversation p) \<and> utf8_valid (iq_prompt p)"

lemma input_queued_codec: "record_codec read_input_queued input_queued_payload wf_input_queued"
proof (rule record_codecI, goal_cases)
  case (1 pre rest v r')
  then show ?case
    by (auto simp: read_input_queued_def input_queued_payload_def wf_input_queued_def parse write_simps)
next
  case (2 pre post v bs)
  then show ?case
    by (cases v) (auto simp: read_input_queued_def input_queued_payload_def wf_input_queued_def run write_simps)
qed

interpretation input_queued: record_codec read_input_queued input_queued_payload wf_input_queued
  by (rule input_queued_codec)

record input_reordered =
  ir_request :: id16
  ir_digest :: hash32
  ir_input :: id16
  ir_after :: "id16 option"
  ir_expected_order_revision :: u64
  ir_order_revision :: u64

definition input_reordered_payload :: "input_reordered \<Rightarrow> bytes result" where
  "input_reordered_payload p = w_all
    [w_bytes (ir_request p), w_bytes (ir_digest p), w_bytes (ir_input p),
     w_bytes (w_optional (ir_after p)), w_u64 (ir_expected_order_revision p),
     w_u64 (ir_order_revision p)]"

definition read_input_reordered :: "(replay_error, input_reordered) reading" where
  "read_input_reordered =
    rbind rd_id (\<lambda>request. rbind rd_hash (\<lambda>digest. rbind rd_id (\<lambda>input.
    rbind rd_optional (\<lambda>after. rbind rd_u64 (\<lambda>expected_order_revision.
    rbind rd_u64 (\<lambda>order_revision.
    rreturn \<lparr>ir_request = request, ir_digest = digest, ir_input = input, ir_after = after,
      ir_expected_order_revision = expected_order_revision, ir_order_revision = order_revision\<rparr>))))))"

definition wf_input_reordered :: "input_reordered \<Rightarrow> bool" where
  "wf_input_reordered p \<longleftrightarrow> is_id (ir_request p) \<and> is_hash (ir_digest p) \<and> is_id (ir_input p) \<and>
    wf_optional (ir_after p)"

lemma input_reordered_codec: "record_codec read_input_reordered input_reordered_payload wf_input_reordered"
proof (rule record_codecI, goal_cases)
  case (1 pre rest v r')
  then show ?case
    by (auto simp: read_input_reordered_def input_reordered_payload_def wf_input_reordered_def parse write_simps)
next
  case (2 pre post v bs)
  then show ?case
    by (cases v) (auto simp: read_input_reordered_def input_reordered_payload_def wf_input_reordered_def run write_simps)
qed

interpretation input_reordered: record_codec read_input_reordered input_reordered_payload wf_input_reordered
  by (rule input_reordered_codec)

record input_decision =
  ides_request :: id16
  ides_digest :: hash32
  ides_input :: id16
  ides_action :: input_action

definition input_decision_payload :: "input_decision \<Rightarrow> bytes result" where
  "input_decision_payload p = w_all
    [w_bytes (ides_request p), w_bytes (ides_digest p), w_bytes (ides_input p),
     w_byte (input_action_code (ides_action p))]"

definition read_input_decision :: "(replay_error, input_decision) reading" where
  "read_input_decision =
    rbind rd_id (\<lambda>request. rbind rd_hash (\<lambda>digest. rbind rd_id (\<lambda>input.
    rbind (rd_coded input_action_from_code) (\<lambda>action.
    rreturn \<lparr>ides_request = request, ides_digest = digest, ides_input = input, ides_action = action\<rparr>))))"

definition wf_input_decision :: "input_decision \<Rightarrow> bool" where
  "wf_input_decision p \<longleftrightarrow> is_id (ides_request p) \<and> is_hash (ides_digest p) \<and> is_id (ides_input p)"

lemma input_decision_codec: "record_codec read_input_decision input_decision_payload wf_input_decision"
proof (rule record_codecI, goal_cases)
  case (1 pre rest v r')
  then show ?case
    by (auto simp: read_input_decision_def input_decision_payload_def wf_input_decision_def parse write_simps)
next
  case (2 pre post v bs)
  then show ?case
    by (cases v) (auto simp: read_input_decision_def input_decision_payload_def wf_input_decision_def run write_simps)
qed

interpretation input_decision: record_codec read_input_decision input_decision_payload wf_input_decision
  by (rule input_decision_codec)

record input_promoted =
  ip_request :: id16
  ip_digest :: hash32
  ip_input :: id16
  ip_target_operation :: id16
  ip_target_generation :: u64

definition input_promoted_payload :: "input_promoted \<Rightarrow> bytes result" where
  "input_promoted_payload p = w_all
    [w_bytes (ip_request p), w_bytes (ip_digest p), w_bytes (ip_input p),
     w_bytes (ip_target_operation p), w_u64 (ip_target_generation p)]"

definition read_input_promoted :: "(replay_error, input_promoted) reading" where
  "read_input_promoted =
    rbind rd_id (\<lambda>request. rbind rd_hash (\<lambda>digest. rbind rd_id (\<lambda>input.
    rbind rd_id (\<lambda>target_operation. rbind rd_u64 (\<lambda>target_generation.
    rreturn \<lparr>ip_request = request, ip_digest = digest, ip_input = input,
      ip_target_operation = target_operation, ip_target_generation = target_generation\<rparr>)))))"

definition wf_input_promoted :: "input_promoted \<Rightarrow> bool" where
  "wf_input_promoted p \<longleftrightarrow> is_id (ip_request p) \<and> is_hash (ip_digest p) \<and> is_id (ip_input p) \<and>
    is_id (ip_target_operation p)"

lemma input_promoted_codec: "record_codec read_input_promoted input_promoted_payload wf_input_promoted"
proof (rule record_codecI, goal_cases)
  case (1 pre rest v r')
  then show ?case
    by (auto simp: read_input_promoted_def input_promoted_payload_def wf_input_promoted_def parse write_simps)
next
  case (2 pre post v bs)
  then show ?case
    by (cases v) (auto simp: read_input_promoted_def input_promoted_payload_def wf_input_promoted_def run write_simps)
qed

interpretation input_promoted: record_codec read_input_promoted input_promoted_payload wf_input_promoted
  by (rule input_promoted_codec)

subsection \<open>Initialization: kinds 10 and 11\<close>

record pending_init =
  pi_request :: id16
  pi_digest :: hash32
  pi_mode :: u8
  pi_configuration_revision :: u64
  pi_configuration_digest :: hash32
  pi_graph :: id16

definition pending_init_payload :: "pending_init \<Rightarrow> bytes result" where
  "pending_init_payload p = w_all
    [w_bytes (pi_request p), w_bytes (pi_digest p), w_byte (pi_mode p),
     w_u64 (pi_configuration_revision p), w_bytes (pi_configuration_digest p), w_bytes (pi_graph p)]"

definition read_pending_init :: "(replay_error, pending_init) reading" where
  "read_pending_init =
    rbind rd_id (\<lambda>request. rbind rd_hash (\<lambda>digest. rbind rd_byte (\<lambda>mode.
    rbind rd_u64 (\<lambda>configuration_revision. rbind rd_hash (\<lambda>configuration_digest.
    rbind rd_id (\<lambda>graph.
    rreturn \<lparr>pi_request = request, pi_digest = digest, pi_mode = mode,
      pi_configuration_revision = configuration_revision,
      pi_configuration_digest = configuration_digest, pi_graph = graph\<rparr>))))))"

definition wf_pending_init :: "pending_init \<Rightarrow> bool" where
  "wf_pending_init p \<longleftrightarrow> is_id (pi_request p) \<and> is_hash (pi_digest p) \<and>
    is_hash (pi_configuration_digest p) \<and> is_id (pi_graph p)"

lemma pending_init_codec: "record_codec read_pending_init pending_init_payload wf_pending_init"
proof (rule record_codecI, goal_cases)
  case (1 pre rest v r')
  then show ?case
    by (auto simp: read_pending_init_def pending_init_payload_def wf_pending_init_def parse write_simps)
next
  case (2 pre post v bs)
  then show ?case
    by (cases v) (auto simp: read_pending_init_def pending_init_payload_def wf_pending_init_def run write_simps)
qed

interpretation pending_init: record_codec read_pending_init pending_init_payload wf_pending_init
  by (rule pending_init_codec)

record active_binding =
  ab_request :: id16
  ab_generation :: u64
  ab_graph :: id16
  ab_configuration_digest :: hash32

definition active_binding_payload :: "active_binding \<Rightarrow> bytes result" where
  "active_binding_payload p = w_all
    [w_bytes (ab_request p), w_u64 (ab_generation p), w_bytes (ab_graph p),
     w_bytes (ab_configuration_digest p)]"

definition read_active_binding :: "(replay_error, active_binding) reading" where
  "read_active_binding =
    rbind rd_id (\<lambda>request. rbind rd_u64 (\<lambda>generation. rbind rd_id (\<lambda>graph.
    rbind rd_hash (\<lambda>configuration_digest.
    rreturn \<lparr>ab_request = request, ab_generation = generation, ab_graph = graph,
      ab_configuration_digest = configuration_digest\<rparr>))))"

definition wf_active_binding :: "active_binding \<Rightarrow> bool" where
  "wf_active_binding p \<longleftrightarrow> is_id (ab_request p) \<and> is_id (ab_graph p) \<and> is_hash (ab_configuration_digest p)"

lemma active_binding_codec: "record_codec read_active_binding active_binding_payload wf_active_binding"
proof (rule record_codecI, goal_cases)
  case (1 pre rest v r')
  then show ?case
    by (auto simp: read_active_binding_def active_binding_payload_def wf_active_binding_def parse write_simps)
next
  case (2 pre post v bs)
  then show ?case
    by (cases v) (auto simp: read_active_binding_def active_binding_payload_def wf_active_binding_def run write_simps)
qed

interpretation active_binding: record_codec read_active_binding active_binding_payload wf_active_binding
  by (rule active_binding_codec)

subsection \<open>Projects: kinds 4, 9 and 20\<close>

record project_registered =
  pr_request :: id16
  pr_digest :: hash32
  pr_project :: id16
  pr_location :: bytes
  pr_device :: u64
  pr_inode :: u64
  pr_registry_revision :: u64
  pr_visibility :: u8

definition project_registered_payload :: "project_registered \<Rightarrow> bytes result" where
  "project_registered_payload p = w_all
    [w_bytes (pr_request p), w_bytes (pr_digest p), w_bytes (pr_project p),
     w_string 4096 (pr_location p), w_u64 (pr_device p), w_u64 (pr_inode p),
     w_u64 (pr_registry_revision p), w_byte (pr_visibility p)]"

definition read_project_registered :: "(replay_error, project_registered) reading" where
  "read_project_registered =
    rbind rd_id (\<lambda>request. rbind rd_hash (\<lambda>digest. rbind rd_id (\<lambda>project.
    rbind (rd_string 4096) (\<lambda>location. rbind rd_u64 (\<lambda>device.
    rbind rd_u64 (\<lambda>inode. rbind rd_u64 (\<lambda>registry_revision.
    rbind rd_byte (\<lambda>visibility.
    rreturn \<lparr>pr_request = request, pr_digest = digest, pr_project = project, pr_location = location,
      pr_device = device, pr_inode = inode, pr_registry_revision = registry_revision,
      pr_visibility = visibility\<rparr>))))))))"

definition wf_project_registered :: "project_registered \<Rightarrow> bool" where
  "wf_project_registered p \<longleftrightarrow> is_id (pr_request p) \<and> is_hash (pr_digest p) \<and> is_id (pr_project p) \<and>
    utf8_valid (pr_location p)"

lemma project_registered_codec: "record_codec read_project_registered project_registered_payload wf_project_registered"
proof (rule record_codecI, goal_cases)
  case (1 pre rest v r')
  then show ?case
    by (auto simp: read_project_registered_def project_registered_payload_def wf_project_registered_def parse write_simps)
next
  case (2 pre post v bs)
  then show ?case
    by (cases v) (auto simp: read_project_registered_def project_registered_payload_def wf_project_registered_def run write_simps)
qed

interpretation project_registered: record_codec read_project_registered project_registered_payload wf_project_registered
  by (rule project_registered_codec)

record project_request_alias =
  pa_request :: id16
  pa_digest :: hash32
  pa_location :: bytes
  pa_project :: id16
  pa_registry_revision :: u64

definition project_request_alias_payload :: "project_request_alias \<Rightarrow> bytes result" where
  "project_request_alias_payload p = w_all
    [w_bytes (pa_request p), w_bytes (pa_digest p), w_string 4096 (pa_location p),
     w_bytes (pa_project p), w_u64 (pa_registry_revision p)]"

definition read_project_request_alias :: "(replay_error, project_request_alias) reading" where
  "read_project_request_alias =
    rbind rd_id (\<lambda>request. rbind rd_hash (\<lambda>digest.
    rbind (rd_string 4096) (\<lambda>location. rbind rd_id (\<lambda>project.
    rbind rd_u64 (\<lambda>registry_revision.
    rreturn \<lparr>pa_request = request, pa_digest = digest, pa_location = location, pa_project = project,
      pa_registry_revision = registry_revision\<rparr>)))))"

definition wf_project_request_alias :: "project_request_alias \<Rightarrow> bool" where
  "wf_project_request_alias p \<longleftrightarrow> is_id (pa_request p) \<and> is_hash (pa_digest p) \<and> utf8_valid (pa_location p) \<and>
    is_id (pa_project p)"

lemma project_request_alias_codec: "record_codec read_project_request_alias project_request_alias_payload wf_project_request_alias"
proof (rule record_codecI, goal_cases)
  case (1 pre rest v r')
  then show ?case
    by (auto simp: read_project_request_alias_def project_request_alias_payload_def wf_project_request_alias_def parse write_simps)
next
  case (2 pre post v bs)
  then show ?case
    by (cases v) (auto simp: read_project_request_alias_def project_request_alias_payload_def wf_project_request_alias_def run write_simps)
qed

interpretation project_request_alias: record_codec read_project_request_alias project_request_alias_payload wf_project_request_alias
  by (rule project_request_alias_codec)

record project_renamed =
  pn_request :: id16
  pn_digest :: hash32
  pn_project :: id16
  pn_expected_name_revision :: u64
  pn_name_revision :: u64
  pn_requested_name :: bytes
  pn_name :: bytes

definition project_renamed_payload :: "project_renamed \<Rightarrow> bytes result" where
  "project_renamed_payload p = w_all
    [w_bytes (pn_request p), w_bytes (pn_digest p), w_bytes (pn_project p),
     w_u64 (pn_expected_name_revision p), w_u64 (pn_name_revision p),
     w_string 128 (pn_requested_name p), w_string 128 (pn_name p)]"

definition read_project_renamed :: "(replay_error, project_renamed) reading" where
  "read_project_renamed =
    rbind rd_id (\<lambda>request. rbind rd_hash (\<lambda>digest. rbind rd_id (\<lambda>project.
    rbind rd_u64 (\<lambda>expected_name_revision. rbind rd_u64 (\<lambda>name_revision.
    rbind (rd_string 128) (\<lambda>requested_name. rbind (rd_string 128) (\<lambda>name.
    rreturn \<lparr>pn_request = request, pn_digest = digest, pn_project = project,
      pn_expected_name_revision = expected_name_revision, pn_name_revision = name_revision,
      pn_requested_name = requested_name, pn_name = name\<rparr>)))))))"

definition wf_project_renamed :: "project_renamed \<Rightarrow> bool" where
  "wf_project_renamed p \<longleftrightarrow> is_id (pn_request p) \<and> is_hash (pn_digest p) \<and> is_id (pn_project p) \<and>
    utf8_valid (pn_requested_name p) \<and> utf8_valid (pn_name p)"

lemma project_renamed_codec: "record_codec read_project_renamed project_renamed_payload wf_project_renamed"
proof (rule record_codecI, goal_cases)
  case (1 pre rest v r')
  then show ?case
    by (auto simp: read_project_renamed_def project_renamed_payload_def wf_project_renamed_def parse write_simps)
next
  case (2 pre post v bs)
  then show ?case
    by (cases v) (auto simp: read_project_renamed_def project_renamed_payload_def wf_project_renamed_def run write_simps)
qed

interpretation project_renamed: record_codec read_project_renamed project_renamed_payload wf_project_renamed
  by (rule project_renamed_codec)

subsection \<open>Turns: kinds 6, 33, 7, 8, 24 and 25\<close>

record start_authorized =
  sa_operation :: id16
  sa_generation :: u64
  sa_helper :: id16
  sa_input_digest :: hash32

definition start_authorized_payload :: "start_authorized \<Rightarrow> bytes result" where
  "start_authorized_payload p = w_all
    [w_bytes (sa_operation p), w_u64 (sa_generation p), w_bytes (sa_helper p),
     w_bytes (sa_input_digest p)]"

definition read_start_authorized :: "(replay_error, start_authorized) reading" where
  "read_start_authorized =
    rbind rd_id (\<lambda>operation. rbind rd_u64 (\<lambda>generation.
    rbind rd_id (\<lambda>helper. rbind rd_hash (\<lambda>input_digest.
    rreturn \<lparr>sa_operation = operation, sa_generation = generation, sa_helper = helper,
      sa_input_digest = input_digest\<rparr>))))"

definition wf_start_authorized :: "start_authorized \<Rightarrow> bool" where
  "wf_start_authorized p \<longleftrightarrow> is_id (sa_operation p) \<and> is_id (sa_helper p) \<and> is_hash (sa_input_digest p)"

lemma start_authorized_codec: "record_codec read_start_authorized start_authorized_payload wf_start_authorized"
proof (rule record_codecI, goal_cases)
  case (1 pre rest v r')
  then show ?case
    by (auto simp: read_start_authorized_def start_authorized_payload_def wf_start_authorized_def parse write_simps)
next
  case (2 pre post v bs)
  then show ?case
    by (cases v) (auto simp: read_start_authorized_def start_authorized_payload_def wf_start_authorized_def run write_simps)
qed

interpretation start_authorized: record_codec read_start_authorized start_authorized_payload wf_start_authorized
  by (rule start_authorized_codec)

record request_started =
  rs_operation :: id16
  rs_generation :: u64
  rs_request :: u32
  rs_measured_tokens :: u32
  rs_input_digest :: hash32
  rs_manifest_digest :: hash32

definition request_started_payload :: "request_started \<Rightarrow> bytes result" where
  "request_started_payload p = w_all
    [w_require (rs_request p \<ge> 2), w_bytes (rs_operation p), w_u64 (rs_generation p),
     w_u32 (rs_request p), w_u32 (rs_measured_tokens p), w_bytes (rs_input_digest p),
     w_bytes (rs_manifest_digest p)]"

definition read_request_started :: "(replay_error, request_started) reading" where
  "read_request_started =
    rbind rd_id (\<lambda>operation. rbind rd_u64 (\<lambda>generation.
    rbind rd_u32 (\<lambda>request. rbind rd_u32 (\<lambda>measured_tokens.
    rbind rd_hash (\<lambda>input_digest. rbind rd_hash (\<lambda>manifest_digest.
    rbind (rd_require (request \<ge> 2)) (\<lambda>_.
    rreturn \<lparr>rs_operation = operation, rs_generation = generation, rs_request = request,
      rs_measured_tokens = measured_tokens, rs_input_digest = input_digest,
      rs_manifest_digest = manifest_digest\<rparr>)))))))"

definition wf_request_started :: "request_started \<Rightarrow> bool" where
  "wf_request_started p \<longleftrightarrow> is_id (rs_operation p) \<and> is_hash (rs_input_digest p) \<and> is_hash (rs_manifest_digest p)"

lemma request_started_codec: "record_codec read_request_started request_started_payload wf_request_started"
proof (rule record_codecI, goal_cases)
  case (1 pre rest v r')
  then show ?case
    by (auto simp: read_request_started_def request_started_payload_def wf_request_started_def parse write_simps)
next
  case (2 pre post v bs)
  then show ?case
    by (cases v) (auto simp: read_request_started_def request_started_payload_def wf_request_started_def run write_simps)
qed

interpretation request_started: record_codec read_request_started request_started_payload wf_request_started
  by (rule request_started_codec)

record cancel_requested =
  cr_operation :: id16
  cr_generation :: u64
  cr_cause :: cause

definition cancel_requested_payload :: "cancel_requested \<Rightarrow> bytes result" where
  "cancel_requested_payload p = w_all
    [w_bytes (cr_operation p), w_u64 (cr_generation p), w_byte (cause_code (cr_cause p))]"

definition read_cancel_requested :: "(replay_error, cancel_requested) reading" where
  "read_cancel_requested =
    rbind rd_id (\<lambda>operation. rbind rd_u64 (\<lambda>generation.
    rbind rd_cause (\<lambda>cause.
    rreturn \<lparr>cr_operation = operation, cr_generation = generation, cr_cause = cause\<rparr>)))"

definition wf_cancel_requested :: "cancel_requested \<Rightarrow> bool" where
  "wf_cancel_requested p \<longleftrightarrow> is_id (cr_operation p)"

lemma cancel_requested_codec: "record_codec read_cancel_requested cancel_requested_payload wf_cancel_requested"
proof (rule record_codecI, goal_cases)
  case (1 pre rest v r')
  then show ?case
    by (auto simp: read_cancel_requested_def cancel_requested_payload_def wf_cancel_requested_def parse write_simps)
next
  case (2 pre post v bs)
  then show ?case
    by (cases v) (auto simp: read_cancel_requested_def cancel_requested_payload_def wf_cancel_requested_def run write_simps)
qed

interpretation cancel_requested: record_codec read_cancel_requested cancel_requested_payload wf_cancel_requested
  by (rule cancel_requested_codec)

record turn_terminal =
  tt_operation :: id16
  tt_generation :: u64
  tt_kind :: terminal_kind
  tt_cause :: cause
  tt_final_cursor :: u64
  tt_usage_known :: bool
  tt_output_tokens :: u32
  tt_text_offset :: u64
  tt_text :: bytes

definition turn_terminal_payload :: "turn_terminal \<Rightarrow> bytes result" where
  "turn_terminal_payload p = w_all
    [w_bytes (tt_operation p), w_u64 (tt_generation p), w_byte (terminal_code (tt_kind p)),
     w_byte (cause_code (tt_cause p)), w_u64 (tt_final_cursor p),
     w_bytes (w_flag (tt_usage_known p)), w_u32 (tt_output_tokens p), w_u64 (tt_text_offset p),
     w_string 61440 (tt_text p)]"

definition read_turn_terminal :: "(replay_error, turn_terminal) reading" where
  "read_turn_terminal =
    rbind rd_id (\<lambda>operation. rbind rd_u64 (\<lambda>generation.
    rbind (rd_coded terminal_from_code) (\<lambda>kind. rbind rd_cause (\<lambda>cause.
    rbind rd_u64 (\<lambda>final_cursor. rbind rd_flag (\<lambda>usage_known.
    rbind rd_u32 (\<lambda>output_tokens. rbind rd_u64 (\<lambda>text_offset.
    rbind (rd_string 61440) (\<lambda>text.
    rreturn \<lparr>tt_operation = operation, tt_generation = generation, tt_kind = kind, tt_cause = cause,
      tt_final_cursor = final_cursor, tt_usage_known = usage_known,
      tt_output_tokens = output_tokens, tt_text_offset = text_offset, tt_text = text\<rparr>)))))))))"

definition wf_turn_terminal :: "turn_terminal \<Rightarrow> bool" where
  "wf_turn_terminal p \<longleftrightarrow> is_id (tt_operation p) \<and> utf8_valid (tt_text p)"

lemma turn_terminal_codec: "record_codec read_turn_terminal turn_terminal_payload wf_turn_terminal"
proof (rule record_codecI, goal_cases)
  case (1 pre rest v r')
  then show ?case
    by (auto simp: read_turn_terminal_def turn_terminal_payload_def wf_turn_terminal_def parse write_simps)
next
  case (2 pre post v bs)
  then show ?case
    by (cases v) (auto simp: read_turn_terminal_def turn_terminal_payload_def wf_turn_terminal_def run write_simps)
qed

interpretation turn_terminal: record_codec read_turn_terminal turn_terminal_payload wf_turn_terminal
  by (rule turn_terminal_codec)

record response_text =
  rt_operation :: id16
  rt_generation :: u64
  rt_offset :: u64
  rt_text :: bytes

definition response_text_payload :: "response_text \<Rightarrow> bytes result" where
  "response_text_payload p = w_all
    [w_require (rt_text p \<noteq> [] \<or> rt_offset p > 0), w_bytes (rt_operation p),
     w_u64 (rt_generation p), w_u64 (rt_offset p), w_string 61440 (rt_text p)]"

definition read_response_text :: "(replay_error, response_text) reading" where
  "read_response_text =
    rbind rd_id (\<lambda>operation. rbind rd_u64 (\<lambda>generation.
    rbind rd_u64 (\<lambda>offset. rbind (rd_string 61440) (\<lambda>text.
    rbind (rd_require (text \<noteq> [] \<or> offset > 0)) (\<lambda>_.
    rreturn \<lparr>rt_operation = operation, rt_generation = generation, rt_offset = offset, rt_text = text\<rparr>)))))"

definition wf_response_text :: "response_text \<Rightarrow> bool" where
  "wf_response_text p \<longleftrightarrow> is_id (rt_operation p) \<and> utf8_valid (rt_text p)"

lemma response_text_codec: "record_codec read_response_text response_text_payload wf_response_text"
proof (rule record_codecI, goal_cases)
  case (1 pre rest v r')
  then show ?case
    by (auto simp: read_response_text_def response_text_payload_def wf_response_text_def parse write_simps)
next
  case (2 pre post v bs)
  then show ?case
    by (cases v) (auto simp: read_response_text_def response_text_payload_def wf_response_text_def run write_simps)
qed

interpretation response_text: record_codec read_response_text response_text_payload wf_response_text
  by (rule response_text_codec)

subsection \<open>Accepted turns: kind 21\<close>

record composition =
  co_omitted_turns :: u32
  co_manifest_digest :: hash32
  co_composer_revision :: u32
  co_window_tokens :: u32
  co_output_reservation :: u32
  co_overhead_tokens :: u32
  co_bytes_per_token_milli :: u32
  co_notice_through :: u64
  co_notice_live :: u32
  co_notice_views :: u8

definition composition_payload :: "composition \<Rightarrow> bytes" where
  "composition_payload c =
    be32 (co_omitted_turns c) @ co_manifest_digest c @ be32 (co_composer_revision c) @
    be32 (co_window_tokens c) @ be32 (co_output_reservation c) @ be32 (co_overhead_tokens c) @
    be32 (co_bytes_per_token_milli c) @ be64 (co_notice_through c) @ be32 (co_notice_live c) @
    [co_notice_views c]"

definition read_composition :: "(replay_error, composition) reading" where
  "read_composition =
    rbind rd_u32 (\<lambda>omitted_turns. rbind rd_hash (\<lambda>manifest_digest.
    rbind rd_u32 (\<lambda>composer_revision. rbind rd_u32 (\<lambda>window_tokens.
    rbind rd_u32 (\<lambda>output_reservation. rbind rd_u32 (\<lambda>overhead_tokens.
    rbind rd_u32 (\<lambda>bytes_per_token_milli. rbind rd_u64 (\<lambda>notice_through.
    rbind rd_u32 (\<lambda>notice_live. rbind rd_byte (\<lambda>notice_views.
    rreturn \<lparr>co_omitted_turns = omitted_turns, co_manifest_digest = manifest_digest,
      co_composer_revision = composer_revision, co_window_tokens = window_tokens,
      co_output_reservation = output_reservation, co_overhead_tokens = overhead_tokens,
      co_bytes_per_token_milli = bytes_per_token_milli, co_notice_through = notice_through,
      co_notice_live = notice_live, co_notice_views = notice_views\<rparr>))))))))))"

lemma composition_codec:
  "codec read_composition composition_payload (\<lambda>c. is_hash (co_manifest_digest c))"
proof (rule codecI, goal_cases)
  case (1 pre rest v r')
  then show ?case by (auto simp: read_composition_def composition_payload_def parse)
next
  case (2 pre post v)
  then show ?case by (cases v) (auto simp: read_composition_def composition_payload_def run)
qed

interpretation composition: codec read_composition composition_payload "\<lambda>c. is_hash (co_manifest_digest c)"
  by (rule composition_codec)

record turn_accepted =
  ta_request :: id16
  ta_digest :: hash32
  ta_project :: id16
  ta_original_conversation :: "id16 option"
  ta_expected_generation :: u64
  ta_conversation :: id16
  ta_generation :: u64
  ta_task :: id16
  ta_operation :: id16
  ta_model :: bytes
  ta_configuration_digest :: hash32
  ta_instructions_digest :: hash32
  ta_input_digest :: hash32
  ta_prior_operations :: "id16 list"
  ta_prompt :: bytes
  ta_event_cursor :: u64
  ta_composition :: composition
  ta_thinking_level :: u8
  ta_thinking_request :: u8

definition turn_accepted_payload :: "turn_accepted \<Rightarrow> bytes result" where
  "turn_accepted_payload p = w_all
    [w_bytes (ta_request p), w_bytes (ta_digest p), w_bytes (ta_project p),
     w_bytes (w_optional (ta_original_conversation p)), w_u64 (ta_expected_generation p),
     w_bytes (ta_conversation p), w_u64 (ta_generation p), w_bytes (ta_task p),
     w_bytes (ta_operation p), w_string 1024 (ta_model p), w_bytes (ta_configuration_digest p),
     w_bytes (ta_instructions_digest p), w_bytes (ta_input_digest p),
     (if length (ta_prior_operations p) > 1024 then Inl Limit else w_bytes []),
     w_u16 (of_nat (length (ta_prior_operations p))), w_bytes (concat (ta_prior_operations p)),
     w_string 32768 (ta_prompt p), w_u64 (ta_event_cursor p),
     w_bytes (composition_payload (ta_composition p)),
     w_require (ta_thinking_level p \<le> 4 \<and> ta_thinking_request p \<le> 5),
     w_byte (ta_thinking_level p), w_byte (ta_thinking_request p)]"

definition read_turn_accepted :: "(replay_error, turn_accepted) reading" where
  "read_turn_accepted =
    rbind rd_id (\<lambda>request. rbind rd_hash (\<lambda>digest. rbind rd_id (\<lambda>project.
    rbind rd_optional (\<lambda>original_conversation. rbind rd_u64 (\<lambda>expected_generation.
    rbind rd_id (\<lambda>conversation. rbind rd_u64 (\<lambda>generation. rbind rd_id (\<lambda>task.
    rbind rd_id (\<lambda>operation. rbind (rd_string 1024) (\<lambda>model.
    rbind rd_hash (\<lambda>configuration_digest. rbind rd_hash (\<lambda>instructions_digest.
    rbind rd_hash (\<lambda>input_digest. rbind rd_u16 (\<lambda>count.
    if unat count > 1024 then rfail Limit else
    rbind (rd_times (unat count) rd_id) (\<lambda>prior_operations.
    rbind (rd_string 32768) (\<lambda>prompt. rbind rd_u64 (\<lambda>event_cursor.
    rbind read_composition (\<lambda>composition.
    rbind rd_byte (\<lambda>thinking_level. rbind rd_byte (\<lambda>thinking_request.
    rbind (rd_require (thinking_level \<le> 4 \<and> thinking_request \<le> 5)) (\<lambda>_.
    rreturn \<lparr>ta_request = request, ta_digest = digest, ta_project = project,
      ta_original_conversation = original_conversation,
      ta_expected_generation = expected_generation, ta_conversation = conversation,
      ta_generation = generation, ta_task = task, ta_operation = operation, ta_model = model,
      ta_configuration_digest = configuration_digest,
      ta_instructions_digest = instructions_digest, ta_input_digest = input_digest,
      ta_prior_operations = prior_operations, ta_prompt = prompt, ta_event_cursor = event_cursor,
      ta_composition = composition, ta_thinking_level = thinking_level,
      ta_thinking_request = thinking_request\<rparr>)))))))))))))))))))))"

definition wf_turn_accepted :: "turn_accepted \<Rightarrow> bool" where
  "wf_turn_accepted p \<longleftrightarrow> is_id (ta_request p) \<and> is_hash (ta_digest p) \<and> is_id (ta_project p) \<and>
    wf_optional (ta_original_conversation p) \<and> is_id (ta_conversation p) \<and> is_id (ta_task p) \<and>
    is_id (ta_operation p) \<and> utf8_valid (ta_model p) \<and> is_hash (ta_configuration_digest p) \<and>
    is_hash (ta_instructions_digest p) \<and> is_hash (ta_input_digest p) \<and>
    (\<forall>i\<in>set (ta_prior_operations p). is_id i) \<and> utf8_valid (ta_prompt p) \<and>
    is_hash (co_manifest_digest (ta_composition p))"

lemmas times_parse [parse] = codec.bind_exact [OF codec_times [OF codec_array]]
lemmas times_run [run] = codec.bind_run [OF codec_times [OF codec_array], simplified]

lemma count_u16: "n \<le> 1024 \<Longrightarrow> unat (of_nat n :: u16) = n"
  by (simp add: unat_of_nat)

lemma turn_accepted_codec: "record_codec read_turn_accepted turn_accepted_payload wf_turn_accepted"
proof (rule record_codecI, goal_cases)
  case (1 pre rest v r')
  then show ?case
    by (auto simp: read_turn_accepted_def turn_accepted_payload_def wf_turn_accepted_def parse
        composition.bind_exact write_simps)
next
  case (2 pre post v bs)
  then show ?case
    by (cases v)
      (auto simp: read_turn_accepted_def turn_accepted_payload_def wf_turn_accepted_def run
        composition.bind_run write_simps count_u16 split: if_splits)
qed

interpretation turn_accepted: record_codec read_turn_accepted turn_accepted_payload wf_turn_accepted
  by (rule turn_accepted_codec)

subsection \<open>Tool results: kind 15\<close>

record tool_result =
  tr_operation :: id16
  tr_generation :: u64
  tr_ordinal :: u32
  tr_status :: u8
  tr_text :: bytes
  tr_next_offset :: "u64 option"
  tr_truncated :: bool

definition valid_tool_result :: "tool_result \<Rightarrow> bool" where
  "valid_tool_result p \<longleftrightarrow> \<not> (tr_operation p = zero_id \<or> tr_generation p = 0
    \<or> \<not> (1 \<le> tr_ordinal p \<and> tr_ordinal p \<le> 200) \<or> \<not> (1 \<le> tr_status p \<and> tr_status p \<le> 7)
    \<or> length (tr_text p) > 16384 \<or> (tr_status p \<noteq> 1 \<and> tr_next_offset p \<noteq> None)
    \<or> (tr_status p \<notin> {1, 5, 6, 7} \<and> tr_truncated p))"

definition w_optional_u64 :: "u64 option \<Rightarrow> bytes" where
  "w_optional_u64 x = w_flag (x \<noteq> None) @ (case x of None \<Rightarrow> [] | Some n \<Rightarrow> be64 n)"

definition rd_optional_u64 :: "(replay_error, u64 option) reading" where
  "rd_optional_u64 = rbind rd_flag (\<lambda>present.
    if present then rbind rd_u64 (\<lambda>n. rreturn (Some n)) else rreturn None)"

lemma optional_u64_codec: "codec rd_optional_u64 w_optional_u64 (\<lambda>_. True)"
proof (rule codecI, goal_cases)
  case (1 pre rest v r')
  then show ?case by (auto simp: rd_optional_u64_def w_optional_u64_def parse if_reading)
next
  case (2 pre post v)
  then show ?case by (cases v) (auto simp: rd_optional_u64_def w_optional_u64_def run)
qed

interpretation optional_u64: codec rd_optional_u64 w_optional_u64 "\<lambda>_. True"
  by (rule optional_u64_codec)

definition tool_result_payload :: "tool_result \<Rightarrow> bytes result" where
  "tool_result_payload p = w_all
    [w_require (valid_tool_result p), w_bytes (tr_operation p), w_u64 (tr_generation p),
     w_u32 (tr_ordinal p), w_byte (tr_status p), w_string 16384 (tr_text p),
     w_bytes (w_optional_u64 (tr_next_offset p)), w_bytes (w_flag (tr_truncated p))]"

definition read_tool_result :: "(replay_error, tool_result) reading" where
  "read_tool_result =
    rbind rd_id (\<lambda>operation. rbind rd_u64 (\<lambda>generation. rbind rd_u32 (\<lambda>ordinal.
    rbind rd_byte (\<lambda>status. rbind (rd_string 16384) (\<lambda>text. rbind rd_optional_u64 (\<lambda>next_offset.
    rbind rd_flag (\<lambda>truncated.
    let value = \<lparr>tr_operation = operation, tr_generation = generation, tr_ordinal = ordinal,
      tr_status = status, tr_text = text, tr_next_offset = next_offset,
      tr_truncated = truncated\<rparr> in
    rbind (rd_require (valid_tool_result value)) (\<lambda>_. rreturn value))))))))"

definition wf_tool_result :: "tool_result \<Rightarrow> bool" where
  "wf_tool_result p \<longleftrightarrow> is_id (tr_operation p) \<and> utf8_valid (tr_text p)"

lemma tool_result_codec: "record_codec read_tool_result tool_result_payload wf_tool_result"
proof (rule record_codecI, goal_cases)
  case (1 pre rest v r')
  then show ?case
    by (auto simp: read_tool_result_def tool_result_payload_def wf_tool_result_def Let_def parse
        optional_u64.bind_exact write_simps)
next
  case (2 pre post v bs)
  then show ?case
    by (cases v) (auto simp: read_tool_result_def tool_result_payload_def wf_tool_result_def Let_def
        run optional_u64.bind_run write_simps)
qed

interpretation tool_result: record_codec read_tool_result tool_result_payload wf_tool_result
  by (rule tool_result_codec)

end
