(* ===== verification/JobTypes.thy ===== *)
theory JobTypes
  imports ToolTypes
begin

section \<open>The enumerations of job records\<close>

text \<open>
  The stored codes of kinds 26 to 30 (\<open>authority/conversation/types.rs\<close>) with the reason and outcome
  tables: which requester a cancel reason has, which outcomes a reason allows, which outcomes an
  operation may record. Each enumeration with a stored code is a \<open>code_table\<close>.
\<close>

text \<open>\<open>ALL.get(usize::from(code))\<close>.\<close>

definition nth_code0 :: "'a list \<Rightarrow> u8 \<Rightarrow> 'a option" where
  "nth_code0 xs code = (if unat code < length xs then Some (xs ! unat code) else None)"

lemma nth_code0_table:
  assumes "\<And>v. v \<in> set xs" "map code xs = map of_nat [0..<length xs]" "length xs < 256"
  shows "code_table code (nth_code0 xs)"
proof
  have code: "code (xs ! i) = of_nat i" if "i < length xs" for i
    using arg_cong [OF assms(2), of "\<lambda>l. l ! i"] that by simp
  have small: "unat (of_nat i :: u8) = i" if "i < length xs" for i
    using that assms(3) by (simp add: unat_of_nat_u8)
  fix b v
  obtain i where i: "i < length xs" "v = xs ! i" using assms(1) by (metis in_set_conv_nth)
  show "nth_code0 xs b = Some v \<longleftrightarrow> b = code v"
  proof
    assume "nth_code0 xs b = Some v"
    then have "unat b < length xs" "v = xs ! unat b" by (auto simp: nth_code0_def split: if_splits)
    then show "b = code v" using code [of "unat b"] by simp
  next
    assume "b = code v"
    then show "nth_code0 xs b = Some v" using code small i by (simp add: nth_code0_def)
  qed
qed

subsection \<open>Capture states and reasons\<close>

datatype capture_state =
    CS_Complete | CS_Incomplete | CS_Unconfirmed | CS_NotStarted

fun capture_state_code :: "capture_state \<Rightarrow> u8" where
  "capture_state_code CS_Complete = 1"
| "capture_state_code CS_Incomplete = 2"
| "capture_state_code CS_Unconfirmed = 3"
| "capture_state_code CS_NotStarted = 4"

fun capture_state_as_str :: "capture_state \<Rightarrow> bytes" where
  "capture_state_as_str CS_Complete = ascii ''complete''"
| "capture_state_as_str CS_Incomplete = ascii ''incomplete''"
| "capture_state_as_str CS_Unconfirmed = ascii ''unconfirmed''"
| "capture_state_as_str CS_NotStarted = ascii ''not_started''"

subsection \<open>CaptureReason\<close>

datatype capture_reason =
    CR_None | CR_StorageFault | CR_Quota | CR_Enospc | CR_DetectorFault | CR_DiscardedAfterCancel
    | CR_SettlementUnconfirmed | CR_ClosedAfterCancel

fun capture_reason_code :: "capture_reason \<Rightarrow> u8" where
  "capture_reason_code CR_None = 0"
| "capture_reason_code CR_StorageFault = 1"
| "capture_reason_code CR_Quota = 2"
| "capture_reason_code CR_Enospc = 3"
| "capture_reason_code CR_DetectorFault = 4"
| "capture_reason_code CR_DiscardedAfterCancel = 5"
| "capture_reason_code CR_SettlementUnconfirmed = 6"
| "capture_reason_code CR_ClosedAfterCancel = 7"

definition capture_reason_from_code :: "u8 \<Rightarrow> capture_reason option" where
  "capture_reason_from_code code = map_of
    [(0, CR_None), (1, CR_StorageFault), (2, CR_Quota), (3, CR_Enospc), (4, CR_DetectorFault),
     (5, CR_DiscardedAfterCancel), (6, CR_SettlementUnconfirmed), (7, CR_ClosedAfterCancel)] code"

interpretation capture_reason: code_table capture_reason_code capture_reason_from_code
proof
  show "capture_reason_from_code b = Some v \<longleftrightarrow> b = capture_reason_code v" for b v
    by (cases v) (auto simp: capture_reason_from_code_def)
qed

fun capture_reason_as_str :: "capture_reason \<Rightarrow> bytes" where
  "capture_reason_as_str CR_None = ascii ''none''"
| "capture_reason_as_str CR_StorageFault = ascii ''storage_fault''"
| "capture_reason_as_str CR_Quota = ascii ''quota''"
| "capture_reason_as_str CR_Enospc = ascii ''enospc''"
| "capture_reason_as_str CR_DetectorFault = ascii ''detector_fault''"
| "capture_reason_as_str CR_DiscardedAfterCancel = ascii ''discarded_after_cancel''"
| "capture_reason_as_str CR_SettlementUnconfirmed = ascii ''settlement_unconfirmed''"
| "capture_reason_as_str CR_ClosedAfterCancel = ascii ''closed_after_cancel''"

subsection \<open>Requesters, outcomes and reasons\<close>

datatype job_requester =
    JQ_Model | JQ_Client | JQ_Person | JQ_Service

fun job_requester_code :: "job_requester \<Rightarrow> u8" where
  "job_requester_code JQ_Model = 1"
| "job_requester_code JQ_Client = 2"
| "job_requester_code JQ_Person = 3"
| "job_requester_code JQ_Service = 4"

definition job_requester_from_code :: "u8 \<Rightarrow> job_requester option" where
  "job_requester_from_code code = map_of
    [(1, JQ_Model), (2, JQ_Client), (3, JQ_Person), (4, JQ_Service)] code"

interpretation job_requester: code_table job_requester_code job_requester_from_code
proof
  show "job_requester_from_code b = Some v \<longleftrightarrow> b = job_requester_code v" for b v
    by (cases v) (auto simp: job_requester_from_code_def)
qed

subsection \<open>JobOutcome\<close>

datatype job_outcome =
    JO_Exited | JO_Signalled | JO_Cancelled | JO_NotStarted | JO_Interrupted

fun job_outcome_code :: "job_outcome \<Rightarrow> u8" where
  "job_outcome_code JO_Exited = 1"
| "job_outcome_code JO_Signalled = 2"
| "job_outcome_code JO_Cancelled = 3"
| "job_outcome_code JO_NotStarted = 4"
| "job_outcome_code JO_Interrupted = 5"

definition job_outcome_ALL :: "job_outcome list" where
  "job_outcome_ALL =
    [JO_Exited, JO_Signalled, JO_Cancelled, JO_NotStarted, JO_Interrupted]"

definition job_outcome_from_code :: "u8 \<Rightarrow> job_outcome option" where
  "job_outcome_from_code code = nth_code job_outcome_ALL code"

interpretation job_outcome: code_table job_outcome_code job_outcome_from_code
proof (unfold job_outcome_from_code_def [abs_def], rule nth_code_table)
  show "v \<in> set job_outcome_ALL" for v by (cases v) (simp_all add: job_outcome_ALL_def)
qed (simp_all add: job_outcome_ALL_def upt_rec)

fun job_outcome_as_str :: "job_outcome \<Rightarrow> bytes" where
  "job_outcome_as_str JO_Exited = ascii ''exited''"
| "job_outcome_as_str JO_Signalled = ascii ''signalled''"
| "job_outcome_as_str JO_Cancelled = ascii ''cancelled''"
| "job_outcome_as_str JO_NotStarted = ascii ''not_started''"
| "job_outcome_as_str JO_Interrupted = ascii ''interrupted''"

subsection \<open>JobReason\<close>

datatype job_reason =
    JR_None | JR_ModelCancel | JR_TurnEnded | JR_ClientCancel | JR_PersonStop | JR_PersonKill
    | JR_IdentityChanged | JR_Shutdown | JR_CaptureFault | JR_Quota | JR_Enospc | JR_Restart
    | JR_CwdUnavailable | JR_ProjectChanged | JR_SandboxUnavailable | JR_SpawnFailed
    | JR_CaptureUnavailable | JR_ProtocolFault | JR_SetupFailed | JR_ExecutionOff
    | JR_OutsideSandboxOff | JR_EnforcementMismatch

fun job_reason_code :: "job_reason \<Rightarrow> u8" where
  "job_reason_code JR_None = 0"
| "job_reason_code JR_ModelCancel = 1"
| "job_reason_code JR_TurnEnded = 2"
| "job_reason_code JR_ClientCancel = 3"
| "job_reason_code JR_PersonStop = 4"
| "job_reason_code JR_PersonKill = 5"
| "job_reason_code JR_IdentityChanged = 6"
| "job_reason_code JR_Shutdown = 7"
| "job_reason_code JR_CaptureFault = 8"
| "job_reason_code JR_Quota = 9"
| "job_reason_code JR_Enospc = 10"
| "job_reason_code JR_Restart = 11"
| "job_reason_code JR_CwdUnavailable = 12"
| "job_reason_code JR_ProjectChanged = 13"
| "job_reason_code JR_SandboxUnavailable = 14"
| "job_reason_code JR_SpawnFailed = 15"
| "job_reason_code JR_CaptureUnavailable = 16"
| "job_reason_code JR_ProtocolFault = 17"
| "job_reason_code JR_SetupFailed = 18"
| "job_reason_code JR_ExecutionOff = 19"
| "job_reason_code JR_OutsideSandboxOff = 20"
| "job_reason_code JR_EnforcementMismatch = 21"

definition job_reason_ALL :: "job_reason list" where
  "job_reason_ALL =
    [JR_None, JR_ModelCancel, JR_TurnEnded, JR_ClientCancel, JR_PersonStop, JR_PersonKill,
     JR_IdentityChanged, JR_Shutdown, JR_CaptureFault, JR_Quota, JR_Enospc, JR_Restart,
     JR_CwdUnavailable, JR_ProjectChanged, JR_SandboxUnavailable, JR_SpawnFailed,
     JR_CaptureUnavailable, JR_ProtocolFault, JR_SetupFailed, JR_ExecutionOff, JR_OutsideSandboxOff,
     JR_EnforcementMismatch]"

definition job_reason_from_code :: "u8 \<Rightarrow> job_reason option" where
  "job_reason_from_code code = nth_code0 job_reason_ALL code"

interpretation job_reason: code_table job_reason_code job_reason_from_code
proof (unfold job_reason_from_code_def [abs_def], rule nth_code0_table)
  show "v \<in> set job_reason_ALL" for v by (cases v) (simp_all add: job_reason_ALL_def)
qed (simp_all add: job_reason_ALL_def upt_rec)

fun job_reason_as_str :: "job_reason \<Rightarrow> bytes" where
  "job_reason_as_str JR_None = ascii ''none''"
| "job_reason_as_str JR_ModelCancel = ascii ''model_cancel''"
| "job_reason_as_str JR_TurnEnded = ascii ''turn_ended''"
| "job_reason_as_str JR_ClientCancel = ascii ''client_cancel''"
| "job_reason_as_str JR_PersonStop = ascii ''person_stop''"
| "job_reason_as_str JR_PersonKill = ascii ''person_kill''"
| "job_reason_as_str JR_IdentityChanged = ascii ''identity_changed''"
| "job_reason_as_str JR_Shutdown = ascii ''shutdown''"
| "job_reason_as_str JR_CaptureFault = ascii ''capture_fault''"
| "job_reason_as_str JR_Quota = ascii ''quota''"
| "job_reason_as_str JR_Enospc = ascii ''enospc''"
| "job_reason_as_str JR_Restart = ascii ''restart''"
| "job_reason_as_str JR_CwdUnavailable = ascii ''cwd_unavailable''"
| "job_reason_as_str JR_ProjectChanged = ascii ''project_changed''"
| "job_reason_as_str JR_SandboxUnavailable = ascii ''sandbox_unavailable''"
| "job_reason_as_str JR_SpawnFailed = ascii ''spawn_failed''"
| "job_reason_as_str JR_CaptureUnavailable = ascii ''capture_unavailable''"
| "job_reason_as_str JR_ProtocolFault = ascii ''protocol_fault''"
| "job_reason_as_str JR_SetupFailed = ascii ''setup_failed''"
| "job_reason_as_str JR_ExecutionOff = ascii ''execution_off''"
| "job_reason_as_str JR_OutsideSandboxOff = ascii ''outside_sandbox_off''"
| "job_reason_as_str JR_EnforcementMismatch = ascii ''enforcement_mismatch''"

fun reason_requester :: "job_reason \<Rightarrow> job_requester option" where
  "reason_requester JR_None = None"
| "reason_requester JR_ModelCancel = Some JQ_Model"
| "reason_requester JR_TurnEnded = Some JQ_Model"
| "reason_requester JR_ClientCancel = Some JQ_Client"
| "reason_requester JR_PersonStop = Some JQ_Person"
| "reason_requester JR_PersonKill = Some JQ_Person"
| "reason_requester JR_IdentityChanged = Some JQ_Service"
| "reason_requester JR_Shutdown = Some JQ_Service"
| "reason_requester JR_CaptureFault = Some JQ_Service"
| "reason_requester JR_Quota = Some JQ_Service"
| "reason_requester JR_Enospc = Some JQ_Service"
| "reason_requester JR_Restart = None"
| "reason_requester JR_CwdUnavailable = None"
| "reason_requester JR_ProjectChanged = None"
| "reason_requester JR_SandboxUnavailable = None"
| "reason_requester JR_SpawnFailed = None"
| "reason_requester JR_CaptureUnavailable = None"
| "reason_requester JR_ProtocolFault = None"
| "reason_requester JR_SetupFailed = None"
| "reason_requester JR_ExecutionOff = Some JQ_Service"
| "reason_requester JR_OutsideSandboxOff = None"
| "reason_requester JR_EnforcementMismatch = None"

fun reason_allows :: "job_reason \<Rightarrow> job_outcome \<Rightarrow> bool" where
  "reason_allows JR_None outcome \<longleftrightarrow> outcome \<in> {JO_Exited, JO_Signalled}"
| "reason_allows JR_ModelCancel outcome \<longleftrightarrow> outcome \<in> {JO_Exited, JO_Signalled, JO_Cancelled, JO_NotStarted}"
| "reason_allows JR_TurnEnded outcome \<longleftrightarrow> outcome \<in> {JO_Exited, JO_Signalled, JO_Cancelled, JO_NotStarted}"
| "reason_allows JR_ClientCancel outcome \<longleftrightarrow> outcome \<in> {JO_Exited, JO_Signalled, JO_Cancelled, JO_NotStarted}"
| "reason_allows JR_PersonStop outcome \<longleftrightarrow> outcome \<in> {JO_Exited, JO_Signalled, JO_Cancelled, JO_NotStarted}"
| "reason_allows JR_PersonKill outcome \<longleftrightarrow> outcome \<in> {JO_Exited, JO_Signalled, JO_Cancelled, JO_NotStarted}"
| "reason_allows JR_IdentityChanged outcome \<longleftrightarrow> outcome \<in> {JO_Exited, JO_Signalled, JO_Cancelled, JO_NotStarted}"
| "reason_allows JR_Shutdown outcome \<longleftrightarrow> outcome \<in> {JO_Exited, JO_Signalled, JO_Cancelled, JO_NotStarted}"
| "reason_allows JR_CaptureFault outcome \<longleftrightarrow> outcome \<in> {JO_Exited, JO_Signalled, JO_Cancelled}"
| "reason_allows JR_Quota outcome \<longleftrightarrow> outcome \<in> {JO_Exited, JO_Signalled}"
| "reason_allows JR_Enospc outcome \<longleftrightarrow> outcome \<in> {JO_Exited, JO_Signalled}"
| "reason_allows JR_Restart outcome \<longleftrightarrow> outcome \<in> {JO_Interrupted}"
| "reason_allows JR_CwdUnavailable outcome \<longleftrightarrow> outcome \<in> {JO_NotStarted}"
| "reason_allows JR_ProjectChanged outcome \<longleftrightarrow> outcome \<in> {JO_NotStarted}"
| "reason_allows JR_SandboxUnavailable outcome \<longleftrightarrow> outcome \<in> {JO_NotStarted}"
| "reason_allows JR_SpawnFailed outcome \<longleftrightarrow> outcome \<in> {JO_NotStarted}"
| "reason_allows JR_CaptureUnavailable outcome \<longleftrightarrow> outcome \<in> {JO_NotStarted}"
| "reason_allows JR_ProtocolFault outcome \<longleftrightarrow> outcome \<in> {JO_NotStarted}"
| "reason_allows JR_SetupFailed outcome \<longleftrightarrow> outcome \<in> {JO_NotStarted}"
| "reason_allows JR_ExecutionOff outcome \<longleftrightarrow> outcome \<in> {JO_Exited, JO_Signalled, JO_Cancelled, JO_NotStarted}"
| "reason_allows JR_OutsideSandboxOff outcome \<longleftrightarrow> outcome \<in> {JO_NotStarted}"
| "reason_allows JR_EnforcementMismatch outcome \<longleftrightarrow> outcome \<in> {JO_NotStarted}"

subsection \<open>Cleanup and capture of a settled job\<close>

datatype job_cleanup =
    JC_None | JC_Confirmed | JC_Late

fun job_cleanup_code :: "job_cleanup \<Rightarrow> u8" where
  "job_cleanup_code JC_None = 0"
| "job_cleanup_code JC_Confirmed = 1"
| "job_cleanup_code JC_Late = 2"

definition job_cleanup_from_code :: "u8 \<Rightarrow> job_cleanup option" where
  "job_cleanup_from_code code = map_of
    [(0, JC_None), (1, JC_Confirmed), (2, JC_Late)] code"

interpretation job_cleanup: code_table job_cleanup_code job_cleanup_from_code
proof
  show "job_cleanup_from_code b = Some v \<longleftrightarrow> b = job_cleanup_code v" for b v
    by (cases v) (auto simp: job_cleanup_from_code_def)
qed

subsection \<open>JobCaptureState\<close>

datatype job_capture_state =
    JCS_Complete | JCS_Incomplete | JCS_Unconfirmed | JCS_NotStarted | JCS_Interrupted

fun job_capture_state_code :: "job_capture_state \<Rightarrow> u8" where
  "job_capture_state_code JCS_Complete = 1"
| "job_capture_state_code JCS_Incomplete = 2"
| "job_capture_state_code JCS_Unconfirmed = 3"
| "job_capture_state_code JCS_NotStarted = 4"
| "job_capture_state_code JCS_Interrupted = 5"

definition job_capture_state_from_code :: "u8 \<Rightarrow> job_capture_state option" where
  "job_capture_state_from_code code = map_of
    [(1, JCS_Complete), (2, JCS_Incomplete), (3, JCS_Unconfirmed), (4, JCS_NotStarted),
     (5, JCS_Interrupted)] code"

interpretation job_capture_state: code_table job_capture_state_code job_capture_state_from_code
proof
  show "job_capture_state_from_code b = Some v \<longleftrightarrow> b = job_capture_state_code v" for b v
    by (cases v) (auto simp: job_capture_state_from_code_def)
qed

fun capture_of :: "job_capture_state \<Rightarrow> capture_state option" where
  "capture_of JCS_Complete = Some CS_Complete"
| "capture_of JCS_Incomplete = Some CS_Incomplete"
| "capture_of JCS_Unconfirmed = Some CS_Unconfirmed"
| "capture_of JCS_NotStarted = Some CS_NotStarted"
| "capture_of JCS_Interrupted = None"

definition job_capture_state_as_str :: "job_capture_state \<Rightarrow> bytes" where
  "job_capture_state_as_str s = (case capture_of s of None \<Rightarrow> ascii ''interrupted'' | Some c \<Rightarrow> capture_state_as_str c)"

subsection \<open>Results of job tool calls\<close>

datatype result_outcome =
    RO_Ok | RO_NotFound | RO_NotPermitted | RO_Busy | RO_Cancelled | RO_Unavailable | RO_Limit
    | RO_Private

fun result_outcome_code :: "result_outcome \<Rightarrow> u8" where
  "result_outcome_code RO_Ok = 1"
| "result_outcome_code RO_NotFound = 2"
| "result_outcome_code RO_NotPermitted = 3"
| "result_outcome_code RO_Busy = 4"
| "result_outcome_code RO_Cancelled = 5"
| "result_outcome_code RO_Unavailable = 6"
| "result_outcome_code RO_Limit = 7"
| "result_outcome_code RO_Private = 8"

definition result_outcome_ALL :: "result_outcome list" where
  "result_outcome_ALL =
    [RO_Ok, RO_NotFound, RO_NotPermitted, RO_Busy, RO_Cancelled, RO_Unavailable, RO_Limit,
     RO_Private]"

definition result_outcome_from_code :: "u8 \<Rightarrow> result_outcome option" where
  "result_outcome_from_code code = nth_code result_outcome_ALL code"

interpretation result_outcome: code_table result_outcome_code result_outcome_from_code
proof (unfold result_outcome_from_code_def [abs_def], rule nth_code_table)
  show "v \<in> set result_outcome_ALL" for v by (cases v) (simp_all add: result_outcome_ALL_def)
qed (simp_all add: result_outcome_ALL_def upt_rec)

fun result_outcome_as_str :: "result_outcome \<Rightarrow> bytes" where
  "result_outcome_as_str RO_Private = ascii ''private''"
| "result_outcome_as_str RO_Ok = ascii ''ok''"
| "result_outcome_as_str RO_NotFound = ascii ''not_found''"
| "result_outcome_as_str RO_NotPermitted = ascii ''not_permitted''"
| "result_outcome_as_str RO_Busy = ascii ''busy''"
| "result_outcome_as_str RO_Cancelled = ascii ''cancelled''"
| "result_outcome_as_str RO_Unavailable = ascii ''unavailable''"
| "result_outcome_as_str RO_Limit = ascii ''limit''"

fun result_status :: "result_outcome \<Rightarrow> u8" where
  "result_status RO_Ok = 1"
| "result_status RO_NotFound = 3"
| "result_status RO_NotPermitted = 2"
| "result_status RO_Busy = 4"
| "result_status RO_Unavailable = 4"
| "result_status RO_Cancelled = 6"
| "result_status RO_Limit = 7"
| "result_status RO_Private = 8"

fun result_allows :: "result_outcome \<Rightarrow> tool_operation \<Rightarrow> bool" where
  "result_allows RO_Ok code = job_result_operation code"
| "result_allows RO_NotFound code = (job_result_operation code \<and> code \<notin> {Op_ExecCmd, Op_JobList})"
| "result_allows RO_Unavailable code = (job_result_operation code \<and> code \<noteq> Op_ExecCmd)"
| "result_allows RO_NotPermitted code = (code = Op_JobCancel)"
| "result_allows RO_Busy code = (code = Op_JobRead)"
| "result_allows RO_Cancelled code = (job_result_operation code \<and> code \<noteq> Op_JobCancel)"
| "result_allows RO_Limit code = (code = Op_JobNote)"
| "result_allows RO_Private code = (code \<in> {Op_ExecCmd, Op_JobStatus, Op_JobRead, Op_JobWait})"

subsection \<open>JobBlockReason\<close>

datatype block_reason =
    BR_Recovering | BR_JournalUnavailable | BR_JournalHeld | BR_PayloadUnavailable | BR_AgentSlots
    | BR_ServiceSlots | BR_PendingInstalls | BR_Quota | BR_DiskSpace

fun block_reason_code :: "block_reason \<Rightarrow> u8" where
  "block_reason_code BR_Recovering = 1"
| "block_reason_code BR_JournalUnavailable = 2"
| "block_reason_code BR_JournalHeld = 3"
| "block_reason_code BR_PayloadUnavailable = 4"
| "block_reason_code BR_AgentSlots = 5"
| "block_reason_code BR_ServiceSlots = 6"
| "block_reason_code BR_PendingInstalls = 7"
| "block_reason_code BR_Quota = 8"
| "block_reason_code BR_DiskSpace = 9"

definition block_reason_ALL :: "block_reason list" where
  "block_reason_ALL =
    [BR_Recovering, BR_JournalUnavailable, BR_JournalHeld, BR_PayloadUnavailable, BR_AgentSlots,
     BR_ServiceSlots, BR_PendingInstalls, BR_Quota, BR_DiskSpace]"

definition block_reason_from_code :: "u8 \<Rightarrow> block_reason option" where
  "block_reason_from_code code = nth_code block_reason_ALL code"

interpretation block_reason: code_table block_reason_code block_reason_from_code
proof (unfold block_reason_from_code_def [abs_def], rule nth_code_table)
  show "v \<in> set block_reason_ALL" for v by (cases v) (simp_all add: block_reason_ALL_def)
qed (simp_all add: block_reason_ALL_def upt_rec)

fun block_reason_as_str :: "block_reason \<Rightarrow> bytes" where
  "block_reason_as_str BR_Recovering = ascii ''recovering''"
| "block_reason_as_str BR_JournalUnavailable = ascii ''journal_unavailable''"
| "block_reason_as_str BR_JournalHeld = ascii ''journal_held''"
| "block_reason_as_str BR_PayloadUnavailable = ascii ''payload_unavailable''"
| "block_reason_as_str BR_AgentSlots = ascii ''agent_slots''"
| "block_reason_as_str BR_ServiceSlots = ascii ''service_slots''"
| "block_reason_as_str BR_PendingInstalls = ascii ''pending_installs''"
| "block_reason_as_str BR_Quota = ascii ''quota''"
| "block_reason_as_str BR_DiskSpace = ascii ''disk_space''"

subsection \<open>JobPauseReason\<close>

datatype pause_reason =
    PR_Quota | PR_DiskSpace

fun pause_reason_code :: "pause_reason \<Rightarrow> u8" where
  "pause_reason_code PR_Quota = 1"
| "pause_reason_code PR_DiskSpace = 2"

definition pause_reason_from_code :: "u8 \<Rightarrow> pause_reason option" where
  "pause_reason_from_code code = map_of
    [(1, PR_Quota), (2, PR_DiskSpace)] code"

interpretation pause_reason: code_table pause_reason_code pause_reason_from_code
proof
  show "pause_reason_from_code b = Some v \<longleftrightarrow> b = pause_reason_code v" for b v
    by (cases v) (auto simp: pause_reason_from_code_def)
qed

fun pause_reason_as_str :: "pause_reason \<Rightarrow> bytes" where
  "pause_reason_as_str PR_Quota = ascii ''quota''"
| "pause_reason_as_str PR_DiskSpace = ascii ''disk_space''"

datatype job_run_state =
    RS_Queued block_reason | RS_Starting | RS_Running | RS_CapturePaused pause_reason | RS_Stopping
  | RS_Draining | RS_CleanupUnconfirmed | RS_Finalizing | RS_Settled

fun run_state_code :: "job_run_state \<Rightarrow> u8" where
  "run_state_code (RS_Queued _) = 1"
| "run_state_code RS_Starting = 2"
| "run_state_code RS_Running = 3"
| "run_state_code (RS_CapturePaused _) = 4"
| "run_state_code RS_Stopping = 5"
| "run_state_code RS_Draining = 6"
| "run_state_code RS_CleanupUnconfirmed = 7"
| "run_state_code RS_Finalizing = 8"
| "run_state_code RS_Settled = 9"

fun run_state_reason_code :: "job_run_state \<Rightarrow> u8" where
  "run_state_reason_code (RS_Queued reason) = block_reason_code reason"
| "run_state_reason_code (RS_CapturePaused reason) = pause_reason_code reason"
| "run_state_reason_code _ = 0"

definition run_state_from_codes :: "u8 \<Rightarrow> u8 \<Rightarrow> job_run_state option" where
  "run_state_from_codes state reason =
    (if state = 1 then map_option RS_Queued (block_reason_from_code reason)
     else if state = 4 then map_option RS_CapturePaused (pause_reason_from_code reason)
     else if reason \<noteq> 0 then None
     else map_of [(2, RS_Starting), (3, RS_Running), (5, RS_Stopping), (6, RS_Draining),
       (7, RS_CleanupUnconfirmed), (8, RS_Finalizing), (9, RS_Settled)] state)"

fun run_state_as_str :: "job_run_state \<Rightarrow> bytes" where
  "run_state_as_str (RS_Queued _) = ascii ''queued''"
| "run_state_as_str RS_Starting = ascii ''starting''"
| "run_state_as_str RS_Running = ascii ''running''"
| "run_state_as_str (RS_CapturePaused _) = ascii ''capture_paused''"
| "run_state_as_str RS_Stopping = ascii ''stopping''"
| "run_state_as_str RS_Draining = ascii ''draining''"
| "run_state_as_str RS_CleanupUnconfirmed = ascii ''cleanup_unconfirmed''"
| "run_state_as_str RS_Finalizing = ascii ''finalizing''"
| "run_state_as_str RS_Settled = ascii ''settled''"

fun before_spawn :: "job_run_state \<Rightarrow> bool" where
  "before_spawn (RS_Queued _) = True"
| "before_spawn RS_Starting = True"
| "before_spawn _ = False"

definition allows_numbers :: "job_run_state \<Rightarrow> bytes \<Rightarrow> bool" where
  "allows_numbers state numbers =
    (if state \<in> {RS_Queued BR_AgentSlots, RS_Queued BR_ServiceSlots} then True
     else if state = RS_Queued BR_PendingInstalls then drop 1 numbers = [0, 0]
     else numbers = [0, 0, 0])"

lemma run_state_from_codes_iff:
  "run_state_from_codes a b = Some state \<longleftrightarrow> a = run_state_code state \<and> b = run_state_reason_code state"
  by (cases state) (auto simp: run_state_from_codes_def block_reason.from_code_iff pause_reason.from_code_iff)

subsection \<open>Pages, waits and retention\<close>

datatype output_stream =
    OS_Stdout | OS_Stderr

fun output_stream_code :: "output_stream \<Rightarrow> u8" where
  "output_stream_code OS_Stdout = 1"
| "output_stream_code OS_Stderr = 2"

definition output_stream_from_code :: "u8 \<Rightarrow> output_stream option" where
  "output_stream_from_code code = map_of
    [(1, OS_Stdout), (2, OS_Stderr)] code"

interpretation output_stream: code_table output_stream_code output_stream_from_code
proof
  show "output_stream_from_code b = Some v \<longleftrightarrow> b = output_stream_code v" for b v
    by (cases v) (auto simp: output_stream_from_code_def)
qed

fun output_stream_as_str :: "output_stream \<Rightarrow> bytes" where
  "output_stream_as_str OS_Stdout = ascii ''stdout''"
| "output_stream_as_str OS_Stderr = ascii ''stderr''"

subsection \<open>JobPageState\<close>

datatype page_state =
    PG_Live | PG_Complete | PG_Incomplete | PG_UnverifiedPrefix | PG_Expired | PG_Missing
    | PG_Corrupt | PG_Deleted

fun page_state_code :: "page_state \<Rightarrow> u8" where
  "page_state_code PG_Live = 1"
| "page_state_code PG_Complete = 2"
| "page_state_code PG_Incomplete = 3"
| "page_state_code PG_UnverifiedPrefix = 4"
| "page_state_code PG_Expired = 5"
| "page_state_code PG_Missing = 6"
| "page_state_code PG_Corrupt = 7"
| "page_state_code PG_Deleted = 8"

definition page_state_ALL :: "page_state list" where
  "page_state_ALL =
    [PG_Live, PG_Complete, PG_Incomplete, PG_UnverifiedPrefix, PG_Expired, PG_Missing, PG_Corrupt,
     PG_Deleted]"

definition page_state_from_code :: "u8 \<Rightarrow> page_state option" where
  "page_state_from_code code = nth_code page_state_ALL code"

interpretation page_state: code_table page_state_code page_state_from_code
proof (unfold page_state_from_code_def [abs_def], rule nth_code_table)
  show "v \<in> set page_state_ALL" for v by (cases v) (simp_all add: page_state_ALL_def)
qed (simp_all add: page_state_ALL_def upt_rec)

fun page_state_as_str :: "page_state \<Rightarrow> bytes" where
  "page_state_as_str PG_Live = ascii ''live''"
| "page_state_as_str PG_Complete = ascii ''complete''"
| "page_state_as_str PG_Incomplete = ascii ''incomplete''"
| "page_state_as_str PG_UnverifiedPrefix = ascii ''unverified_prefix''"
| "page_state_as_str PG_Expired = ascii ''expired''"
| "page_state_as_str PG_Missing = ascii ''missing''"
| "page_state_as_str PG_Corrupt = ascii ''corrupt''"
| "page_state_as_str PG_Deleted = ascii ''deleted''"

definition page_readable :: "page_state \<Rightarrow> bool" where
  "page_readable state \<longleftrightarrow> page_state_code state \<le> 4"

subsection \<open>WaitEnd\<close>

datatype wait_end =
    WE_Settled | WE_NewOutput | WE_Time | WE_AlreadySettled

fun wait_end_code :: "wait_end \<Rightarrow> u8" where
  "wait_end_code WE_Settled = 1"
| "wait_end_code WE_NewOutput = 2"
| "wait_end_code WE_Time = 3"
| "wait_end_code WE_AlreadySettled = 4"

definition wait_end_from_code :: "u8 \<Rightarrow> wait_end option" where
  "wait_end_from_code code = map_of
    [(1, WE_Settled), (2, WE_NewOutput), (3, WE_Time), (4, WE_AlreadySettled)] code"

interpretation wait_end: code_table wait_end_code wait_end_from_code
proof
  show "wait_end_from_code b = Some v \<longleftrightarrow> b = wait_end_code v" for b v
    by (cases v) (auto simp: wait_end_from_code_def)
qed

fun wait_end_as_str :: "wait_end \<Rightarrow> bytes" where
  "wait_end_as_str WE_Settled = ascii ''settled''"
| "wait_end_as_str WE_NewOutput = ascii ''new_output''"
| "wait_end_as_str WE_Time = ascii ''time''"
| "wait_end_as_str WE_AlreadySettled = ascii ''already_settled''"

subsection \<open>RetentionAction\<close>

datatype retention_action =
    RA_Pin | RA_Unpin | RA_Delete | RA_Note

fun retention_action_code :: "retention_action \<Rightarrow> u8" where
  "retention_action_code RA_Pin = 1"
| "retention_action_code RA_Unpin = 2"
| "retention_action_code RA_Delete = 3"
| "retention_action_code RA_Note = 4"

definition retention_action_from_code :: "u8 \<Rightarrow> retention_action option" where
  "retention_action_from_code code = map_of
    [(1, RA_Pin), (2, RA_Unpin), (3, RA_Delete), (4, RA_Note)] code"

interpretation retention_action: code_table retention_action_code retention_action_from_code
proof
  show "retention_action_from_code b = Some v \<longleftrightarrow> b = retention_action_code v" for b v
    by (cases v) (auto simp: retention_action_from_code_def)
qed

fun retention_action_as_str :: "retention_action \<Rightarrow> bytes" where
  "retention_action_as_str RA_Pin = ascii ''pin''"
| "retention_action_as_str RA_Unpin = ascii ''unpin''"
| "retention_action_as_str RA_Delete = ascii ''delete''"
| "retention_action_as_str RA_Note = ascii ''note''"

lemmas job_code_parse [parse] =
  capture_reason.coded.bind_exact [simplified] job_requester.coded.bind_exact [simplified]
  job_outcome.coded.bind_exact [simplified] job_reason.coded.bind_exact [simplified]
  job_cleanup.coded.bind_exact [simplified] job_capture_state.coded.bind_exact [simplified]
  result_outcome.coded.bind_exact [simplified] output_stream.coded.bind_exact [simplified]
  page_state.coded.bind_exact [simplified] wait_end.coded.bind_exact [simplified]
  retention_action.coded.bind_exact [simplified]

lemmas job_code_run [run] =
  capture_reason.coded.bind_run [simplified] job_requester.coded.bind_run [simplified]
  job_outcome.coded.bind_run [simplified] job_reason.coded.bind_run [simplified]
  job_cleanup.coded.bind_run [simplified] job_capture_state.coded.bind_run [simplified]
  result_outcome.coded.bind_run [simplified] output_stream.coded.bind_run [simplified]
  page_state.coded.bind_run [simplified] wait_end.coded.bind_run [simplified]
  retention_action.coded.bind_run [simplified]

end
