(* ===== verification/Jobs.thy ===== *)
theory Jobs
  imports JobTypes
begin

section \<open>Job intents, cancels and retention (kinds 26, 27 and 30)\<close>

text \<open>
  The record structs of \<open>authority/conversation/types.rs\<close> with \<open>validate\<close>, field writer and reader of
  \<open>authority/conversation/codec.rs\<close>, the derived job IDs, and \<open>JobRetentionSummary\<close>, the state that
  the kind 30 records of one job build.
\<close>

abbreviation MAX_RECORDED_CALLS :: u32 where "MAX_RECORDED_CALLS \<equiv> 200"
abbreviation MAX_JOB_NOTE :: nat where "MAX_JOB_NOTE \<equiv> 2048"
abbreviation MAX_JOB_NOTES :: nat where "MAX_JOB_NOTES \<equiv> 16"
abbreviation MAX_JOB_RETENTION_RECORDS :: nat where "MAX_JOB_RETENTION_RECORDS \<equiv> 64"
abbreviation MAX_JOB_INTENT_PAYLOAD :: nat where "MAX_JOB_INTENT_PAYLOAD \<equiv> 41"
abbreviation JOB_CANCEL_PAYLOAD :: nat where "JOB_CANCEL_PAYLOAD \<equiv> 19"
abbreviation MAX_JOB_RETENTION_PAYLOAD :: nat where "MAX_JOB_RETENTION_PAYLOAD \<equiv> 2094"

subsection \<open>Kind 26\<close>

datatype job_origin =
    OriginModel (jo_operation: id16) (jo_generation: u64) (jo_ordinal: u32)
  | OriginPerson (jo_input: id16)

fun origin_kind :: "job_origin \<Rightarrow> u8" where
  "origin_kind (OriginModel _ _ _) = 1"
| "origin_kind (OriginPerson _) = 2"

fun origin_bytes :: "job_origin \<Rightarrow> bytes" where
  "origin_bytes (OriginModel operation generation ordinal) = operation @ be64 generation @ be32 ordinal"
| "origin_bytes (OriginPerson input) = input"

fun wf_origin :: "job_origin \<Rightarrow> bool" where
  "wf_origin (OriginModel operation _ _) \<longleftrightarrow> is_id operation"
| "wf_origin (OriginPerson input) \<longleftrightarrow> is_id input"

record job_intent =
  ji_origin :: job_origin
  ji_agent :: u32
  ji_time :: u64

definition valid_call :: "id16 \<Rightarrow> u64 \<Rightarrow> u32 \<Rightarrow> bool" where
  "valid_call operation generation ordinal \<longleftrightarrow>
    operation \<noteq> zero_id \<and> 1 \<le> generation \<and> 1 \<le> ordinal \<and> ordinal \<le> MAX_RECORDED_CALLS"

definition job_intent_validate :: "job_intent \<Rightarrow> unit result" where
  "job_intent_validate p = require (ji_agent p = 0 \<and>
    (case ji_origin p of OriginModel operation generation ordinal \<Rightarrow> valid_call operation generation ordinal
      | OriginPerson input \<Rightarrow> input \<noteq> zero_id))"

definition job_intent_fields :: "job_intent \<Rightarrow> bytes" where
  "job_intent_fields p = [origin_kind (ji_origin p)] @ be32 (ji_agent p) @ origin_bytes (ji_origin p) @ be64 (ji_time p)"

definition job_intent_payload :: "job_intent \<Rightarrow> bytes result" where
  "job_intent_payload p = result_bind (job_intent_validate p) (\<lambda>_. Inr (job_intent_fields p))"

definition rd_origin :: "u8 \<Rightarrow> (replay_error, job_origin) reading" where
  "rd_origin code =
    (if code = 1 then rbind rd_id (\<lambda>operation. rbind rd_u64 (\<lambda>generation. rbind rd_u32 (\<lambda>ordinal.
       rreturn (OriginModel operation generation ordinal))))
     else if code = 2 then rbind rd_id (\<lambda>input. rreturn (OriginPerson input))
     else rfail Corrupt)"

definition read_job_intent :: "(replay_error, job_intent) reading" where
  "read_job_intent = rbind rd_byte (\<lambda>origin. rbind rd_u32 (\<lambda>agent. rbind (rd_origin origin) (\<lambda>origin.
    rbind rd_u64 (\<lambda>time. let v = \<lparr>ji_origin = origin, ji_agent = agent, ji_time = time\<rparr> in
    rbind (rlift (job_intent_validate v)) (\<lambda>_. rreturn v)))))"

definition wf_job_intent :: "job_intent \<Rightarrow> bool" where
  "wf_job_intent p \<longleftrightarrow> wf_origin (ji_origin p)"

lemma codec_origin: "codec (rd_origin code) origin_bytes (\<lambda>origin. code = origin_kind origin \<and> wf_origin origin)"
proof (rule codecI, goal_cases)
  case (1 pre rest v r')
  then show ?case by (auto simp: rd_origin_def parse if_reading)
next
  case (2 pre post v)
  then show ?case by (cases v) (auto simp: rd_origin_def run)
qed

interpretation job_origin: codec "rd_origin code" origin_bytes "\<lambda>origin. code = origin_kind origin \<and> wf_origin origin"
  for code
  by (rule codec_origin)

lemma job_intent_codec: "record_codec read_job_intent job_intent_payload wf_job_intent"
proof (rule record_codecI, goal_cases)
  case (1 pre rest v r')
  then show ?case
    by (auto simp: read_job_intent_def parse job_origin.bind_exact lift_parse Let_def job_intent_payload_def
        job_intent_fields_def wf_job_intent_def)
next
  case (2 pre post v bs)
  then show ?case
    by (cases v) (auto simp: read_job_intent_def run job_origin.bind_run Let_def job_intent_payload_def
        job_intent_fields_def wf_job_intent_def result_bind_eq_Inr)
qed

interpretation job_intent: record_codec read_job_intent job_intent_payload wf_job_intent
  by (rule job_intent_codec)

lemma job_intent_payload_bound:
  "wf_job_intent p \<Longrightarrow> job_intent_payload p = Inr bs \<Longrightarrow> length bs \<le> MAX_JOB_INTENT_PAYLOAD"
  by (cases "ji_origin p") (auto simp: job_intent_payload_def job_intent_fields_def wf_job_intent_def result_bind_eq_Inr)

subsection \<open>Derived IDs\<close>

text \<open>SHA-256 is a parameter.\<close>

definition id_from_digest :: "bytes \<Rightarrow> id16" where
  "id_from_digest digest = (let i = take 16 digest in if i = zero_id then i[15 := 1] else i)"

definition job_id_text :: "job_origin \<Rightarrow> bytes" where
  "job_id_text origin = ascii ''asura.job'' @ [0] @ [origin_kind origin] @ origin_bytes origin"

definition job_id :: "(bytes \<Rightarrow> bytes) \<Rightarrow> job_origin \<Rightarrow> id16" where
  "job_id sha origin = id_from_digest (sha (job_id_text origin))"

definition exec_cmd_job_id :: "(bytes \<Rightarrow> bytes) \<Rightarrow> id16 \<Rightarrow> u64 \<Rightarrow> u32 \<Rightarrow> id16" where
  "exec_cmd_job_id sha operation generation ordinal = job_id sha (OriginModel operation generation ordinal)"

lemma id_from_digest: "16 \<le> length digest \<Longrightarrow> is_id (id_from_digest digest) \<and> id_from_digest digest \<noteq> zero_id"
  by (auto simp: id_from_digest_def Let_def zero_id_def list_update_append eval_nat_numeral)

text \<open>The text that is hashed determines the origin.\<close>

lemma origin_text_inject:
  "wf_origin a \<Longrightarrow> wf_origin b \<Longrightarrow> [origin_kind a] @ origin_bytes a = [origin_kind b] @ origin_bytes b \<longleftrightarrow> a = b"
  using job_origin.enc_inject [of "origin_kind a" a b] by auto

subsection \<open>Kind 27\<close>

record job_cancel_requested =
  jc_job :: id16
  jc_requester :: job_requester
  jc_reason :: job_reason
  jc_kill :: bool

definition job_cancel_validate :: "job_cancel_requested \<Rightarrow> unit result" where
  "job_cancel_validate p = require (jc_job p \<noteq> zero_id \<and> reason_requester (jc_reason p) = Some (jc_requester p) \<and>
    (jc_kill p \<longleftrightarrow> jc_reason p = JR_PersonKill))"

definition job_cancel_fields :: "job_cancel_requested \<Rightarrow> bytes" where
  "job_cancel_fields p = jc_job p @ [job_requester_code (jc_requester p)] @ [job_reason_code (jc_reason p)] @ w_flag (jc_kill p)"

definition job_cancel_payload :: "job_cancel_requested \<Rightarrow> bytes result" where
  "job_cancel_payload p = result_bind (job_cancel_validate p) (\<lambda>_. Inr (job_cancel_fields p))"

definition read_job_cancel :: "(replay_error, job_cancel_requested) reading" where
  "read_job_cancel = rbind rd_id (\<lambda>job. rbind (rd_coded job_requester_from_code) (\<lambda>requester.
    rbind (rd_coded job_reason_from_code) (\<lambda>reason. rbind rd_flag (\<lambda>kill.
    let v = \<lparr>jc_job = job, jc_requester = requester, jc_reason = reason, jc_kill = kill\<rparr> in
    rbind (rlift (job_cancel_validate v)) (\<lambda>_. rreturn v)))))"

definition wf_job_cancel :: "job_cancel_requested \<Rightarrow> bool" where
  "wf_job_cancel p \<longleftrightarrow> is_id (jc_job p)"

lemma job_cancel_codec: "record_codec read_job_cancel job_cancel_payload wf_job_cancel"
proof (rule record_codecI, goal_cases)
  case (1 pre rest v r')
  then show ?case
    by (auto simp: read_job_cancel_def parse lift_parse Let_def job_cancel_payload_def job_cancel_fields_def
        wf_job_cancel_def)
next
  case (2 pre post v bs)
  then show ?case
    by (cases v) (auto simp: read_job_cancel_def run Let_def job_cancel_payload_def job_cancel_fields_def
        wf_job_cancel_def result_bind_eq_Inr)
qed

interpretation job_cancel: record_codec read_job_cancel job_cancel_payload wf_job_cancel
  by (rule job_cancel_codec)

lemma job_cancel_payload_length:
  "wf_job_cancel p \<Longrightarrow> job_cancel_payload p = Inr bs \<Longrightarrow> length bs = JOB_CANCEL_PAYLOAD"
  by (auto simp: job_cancel_payload_def job_cancel_fields_def wf_job_cancel_def w_flag_def result_bind_eq_Inr)

subsection \<open>Kind 30\<close>

datatype retention_author =
    AuthorPerson (ra_request: id16)
  | AuthorModel (ra_operation: id16) (ra_generation: u64) (ra_ordinal: u32)

fun author_code :: "retention_author \<Rightarrow> u8" where
  "author_code (AuthorPerson _) = 1"
| "author_code (AuthorModel _ _ _) = 2"

fun author_bytes :: "retention_author \<Rightarrow> bytes" where
  "author_bytes (AuthorPerson request) = request"
| "author_bytes (AuthorModel operation generation ordinal) = operation @ be64 generation @ be32 ordinal"

fun wf_author :: "retention_author \<Rightarrow> bool" where
  "wf_author (AuthorPerson request) \<longleftrightarrow> is_id request"
| "wf_author (AuthorModel operation _ _) \<longleftrightarrow> is_id operation"

record job_retention =
  jn_job :: id16
  jn_action :: retention_action
  jn_author :: retention_author
  jn_time :: u64
  jn_note :: bytes

definition job_retention_validate :: "job_retention \<Rightarrow> unit result" where
  "job_retention_validate p = require (jn_job p \<noteq> zero_id \<and>
    (case jn_author p of
        AuthorPerson request \<Rightarrow> request \<noteq> zero_id \<and>
          (if jn_action p = RA_Note then 1 \<le> length (jn_note p) \<and> length (jn_note p) \<le> MAX_JOB_NOTE
           else jn_note p = [])
      | AuthorModel operation generation ordinal \<Rightarrow> jn_action p = RA_Note \<and> jn_note p = [] \<and>
          valid_call operation generation ordinal))"

definition job_retention_fields :: "job_retention \<Rightarrow> bytes" where
  "job_retention_fields p = jn_job p @ [retention_action_code (jn_action p)] @ [author_code (jn_author p)] @
    be64 (jn_time p) @ author_bytes (jn_author p) @ str32 (jn_note p)"

definition job_retention_payload :: "job_retention \<Rightarrow> bytes result" where
  "job_retention_payload p = (if length (jn_note p) > MAX_JOB_NOTE then Inl Limit
    else result_bind (job_retention_validate p) (\<lambda>_. Inr (job_retention_fields p)))"

definition rd_author :: "u8 \<Rightarrow> (replay_error, retention_author) reading" where
  "rd_author code =
    (if code = 1 then rbind rd_id (\<lambda>request. rreturn (AuthorPerson request))
     else if code = 2 then rbind rd_id (\<lambda>operation. rbind rd_u64 (\<lambda>generation. rbind rd_u32 (\<lambda>ordinal.
       rreturn (AuthorModel operation generation ordinal))))
     else rfail Corrupt)"

definition read_job_retention :: "(replay_error, job_retention) reading" where
  "read_job_retention = rbind rd_id (\<lambda>job. rbind (rd_coded retention_action_from_code) (\<lambda>action.
    rbind rd_byte (\<lambda>author. rbind rd_u64 (\<lambda>time. rbind (rd_author author) (\<lambda>author.
    rbind (rd_bounded_string MAX_JOB_NOTE) (\<lambda>note.
    let v = \<lparr>jn_job = job, jn_action = action, jn_author = author, jn_time = time, jn_note = note\<rparr> in
    rbind (rlift (job_retention_validate v)) (\<lambda>_. rreturn v)))))))"

definition wf_job_retention :: "job_retention \<Rightarrow> bool" where
  "wf_job_retention p \<longleftrightarrow> is_id (jn_job p) \<and> wf_author (jn_author p) \<and> utf8_valid (jn_note p)"

lemma codec_author: "codec (rd_author code) author_bytes (\<lambda>author. code = author_code author \<and> wf_author author)"
proof (rule codecI, goal_cases)
  case (1 pre rest v r')
  then show ?case by (auto simp: rd_author_def parse if_reading)
next
  case (2 pre post v)
  then show ?case by (cases v) (auto simp: rd_author_def run)
qed

interpretation retention_author: codec "rd_author code" author_bytes "\<lambda>author. code = author_code author \<and> wf_author author"
  for code
  by (rule codec_author)

lemma job_retention_codec: "record_codec read_job_retention job_retention_payload wf_job_retention"
proof (rule record_codecI, goal_cases)
  case (1 pre rest v r')
  then show ?case
    by (auto simp: read_job_retention_def parse retention_author.bind_exact lift_parse Let_def
        job_retention_payload_def job_retention_fields_def wf_job_retention_def)
next
  case (2 pre post v bs)
  then show ?case
    by (cases v) (auto simp: read_job_retention_def run retention_author.bind_run Let_def
        job_retention_payload_def job_retention_fields_def wf_job_retention_def result_bind_eq_Inr split: if_splits)
qed

interpretation job_retention: record_codec read_job_retention job_retention_payload wf_job_retention
  by (rule job_retention_codec)

lemma job_retention_payload_bound:
  assumes "wf_job_retention p" "job_retention_payload p = Inr bs"
  shows "length bs \<le> MAX_JOB_RETENTION_PAYLOAD"
proof -
  have "bs = job_retention_fields p" "length (jn_note p) \<le> MAX_JOB_NOTE" "jn_note p = [] \<or> (\<exists>r. jn_author p = AuthorPerson r)"
    using assms(2) by (auto simp: job_retention_payload_def job_retention_validate_def result_bind_eq_Inr
        split: if_splits retention_author.splits)
  with assms(1) show ?thesis
    by (cases "jn_author p") (auto simp: job_retention_fields_def wf_job_retention_def str32_def)
qed

subsection \<open>The retention summary of a job\<close>

record retention_summary =
  rt_pinned :: bool
  rt_deleted :: bool
  rt_notes :: u32
  rt_records :: u32

definition retention_default :: retention_summary where
  "retention_default = \<lparr>rt_pinned = False, rt_deleted = False, rt_notes = 0, rt_records = 0\<rparr>"

definition u32_saturating_add :: "u32 \<Rightarrow> u32 \<Rightarrow> u32" where
  "u32_saturating_add a b = (if unat a + unat b < 2 ^ 32 then a + b else - 1)"

definition retention_apply :: "retention_action \<Rightarrow> retention_summary \<Rightarrow> retention_summary" where
  "retention_apply action s = (let s = s\<lparr>rt_records := u32_saturating_add (rt_records s) 1\<rparr> in
    case action of
      RA_Pin \<Rightarrow> s\<lparr>rt_pinned := True\<rparr>
    | RA_Unpin \<Rightarrow> s\<lparr>rt_pinned := False\<rparr>
    | RA_Delete \<Rightarrow> s\<lparr>rt_deleted := True\<rparr>
    | RA_Note \<Rightarrow> s\<lparr>rt_notes := u32_saturating_add (rt_notes s) 1\<rparr>)"

definition retention_allows :: "retention_summary \<Rightarrow> retention_action \<Rightarrow> bool \<Rightarrow> bool" where
  "retention_allows s action settled = (case action of
      RA_Pin \<Rightarrow> \<not> rt_pinned s
    | RA_Unpin \<Rightarrow> rt_pinned s
    | RA_Delete \<Rightarrow> settled \<and> \<not> rt_deleted s
    | RA_Note \<Rightarrow> True)"

definition retention_has_room :: "retention_summary \<Rightarrow> retention_action \<Rightarrow> bool" where
  "retention_has_room s action \<longleftrightarrow> unat (rt_records s) < MAX_JOB_RETENTION_RECORDS \<and>
    (action \<noteq> RA_Note \<or> unat (rt_notes s) < MAX_JOB_NOTES)"

text \<open>The records of one job as the service appends them: each one is allowed and has room, and the job may
  settle in between.\<close>

inductive retention_history :: "bool \<Rightarrow> retention_action list \<Rightarrow> retention_summary \<Rightarrow> bool" where
  start: "retention_history False [] retention_default"
| settle: "retention_history settled actions s \<Longrightarrow> retention_history True actions s"
| append: "\<lbrakk>retention_history settled actions s; retention_allows s action settled; retention_has_room s action\<rbrakk>
    \<Longrightarrow> retention_history settled (actions @ [action]) (retention_apply action s)"

lemma unat_saturating_Suc: "unat a < 64 \<Longrightarrow> unat (u32_saturating_add a 1) = Suc (unat a)"
  by (simp add: u32_saturating_add_def unat_word_ariths)

subsection \<open>Properties\<close>

text \<open>C31: The retention summary is an exact account of a job's retention records, and its \<open>u32\<close> counters never
  saturate: after any records appended under \<open>allows\<close> and \<open>has_room\<close>, at most 64 were written, at most 16 of
  them notes, delete at most once and only when the job was settled, and pins and unpins alternate so that the
  job is pinned exactly when one pin is still open.\<close>

theorem retention_accounts:
  assumes "retention_history settled actions s"
  shows "unat (rt_records s) = length actions \<and> length actions \<le> MAX_JOB_RETENTION_RECORDS \<and>
    unat (rt_notes s) = count_list actions RA_Note \<and> count_list actions RA_Note \<le> MAX_JOB_NOTES \<and>
    count_list actions RA_Delete = (if rt_deleted s then 1 else 0) \<and> (rt_deleted s \<longrightarrow> settled) \<and>
    count_list actions RA_Pin = count_list actions RA_Unpin + (if rt_pinned s then 1 else 0)"
  using assms
proof induction
  case (append settled actions s action)
  then show ?case
    by (cases action) (auto simp: retention_apply_def retention_allows_def retention_has_room_def Let_def
        unat_saturating_Suc)
qed (simp_all add: retention_default_def)

theorem retention_accounts_witness:
  "retention_history True [RA_Pin, RA_Note, RA_Delete]
      \<lparr>rt_pinned = True, rt_deleted = True, rt_notes = 1, rt_records = 3\<rparr> \<and>
    count_list [RA_Pin, RA_Note, RA_Delete] RA_Delete \<le> 1"
proof -
  note steps = retention_apply_def retention_allows_def retention_has_room_def retention_default_def
    u32_saturating_add_def
  have "retention_history False ([] @ [RA_Pin]) (retention_apply RA_Pin retention_default)"
    by (rule retention_history.append [OF retention_history.start]) (simp_all add: steps)
  then have "retention_history False ([RA_Pin] @ [RA_Note]) (retention_apply RA_Note (retention_apply RA_Pin retention_default))"
    by (intro retention_history.append) (simp_all add: steps)
  then have "retention_history True ([RA_Pin, RA_Note] @ [RA_Delete])
      (retention_apply RA_Delete (retention_apply RA_Note (retention_apply RA_Pin retention_default)))"
    by (intro retention_history.append retention_history.settle) (simp_all add: steps)
  then have end_state: "retention_history True [RA_Pin, RA_Note, RA_Delete]
      \<lparr>rt_pinned = True, rt_deleted = True, rt_notes = 1, rt_records = 3\<rparr>"
    by (simp add: steps)
  then show ?thesis using retention_accounts [OF end_state] by simp
qed

text \<open>C36: A derived job ID is a non-zero 16-byte ID when the hash has 32 bytes, and the text that is hashed
  determines the origin: different calls and inputs hash different texts.\<close>

theorem job_id_identifies:
  assumes "\<And>m. length (sha m) = 32" "wf_origin a" "wf_origin b"
  shows "is_id (job_id sha a) \<and> job_id sha a \<noteq> zero_id \<and> (job_id_text a = job_id_text b \<longleftrightarrow> a = b)"
proof -
  have "is_id (job_id sha a) \<and> job_id sha a \<noteq> zero_id"
    unfolding job_id_def by (rule id_from_digest) (simp add: assms(1))
  moreover have "job_id_text a = job_id_text b \<longleftrightarrow> a = b"
    using origin_text_inject [OF assms(2,3)] by (simp add: job_id_text_def)
  ultimately show ?thesis by blast
qed

theorem job_id_identifies_witness:
  "job_id (\<lambda>_. replicate 32 0) (OriginPerson (replicate 16 1)) \<noteq> zero_id"
  using job_id_identifies [of "\<lambda>_. replicate 32 0" "OriginPerson (replicate 16 1)" "OriginPerson (replicate 16 1)"]
  by simp

end
