(* ===== verification/Requests.thy ===== *)
theory Requests
  imports PersonCommands Records Jobs
begin

section \<open>Requests and derived identities\<close>

text \<open>
  \<open>request_digest\<close>, \<open>valid_location\<close>, \<open>capitalize_project_name\<close> and the identities that replay derives
  (\<open>authority/conversation/codec.rs\<close>, \<open>payload/id.rs\<close> and the display helpers of
  \<open>authority/conversation/state.rs\<close>). \<open>sha\<close> stands for SHA-256. The Unicode properties \<open>char::is_alphabetic\<close> and
  \<open>char::to_uppercase\<close> are the two fields of \<open>unicode\<close>, because their tables are data of the standard library.
\<close>

subsection \<open>Characters\<close>

record unicode =
  uc_alphabetic :: "nat \<Rightarrow> bool"
  uc_uppercase :: "nat \<Rightarrow> nat list"

text \<open>\<open>str::chars\<close> on valid UTF-8, and \<open>String::push\<close>.\<close>

fun char_code :: "bytes \<Rightarrow> nat" where
  "char_code [a] = unat a"
| "char_code [a, b] = (unat a - 0xC0) * 64 + (unat b - 0x80)"
| "char_code [a, b, c] = (unat a - 0xE0) * 4096 + (unat b - 0x80) * 64 + (unat c - 0x80)"
| "char_code [a, b, c, d] =
    (unat a - 0xF0) * 262144 + (unat b - 0x80) * 4096 + (unat c - 0x80) * 64 + (unat d - 0x80)"
| "char_code _ = 0"

function utf8_chars :: "bytes \<Rightarrow> nat list" where
  "utf8_chars s = (if s = [] then [] else case utf8_tail s of
      None \<Rightarrow> []
    | Some r \<Rightarrow> char_code (take (length s - length r) s) # utf8_chars r)"
  by auto
termination
  by (relation "measure length") (auto dest: utf8_tail_shorter)

declare utf8_chars.simps [simp del]

definition utf8_push :: "nat \<Rightarrow> bytes" where
  "utf8_push c = (if c < 0x80 then [of_nat c]
    else if c < 0x800 then [of_nat (0xC0 + c div 64), of_nat (0x80 + c mod 64)]
    else if c < 0x10000 then [of_nat (0xE0 + c div 4096), of_nat (0x80 + c div 64 mod 64), of_nat (0x80 + c mod 64)]
    else [of_nat (0xF0 + c div 262144), of_nat (0x80 + c div 4096 mod 64), of_nat (0x80 + c div 64 mod 64),
      of_nat (0x80 + c mod 64)])"

text \<open>\<open>char::is_control\<close> is the category Cc and \<open>char::is_whitespace\<close> the property \<open>White_Space\<close>.\<close>

definition is_control :: "nat \<Rightarrow> bool" where
  "is_control c \<longleftrightarrow> c < 0x20 \<or> 0x7F \<le> c \<and> c \<le> 0x9F"

definition is_whitespace :: "nat \<Rightarrow> bool" where
  "is_whitespace c \<longleftrightarrow> 0x09 \<le> c \<and> c \<le> 0x0D \<or> c \<in> {0x20, 0x85, 0xA0, 0x1680, 0x2028, 0x2029, 0x202F, 0x205F, 0x3000} \<or>
    0x2000 \<le> c \<and> c \<le> 0x200A"

definition is_bidi :: "nat \<Rightarrow> bool" where
  "is_bidi c \<longleftrightarrow> c \<in> {0x061C, 0x200E, 0x200F} \<or> 0x202A \<le> c \<and> c \<le> 0x202E \<or> 0x2066 \<le> c \<and> c \<le> 0x2069"

definition is_char_boundary :: "bytes \<Rightarrow> nat \<Rightarrow> bool" where
  "is_char_boundary s n \<longleftrightarrow> n = 0 \<or> n = length s \<or> n < length s \<and> \<not> utf8_cont (s ! n)"

text \<open>The loop of \<open>display_prefix\<close> steps down while the end is inside a character and would panic below 0; the slice of
  a text panics where it does not end at a character.\<close>

fun floor_boundary :: "bytes \<Rightarrow> nat \<Rightarrow> nat outcome" where
  "floor_boundary s 0 = (if is_char_boundary s 0 then Inr 0 else Inl Panic)"
| "floor_boundary s (Suc n) = (if is_char_boundary s (Suc n) then Inr (Suc n) else floor_boundary s n)"

definition str_prefix :: "bytes \<Rightarrow> nat \<Rightarrow> bytes outcome" where
  "str_prefix s n = (if is_char_boundary s n then Inr (take n s) else Inl Panic)"

definition display_prefix :: "bytes \<Rightarrow> nat \<Rightarrow> bytes outcome" where
  "display_prefix s limit = result_bind (floor_boundary s (min (length s) limit)) (str_prefix s)"

lemma floor_boundary_found: "\<exists>m. floor_boundary s n = Inr m \<and> m \<le> n \<and> is_char_boundary s m"
  by (induction n) (auto simp: is_char_boundary_def)

lemma display_prefix_found: "\<exists>p. display_prefix s limit = Inr p \<and> length p \<le> limit"
  using floor_boundary_found [of s "min (length s) limit"] by (auto simp: display_prefix_def str_prefix_def)

subsection \<open>Project names and locations\<close>

fun capitalize_loop :: "unicode \<Rightarrow> nat list \<Rightarrow> bytes \<Rightarrow> bool \<Rightarrow> bool \<Rightarrow> (bytes \<times> bool) result" where
  "capitalize_loop uc [] acc found_alpha previous_space = Inr (acc, found_alpha)"
| "capitalize_loop uc (c # cs) acc found_alpha previous_space =
    (if is_control c \<or> is_bidi c \<or> is_whitespace c \<and> c \<noteq> 0x20 \<or> c = 0x20 \<and> previous_space then Inl Corrupt
     else if \<not> found_alpha \<and> uc_alphabetic uc c
     then capitalize_loop uc cs (acc @ concat (map utf8_push (uc_uppercase uc c))) True (c = 0x20)
     else capitalize_loop uc cs (acc @ utf8_push c) found_alpha (c = 0x20))"

definition capitalize_project_name :: "unicode \<Rightarrow> bytes \<Rightarrow> bytes result" where
  "capitalize_project_name uc name =
    (if name = [] \<or> length name > 128 \<or> hd name = 0x20 \<or> last name = 0x20 then Inl Corrupt
     else result_bind (capitalize_loop uc (utf8_chars name) [] False False) (\<lambda>(acc, found_alpha).
       if \<not> found_alpha \<or> length acc > 128 then Inl Corrupt else Inr acc))"

definition hex_digit :: "nat \<Rightarrow> u8" where
  "hex_digit n = (if n < 10 then of_nat (0x30 + n) else of_nat (0x57 + n))"

definition hex_byte :: "u8 \<Rightarrow> bytes" where
  "hex_byte b = [hex_digit (unat b div 16), hex_digit (unat b mod 16)]"

definition default_project_name :: "unicode \<Rightarrow> id16 \<Rightarrow> bytes \<Rightarrow> bytes" where
  "default_project_name uc project location =
    (case capitalize_project_name uc (last (split_on 0x2F location)) of
        Inr name \<Rightarrow> name
      | Inl _ \<Rightarrow> ascii ''Project '' @ concat (map hex_byte (take 4 project)))"

definition valid_location :: "bytes \<Rightarrow> unit result" where
  "valid_location s =
    (if length s > 4096 then Inl Limit
     else if \<not> absolute s \<or> 0 \<in> set s \<or>
       length s > 1 \<and> (last s = 0x2F \<or>
         (\<exists>c\<in>set (split_on 0x2F (tl s)). c = [] \<or> c = ascii ''.'' \<or> c = ascii ''..''))
     then Inl Corrupt else Inr ())"

subsection \<open>Request digests\<close>

datatype request =
    Initialize (rq_mode: u8)
  | Register (rq_location: bytes)
  | RenameProject (rq_project: id16) (rq_expected_name_revision: u64) (rq_name: bytes)
  | Submit (rq_submit_project: id16) (rq_conversation: "id16 option") (rq_expected_generation: u64) (rq_prompt: bytes)
  | QueueInput (rq_queue_project: id16) (rq_queue_conversation: "id16 option") (rq_queue_generation: u64)
      (rq_new_conversation: bool) (rq_queue_prompt: bytes)
  | ReorderInput (rq_input: id16) (rq_after: "id16 option") (rq_expected_order_revision: u64)
  | DecideInput (rq_decided: id16) (rq_action: input_action)
  | PromoteInput (rq_promoted: id16) (rq_target_operation: id16) (rq_target_generation: u64)
  | CancelOperation (rq_operation: id16) (rq_generation: u64)
  | QueuePersonCommand (rq_person: person_request)

fun request_text :: "unicode \<Rightarrow> request \<Rightarrow> bytes result" where
  "request_text uc (Initialize mode) =
    (if mode \<notin> {1, 2} then Inl Corrupt else Inr (be16 1 @ [mode] @ be64 0))"
| "request_text uc (Register location) =
    result_bind (valid_location location) (\<lambda>_. w_all [w_u16 4, w_string 4096 location])"
| "request_text uc (RenameProject project revision name) =
    (if project = zero_id then Inl Corrupt
     else result_bind (capitalize_project_name uc name) (\<lambda>_.
       w_all [w_u16 20, w_bytes project, w_u64 revision, w_string 128 name]))"
| "request_text uc (Submit project conversation generation prompt) =
    (if project = zero_id \<or> prompt = [] \<or> conversation = None \<and> generation \<noteq> 0 \<or> conversation = Some zero_id
     then Inl Corrupt
     else w_all [w_u16 5, w_bytes project, w_bytes (w_optional conversation), w_u64 generation, w_string 32768 prompt])"
| "request_text uc (QueueInput project conversation generation new prompt) =
    (if project = zero_id \<or> prompt = [] \<or> conversation = Some zero_id \<or>
        new \<and> (conversation \<noteq> None \<or> generation \<noteq> 0) \<or> \<not> new \<and> conversation = None
     then Inl Corrupt
     else w_all [w_u16 18, w_bytes project, w_bytes (w_optional conversation), w_u64 generation,
       w_bytes (w_flag new), w_string 32768 prompt])"
| "request_text uc (ReorderInput input after revision) =
    (if input = zero_id \<or> after = Some zero_id \<or> after = Some input then Inl Corrupt
     else Inr (be16 19 @ input @ w_optional after @ be64 revision))"
| "request_text uc (DecideInput input action) =
    (if input = zero_id then Inl Corrupt else Inr (be16 13 @ input @ [input_action_code action]))"
| "request_text uc (PromoteInput input target generation) =
    (if input = zero_id \<or> target = zero_id \<or> generation = 0 then Inl Corrupt
     else Inr (be16 16 @ input @ target @ be64 generation))"
| "request_text uc (CancelOperation operation generation) =
    (if operation = zero_id \<or> generation = 0 then Inl Corrupt else Inr (be16 7 @ operation @ be64 generation))"
| "request_text uc (QueuePersonCommand p) =
    result_bind (valid_person_request p) (\<lambda>_. Inr (person_digest_text p))"

definition request_digest :: "(bytes \<Rightarrow> bytes) \<Rightarrow> unicode \<Rightarrow> request \<Rightarrow> hash32 result" where
  "request_digest sha uc r = result_bind (request_text uc r) (\<lambda>text. Inr (sha text))"

subsection \<open>Derived identities\<close>

record create_note_identity =
  ni_operation :: id16
  ni_object :: id16
  ni_version :: id16
  ni_edge :: id16

record create_note_call =
  nc_operation :: id16
  nc_generation :: u64
  nc_ordinal :: u32
  nc_project :: id16
  nc_identity :: create_note_identity

definition note_id :: "(bytes \<Rightarrow> bytes) \<Rightarrow> string \<Rightarrow> id16 list \<Rightarrow> id16 \<Rightarrow> u64 \<Rightarrow> u32 \<Rightarrow> id16" where
  "note_id sha domain binding turn generation ordinal =
    (let i = take 16 (sha (ascii domain @ [0] @ concat binding @ turn @ be64 generation @ be32 ordinal)) in
     i[0 := i ! 0 OR 0x80])"

definition create_note_identity_derive ::
  "(bytes \<Rightarrow> bytes) \<Rightarrow> id16 list \<Rightarrow> id16 \<Rightarrow> u64 \<Rightarrow> u32 \<Rightarrow> create_note_identity result" where
  "create_note_identity_derive sha binding turn generation ordinal =
    (if zero_id \<in> set binding \<or> turn = zero_id \<or> generation = 0 \<or> \<not> (1 \<le> ordinal \<and> ordinal \<le> MAX_RECORDED_CALLS)
     then Inl Corrupt
     else let derive = (\<lambda>domain. note_id sha domain binding turn generation ordinal) in
       Inr \<lparr>ni_operation = derive ''asura-memory-create-operation'', ni_object = derive ''asura-memory-create-object'',
         ni_version = derive ''asura-memory-create-version'', ni_edge = derive ''asura-memory-create-edge''\<rparr>)"

definition create_note_call_derive ::
  "(bytes \<Rightarrow> bytes) \<Rightarrow> id16 list \<Rightarrow> id16 \<Rightarrow> id16 \<Rightarrow> u64 \<Rightarrow> u32 \<Rightarrow> create_note_call result" where
  "create_note_call_derive sha binding project operation generation ordinal =
    (if project = zero_id then Inl Corrupt
     else result_bind (create_note_identity_derive sha binding operation generation ordinal) (\<lambda>identity.
       Inr \<lparr>nc_operation = operation, nc_generation = generation, nc_ordinal = ordinal, nc_project = project,
         nc_identity = identity\<rparr>))"

definition payload_id :: "(bytes \<Rightarrow> bytes) \<Rightarrow> id16 \<Rightarrow> id16 \<Rightarrow> u8 \<Rightarrow> id16" where
  "payload_id sha installation job kind =
    id_from_digest (sha (ascii ''asura.payload'' @ [0] @ installation @ job @ [kind]))"

definition job_payloads :: "(bytes \<Rightarrow> bytes) \<Rightarrow> id16 \<Rightarrow> id16 \<Rightarrow> id16 \<times> id16" where
  "job_payloads sha installation job = (payload_id sha installation job 1, payload_id sha installation job 2)"

subsection \<open>The digest text determines the request\<close>

fun wf_request :: "request \<Rightarrow> bool" where
  "wf_request (Initialize _) = True"
| "wf_request (Register _) = True"
| "wf_request (RenameProject project _ _) = is_id project"
| "wf_request (Submit project conversation _ _) = (is_id project \<and> wf_optional conversation)"
| "wf_request (QueueInput project conversation _ _ _) = (is_id project \<and> wf_optional conversation)"
| "wf_request (ReorderInput input after _) = (is_id input \<and> wf_optional after)"
| "wf_request (DecideInput input _) = is_id input"
| "wf_request (PromoteInput input target _) = (is_id input \<and> is_id target)"
| "wf_request (CancelOperation operation _) = is_id operation"
| "wf_request (QueuePersonCommand p) = wf_person_request p"

fun request_start :: "request \<Rightarrow> u8 \<times> u8" where
  "request_start (Initialize _) = (0, 1)"
| "request_start (Register _) = (0, 4)"
| "request_start (RenameProject _ _ _) = (0, 20)"
| "request_start (Submit _ _ _ _) = (0, 5)"
| "request_start (QueueInput _ _ _ _ _) = (0, 18)"
| "request_start (ReorderInput _ _ _) = (0, 19)"
| "request_start (DecideInput _ _) = (0, 13)"
| "request_start (PromoteInput _ _ _) = (0, 16)"
| "request_start (CancelOperation _ _) = (0, 7)"
| "request_start (QueuePersonCommand p) = (31, hd (pq_project p))"

lemma str32_inject: "str32 a = str32 b \<longleftrightarrow> a = b"
  by (metis append_eq_append_conv length_be(2) str32_def)

lemma w_optional_append:
  assumes "wf_optional i" "wf_optional j"
  shows "w_optional i @ a = w_optional j @ b \<longleftrightarrow> i = j \<and> a = b"
  using assms by (cases i; cases j) (simp_all add: w_optional_def w_flag_def wf_optional_def)

lemmas w_optional_inject = w_optional_append [where a = "[]" and b = "[]", simplified]

lemma request_codes:
  "be16 1 = [0, 1]" "be16 4 = [0, 4]" "be16 5 = [0, 5]" "be16 7 = [0, 7]" "be16 13 = [0, 13]" "be16 16 = [0, 16]"
  "be16 18 = [0, 18]" "be16 19 = [0, 19]" "be16 20 = [0, 20]"
  by code_simp+

lemma request_text_start:
  assumes "wf_request r" "request_text uc r = Inr t"
  shows "\<exists>rest. t = fst (request_start r) # snd (request_start r) # rest"
proof (cases r)
  case (QueuePersonCommand p)
  with assms show ?thesis
    by (cases "pq_project p") (auto simp: person_digest_text_def wf_person_request_def result_bind_eq_Inr)
qed (use assms in \<open>auto simp: request_codes write_simps result_bind_eq_Inr split: if_splits\<close>)

lemma request_text_inject:
  assumes "wf_request r" "wf_request r'" "request_text uc r = Inr t" "request_text uc r' = Inr t"
  shows "r = r'"
proof -
  have start: "request_start r = request_start r'"
    using request_text_start [OF assms(1,3)] request_text_start [OF assms(2,4)] by (auto simp: prod_eq_iff)
  show ?thesis
  proof (cases r)
    case (QueuePersonCommand p)
    with start obtain p' where r': "r' = QueuePersonCommand p'" by (cases r') auto
    have "rd_person_request (rd [] t) = Inr (p, rd t [])" "rd_person_request (rd [] t) = Inr (p', rd t [])"
      using assms QueuePersonCommand r' by (auto simp: result_bind_eq_Inr dest: person_digest_text_read)
    then show ?thesis using QueuePersonCommand r' by simp
  next
    case (Initialize m)
    with start obtain m' where r': "r' = Initialize m'" by (cases r') auto
    from assms show ?thesis
      by (auto simp: Initialize r' write_simps result_bind_eq_Inr str32_inject w_optional_append w_optional_inject
          split: if_splits)
  next
    case (Register l)
    with start obtain l' where r': "r' = Register l'" by (cases r') auto
    from assms show ?thesis
      by (auto simp: Register r' write_simps result_bind_eq_Inr str32_inject w_optional_append w_optional_inject
          split: if_splits)
  next
    case (RenameProject p n s)
    with start obtain p' n' s' where r': "r' = RenameProject p' n' s'" by (cases r') auto
    from assms show ?thesis
      by (auto simp: RenameProject r' write_simps result_bind_eq_Inr str32_inject w_optional_append w_optional_inject
          split: if_splits)
  next
    case (Submit p c g s)
    with start obtain p' c' g' s' where r': "r' = Submit p' c' g' s'" by (cases r') auto
    from assms show ?thesis
      by (auto simp: Submit r' write_simps result_bind_eq_Inr str32_inject w_optional_append w_optional_inject
          split: if_splits)
  next
    case (QueueInput p c g n s)
    with start obtain p' c' g' n' s' where r': "r' = QueueInput p' c' g' n' s'" by (cases r') auto
    from assms show ?thesis
      by (auto simp: QueueInput r' write_simps result_bind_eq_Inr str32_inject w_optional_append w_optional_inject
          split: if_splits)
  next
    case (ReorderInput i a n)
    with start obtain i' a' n' where r': "r' = ReorderInput i' a' n'" by (cases r') auto
    from assms show ?thesis
      by (auto simp: ReorderInput r' write_simps result_bind_eq_Inr str32_inject w_optional_append w_optional_inject
          split: if_splits)
  next
    case (DecideInput i a)
    with start obtain i' a' where r': "r' = DecideInput i' a'" by (cases r') auto
    from assms show ?thesis
      by (auto simp: DecideInput r' write_simps result_bind_eq_Inr str32_inject w_optional_append w_optional_inject
          split: if_splits)
  next
    case (PromoteInput i t g)
    with start obtain i' t' g' where r': "r' = PromoteInput i' t' g'" by (cases r') auto
    from assms show ?thesis
      by (auto simp: PromoteInput r' write_simps result_bind_eq_Inr str32_inject w_optional_append w_optional_inject
          split: if_splits)
  next
    case (CancelOperation i g)
    with start obtain i' g' where r': "r' = CancelOperation i' g'" by (cases r') auto
    from assms show ?thesis
      by (auto simp: CancelOperation r' write_simps result_bind_eq_Inr str32_inject w_optional_append w_optional_inject
          split: if_splits)
  qed
qed

subsection \<open>Properties\<close>

definition demo_unicode :: unicode where
  "demo_unicode = \<lparr>uc_alphabetic = (\<lambda>c. 0x41 \<le> c \<and> c \<le> 0x5A \<or> 0x61 \<le> c \<and> c \<le> 0x7A),
    uc_uppercase = (\<lambda>c. [if 0x61 \<le> c \<and> c \<le> 0x7A then c - 0x20 else c])\<rparr>"

text \<open>C18: A request digest covers the whole request. The hashed text of an accepted request determines the request,
  kind included, so requests that differ in any field hash different texts.\<close>

theorem request_digest_identifies:
  assumes "wf_request r" "wf_request r'" "request_text uc r = Inr t" "request_text uc r' = Inr t'"
  shows "request_digest sha uc r = Inr (sha t) \<and> (t = t' \<longleftrightarrow> r = r')"
  using assms request_text_inject [of r r' uc t] by (auto simp: request_digest_def)

theorem request_digest_identifies_witness:
  "request_digest (\<lambda>_. replicate 32 9) demo_unicode (CancelOperation (replicate 16 1) 2) = Inr (replicate 32 9)"
  using request_digest_identifies [of "CancelOperation (replicate 16 1) 2" "CancelOperation (replicate 16 1) 2" demo_unicode
      "be16 7 @ replicate 16 1 @ be64 2" "be16 7 @ replicate 16 1 @ be64 2" "\<lambda>_. replicate 32 9"]
  by (simp add: zero_id_def)

end
