(* ===== verification/BTree.thy ===== *)
theory BTree
  imports Prelude "HOL-Library.Product_Lexorder"
begin

section \<open>Ordered maps\<close>

text \<open>
  Rust's \<open>BTreeMap\<close> as the list of its entries in key order, which is what iterating it yields. The
  invariant \<open>bt_ok\<close> is kept by every operation, and \<^const>\<open>map_of\<close> is the abstraction to a map.
\<close>

type_synonym ('k, 'v) btree = "('k \<times> 'v) list"

definition bt_ok :: "('k :: linorder, 'v) btree \<Rightarrow> bool" where
  "bt_ok m \<longleftrightarrow> sorted_wrt (<) (map fst m)"

abbreviation bt_get :: "('k, 'v) btree \<Rightarrow> 'k \<Rightarrow> 'v option" where
  "bt_get \<equiv> map_of"

fun bt_insert :: "'k :: linorder \<Rightarrow> 'v \<Rightarrow> ('k, 'v) btree \<Rightarrow> ('k, 'v) btree" where
  "bt_insert k v [] = [(k, v)]"
| "bt_insert k v ((a, b) # m) =
    (if k < a then (k, v) # (a, b) # m else if k = a then (k, v) # m else (a, b) # bt_insert k v m)"

definition bt_remove :: "'k \<Rightarrow> ('k, 'v) btree \<Rightarrow> ('k, 'v) btree" where
  "bt_remove k m = filter (\<lambda>e. fst e \<noteq> k) m"

definition bt_retain :: "('k \<Rightarrow> bool) \<Rightarrow> ('k, 'v) btree \<Rightarrow> ('k, 'v) btree" where
  "bt_retain P m = filter (\<lambda>e. P (fst e)) m"

text \<open>\<open>get_mut\<close> followed by an update, and \<open>values_mut\<close>.\<close>

definition bt_modify :: "'k \<Rightarrow> ('v \<Rightarrow> 'v) \<Rightarrow> ('k, 'v) btree \<Rightarrow> ('k, 'v) btree" where
  "bt_modify k f m = map (\<lambda>(a, b). (a, if a = k then f b else b)) m"

definition bt_map :: "('v \<Rightarrow> 'v) \<Rightarrow> ('k, 'v) btree \<Rightarrow> ('k, 'v) btree" where
  "bt_map f m = map (\<lambda>(a, b). (a, f b)) m"

lemma bt_ok_Nil [simp]: "bt_ok []"
  by (simp add: bt_ok_def)

lemma bt_ok_Cons: "bt_ok ((a, b) # m) \<longleftrightarrow> bt_ok m \<and> (\<forall>k\<in>fst ` set m. a < k)"
  by (auto simp: bt_ok_def)

lemma set_bt_insert: "fst ` set (bt_insert k v m) = insert k (fst ` set m)"
  by (induction k v m rule: bt_insert.induct) auto

lemma bt_ok_insert [simp]: "bt_ok m \<Longrightarrow> bt_ok (bt_insert k v m)"
  by (induction k v m rule: bt_insert.induct) (auto simp: bt_ok_Cons set_bt_insert)

lemma bt_get_insert [simp]: "bt_get (bt_insert k v m) = (bt_get m)(k \<mapsto> v)"
  by (induction k v m rule: bt_insert.induct) (auto simp: fun_eq_iff)

lemma bt_insert_values: "snd ` set (bt_insert k v m) \<subseteq> insert v (snd ` set m)"
  by (induction k v m rule: bt_insert.induct) auto

lemma bt_not_in_smaller: "bt_ok ((a, b) # m) \<Longrightarrow> k < a \<Longrightarrow> bt_get m k = None"
  by (auto simp: bt_ok_Cons map_of_eq_None_iff dest!: bspec)

lemma length_bt_insert:
  "bt_ok m \<Longrightarrow> length (bt_insert k v m) = (if bt_get m k = None then Suc (length m) else length m)"
  by (induction k v m rule: bt_insert.induct) (auto simp: bt_ok_Cons map_of_eq_None_iff)

lemma bt_ok_filter: "bt_ok m \<Longrightarrow> bt_ok (filter P m)"
  by (induction m) (auto simp: bt_ok_def)

lemma bt_ok_remove [simp]: "bt_ok m \<Longrightarrow> bt_ok (bt_remove k m)"
  by (simp add: bt_remove_def bt_ok_filter)

lemma bt_ok_retain [simp]: "bt_ok m \<Longrightarrow> bt_ok (bt_retain P m)"
  by (simp add: bt_retain_def bt_ok_filter)

lemma bt_get_remove [simp]: "bt_get (bt_remove k m) = (bt_get m)(k := None)"
  by (induction m) (auto simp: bt_remove_def fun_eq_iff)

lemma bt_get_retain [simp]: "bt_get (bt_retain P m) k = (if P k then bt_get m k else None)"
  by (induction m) (auto simp: bt_retain_def)

lemma length_bt_remove: "length (bt_remove k m) \<le> length m"
  by (simp add: bt_remove_def)

lemma length_bt_retain: "length (bt_retain P m) \<le> length m"
  by (simp add: bt_retain_def)

lemma bt_filter_values: "snd ` set (bt_remove k m) \<subseteq> snd ` set m" "snd ` set (bt_retain P m) \<subseteq> snd ` set m"
  by (auto simp: bt_remove_def bt_retain_def)

lemma bt_modify_keys [simp]: "map fst (bt_modify k f m) = map fst m" "map fst (bt_map g m) = map fst m"
  by (simp_all add: bt_modify_def bt_map_def case_prod_beta comp_def)

lemma bt_ok_modify [simp]: "bt_ok (bt_modify k f m) = bt_ok m" "bt_ok (bt_map g m) = bt_ok m"
  by (simp_all add: bt_ok_def)

lemma length_bt_modify [simp]: "length (bt_modify k f m) = length m" "length (bt_map g m) = length m"
  by (simp_all add: bt_modify_def bt_map_def)

lemma bt_get_modify [simp]:
  "bt_get (bt_modify k f m) a = (if a = k then map_option f (bt_get m a) else bt_get m a)"
  by (induction m) (auto simp: bt_modify_def)

lemma bt_get_map [simp]: "bt_get (bt_map f m) a = map_option f (bt_get m a)"
  by (induction m) (auto simp: bt_map_def)

lemma bt_ok_distinct: "bt_ok m \<Longrightarrow> distinct (map fst m)"
  by (simp add: bt_ok_def strict_sorted_iff)

lemma bt_get_set: "bt_ok m \<Longrightarrow> bt_get m k = Some v \<longleftrightarrow> (k, v) \<in> set m"
  by (simp add: bt_ok_distinct)

end
