(* ===== verification/ExecPaths.thy ===== *)
theory ExecPaths
  imports Index FieldCodec BTree Texts JobTypes
begin

section \<open>Execution path records (kind 32)\<close>

text \<open>
  \<open>authority/conversation/execution_path.rs\<close>: the record of model changes, acknowledgements, approvals and
  revocations of build and test paths, its rules, writer and reader, the folding of a project's approval
  entries into the current approvals, and the rule for appending another one. SHA-256 is the parameter \<open>sha\<close>.
  The rest of the replay rules reads other records of the conversation state.
\<close>

abbreviation MAX_RECORD_PATHS :: nat where "MAX_RECORD_PATHS \<equiv> 16"
abbreviation MAX_GUARD_PATH :: nat where "MAX_GUARD_PATH \<equiv> 1024"
abbreviation MAX_EXECUTION_PATH_PAYLOAD :: nat where "MAX_EXECUTION_PATH_PAYLOAD \<equiv> 16510"
abbreviation MAX_PATH_APPROVALS :: nat where "MAX_PATH_APPROVALS \<equiv> 256"
abbreviation MAX_PATH_APPROVAL_RECORDS :: nat where "MAX_PATH_APPROVAL_RECORDS \<equiv> 4096"

datatype path_action = PA_ModelChanged | PA_Acknowledged | PA_Approved | PA_Revoked

fun path_action_code :: "path_action \<Rightarrow> u8" where
  "path_action_code PA_ModelChanged = 1"
| "path_action_code PA_Acknowledged = 2"
| "path_action_code PA_Approved = 3"
| "path_action_code PA_Revoked = 4"

definition path_action_ALL :: "path_action list" where
  "path_action_ALL = [PA_ModelChanged, PA_Acknowledged, PA_Approved, PA_Revoked]"

definition path_action_from_code :: "u8 \<Rightarrow> path_action option" where
  "path_action_from_code = nth_code path_action_ALL"

interpretation path_action: code_table path_action_code path_action_from_code
  unfolding path_action_from_code_def
proof (rule nth_code_table)
  show "v \<in> set path_action_ALL" for v by (cases v) (simp_all add: path_action_ALL_def)
qed (simp_all add: path_action_ALL_def upt_rec)

fun path_action_as_str :: "path_action \<Rightarrow> string" where
  "path_action_as_str PA_ModelChanged = ''model_changed''"
| "path_action_as_str PA_Acknowledged = ''acknowledged''"
| "path_action_as_str PA_Approved = ''approved''"
| "path_action_as_str PA_Revoked = ''revoked''"

datatype path_entry_kind = PK_Approval | PK_ModelChanged | PK_NotApproved | PK_ChangedSinceApproval | PK_TooLarge | PK_Overflow

fun path_entry_kind_code :: "path_entry_kind \<Rightarrow> u8" where
  "path_entry_kind_code PK_Approval = 0"
| "path_entry_kind_code PK_ModelChanged = 1"
| "path_entry_kind_code PK_NotApproved = 2"
| "path_entry_kind_code PK_ChangedSinceApproval = 3"
| "path_entry_kind_code PK_TooLarge = 4"
| "path_entry_kind_code PK_Overflow = 5"

definition path_entry_kind_ALL :: "path_entry_kind list" where
  "path_entry_kind_ALL = [PK_Approval, PK_ModelChanged, PK_NotApproved, PK_ChangedSinceApproval, PK_TooLarge, PK_Overflow]"

definition path_entry_kind_from_code :: "u8 \<Rightarrow> path_entry_kind option" where
  "path_entry_kind_from_code = nth_code0 path_entry_kind_ALL"

interpretation path_entry_kind: code_table path_entry_kind_code path_entry_kind_from_code
  unfolding path_entry_kind_from_code_def
proof (rule nth_code0_table)
  show "v \<in> set path_entry_kind_ALL" for v by (cases v) (simp_all add: path_entry_kind_ALL_def)
qed (simp_all add: path_entry_kind_ALL_def upt_rec)

fun path_entry_kind_as_str :: "path_entry_kind \<Rightarrow> string" where
  "path_entry_kind_as_str PK_Approval = ''approval''"
| "path_entry_kind_as_str PK_ModelChanged = ''model_changed''"
| "path_entry_kind_as_str PK_NotApproved = ''not_approved''"
| "path_entry_kind_as_str PK_ChangedSinceApproval = ''changed_since_approval''"
| "path_entry_kind_as_str PK_TooLarge = ''too_large''"
| "path_entry_kind_as_str PK_Overflow = ''overflow''"

record path_entry =
  pe_kind :: path_entry_kind
  pe_path :: bytes

record execution_path =
  ep_action :: path_action
  ep_project :: id16
  ep_reference :: id16
  ep_through :: u64
  ep_entries :: "path_entry list"
  ep_overflow :: u32
  ep_digest :: hash32

definition valid_guard_path :: "bytes \<Rightarrow> bool" where
  "valid_guard_path path \<longleftrightarrow> 1 \<le> length path \<and> length path \<le> MAX_GUARD_PATH \<and> \<not> absolute path \<and> 0 \<notin> set path \<and>
    (\<forall>part\<in>set (split_on 0x2F path). part \<noteq> ascii ''..'')"

definition path_key_text :: "bytes \<Rightarrow> bytes" where
  "path_key_text path = ascii ''asura.path'' @ [0] @ path"

definition path_key :: "(bytes \<Rightarrow> bytes) \<Rightarrow> bytes \<Rightarrow> hash32" where
  "path_key sha path = sha (path_key_text path)"

definition path_shape_ok :: "execution_path \<Rightarrow> bool" where
  "path_shape_ok p = (let kinds = (\<lambda>allowed. \<forall>e\<in>set (ep_entries p). pe_kind e \<in> allowed) in
    case ep_action p of
      PA_ModelChanged \<Rightarrow> kinds {PK_ModelChanged}
    | PA_Acknowledged \<Rightarrow> kinds {PK_ModelChanged, PK_NotApproved, PK_ChangedSinceApproval, PK_TooLarge, PK_Overflow}
    | _ \<Rightarrow> length (ep_entries p) = 1 \<and> kinds {PK_Approval} \<and> ep_overflow p = 0)"

definition execution_path_validate :: "execution_path \<Rightarrow> unit result" where
  "execution_path_validate p =
    result_bind (require (ep_project p \<noteq> zero_id \<and> ep_reference p \<noteq> zero_id \<and>
      length (ep_entries p) \<le> MAX_RECORD_PATHS \<and> (\<forall>e\<in>set (ep_entries p). valid_guard_path (pe_path e)))) (\<lambda>_.
    require (path_shape_ok p \<and> (ep_action p = PA_Acknowledged \<or> ep_through p = 0) \<and>
      (ep_action p = PA_Approved \<longleftrightarrow> ep_digest p \<noteq> zero_hash)))"

definition approval_path :: "execution_path \<Rightarrow> bytes option" where
  "approval_path p = (case ep_action p of
      PA_Approved \<Rightarrow> (case ep_entries p of [] \<Rightarrow> None | e # _ \<Rightarrow> Some (pe_path e))
    | PA_Revoked \<Rightarrow> (case ep_entries p of [] \<Rightarrow> None | e # _ \<Rightarrow> Some (pe_path e))
    | _ \<Rightarrow> None)"

subsection \<open>Writing and reading\<close>

definition w_path_entry :: "path_entry \<Rightarrow> bytes" where
  "w_path_entry e = path_entry_kind_code (pe_kind e) # str16 (pe_path e)"

definition execution_path_fields :: "execution_path \<Rightarrow> bytes" where
  "execution_path_fields p = [path_action_code (ep_action p)] @ ep_project p @ ep_reference p @
    be64 (ep_through p) @ ([of_nat (length (ep_entries p))] @ concat (map w_path_entry (ep_entries p))) @
    be32 (ep_overflow p) @ ep_digest p"

definition write_execution_path :: "execution_path \<Rightarrow> bytes result" where
  "write_execution_path p =
    (if length (ep_entries p) > MAX_RECORD_PATHS \<or> (\<exists>e\<in>set (ep_entries p). length (pe_path e) > MAX_GUARD_PATH)
     then Inl Limit
     else result_bind (execution_path_validate p) (\<lambda>_. Inr (execution_path_fields p)))"

definition rd_path_entry :: "(replay_error, path_entry) reading" where
  "rd_path_entry = rbind (rd_coded path_entry_kind_from_code) (\<lambda>kind. rbind rd_u16 (\<lambda>len.
    rbind (rd_require (1 \<le> unat len \<and> unat len \<le> MAX_GUARD_PATH)) (\<lambda>_. rbind (rd_text (unat len)) (\<lambda>path.
    rreturn \<lparr>pe_kind = kind, pe_path = path\<rparr>))))"

definition read_execution_path :: "(replay_error, execution_path) reading" where
  "read_execution_path = rbind (rd_coded path_action_from_code) (\<lambda>action. rbind rd_id (\<lambda>project.
    rbind rd_id (\<lambda>reference. rbind rd_u64 (\<lambda>through.
    rbind (rd_counted8 0 MAX_RECORD_PATHS rd_path_entry) (\<lambda>entries. rbind rd_u32 (\<lambda>overflow. rbind rd_hash (\<lambda>digest.
    let v = \<lparr>ep_action = action, ep_project = project, ep_reference = reference, ep_through = through,
      ep_entries = entries, ep_overflow = overflow, ep_digest = digest\<rparr> in
    rbind (rlift (execution_path_validate v)) (\<lambda>_. rreturn v))))))))"

subsection \<open>The record contract\<close>

definition wf_path_entry :: "path_entry \<Rightarrow> bool" where
  "wf_path_entry e \<longleftrightarrow> 1 \<le> length (pe_path e) \<and> length (pe_path e) \<le> MAX_GUARD_PATH \<and> utf8_valid (pe_path e)"

definition wf_execution_path :: "execution_path \<Rightarrow> bool" where
  "wf_execution_path p \<longleftrightarrow> is_id (ep_project p) \<and> is_id (ep_reference p) \<and> is_hash (ep_digest p) \<and>
    (\<forall>e\<in>set (ep_entries p). utf8_valid (pe_path e))"

lemma codec_path_entry: "codec rd_path_entry w_path_entry wf_path_entry"
proof (rule codecI, goal_cases)
  case (1 pre rest v r')
  then show ?case
    by (auto simp: rd_path_entry_def parse path_entry_kind.coded.bind_exact codec.bind_exact [OF codec_text]
        w_path_entry_def wf_path_entry_def str16_def length_u16)
next
  case (2 pre post v)
  then have "unat (of_nat (length (pe_path v)) :: u16) = length (pe_path v)" by (simp add: wf_path_entry_def unat_of_nat)
  with 2 show ?case
    by (cases v) (simp add: rd_path_entry_def w_path_entry_def wf_path_entry_def str16_def run
        path_entry_kind.coded.bind_run [simplified] codec.bind_run [OF codec_text])
qed

lemma execution_path_validD:
  assumes "execution_path_validate p = Inr ()"
  shows "length (ep_entries p) \<le> MAX_RECORD_PATHS" "\<forall>e\<in>set (ep_entries p). valid_guard_path (pe_path e)"
    "path_shape_ok p" "ep_action p = PA_Approved \<longleftrightarrow> ep_digest p \<noteq> zero_hash"
  using assms by (auto simp: execution_path_validate_def result_bind_eq_Inr)

lemma execution_path_eta:
  "\<lparr>ep_action = ep_action v, ep_project = ep_project v, ep_reference = ep_reference v, ep_through = ep_through v,
    ep_entries = ep_entries v, ep_overflow = ep_overflow v, ep_digest = ep_digest v\<rparr> = v"
  by (cases v) simp

lemma execution_path_codec: "record_codec read_execution_path write_execution_path wf_execution_path"
proof (rule record_codecI, goal_cases)
  case (1 pre rest v r')
  then show ?case
    by (simp add: read_execution_path_def parse path_action.coded.bind_exact
        codec.bind_exact [OF codec_counted8 [OF codec_path_entry]] lift_parse Let_def)
      (elim exE conjE, simp add: write_execution_path_def execution_path_fields_def wf_execution_path_def
        wf_path_entry_def, fastforce simp: not_less)
next
  case (2 pre post v bs)
  from 2(2) have valid: "execution_path_validate v = Inr ()" and bs: "bs = execution_path_fields v"
    by (auto simp: write_execution_path_def result_bind_eq_Inr split: if_splits)
  note facts = execution_path_validD [OF valid]
  have entries: "\<forall>e\<in>set (ep_entries v). wf_path_entry e"
    using facts(2) 2(1) by (auto simp: wf_execution_path_def wf_path_entry_def valid_guard_path_def)
  show ?case
    using 2(1) valid facts(1) entries unfolding bs wf_execution_path_def
    by (simp add: read_execution_path_def execution_path_fields_def run path_action.coded.bind_run [simplified]
        codec.bind_run [OF codec_counted8 [OF codec_path_entry], simplified] Let_def execution_path_eta)
qed

interpretation execution_path: record_codec read_execution_path write_execution_path wf_execution_path
  by (rule execution_path_codec)

subsection \<open>Approvals\<close>

type_synonym approvals = "(hash32, hash32 \<times> locator) btree"

definition approval_step :: "bytes \<Rightarrow> approvals \<Rightarrow> approvals outcome" where
  "approval_step v approved = result_bind (entry_decode TagPathApproval v) (\<lambda>e. case e of
      EntryPathApproval action key digest frame \<Rightarrow> (case path_action_from_code action of
          Some PA_Approved \<Rightarrow> Inr (bt_insert key (digest, frame) approved)
        | Some PA_Revoked \<Rightarrow> (if bt_get approved key = None then Inl (Err Corrupt) else Inr (bt_remove key approved))
        | _ \<Rightarrow> Inl (Err Corrupt))
    | _ \<Rightarrow> Inl (Err Corrupt))"

fun approval_fold :: "(key \<times> bytes) list \<Rightarrow> approvals \<Rightarrow> approvals outcome" where
  "approval_fold [] approved = Inr approved"
| "approval_fold (e # es) approved = result_bind (approval_step (snd e) approved) (approval_fold es)"

text \<open>\<open>Replay::approval_set\<close> on the entries that its bounded range read returns.\<close>

definition approval_set :: "(key \<times> bytes) list \<Rightarrow> (approvals \<times> nat) outcome" where
  "approval_set entries = (if length entries > MAX_PATH_APPROVAL_RECORDS then Inl (Err Limit)
    else result_bind (approval_fold entries []) (\<lambda>approved.
      if length approved > MAX_PATH_APPROVALS then Inl (Err Corrupt) else Inr (approved, length entries)))"

text \<open>The check of \<open>Replay::execution_path\<close> before another approval or revocation is emitted.\<close>

definition approval_allowed :: "path_action \<Rightarrow> hash32 \<Rightarrow> approvals \<times> nat \<Rightarrow> unit outcome" where
  "approval_allowed action key state = (case state of (approved, records) \<Rightarrow>
    if records \<ge> MAX_PATH_APPROVAL_RECORDS then Inl (Err Limit)
    else if action = PA_Revoked then (if bt_get approved key = None then Inl (Err Corrupt) else Inr ())
    else if bt_get approved key = None \<and> length approved \<ge> MAX_PATH_APPROVALS then Inl (Err Limit)
    else Inr ())"

lemma approval_fold_append:
  "approval_fold (es @ fs) approved = result_bind (approval_fold es approved) (approval_fold fs)"
  by (induction es arbitrary: approved) (auto simp: result_bind_def split: sum.splits)

lemma approval_step_entry:
  assumes "entry_encode (EntryPathApproval (path_action_code action) key digest frame) = Some v" "is_hash key" "is_hash digest"
    "action = PA_Approved \<or> action = PA_Revoked"
  shows "approval_step v approved = (if action = PA_Approved then Inr (bt_insert key (digest, frame) approved)
    else if bt_get approved key = None then Inl (Err Corrupt) else Inr (bt_remove key approved))"
proof -
  have "entry_decode TagPathApproval v = Inr (EntryPathApproval (path_action_code action) key digest frame)"
    using assms(1-3) by (simp add: entry_decode_iff)
  then show ?thesis using assms(4) by (auto simp: approval_step_def)
qed

text \<open>A project's approval entries as replay emits them: each one passes the check on the state that the
  entries before it fold to. The first argument lists the changes.\<close>

type_synonym approval_change = "path_action \<times> hash32 \<times> hash32 \<times> locator"

inductive approval_history :: "approval_change list \<Rightarrow> (key \<times> bytes) list \<Rightarrow> bool" where
  no_approvals: "approval_history [] []"
| next_approval: "\<lbrakk>approval_history changes entries; approval_set entries = Inr state;
    approval_allowed action key state = Inr (); action = PA_Approved \<or> action = PA_Revoked; is_hash key; is_hash digest;
    entry_encode (EntryPathApproval (path_action_code action) key digest frame) = Some v\<rbrakk>
    \<Longrightarrow> approval_history (changes @ [(action, key, digest, frame)]) (entries @ [(index_key, v)])"

text \<open>The approvals that a list of changes leaves.\<close>

definition apply_change :: "approval_change \<Rightarrow> (hash32 \<rightharpoonup> hash32 \<times> locator) \<Rightarrow> (hash32 \<rightharpoonup> hash32 \<times> locator)" where
  "apply_change c m = (case c of (action, key, digest, frame) \<Rightarrow>
    if action = PA_Approved then m(key \<mapsto> (digest, frame)) else m(key := None))"

lemma apply_change_simps [simp]:
  "apply_change (PA_Approved, key, digest, frame) m = m(key \<mapsto> (digest, frame))"
  "apply_change (PA_Revoked, key, digest, frame) m = m(key := None)"
  by (simp_all add: apply_change_def)

lemma approval_history_set:
  "approval_history changes entries \<Longrightarrow> length entries = length changes \<and> length entries \<le> MAX_PATH_APPROVAL_RECORDS \<and>
    (\<exists>approved. approval_fold entries [] = Inr approved \<and> bt_ok approved \<and> length approved \<le> MAX_PATH_APPROVALS \<and>
      bt_get approved = fold apply_change changes Map.empty)"
proof (induction rule: approval_history.induct)
  case (next_approval changes entries state action key digest frame v index_key)
  then obtain approved where folded: "approval_fold entries [] = Inr approved" "bt_ok approved"
    "length approved \<le> MAX_PATH_APPROVALS" "bt_get approved = fold apply_change changes Map.empty"
    and n: "length entries = length changes" "length entries \<le> MAX_PATH_APPROVAL_RECORDS"
    by blast
  have state: "state = (approved, length entries)"
    using next_approval.hyps(2) folded(1,3) n(2) by (simp add: approval_set_def)
  note step = approval_step_entry [OF next_approval.hyps(7,5,6,4), of approved]
  have room: "length entries < MAX_PATH_APPROVAL_RECORDS"
    using next_approval.hyps(3) unfolding state by (auto simp: approval_allowed_def split: if_splits)
  have last_step: "approval_fold (entries @ [(index_key, v)]) [] = approval_step v approved"
    by (simp add: approval_fold_append folded(1)) (simp add: result_bind_def split: sum.splits)
  show ?case
  proof (cases "action = PA_Approved")
    case True
    then have "length (bt_insert key (digest, frame) approved) \<le> MAX_PATH_APPROVALS"
      using next_approval.hyps(3) folded(2,3) unfolding state
      by (auto simp: approval_allowed_def length_bt_insert split: if_splits)
    then show ?thesis
      using True folded(2,4) n room unfolding last_step step by auto
  next
    case False
    then have revoked: "action = PA_Revoked" "bt_get approved key \<noteq> None"
      using next_approval.hyps(3,4) unfolding state by (auto simp: approval_allowed_def split: if_splits)
    then show ?thesis
      using folded n room le_trans [OF length_bt_remove folded(3), of key] unfolding last_step step
      by auto
  qed
qed simp

subsection \<open>Properties\<close>

text \<open>C14: The approvals of a project can always be read back, and they are what its records say. For every sequence
  of approvals and revocations that replay accepts one after the other, \<open>approval_set\<close> succeeds on the emitted
  entries within both bounds, and the set it returns maps a path key to the digest and frame of the last
  approval that no later revocation withdrew.\<close>

theorem approval_set_reads_history:
  assumes "approval_history changes entries"
  shows "\<exists>approved. approval_set entries = Inr (approved, length changes) \<and>
    bt_get approved = fold apply_change changes Map.empty \<and> length approved \<le> MAX_PATH_APPROVALS"
  using approval_history_set [OF assms] by (auto simp: approval_set_def)

definition demo_approval :: entry where
  "demo_approval = EntryPathApproval (path_action_code PA_Approved) (replicate 32 1) (replicate 32 2) locator_NONE"

lemma demo_approval_history:
  "approval_history [(PA_Approved, replicate 32 1, replicate 32 2, locator_NONE)]
    [(Key TagPathApproval (replicate 16 1) 1, the (entry_encode demo_approval))]"
proof -
  have "wf_entry demo_approval" by (simp add: demo_approval_def)
  then obtain v where v: "entry_encode demo_approval = Some v"
    using entry_puts_fit [of demo_approval] by (auto simp: entry_encode_wf)
  have "approval_history ([] @ [(PA_Approved, replicate 32 1, replicate 32 2, locator_NONE)])
      ([] @ [(Key TagPathApproval (replicate 16 1) 1, v)])"
    by (rule approval_history.next_approval [OF no_approvals, where state = "([], 0)"])
      (use v in \<open>simp_all add: approval_set_def approval_allowed_def demo_approval_def\<close>)
  then show ?thesis using v by simp
qed

theorem approval_set_reads_history_witness:
  "\<exists>approved. approval_set [(Key TagPathApproval (replicate 16 1) 1, the (entry_encode demo_approval))] = Inr (approved, 1) \<and>
    bt_get approved (replicate 32 1) = Some (replicate 32 2, locator_NONE)"
  using approval_set_reads_history [OF demo_approval_history] by auto

text \<open>A written execution path record fits the payload bound of its reader.\<close>

lemma execution_path_payload_bound:
  assumes "wf_execution_path p" "write_execution_path p = Inr bs"
  shows "length bs \<le> MAX_EXECUTION_PATH_PAYLOAD"
proof -
  from assms(2) have valid: "execution_path_validate p = Inr ()" and bs: "bs = execution_path_fields p"
    by (auto simp: write_execution_path_def result_bind_eq_Inr split: if_splits)
  have "length (concat (map w_path_entry es)) \<le> 1027 * length es" if "\<forall>e\<in>set es. valid_guard_path (pe_path e)" for es
    using that by (induction es) (auto simp: w_path_entry_def str16_def valid_guard_path_def)
  from this [OF execution_path_validD(2) [OF valid]] show ?thesis
    using assms(1) execution_path_validD(1) [OF valid] unfolding bs
    by (simp add: execution_path_fields_def wf_execution_path_def)
qed

end
