(* ===== verification/Policies.thy ===== *)
theory Policies
  imports PolicyFields
begin

section \<open>Policy decisions and revisions (kinds 34 and 35)\<close>

text \<open>
  The record structs of \<open>authority/conversation/policy.rs\<close> with \<open>validate\<close>, their writers and their
  readers. \<open>windows(2).all(..)\<close> is \<^const>\<open>successively\<close>.
\<close>

abbreviation MAX_POLICY_DECISION_PAYLOAD :: nat where "MAX_POLICY_DECISION_PAYLOAD \<equiv> 4096"
abbreviation MAX_POLICY_REVISION_PAYLOAD :: nat where "MAX_POLICY_REVISION_PAYLOAD \<equiv> 8192"

subsection \<open>Optional hashes\<close>

definition w_option_hash :: "hash32 option \<Rightarrow> bytes" where
  "w_option_hash v = w_flag (v \<noteq> None) @ (case v of None \<Rightarrow> [] | Some h \<Rightarrow> h)"

definition read_option_hash :: "(replay_error, hash32 option) reading" where
  "read_option_hash = rbind rd_flag (\<lambda>present. if present then rbind rd_hash (\<lambda>h. rreturn (Some h)) else rreturn None)"

definition wf_option_hash :: "hash32 option \<Rightarrow> bool" where
  "wf_option_hash v = (case v of None \<Rightarrow> True | Some h \<Rightarrow> is_hash h)"

lemma codec_option_hash: "codec read_option_hash w_option_hash wf_option_hash"
proof (rule codecI, goal_cases)
  case (1 pre rest v r')
  then show ?case
    by (auto simp: read_option_hash_def w_option_hash_def wf_option_hash_def parse if_reading)
next
  case (2 pre post v)
  then show ?case
    by (cases v) (auto simp: read_option_hash_def w_option_hash_def wf_option_hash_def run)
qed

interpretation option_hash: codec read_option_hash w_option_hash wf_option_hash
  by (rule codec_option_hash)

subsection \<open>Subjects, outcomes and scope results\<close>

datatype policy_subject =
    ModelCall (ps_operation: id16) (ps_generation: u64) (ps_ordinal: u32)
  | PersonInput (ps_input: id16)

datatype policy_outcome = PolicyRun | PolicyAsk | PolicyDeny

fun policy_outcome_code :: "policy_outcome \<Rightarrow> u8" where
  "policy_outcome_code PolicyRun = 1"
| "policy_outcome_code PolicyAsk = 2"
| "policy_outcome_code PolicyDeny = 3"

definition policy_outcome_from_code :: "u8 \<Rightarrow> policy_outcome option" where
  "policy_outcome_from_code code = map_of [(1, PolicyRun), (2, PolicyAsk), (3, PolicyDeny)] code"

interpretation policy_outcome: code_table policy_outcome_code policy_outcome_from_code
proof
  show "policy_outcome_from_code b = Some v \<longleftrightarrow> b = policy_outcome_code v" for b v
    by (cases v) (auto simp: policy_outcome_from_code_def)
qed

record policy_scope_result =
  sr_scope :: u8
  sr_allow :: bool
  sr_error :: u8
  sr_rules :: "bytes list"

record policy_decision =
  pd_subject :: policy_subject
  pd_action :: u8
  pd_origin :: u8
  pd_profile :: u8
  pd_project :: id16
  pd_task_conversation :: id16
  pd_task_agent :: u32
  pd_resource_digest :: hash32
  pd_request_digest :: hash32
  pd_intent_digest :: "hash32 option"
  pd_revision_seq :: u64
  pd_revision_digest :: hash32
  pd_scopes :: "policy_scope_result list"
  pd_outcome :: policy_outcome
  pd_primary_scope :: u8
  pd_reason :: bytes
  pd_constraint_digest :: "hash32 option"
  pd_now_ms :: u64

definition policy_subject_ok :: "policy_decision \<Rightarrow> bool" where
  "policy_subject_ok p = (case pd_subject p of
      ModelCall operation generation ordinal \<Rightarrow> operation \<noteq> zero_id \<and> 1 \<le> generation \<and> 1 \<le> ordinal \<and>
        pd_origin p = 1 \<and> pd_profile p = 1
    | PersonInput input \<Rightarrow> input \<noteq> zero_id \<and> pd_origin p = 2 \<and> pd_profile p \<in> {2, 3} \<and> pd_task_agent p = 0)"

definition policy_scopes_ok :: "policy_scope_result list \<Rightarrow> bool" where
  "policy_scopes_ok scopes \<longleftrightarrow> 1 \<le> length scopes \<and> length scopes \<le> MAX_POLICY_SCOPES \<and>
    successively (\<lambda>a b. sr_scope a < sr_scope b) scopes \<and>
    (\<forall>s\<in>set scopes. 1 \<le> sr_scope s \<and> sr_scope s \<le> 4 \<and> sr_error s \<le> 4 \<and> (sr_error s = 0 \<or> \<not> sr_allow s) \<and>
      length (sr_rules s) \<le> MAX_POLICY_RULES \<and> (\<forall>r\<in>set (sr_rules s). valid_policy_rule r))"

definition policy_outcome_ok :: "policy_decision \<Rightarrow> bool" where
  "policy_outcome_ok p = (case pd_outcome p of
      PolicyRun \<Rightarrow> (\<forall>s\<in>set (pd_scopes p). sr_allow s) \<and> pd_primary_scope p = 0 \<and>
        (pd_constraint_digest p \<noteq> None \<longleftrightarrow> is_ModelCall (pd_subject p))
    | _ \<Rightarrow> pd_constraint_digest p = None \<and>
        (pd_primary_scope p = 0 \<or> (\<exists>s\<in>set (pd_scopes p). sr_scope s = pd_primary_scope p \<and> \<not> sr_allow s)))"

definition policy_decision_validate :: "policy_decision \<Rightarrow> unit result" where
  "policy_decision_validate p = require (policy_subject_ok p \<and> 1 \<le> pd_action p \<and> pd_action p \<le> 11 \<and>
    1 \<le> pd_origin p \<and> pd_origin p \<le> 3 \<and> 1 \<le> pd_profile p \<and> pd_profile p \<le> 3 \<and>
    pd_project p \<noteq> zero_id \<and> pd_task_conversation p \<noteq> zero_id \<and> 1 \<le> pd_revision_seq p \<and>
    pd_primary_scope p \<le> 4 \<and> valid_policy_reason (pd_reason p) \<and> policy_scopes_ok (pd_scopes p) \<and>
    policy_outcome_ok p)"

definition policy_call :: "policy_decision \<Rightarrow> (id16 \<times> u64 \<times> u32) option" where
  "policy_call p = (case pd_subject p of
      ModelCall operation generation ordinal \<Rightarrow> Some (operation, generation, ordinal)
    | PersonInput _ \<Rightarrow> None)"

subsection \<open>Writing and reading a decision\<close>

fun w_subject :: "policy_subject \<Rightarrow> bytes" where
  "w_subject (ModelCall operation generation ordinal) = [1] @ operation @ be64 generation @ be32 ordinal"
| "w_subject (PersonInput input) = [2] @ input"

definition rd_subject :: "(replay_error, policy_subject) reading" where
  "rd_subject = rbind rd_byte (\<lambda>code.
    if code = 1 then rbind rd_id (\<lambda>operation. rbind rd_u64 (\<lambda>generation. rbind rd_u32 (\<lambda>ordinal.
      rreturn (ModelCall operation generation ordinal))))
    else if code = 2 then rbind rd_id (\<lambda>input. rreturn (PersonInput input))
    else rfail Corrupt)"

definition w_scope_result :: "policy_scope_result \<Rightarrow> bytes result" where
  "w_scope_result s = w_all
    [w_byte (sr_scope s), w_bytes (w_flag (sr_allow s)), w_byte (sr_error s),
     w_byte (of_nat (length (sr_rules s))), w_all (map (w_string MAX_POLICY_RULE) (sr_rules s))]"

definition rd_scope_result :: "(replay_error, policy_scope_result) reading" where
  "rd_scope_result = rbind rd_byte (\<lambda>scope. rbind rd_flag (\<lambda>allow. rbind rd_byte (\<lambda>error.
    rbind (rd_counted8 0 MAX_POLICY_RULES (rd_bounded_string MAX_POLICY_RULE)) (\<lambda>rules.
    rreturn \<lparr>sr_scope = scope, sr_allow = allow, sr_error = error, sr_rules = rules\<rparr>))))"

definition policy_decision_fields :: "policy_decision \<Rightarrow> bytes result" where
  "policy_decision_fields p = w_all
    [w_bytes (w_subject (pd_subject p)), w_byte (pd_action p), w_byte (pd_origin p), w_byte (pd_profile p),
     w_bytes (pd_project p), w_bytes (pd_task_conversation p), w_u32 (pd_task_agent p),
     w_bytes (pd_resource_digest p), w_bytes (pd_request_digest p), w_bytes (w_option_hash (pd_intent_digest p)),
     w_u64 (pd_revision_seq p), w_bytes (pd_revision_digest p), w_byte (of_nat (length (pd_scopes p))),
     w_all (map w_scope_result (pd_scopes p)), w_byte (policy_outcome_code (pd_outcome p)),
     w_byte (pd_primary_scope p), w_string MAX_POLICY_REASON (pd_reason p),
     w_bytes (w_option_hash (pd_constraint_digest p)), w_u64 (pd_now_ms p)]"

definition write_policy_decision :: "policy_decision \<Rightarrow> bytes result" where
  "write_policy_decision p = result_bind (policy_decision_validate p) (\<lambda>_.
    result_bind (policy_decision_fields p) (\<lambda>bs.
    if length bs > MAX_POLICY_DECISION_PAYLOAD then Inl Limit else Inr bs))"

definition read_policy_decision :: "(replay_error, policy_decision) reading" where
  "read_policy_decision = rbind rd_subject (\<lambda>subject. rbind rd_byte (\<lambda>action. rbind rd_byte (\<lambda>origin.
    rbind rd_byte (\<lambda>profile. rbind rd_id (\<lambda>project. rbind rd_id (\<lambda>task_conversation. rbind rd_u32 (\<lambda>task_agent.
    rbind rd_hash (\<lambda>resource_digest. rbind rd_hash (\<lambda>request_digest. rbind read_option_hash (\<lambda>intent_digest.
    rbind rd_u64 (\<lambda>revision_seq. rbind rd_hash (\<lambda>revision_digest.
    rbind (rd_counted8 1 MAX_POLICY_SCOPES rd_scope_result) (\<lambda>scopes.
    rbind (rd_coded policy_outcome_from_code) (\<lambda>outcome. rbind rd_byte (\<lambda>primary_scope.
    rbind (rd_bounded_string MAX_POLICY_REASON) (\<lambda>reason. rbind read_option_hash (\<lambda>constraint_digest.
    rbind rd_u64 (\<lambda>now_ms.
    let v = \<lparr>pd_subject = subject, pd_action = action, pd_origin = origin, pd_profile = profile,
      pd_project = project, pd_task_conversation = task_conversation, pd_task_agent = task_agent,
      pd_resource_digest = resource_digest, pd_request_digest = request_digest,
      pd_intent_digest = intent_digest, pd_revision_seq = revision_seq, pd_revision_digest = revision_digest,
      pd_scopes = scopes, pd_outcome = outcome, pd_primary_scope = primary_scope, pd_reason = reason,
      pd_constraint_digest = constraint_digest, pd_now_ms = now_ms\<rparr> in
    rbind (rlift (policy_decision_validate v)) (\<lambda>_. rreturn v)))))))))))))))))))"

subsection \<open>Contracts of the decision fields\<close>

fun wf_subject :: "policy_subject \<Rightarrow> bool" where
  "wf_subject (ModelCall operation generation ordinal) \<longleftrightarrow> is_id operation"
| "wf_subject (PersonInput input) \<longleftrightarrow> is_id input"

lemma codec_subject: "codec rd_subject w_subject wf_subject"
proof (rule codecI, goal_cases)
  case (1 pre rest v r')
  then show ?case by (auto simp: rd_subject_def parse if_reading)
next
  case (2 pre post v)
  then show ?case by (cases v) (auto simp: rd_subject_def run)
qed

interpretation policy_subject: codec rd_subject w_subject wf_subject
  by (rule codec_subject)

definition wf_scope_result :: "policy_scope_result \<Rightarrow> bool" where
  "wf_scope_result s \<longleftrightarrow> length (sr_rules s) \<le> MAX_POLICY_RULES \<and> (\<forall>r\<in>set (sr_rules s). utf8_valid r)"

lemma str32_list: "concat (map (\<lambda>s. projr (w_string n s)) xs) = concat (map str32 xs)"
  if "\<forall>s\<in>set xs. length s \<le> n"
  using that by (induction xs) (auto simp: w_string_def)

lemmas rules_codec = codec_counted8 [OF codec_bounded_string [of MAX_POLICY_RULE, simplified], of MAX_POLICY_RULES, simplified]

lemma scope_result_codec: "record_codec rd_scope_result w_scope_result wf_scope_result"
proof (rule record_codecI, goal_cases)
  case (1 pre rest v r')
  then show ?case
    by (auto simp: rd_scope_result_def w_scope_result_def wf_scope_result_def parse
        codec.bind_exact [OF rules_codec] write_simps w_all_map_eq_Inr str32_list)
next
  case (2 pre post v bs)
  then show ?case
    by (cases v) (auto simp: rd_scope_result_def w_scope_result_def wf_scope_result_def run
        codec.bind_run [OF rules_codec, simplified] write_simps w_all_map_eq_Inr str32_list)
qed

interpretation scope_result: record_codec rd_scope_result w_scope_result wf_scope_result
  by (rule scope_result_codec)

lemmas scopes_codec = codec_counted8 [OF scope_result.codec_written, of MAX_POLICY_SCOPES 1, simplified]

definition wf_policy_decision :: "policy_decision \<Rightarrow> bool" where
  "wf_policy_decision p \<longleftrightarrow> wf_subject (pd_subject p) \<and> is_id (pd_project p) \<and> is_id (pd_task_conversation p) \<and>
    is_hash (pd_resource_digest p) \<and> is_hash (pd_request_digest p) \<and> wf_option_hash (pd_intent_digest p) \<and>
    is_hash (pd_revision_digest p) \<and> wf_option_hash (pd_constraint_digest p)"

definition checked_policy_decision :: "policy_decision \<Rightarrow> bytes result" where
  "checked_policy_decision p = result_bind (policy_decision_validate p) (\<lambda>_. policy_decision_fields p)"

lemma policy_decision_validD:
  assumes "policy_decision_validate p = Inr ()"
  shows "1 \<le> length (pd_scopes p)" "length (pd_scopes p) \<le> MAX_POLICY_SCOPES"
    "\<forall>s\<in>set (pd_scopes p). wf_scope_result s"
    "utf8_valid (pd_reason p)" "length (pd_reason p) \<le> MAX_POLICY_REASON"
  using assms
  by (auto simp: policy_decision_validate_def policy_scopes_ok_def wf_scope_result_def
      policy_text_utf8 policy_text_length)

lemmas decision_parse = policy_subject.bind_exact option_hash.bind_exact
  policy_outcome.coded.bind_exact [simplified] codec.bind_exact [OF scopes_codec, simplified]

lemmas decision_run = policy_subject.bind_run option_hash.bind_run
  policy_outcome.coded.bind_run [simplified] codec.bind_run [OF scopes_codec, simplified]

lemma policy_decision_codec: "record_codec read_policy_decision checked_policy_decision wf_policy_decision"
proof (rule record_codecI, goal_cases)
  case (1 pre rest v r')
  then show ?case
    by (simp add: read_policy_decision_def parse decision_parse Let_def lift_parse)
      (elim exE conjE, simp add: checked_policy_decision_def policy_decision_fields_def wf_policy_decision_def
        write_simps w_all_map_eq_Inr)
next
  case (2 pre post v bs)
  from 2(2) have valid: "policy_decision_validate v = Inr ()" and bs: "policy_decision_fields v = Inr bs"
    by (auto simp: checked_policy_decision_def result_bind_eq_Inr)
  show ?case
    using 2(1) valid bs policy_decision_validD [OF valid]
    by (cases v) (auto simp: read_policy_decision_def policy_decision_fields_def wf_policy_decision_def
        write_simps w_all_map_eq_Inr run decision_run Let_def)
qed

interpretation policy_decision: record_codec read_policy_decision checked_policy_decision wf_policy_decision
  by (rule policy_decision_codec)

lemma write_policy_decision_eq_Inr:
  "write_policy_decision p = Inr bs \<longleftrightarrow>
    checked_policy_decision p = Inr bs \<and> length bs \<le> MAX_POLICY_DECISION_PAYLOAD"
  by (cases "policy_decision_validate p"; cases "policy_decision_fields p")
    (auto simp: write_policy_decision_def checked_policy_decision_def)

subsection \<open>Revisions\<close>

datatype policy_revision_event = Activated | Superseded | Revoked | Rejected

fun revision_event_code :: "policy_revision_event \<Rightarrow> u8" where
  "revision_event_code Activated = 1"
| "revision_event_code Superseded = 2"
| "revision_event_code Revoked = 3"
| "revision_event_code Rejected = 4"

definition revision_event_from_code :: "u8 \<Rightarrow> policy_revision_event option" where
  "revision_event_from_code code = map_of [(1, Activated), (2, Superseded), (3, Revoked), (4, Rejected)] code"

interpretation revision_event: code_table revision_event_code revision_event_from_code
proof
  show "revision_event_from_code b = Some v \<longleftrightarrow> b = revision_event_code v" for b v
    by (cases v) (auto simp: revision_event_from_code_def)
qed

record policy_scope_set =
  ss_scope :: u8
  ss_project :: "id16 option"
  ss_text_digest :: hash32
  ss_source :: bytes
  ss_policy_ids :: "bytes list"

record policy_revision =
  pv_seq :: u64
  pv_digest :: hash32
  pv_previous_seq :: u64
  pv_event :: policy_revision_event
  pv_schema_digest :: hash32
  pv_cedar_lang :: bytes
  pv_cedar_sdk :: bytes
  pv_solver_digest :: "hash32 option"
  pv_admission_digest :: "hash32 option"
  pv_scopes :: "policy_scope_set list"

text \<open>The order of Rust's \<open>Option\<close> and of pairs.\<close>

fun option_less :: "bytes option \<Rightarrow> bytes option \<Rightarrow> bool" where
  "option_less None (Some _) = True"
| "option_less (Some x) (Some y) = (x < y)"
| "option_less _ None = False"

definition scope_set_less :: "policy_scope_set \<Rightarrow> policy_scope_set \<Rightarrow> bool" where
  "scope_set_less a b \<longleftrightarrow> ss_scope a < ss_scope b \<or>
    ss_scope a = ss_scope b \<and> option_less (ss_project a) (ss_project b)"

definition policy_sets_ok :: "policy_scope_set list \<Rightarrow> bool" where
  "policy_sets_ok scopes \<longleftrightarrow> 1 \<le> length scopes \<and> length scopes \<le> MAX_POLICY_SCOPES \<and>
    successively scope_set_less scopes \<and>
    (\<forall>s\<in>set scopes. 1 \<le> ss_scope s \<and> ss_scope s \<le> 4 \<and> (ss_project s \<noteq> None \<longleftrightarrow> ss_scope s \<in> {3, 4}) \<and>
      ss_project s \<noteq> Some zero_id \<and> valid_policy_id (ss_source s) \<and>
      length (ss_policy_ids s) \<le> MAX_POLICY_IDS \<and> (\<forall>i\<in>set (ss_policy_ids s). valid_policy_id i))"

definition policy_revision_validate :: "policy_revision \<Rightarrow> unit result" where
  "policy_revision_validate p = require (1 \<le> pv_seq p \<and> pv_previous_seq p < pv_seq p \<and>
    valid_version (pv_cedar_lang p) \<and> valid_version (pv_cedar_sdk p) \<and> policy_sets_ok (pv_scopes p))"

definition w_scope_set :: "policy_scope_set \<Rightarrow> bytes result" where
  "w_scope_set s = w_all
    [w_byte (ss_scope s), w_bytes (w_optional (ss_project s)), w_bytes (ss_text_digest s),
     w_string MAX_POLICY_ID (ss_source s), w_u16 (of_nat (length (ss_policy_ids s))),
     w_all (map (w_string MAX_POLICY_ID) (ss_policy_ids s))]"

definition rd_scope_set :: "(replay_error, policy_scope_set) reading" where
  "rd_scope_set = rbind rd_byte (\<lambda>scope. rbind rd_optional (\<lambda>project. rbind rd_hash (\<lambda>text_digest.
    rbind (rd_bounded_string MAX_POLICY_ID) (\<lambda>source.
    rbind (rd_counted16 MAX_POLICY_IDS (rd_bounded_string MAX_POLICY_ID)) (\<lambda>policy_ids.
    rreturn \<lparr>ss_scope = scope, ss_project = project, ss_text_digest = text_digest, ss_source = source,
      ss_policy_ids = policy_ids\<rparr>)))))"

definition policy_revision_head :: "policy_revision \<Rightarrow> bytes result" where
  "policy_revision_head p = w_all
    [w_u64 (pv_seq p), w_bytes (pv_digest p), w_u64 (pv_previous_seq p), w_byte (revision_event_code (pv_event p)),
     w_bytes (pv_schema_digest p), w_string MAX_POLICY_VERSION (pv_cedar_lang p),
     w_string MAX_POLICY_VERSION (pv_cedar_sdk p), w_bytes (w_option_hash (pv_solver_digest p)),
     w_bytes (w_option_hash (pv_admission_digest p)), w_byte (of_nat (length (pv_scopes p)))]"

text \<open>The payload bound is checked after each scope set.\<close>

fun w_scope_sets :: "bytes \<Rightarrow> policy_scope_set list \<Rightarrow> bytes result" where
  "w_scope_sets acc [] = (if length acc > MAX_POLICY_REVISION_PAYLOAD then Inl Limit else Inr acc)"
| "w_scope_sets acc (s # scopes) = result_bind (w_scope_set s) (\<lambda>b.
    if length (acc @ b) > MAX_POLICY_REVISION_PAYLOAD then Inl Limit else w_scope_sets (acc @ b) scopes)"

definition write_policy_revision :: "policy_revision \<Rightarrow> bytes result" where
  "write_policy_revision p = result_bind (policy_revision_validate p) (\<lambda>_.
    result_bind (policy_revision_head p) (\<lambda>head. w_scope_sets head (pv_scopes p)))"

definition read_policy_revision :: "(replay_error, policy_revision) reading" where
  "read_policy_revision = rbind rd_u64 (\<lambda>seq. rbind rd_hash (\<lambda>digest. rbind rd_u64 (\<lambda>previous_seq.
    rbind (rd_coded revision_event_from_code) (\<lambda>event. rbind rd_hash (\<lambda>schema_digest.
    rbind (rd_bounded_string MAX_POLICY_VERSION) (\<lambda>cedar_lang.
    rbind (rd_bounded_string MAX_POLICY_VERSION) (\<lambda>cedar_sdk. rbind read_option_hash (\<lambda>solver_digest.
    rbind read_option_hash (\<lambda>admission_digest. rbind (rd_counted8 1 MAX_POLICY_SCOPES rd_scope_set) (\<lambda>scopes.
    let v = \<lparr>pv_seq = seq, pv_digest = digest, pv_previous_seq = previous_seq, pv_event = event,
      pv_schema_digest = schema_digest, pv_cedar_lang = cedar_lang, pv_cedar_sdk = cedar_sdk,
      pv_solver_digest = solver_digest, pv_admission_digest = admission_digest, pv_scopes = scopes\<rparr> in
    rbind (rlift (policy_revision_validate v)) (\<lambda>_. rreturn v)))))))))))"

subsection \<open>Contracts of the revision\<close>

definition wf_scope_set :: "policy_scope_set \<Rightarrow> bool" where
  "wf_scope_set s \<longleftrightarrow> wf_optional (ss_project s) \<and> is_hash (ss_text_digest s) \<and> utf8_valid (ss_source s) \<and>
    length (ss_policy_ids s) \<le> MAX_POLICY_IDS \<and> (\<forall>i\<in>set (ss_policy_ids s). utf8_valid i)"

lemmas ids_codec = codec_counted16 [OF codec_bounded_string [of MAX_POLICY_ID, simplified], of MAX_POLICY_IDS, simplified]

lemma scope_set_codec: "record_codec rd_scope_set w_scope_set wf_scope_set"
proof (rule record_codecI, goal_cases)
  case (1 pre rest v r')
  then show ?case
    by (auto simp: rd_scope_set_def w_scope_set_def wf_scope_set_def parse
        codec.bind_exact [OF ids_codec, simplified] write_simps w_all_map_eq_Inr str32_list)
next
  case (2 pre post v bs)
  then show ?case
    by (cases v) (auto simp: rd_scope_set_def w_scope_set_def wf_scope_set_def run
        codec.bind_run [OF ids_codec, simplified] write_simps w_all_map_eq_Inr str32_list)
qed

interpretation scope_set: record_codec rd_scope_set w_scope_set wf_scope_set
  by (rule scope_set_codec)

lemmas sets_codec = codec_counted8 [OF scope_set.codec_written, of MAX_POLICY_SCOPES 1, simplified]

definition wf_policy_revision :: "policy_revision \<Rightarrow> bool" where
  "wf_policy_revision p \<longleftrightarrow> is_hash (pv_digest p) \<and> is_hash (pv_schema_digest p) \<and>
    wf_option_hash (pv_solver_digest p) \<and> wf_option_hash (pv_admission_digest p) \<and>
    (\<forall>s\<in>set (pv_scopes p). wf_optional (ss_project s) \<and> is_hash (ss_text_digest s))"

definition checked_policy_revision :: "policy_revision \<Rightarrow> bytes result" where
  "checked_policy_revision p = result_bind (policy_revision_validate p) (\<lambda>_.
    w_all [policy_revision_head p, w_all (map w_scope_set (pv_scopes p))])"

lemma policy_revision_validD:
  assumes "policy_revision_validate p = Inr ()"
  shows "1 \<le> length (pv_scopes p)" "length (pv_scopes p) \<le> MAX_POLICY_SCOPES"
    "utf8_valid (pv_cedar_lang p)" "utf8_valid (pv_cedar_sdk p)"
    "wf_policy_revision p \<Longrightarrow> \<forall>s\<in>set (pv_scopes p). wf_scope_set s"
  using assms
  by (auto simp: policy_revision_validate_def policy_sets_ok_def wf_scope_set_def wf_policy_revision_def
      policy_text_utf8 policy_text_length)

lemmas revision_parse = option_hash.bind_exact revision_event.coded.bind_exact [simplified]
  codec.bind_exact [OF sets_codec, simplified]

lemmas revision_run = option_hash.bind_run revision_event.coded.bind_run [simplified]
  codec.bind_run [OF sets_codec, simplified]

lemma policy_revision_codec: "record_codec read_policy_revision checked_policy_revision wf_policy_revision"
proof (rule record_codecI, goal_cases)
  case (1 pre rest v r')
  then show ?case
    by (simp add: read_policy_revision_def parse revision_parse Let_def lift_parse)
      (elim exE conjE, simp add: checked_policy_revision_def policy_revision_head_def wf_policy_revision_def
        wf_scope_set_def write_simps w_all_map_eq_Inr)
next
  case (2 pre post v bs)
  from 2(2) have valid: "policy_revision_validate v = Inr ()"
    and bs: "w_all [policy_revision_head v, w_all (map w_scope_set (pv_scopes v))] = Inr bs"
    by (auto simp: checked_policy_revision_def result_bind_eq_Inr)
  show ?case
    using 2(1) valid bs policy_revision_validD(1-4) [OF valid] policy_revision_validD(5) [OF valid 2(1)]
    by (cases v) (auto simp: read_policy_revision_def policy_revision_head_def wf_policy_revision_def
        write_simps w_all_map_eq_Inr run revision_run Let_def)
qed

interpretation policy_revision: record_codec read_policy_revision checked_policy_revision wf_policy_revision
  by (rule policy_revision_codec)

text \<open>The bound in the loop only decides earlier what the bound at the end decides.\<close>

lemma w_scope_sets_eq_Inr:
  "w_scope_sets acc scopes = Inr bs \<longleftrightarrow>
    (\<exists>b. w_all (map w_scope_set scopes) = Inr b \<and> bs = acc @ b \<and> length bs \<le> MAX_POLICY_REVISION_PAYLOAD)"
proof (induction acc scopes arbitrary: bs rule: w_scope_sets.induct)
  case (2 acc s scopes)
  then show ?case by (cases "w_scope_set s") (auto simp: write_simps)
qed auto

lemma write_policy_revision_eq_Inr:
  "write_policy_revision p = Inr bs \<longleftrightarrow>
    checked_policy_revision p = Inr bs \<and> length bs \<le> MAX_POLICY_REVISION_PAYLOAD"
  by (cases "policy_revision_validate p"; cases "policy_revision_head p")
    (auto simp: write_policy_revision_def checked_policy_revision_def w_scope_sets_eq_Inr write_simps)

end
