(* ===== verification/JobSettlement.thy ===== *)
theory JobSettlement
  imports Jobs
begin

section \<open>Settled jobs (kind 28)\<close>

text \<open>
  \<open>JobSettled\<close> with its capture streams: the structs of \<open>authority/conversation/types.rs\<close>,
  \<open>valid_stream\<close>, \<open>valid_capture\<close>, \<open>valid_exit\<close>, \<open>JobSettled::validate\<close>, \<open>job_settled_fields\<close>,
  \<open>read_job_settled\<close>, \<open>write_stream\<close> and \<open>read_stream\<close> of \<open>authority/conversation/codec.rs\<close>, and
  \<open>LossSpan\<close> of \<open>asura-platform/src/secrets/stream.rs\<close>.
\<close>

abbreviation MAX_CAPTURE_SPANS :: u64 where "MAX_CAPTURE_SPANS \<equiv> 64"
abbreviation MAX_CAPTURE_NUMBER :: u16 where "MAX_CAPTURE_NUMBER \<equiv> 16384"
abbreviation MAX_CAPTURE_NUMBERS :: nat where "MAX_CAPTURE_NUMBERS \<equiv> 256"
abbreviation MIB :: nat where "MIB \<equiv> 1048576"
abbreviation MAX_JOB_SETTLED_PAYLOAD :: nat where "MAX_JOB_SETTLED_PAYLOAD \<equiv> 4094"

subsection \<open>Capture streams\<close>

record loss_span =
  ls_stored_offset :: u64
  ls_withheld_bytes :: u64
  ls_reason :: loss_reason

record capture_stream =
  cs_observed_bytes :: u64
  cs_stored_bytes :: u64
  cs_digest :: "hash32 option"
  cs_replacements :: u64
  cs_unnumbered_replacements :: u64
  cs_literal_replacements :: u64
  cs_kinds :: "(secret_kind \<times> u64) list"
  cs_loss_span_count :: u64
  cs_withheld_bytes :: u64
  cs_spans :: "loss_span list"
  cs_degraded :: bool
  cs_discarded_bytes :: u64
  cs_eof :: bool

record capture_number =
  cn_number :: u16
  cn_kind :: secret_kind
  cn_origin :: number_origin

record job_stream =
  js_capture :: capture_stream
  js_lines :: u64

definition capture_stream_default :: capture_stream where
  "capture_stream_default = \<lparr>cs_observed_bytes = 0, cs_stored_bytes = 0, cs_digest = None, cs_replacements = 0,
    cs_unnumbered_replacements = 0, cs_literal_replacements = 0, cs_kinds = [], cs_loss_span_count = 0,
    cs_withheld_bytes = 0, cs_spans = [], cs_degraded = False, cs_discarded_bytes = 0, cs_eof = False\<rparr>"

definition job_stream_default :: job_stream where
  "job_stream_default = \<lparr>js_capture = capture_stream_default, js_lines = 0\<rparr>"

definition valid_stream :: "capture_stream \<Rightarrow> bool" where
  "valid_stream s \<longleftrightarrow> cs_unnumbered_replacements s \<le> cs_replacements s \<and>
    cs_literal_replacements s \<le> cs_replacements s \<and> length (cs_kinds s) \<le> length secret_kind_ALL \<and>
    (\<forall>k\<in>set (cs_kinds s). 0 < snd k) \<and>
    successively (\<lambda>a b. kind_code (fst a) < kind_code (fst b)) (cs_kinds s) \<and>
    length (cs_spans s) = unat (min (cs_loss_span_count s) MAX_CAPTURE_SPANS) \<and>
    (\<forall>span\<in>set (cs_spans s). ls_stored_offset span \<le> cs_stored_bytes s)"

definition w_span :: "loss_span \<Rightarrow> bytes" where
  "w_span span = be64 (ls_stored_offset span) @ be64 (ls_withheld_bytes span) @ [loss_code (ls_reason span)]"

definition w_spans :: "loss_span list \<Rightarrow> bytes" where
  "w_spans spans = [of_nat (length spans)] @ concat (map w_span spans)"

definition write_stream :: "capture_stream \<Rightarrow> bytes" where
  "write_stream s = be64 (cs_observed_bytes s) @ be64 (cs_stored_bytes s) @ w_flag (cs_digest s \<noteq> None) @
    (case cs_digest s of None \<Rightarrow> zero_hash | Some d \<Rightarrow> d) @ be64 (cs_replacements s) @
    be64 (cs_unnumbered_replacements s) @ be64 (cs_literal_replacements s) @
    [of_nat (length (cs_kinds s))] @ concat (map (\<lambda>(kind, count). [kind_code kind] @ be64 count) (cs_kinds s)) @
    be64 (cs_loss_span_count s) @ be64 (cs_withheld_bytes s) @
    w_spans (cs_spans s) @
    w_flag (cs_degraded s) @ be64 (cs_discarded_bytes s) @ w_flag (cs_eof s)"

definition rd_kind_count :: "(replay_error, secret_kind \<times> u64) reading" where
  "rd_kind_count = rbind (rd_coded kind_from) (\<lambda>kind. rbind rd_u64 (\<lambda>count. rreturn (kind, count)))"

definition rd_span :: "(replay_error, loss_span) reading" where
  "rd_span = rbind rd_u64 (\<lambda>offset. rbind rd_u64 (\<lambda>withheld. rbind (rd_coded loss_from) (\<lambda>reason.
    rreturn \<lparr>ls_stored_offset = offset, ls_withheld_bytes = withheld, ls_reason = reason\<rparr>)))"

definition rd_spans :: "u64 \<Rightarrow> (replay_error, loss_span list) reading" where
  "rd_spans loss_span_count = rbind rd_byte (\<lambda>count.
    rbind (rd_require (ucast count = min loss_span_count MAX_CAPTURE_SPANS)) (\<lambda>_. rd_times (unat count) rd_span))"

definition read_stream :: "(replay_error, capture_stream) reading" where
  "read_stream = rbind rd_u64 (\<lambda>observed_bytes. rbind rd_u64 (\<lambda>stored_bytes. rbind rd_flag (\<lambda>present.
    rbind rd_hash (\<lambda>digest. rbind (rd_require (present \<or> digest = zero_hash)) (\<lambda>_.
    rbind rd_u64 (\<lambda>replacements. rbind rd_u64 (\<lambda>unnumbered_replacements. rbind rd_u64 (\<lambda>literal_replacements.
    rbind (rd_counted8 0 33 rd_kind_count) (\<lambda>kinds. rbind rd_u64 (\<lambda>loss_span_count.
    rbind rd_u64 (\<lambda>withheld_bytes. rbind (rd_spans loss_span_count) (\<lambda>spans. rbind rd_flag (\<lambda>degraded.
    rbind rd_u64 (\<lambda>discarded_bytes. rbind rd_flag (\<lambda>eof.
    rreturn \<lparr>cs_observed_bytes = observed_bytes, cs_stored_bytes = stored_bytes,
      cs_digest = (if present then Some digest else None), cs_replacements = replacements,
      cs_unnumbered_replacements = unnumbered_replacements, cs_literal_replacements = literal_replacements,
      cs_kinds = kinds, cs_loss_span_count = loss_span_count, cs_withheld_bytes = withheld_bytes,
      cs_spans = spans, cs_degraded = degraded, cs_discarded_bytes = discarded_bytes, cs_eof = eof\<rparr>)))))))))))))))"

lemma length_secret_kind_ALL [simp]: "length secret_kind_ALL = 33"
  by (simp add: secret_kind_ALL_def)

lemma codec_kind_count: "codec rd_kind_count (\<lambda>(kind, count). [kind_code kind] @ be64 count) (\<lambda>_. True)"
proof (rule codecI, goal_cases)
  case (1 pre rest v r')
  then show ?case by (auto simp: rd_kind_count_def parse)
next
  case (2 pre post v)
  then show ?case by (cases v) (auto simp: rd_kind_count_def run)
qed

lemma codec_span: "codec rd_span w_span (\<lambda>_. True)"
proof (rule codecI, goal_cases)
  case (1 pre rest v r')
  then show ?case by (auto simp: rd_span_def w_span_def parse)
next
  case (2 pre post v)
  then show ?case by (cases v) (auto simp: rd_span_def w_span_def run)
qed

lemma min_spans: "unat (min n MAX_CAPTURE_SPANS) \<le> 64"
  by (simp add: min_def word_le_nat_alt)

lemma span_count: "ucast (b :: u8) = min n MAX_CAPTURE_SPANS \<longleftrightarrow> unat b = unat (min n MAX_CAPTURE_SPANS)"
proof -
  have "unat (ucast b :: u64) = unat b"
    using unat_u8_less [of b] by (simp add: unsigned_ucast_eq take_bit_nat_eq_self_iff)
  then show ?thesis by (metis word_unat_eq_iff)
qed

definition wf_spans :: "u64 \<Rightarrow> loss_span list \<Rightarrow> bool" where
  "wf_spans n spans \<longleftrightarrow> length spans = unat (min n MAX_CAPTURE_SPANS)"

lemma wf_spans_small: "wf_spans n spans \<Longrightarrow> length spans \<le> 64"
  using min_spans [of n] by (simp add: wf_spans_def)

lemma codec_spans: "codec (rd_spans n) w_spans (wf_spans n)"
proof (rule codecI, goal_cases)
  case (1 pre rest v r')
  then obtain x where x: "unat x = unat (min n MAX_CAPTURE_SPANS)" "length v = unat x"
    and at: "\<exists>post. rest = [x] @ concat (map w_span v) @ post \<and> r' = rd (pre @ [x] @ concat (map w_span v)) post"
    by (auto simp: rd_spans_def rbind_eq_Inr byte_field.exact span_count codec.exact [OF codec_times [OF codec_span]])
  then have "wf_spans n v" by (simp add: wf_spans_def)
  moreover from this have "x = of_nat (length v)"
    using length_byte [of v x] x(2) wf_spans_small [of n v] by linarith
  ultimately show ?case using at by (simp add: w_spans_def)
next
  case (2 pre post v)
  then have n: "unat (of_nat (length v) :: u8) = length v"
    using wf_spans_small [of n v] by (simp add: unat_of_nat)
  then have "rd_require (ucast (of_nat (length v) :: u8) = min n MAX_CAPTURE_SPANS) r = Inr ((), r)" for r
    using 2 by (simp add: span_count wf_spans_def)
  moreover have "rd_times (length v) rd_span (rd p (concat (map w_span v) @ post)) = Inr (v, rd (p @ concat (map w_span v)) post)" for p
    by (simp add: codec.exact [OF codec_times [OF codec_span]])
  ultimately show ?case
    by (simp add: rd_spans_def w_spans_def fixed_run rbind_Inr n)
qed

interpretation loss_spans: codec "rd_spans n" w_spans "wf_spans n" for n
  by (rule codec_spans)

definition wf_stream :: "capture_stream \<Rightarrow> bool" where
  "wf_stream s \<longleftrightarrow> (case cs_digest s of None \<Rightarrow> True | Some d \<Rightarrow> is_hash d) \<and> length (cs_kinds s) \<le> 33 \<and>
    wf_spans (cs_loss_span_count s) (cs_spans s)"

lemmas kind_counts_codec = codec_counted8 [OF codec_kind_count, of 33 0, simplified]

lemma codec_stream: "codec read_stream write_stream wf_stream"
proof (rule codecI, goal_cases)
  case (1 pre rest v r')
  then show ?case
    by (simp add: read_stream_def parse codec.bind_exact [OF kind_counts_codec] loss_spans.bind_exact)
      (elim exE conjE, auto simp: write_stream_def wf_stream_def)
next
  case (2 pre post v)
  then show ?case
    by (cases v; cases "cs_digest v") (auto simp: read_stream_def write_stream_def wf_stream_def run
        codec.bind_run [OF kind_counts_codec, simplified] loss_spans.bind_run)
qed

interpretation capture_stream: codec read_stream write_stream wf_stream
  by (rule codec_stream)

definition w_job_stream :: "job_stream \<Rightarrow> bytes" where
  "w_job_stream s = write_stream (js_capture s) @ be64 (js_lines s)"

definition rd_job_stream :: "(replay_error, job_stream) reading" where
  "rd_job_stream = rbind read_stream (\<lambda>capture. rbind rd_u64 (\<lambda>lines.
    rreturn \<lparr>js_capture = capture, js_lines = lines\<rparr>))"

lemma codec_job_stream: "codec rd_job_stream w_job_stream (\<lambda>s. wf_stream (js_capture s))"
proof (rule codecI, goal_cases)
  case (1 pre rest v r')
  then show ?case by (auto simp: rd_job_stream_def w_job_stream_def parse capture_stream.bind_exact)
next
  case (2 pre post v)
  then show ?case by (cases v) (auto simp: rd_job_stream_def w_job_stream_def run capture_stream.bind_run)
qed

interpretation job_stream: codec rd_job_stream w_job_stream "\<lambda>s. wf_stream (js_capture s)"
  by (rule codec_job_stream)

definition w_number :: "capture_number \<Rightarrow> bytes" where
  "w_number n = be16 (cn_number n) @ [kind_code (cn_kind n)] @ [origin_code (cn_origin n)]"

definition rd_number :: "(replay_error, capture_number) reading" where
  "rd_number = rbind rd_u16 (\<lambda>number. rbind (rd_coded kind_from) (\<lambda>kind. rbind (rd_coded origin_from) (\<lambda>origin.
    rreturn \<lparr>cn_number = number, cn_kind = kind, cn_origin = origin\<rparr>)))"

lemma codec_number: "codec rd_number w_number (\<lambda>_. True)"
proof (rule codecI, goal_cases)
  case (1 pre rest v r')
  then show ?case by (auto simp: rd_number_def w_number_def parse)
next
  case (2 pre post v)
  then show ?case by (cases v) (auto simp: rd_number_def w_number_def run)
qed

lemmas numbers_codec = codec_counted16 [OF codec_number, of MAX_CAPTURE_NUMBERS, simplified]

subsection \<open>The record\<close>

record job_settled =
  st_job :: id16
  st_outcome :: job_outcome
  st_reason :: job_reason
  st_exit_kind :: u8
  st_exit_value :: u32
  st_cleanup :: job_cleanup
  st_unconfirmed_reason :: u8
  st_escapees :: u32
  st_elapsed_ms :: u64
  st_capture_state :: job_capture_state
  st_capture_reason :: capture_reason
  st_stdout :: job_stream
  st_stderr :: job_stream
  st_distinct_numbers :: u32
  st_numbers :: "capture_number list"
  st_pause_count :: u32
  st_first_pause_ms :: u64
  st_paused_ms :: u64
  st_final_reservation :: u64
  st_settled_time :: u64

definition job_settled_interrupted :: "id16 \<Rightarrow> u64 \<Rightarrow> job_settled" where
  "job_settled_interrupted job settled_time = \<lparr>st_job = job, st_outcome = JO_Interrupted, st_reason = JR_Restart,
    st_exit_kind = 0, st_exit_value = 0, st_cleanup = JC_None, st_unconfirmed_reason = 0, st_escapees = 0,
    st_elapsed_ms = 0, st_capture_state = JCS_Interrupted, st_capture_reason = CR_None,
    st_stdout = job_stream_default, st_stderr = job_stream_default, st_distinct_numbers = 0, st_numbers = [],
    st_pause_count = 0, st_first_pause_ms = 0, st_paused_ms = 0, st_final_reservation = 0,
    st_settled_time = settled_time\<rparr>"

definition valid_exit :: "u8 \<Rightarrow> u32 \<Rightarrow> bool" where
  "valid_exit kind code = (if kind = 0 then code = 0 else if kind = 1 then code \<le> 255
    else if kind = 2 then 1 \<le> code \<and> code \<le> 127 else False)"

text \<open>\<open>valid_capture\<close> reads the facts of the record and the capture state, which is one of the four of kind 23.\<close>

definition capture_state_ok :: "capture_state \<Rightarrow> job_settled \<Rightarrow> bool" where
  "capture_state_ok state p = (let streams = [js_capture (st_stdout p), js_capture (st_stderr p)];
      digests = (\<forall>s\<in>set streams. cs_digest s \<noteq> None);
      no_digest = (\<forall>s\<in>set streams. cs_digest s = None)
    in case state of
        CS_Complete \<Rightarrow> st_capture_reason p = CR_None \<and> digests \<and>
          (\<forall>s\<in>set streams. cs_eof s \<and> cs_discarded_bytes s = 0)
      | CS_Incomplete \<Rightarrow> st_capture_reason p \<notin> {CR_None, CR_SettlementUnconfirmed} \<and> digests
      | CS_Unconfirmed \<Rightarrow> st_capture_reason p = CR_SettlementUnconfirmed \<and> no_digest
      | CS_NotStarted \<Rightarrow> st_capture_reason p \<in> {CR_None, CR_StorageFault} \<and> st_exit_kind p = 0 \<and> no_digest \<and>
          (\<forall>s\<in>set streams. cs_observed_bytes s = 0 \<and> cs_stored_bytes s = 0))"

definition valid_capture :: "capture_state \<Rightarrow> job_settled \<Rightarrow> bool" where
  "valid_capture state p \<longleftrightarrow> capture_state_ok state p \<and> valid_exit (st_exit_kind p) (st_exit_value p) \<and>
    (\<forall>s\<in>set [js_capture (st_stdout p), js_capture (st_stderr p)]. valid_stream s) \<and>
    st_distinct_numbers p \<le> ucast MAX_CAPTURE_NUMBER \<and> length (st_numbers p) \<le> MAX_CAPTURE_NUMBERS \<and>
    length (st_numbers p) \<le> unat (st_distinct_numbers p) \<and>
    (\<forall>n\<in>set (st_numbers p). 1 \<le> cn_number n \<and> cn_number n \<le> MAX_CAPTURE_NUMBER) \<and>
    successively (\<lambda>a b. cn_number a < cn_number b) (st_numbers p) \<and> unat (st_final_reservation p) mod MIB = 0"

definition settled_exit :: "job_settled \<Rightarrow> bool" where
  "settled_exit p \<longleftrightarrow> (case st_outcome p of
      JO_Exited \<Rightarrow> st_exit_kind p = 1
    | JO_Signalled \<Rightarrow> st_exit_kind p = 2
    | JO_Cancelled \<Rightarrow> st_exit_kind p \<in> {1, 2}
    | _ \<Rightarrow> st_exit_kind p = 0) \<and> valid_exit (st_exit_kind p) (st_exit_value p)"

definition settled_process :: "job_settled \<Rightarrow> bool" where
  "settled_process p \<longleftrightarrow> st_outcome p \<in> {JO_Exited, JO_Signalled, JO_Cancelled}"

definition settled_cleanup :: "job_settled \<Rightarrow> bool" where
  "settled_cleanup p \<longleftrightarrow>
    (if settled_process p then st_cleanup p \<noteq> JC_None
     else st_cleanup p = JC_None \<and> st_escapees p = 0 \<and> st_elapsed_ms p = 0) \<and>
    (if st_cleanup p = JC_Late then st_unconfirmed_reason p \<in> {9, 13} else st_unconfirmed_reason p = 0) \<and>
    (st_cleanup p \<noteq> JC_None \<or> st_escapees p = 0)"

definition settled_capture :: "job_settled \<Rightarrow> bool" where
  "settled_capture p = (case (st_outcome p, capture_of (st_capture_state p)) of
      (JO_Interrupted, None) \<Rightarrow> st_capture_reason p = CR_None \<and> st_stdout p = job_stream_default \<and>
        st_stderr p = job_stream_default \<and> st_distinct_numbers p = 0 \<and> st_numbers p = [] \<and>
        st_pause_count p = 0 \<and> st_first_pause_ms p = 0 \<and> st_paused_ms p = 0 \<and> st_final_reservation p = 0
    | (outcome, Some state) \<Rightarrow>
        (outcome = JO_NotStarted \<and> state = CS_NotStarted \<or>
         outcome \<in> {JO_Exited, JO_Signalled, JO_Cancelled} \<and> state \<in> {CS_Complete, CS_Incomplete, CS_Unconfirmed}) \<and>
        valid_capture state p
    | _ \<Rightarrow> False)"

definition settled_closed :: "job_settled \<Rightarrow> bool" where
  "settled_closed p \<longleftrightarrow> st_capture_reason p \<noteq> CR_ClosedAfterCancel \<or>
    st_outcome p \<in> {JO_Exited, JO_Signalled} \<and> st_reason p \<noteq> JR_None \<and> st_capture_state p = JCS_Incomplete"

definition job_settled_validate :: "job_settled \<Rightarrow> unit result" where
  "job_settled_validate p = require (st_job p \<noteq> zero_id \<and> reason_allows (st_reason p) (st_outcome p) \<and>
    settled_exit p \<and> settled_cleanup p \<and>
    (\<forall>s\<in>set [st_stdout p, st_stderr p]. js_lines s \<le> cs_stored_bytes (js_capture s)) \<and>
    settled_capture p \<and> settled_closed p)"

definition job_settled_fields :: "job_settled \<Rightarrow> bytes" where
  "job_settled_fields p = st_job p @ [job_outcome_code (st_outcome p)] @ [job_reason_code (st_reason p)] @
    [st_exit_kind p] @ be32 (st_exit_value p) @ [job_cleanup_code (st_cleanup p)] @ [st_unconfirmed_reason p] @
    be32 (st_escapees p) @ be64 (st_elapsed_ms p) @ [job_capture_state_code (st_capture_state p)] @
    [capture_reason_code (st_capture_reason p)] @ w_flag (st_capture_state p \<noteq> JCS_Interrupted) @
    w_job_stream (st_stdout p) @ w_job_stream (st_stderr p) @ be32 (st_distinct_numbers p) @
    be16 (of_nat (length (st_numbers p))) @ concat (map w_number (st_numbers p)) @ be32 (st_pause_count p) @
    be64 (st_first_pause_ms p) @ be64 (st_paused_ms p) @ be64 (st_final_reservation p) @ be64 (st_settled_time p)"

definition job_settled_payload :: "job_settled \<Rightarrow> bytes result" where
  "job_settled_payload p = result_bind (job_settled_validate p) (\<lambda>_. Inr (job_settled_fields p))"

definition read_job_settled :: "(replay_error, job_settled) reading" where
  "read_job_settled = rbind rd_id (\<lambda>job. rbind (rd_coded job_outcome_from_code) (\<lambda>outcome.
    rbind (rd_coded job_reason_from_code) (\<lambda>reason. rbind rd_byte (\<lambda>exit_kind. rbind rd_u32 (\<lambda>exit_value.
    rbind (rd_coded job_cleanup_from_code) (\<lambda>cleanup. rbind rd_byte (\<lambda>unconfirmed_reason. rbind rd_u32 (\<lambda>escapees.
    rbind rd_u64 (\<lambda>elapsed_ms. rbind (rd_coded job_capture_state_from_code) (\<lambda>capture_state.
    rbind (rd_coded capture_reason_from_code) (\<lambda>capture_reason. rbind rd_byte (\<lambda>ran.
    rbind (rd_require (ran = (if capture_state \<noteq> JCS_Interrupted then 1 else 0))) (\<lambda>_.
    rbind rd_job_stream (\<lambda>stdout. rbind rd_job_stream (\<lambda>stderr. rbind rd_u32 (\<lambda>distinct_numbers.
    rbind (rd_counted16 MAX_CAPTURE_NUMBERS rd_number) (\<lambda>numbers. rbind rd_u32 (\<lambda>pause_count.
    rbind rd_u64 (\<lambda>first_pause_ms. rbind rd_u64 (\<lambda>paused_ms. rbind rd_u64 (\<lambda>final_reservation.
    rbind rd_u64 (\<lambda>settled_time.
    let v = \<lparr>st_job = job, st_outcome = outcome, st_reason = reason, st_exit_kind = exit_kind,
      st_exit_value = exit_value, st_cleanup = cleanup, st_unconfirmed_reason = unconfirmed_reason,
      st_escapees = escapees, st_elapsed_ms = elapsed_ms, st_capture_state = capture_state,
      st_capture_reason = capture_reason, st_stdout = stdout, st_stderr = stderr,
      st_distinct_numbers = distinct_numbers, st_numbers = numbers, st_pause_count = pause_count,
      st_first_pause_ms = first_pause_ms, st_paused_ms = paused_ms, st_final_reservation = final_reservation,
      st_settled_time = settled_time\<rparr> in
    rbind (rlift (job_settled_validate v)) (\<lambda>_. rreturn v)))))))))))))))))))))))"

subsection \<open>The record contract\<close>

definition wf_job_settled :: "job_settled \<Rightarrow> bool" where
  "wf_job_settled p \<longleftrightarrow> is_id (st_job p) \<and>
    (\<forall>d. cs_digest (js_capture (st_stdout p)) = Some d \<longrightarrow> is_hash d) \<and>
    (\<forall>d. cs_digest (js_capture (st_stderr p)) = Some d \<longrightarrow> is_hash d)"

lemma valid_stream_wf: "valid_stream s \<Longrightarrow> (\<And>d. cs_digest s = Some d \<Longrightarrow> is_hash d) \<Longrightarrow> wf_stream s"
  by (auto simp: valid_stream_def wf_stream_def wf_spans_def split: option.splits)

lemma default_stream_wf: "wf_stream capture_stream_default"
  by (simp add: wf_stream_def wf_spans_def capture_stream_default_def)

lemma settled_capture_streams:
  assumes "settled_capture p"
  shows "length (st_numbers p) \<le> MAX_CAPTURE_NUMBERS"
    "wf_job_settled p \<Longrightarrow> wf_stream (js_capture (st_stdout p))"
    "wf_job_settled p \<Longrightarrow> wf_stream (js_capture (st_stderr p))"
proof -
  consider (interrupted) "st_stdout p = job_stream_default" "st_stderr p = job_stream_default" "st_numbers p = []"
    | (captured) state where "valid_capture state p"
    using assms by (auto simp: settled_capture_def split: option.splits job_outcome.splits)
  then show "length (st_numbers p) \<le> MAX_CAPTURE_NUMBERS"
    "wf_job_settled p \<Longrightarrow> wf_stream (js_capture (st_stdout p))"
    "wf_job_settled p \<Longrightarrow> wf_stream (js_capture (st_stderr p))"
    by (cases; auto simp: valid_capture_def default_stream_wf job_stream_default_def wf_job_settled_def
        intro: valid_stream_wf)+
qed

lemma job_settled_eta:
  "\<lparr>st_job = st_job v, st_outcome = st_outcome v, st_reason = st_reason v,
    st_exit_kind = st_exit_kind v, st_exit_value = st_exit_value v, st_cleanup = st_cleanup v,
    st_unconfirmed_reason = st_unconfirmed_reason v, st_escapees = st_escapees v,
    st_elapsed_ms = st_elapsed_ms v, st_capture_state = st_capture_state v,
    st_capture_reason = st_capture_reason v, st_stdout = st_stdout v, st_stderr = st_stderr v,
    st_distinct_numbers = st_distinct_numbers v, st_numbers = st_numbers v,
    st_pause_count = st_pause_count v, st_first_pause_ms = st_first_pause_ms v,
    st_paused_ms = st_paused_ms v, st_final_reservation = st_final_reservation v,
    st_settled_time = st_settled_time v\<rparr> = v"
  by (cases v) simp

lemma job_settled_codec: "record_codec read_job_settled job_settled_payload wf_job_settled"
proof (rule record_codecI, goal_cases)
  case (1 pre rest v r')
  then show ?case
    by (simp add: read_job_settled_def parse job_stream.bind_exact codec.bind_exact [OF numbers_codec]
        lift_parse Let_def)
      (elim exE conjE, auto simp: job_settled_payload_def job_settled_fields_def wf_job_settled_def w_flag_def
        wf_stream_def)
next
  case (2 pre post v bs)
  from 2(2) have valid: "job_settled_validate v = Inr ()" and bs: "bs = job_settled_fields v"
    by (auto simp: job_settled_payload_def result_bind_eq_Inr)
  then have capture: "settled_capture v" by (simp add: job_settled_validate_def)
  note facts = settled_capture_streams(1) [OF capture] settled_capture_streams(2,3) [OF capture 2(1)]
  show ?case
    using 2(1) valid facts unfolding bs wf_job_settled_def
    by (simp add: read_job_settled_def job_settled_fields_def run job_stream.bind_run w_flag_def
        codec.bind_run [OF numbers_codec, simplified] Let_def job_settled_eta)
qed

interpretation job_settled: record_codec read_job_settled job_settled_payload wf_job_settled
  by (rule job_settled_codec)

subsection \<open>The size of a settled job\<close>

lemma length_write_stream:
  assumes "wf_stream s"
  shows "length (write_stream s) \<le> 1486"
proof -
  have "length (case cs_digest s of None \<Rightarrow> zero_hash | Some d \<Rightarrow> d) = 32"
    using assms by (auto simp: wf_stream_def split: option.splits)
  moreover have "length (concat (map (\<lambda>(kind, count). [kind_code kind] @ be64 count) (cs_kinds s))) = 9 * length (cs_kinds s)"
    by (rule length_concat_const) auto
  moreover have "length (concat (map w_span (cs_spans s))) = 17 * length (cs_spans s)"
    by (rule length_concat_const) (simp add: w_span_def)
  moreover have "length (cs_kinds s) \<le> 33" "length (cs_spans s) \<le> 64"
    using assms wf_spans_small by (auto simp: wf_stream_def)
  ultimately show ?thesis
    by (simp add: write_stream_def w_spans_def w_flag_def)
qed

lemma interrupted_valid:
  "job \<noteq> zero_id \<Longrightarrow> job_settled_validate (job_settled_interrupted job settled_time) = Inr ()"
  by (simp add: job_settled_validate_def job_settled_interrupted_def settled_exit_def valid_exit_def
      settled_cleanup_def settled_process_def settled_capture_def settled_closed_def job_stream_default_def
      capture_stream_default_def)

subsection \<open>Properties\<close>

text \<open>A written settlement fits the bound its reader enforces: the payload of a kind 28 record that
  \<open>JobSettled::validate\<close> accepts is at most \<open>MAX_JOB_SETTLED_PAYLOAD\<close> bytes.\<close>

lemma job_settled_payload_bound:
  assumes "wf_job_settled p" "job_settled_payload p = Inr bs"
  shows "length bs \<le> MAX_JOB_SETTLED_PAYLOAD"
proof -
  from assms(2) have valid: "job_settled_validate p = Inr ()" and bs: "bs = job_settled_fields p"
    by (auto simp: job_settled_payload_def result_bind_eq_Inr)
  then have capture: "settled_capture p" by (simp add: job_settled_validate_def)
  note facts = settled_capture_streams(1) [OF capture] settled_capture_streams(2,3) [OF capture assms(1)]
  have "length (concat (map w_number (st_numbers p))) = 4 * length (st_numbers p)"
    by (rule length_concat_const) (simp add: w_number_def)
  then show ?thesis
    using facts(1) length_write_stream [OF facts(2)] length_write_stream [OF facts(3)] assms(1)
    unfolding bs wf_job_settled_def by (simp add: job_settled_fields_def w_job_stream_def w_flag_def)
qed

end
