(* ===== verification/JobResults.thy ===== *)
theory JobResults
  imports Jobs
begin

section \<open>Results of job tool calls (kind 29)\<close>

text \<open>
  \<open>JobResult\<close>, its body forms and its view block: the structs of \<open>authority/conversation/types.rs\<close>, their
  rules, \<open>job_result_fields\<close> and \<open>read_job_result\<close> of \<open>authority/conversation/codec.rs\<close>. The body has no
  tag: the reader chooses the form by the number of bytes that are left, so the contract is one of whole
  payloads.
\<close>

abbreviation JOB_RESULT_FIXED :: nat where "JOB_RESULT_FIXED \<equiv> 46"
abbreviation MAX_JOB_LIST_ENTRIES :: nat where "MAX_JOB_LIST_ENTRIES \<equiv> 8"
abbreviation JOB_LIST_ENTRY :: nat where "JOB_LIST_ENTRY \<equiv> 37"
abbreviation JOB_STATE_BLOCK :: nat where "JOB_STATE_BLOCK \<equiv> 29"
abbreviation JOB_WAIT_BLOCK :: nat where "JOB_WAIT_BLOCK \<equiv> 30"
abbreviation JOB_PAGE_BLOCK :: nat where "JOB_PAGE_BLOCK \<equiv> 54"
abbreviation MAX_JOB_VIEW_RANGES :: nat where "MAX_JOB_VIEW_RANGES \<equiv> 3"
abbreviation MAX_JOB_PAGE :: u32 where "MAX_JOB_PAGE \<equiv> 8192"
abbreviation MAX_JOB_RESULT_PAYLOAD :: nat where "MAX_JOB_RESULT_PAYLOAD \<equiv> 344"

definition job_view_block :: "nat \<Rightarrow> nat" where
  "job_view_block ranges = 1 + ranges * JOB_PAGE_BLOCK"

subsection \<open>Blocks\<close>

record job_snapshot =
  sn_state :: job_run_state
  sn_numbers :: bytes
  sn_elapsed_ms :: u64
  sn_stdout_bytes :: u64
  sn_stderr_bytes :: u64

record job_page =
  pg_stream :: output_stream
  pg_start :: u64
  pg_source_len :: u32
  pg_total :: u64
  pg_state :: page_state
  pg_digest :: hash32

record job_list_entry =
  le_job :: id16
  le_state :: job_run_state
  le_numbers :: bytes
  le_stdout_bytes :: u64
  le_stderr_bytes :: u64

definition snapshot_valid :: "job_snapshot \<Rightarrow> bool" where
  "snapshot_valid s \<longleftrightarrow> allows_numbers (sn_state s) (sn_numbers s) \<and>
    (\<not> before_spawn (sn_state s) \<or> sn_elapsed_ms s = 0) \<and>
    (sn_state s \<noteq> RS_Settled \<or> sn_elapsed_ms s = 0 \<and> sn_stdout_bytes s = 0 \<and> sn_stderr_bytes s = 0)"

definition list_entry_valid :: "job_list_entry \<Rightarrow> bool" where
  "list_entry_valid e \<longleftrightarrow> le_job e \<noteq> zero_id \<and> allows_numbers (le_state e) (le_numbers e) \<and>
    (le_state e \<noteq> RS_Settled \<or> le_stdout_bytes e = 0 \<and> le_stderr_bytes e = 0)"

definition page_valid :: "job_page \<Rightarrow> bool" where
  "page_valid p \<longleftrightarrow> pg_source_len p \<le> MAX_JOB_PAGE \<and> (page_readable (pg_state p) \<or> pg_source_len p = 0) \<and>
    (pg_digest p = zero_hash \<longleftrightarrow> pg_source_len p = 0) \<and>
    (pg_source_len p = 0 \<or> unat (pg_start p) + unat (pg_source_len p) < 2 ^ 64 \<and>
      unat (pg_start p) + unat (pg_source_len p) \<le> unat (pg_total p))"

definition page_next_offset :: "job_page \<Rightarrow> u64" where
  "page_next_offset p = (if unat (pg_start p) + unat (pg_source_len p) < 2 ^ 64
    then pg_start p + ucast (pg_source_len p) else - 1)"

datatype job_result_body =
    NoBody
  | StateBody job_snapshot
  | PageBody job_page
  | ListBody (lb_more: bool) (lb_entries: "job_list_entry list")
  | WaitBody job_snapshot wait_end

record job_result =
  jr_operation :: id16
  jr_generation :: u64
  jr_ordinal :: u32
  jr_status :: u8
  jr_outcome :: result_outcome
  jr_job :: id16
  jr_body :: job_result_body
  jr_view :: "job_page list"

subsection \<open>Validation\<close>

definition body_valid :: "job_result \<Rightarrow> bool" where
  "body_valid p = (case jr_body p of
      NoBody \<Rightarrow> True
    | StateBody s \<Rightarrow> jr_outcome p \<in> {RO_Ok, RO_Cancelled} \<and> snapshot_valid s
    | WaitBody s stop \<Rightarrow> jr_outcome p = RO_Ok \<and> snapshot_valid s \<and>
        (stop \<notin> {WE_Settled, WE_AlreadySettled} \<or> sn_state s = RS_Settled)
    | PageBody page \<Rightarrow> jr_outcome p = RO_Ok \<and> page_valid page
    | ListBody more_entries entries \<Rightarrow> jr_outcome p = RO_Ok \<and> jr_job p = zero_id \<and>
        length entries \<le> MAX_JOB_LIST_ENTRIES \<and> (\<not> more_entries \<or> length entries = MAX_JOB_LIST_ENTRIES) \<and>
        length (remdups_adj (sort (map le_job entries))) = length entries \<and>
        (\<forall>e\<in>set entries. list_entry_valid e))"

definition pages_overlap :: "job_page \<Rightarrow> job_page \<Rightarrow> bool" where
  "pages_overlap a b \<longleftrightarrow> pg_stream a = pg_stream b \<and> 0 < pg_source_len a \<and> 0 < pg_source_len b \<and>
    pg_start a < page_next_offset b \<and> pg_start b < page_next_offset a"

definition has_view_form :: "job_result_body \<Rightarrow> bool" where
  "has_view_form body \<longleftrightarrow> is_StateBody body \<or> is_WaitBody body"

definition view_valid :: "job_result \<Rightarrow> bool" where
  "view_valid p \<longleftrightarrow> jr_view p = [] \<or>
    has_view_form (jr_body p) \<and> jr_outcome p = RO_Ok \<and> length (jr_view p) \<le> MAX_JOB_VIEW_RANGES \<and>
    (\<forall>page\<in>set (jr_view p). page_valid page) \<and> sorted_wrt (\<lambda>a b. \<not> pages_overlap a b) (jr_view p)"

definition job_result_validate :: "job_result \<Rightarrow> unit result" where
  "job_result_validate p = require (valid_call (jr_operation p) (jr_generation p) (jr_ordinal p) \<and>
    jr_status p = result_status (jr_outcome p) \<and> (jr_outcome p \<noteq> RO_NotFound \<or> jr_job p = zero_id) \<and>
    body_valid p \<and> view_valid p)"

subsection \<open>Writing\<close>

definition w_run_state :: "job_run_state \<Rightarrow> bytes" where
  "w_run_state s = [run_state_code s, run_state_reason_code s]"

definition write_snapshot :: "job_snapshot \<Rightarrow> bytes" where
  "write_snapshot s = w_run_state (sn_state s) @ sn_numbers s @ be64 (sn_elapsed_ms s) @
    be64 (sn_stdout_bytes s) @ be64 (sn_stderr_bytes s)"

definition write_page :: "job_page \<Rightarrow> bytes" where
  "write_page p = [output_stream_code (pg_stream p)] @ be64 (pg_start p) @ be32 (pg_source_len p) @
    be64 (pg_total p) @ [page_state_code (pg_state p)] @ pg_digest p"

definition write_view :: "job_page list \<Rightarrow> bytes" where
  "write_view view = [of_nat (length view)] @ concat (map write_page view)"

definition write_list_entry :: "job_list_entry \<Rightarrow> bytes" where
  "write_list_entry e = le_job e @ w_run_state (le_state e) @ le_numbers e @ be64 (le_stdout_bytes e) @
    be64 (le_stderr_bytes e)"

fun body_bytes :: "job_result_body \<Rightarrow> job_page list \<Rightarrow> bytes" where
  "body_bytes NoBody view = []"
| "body_bytes (StateBody s) view = write_snapshot s @ write_view view"
| "body_bytes (WaitBody s stop) view = write_snapshot s @ [wait_end_code stop] @ write_view view"
| "body_bytes (PageBody page) view = write_page page"
| "body_bytes (ListBody more_entries entries) view =
    [of_nat (length entries)] @ w_flag more_entries @ concat (map write_list_entry entries)"

definition job_result_fields :: "job_result \<Rightarrow> bytes" where
  "job_result_fields p = jr_operation p @ be64 (jr_generation p) @ be32 (jr_ordinal p) @ [jr_status p] @
    [result_outcome_code (jr_outcome p)] @ jr_job p @ body_bytes (jr_body p) (jr_view p)"

definition job_result_payload :: "job_result \<Rightarrow> bytes result" where
  "job_result_payload p = result_bind (job_result_validate p) (\<lambda>_. Inr (job_result_fields p))"

subsection \<open>Reading\<close>

definition read_run_state :: "(replay_error, job_run_state) reading" where
  "read_run_state = rbind rd_byte (\<lambda>state. rbind rd_byte (\<lambda>reason.
    case run_state_from_codes state reason of None \<Rightarrow> rfail Corrupt | Some v \<Rightarrow> rreturn v))"

definition read_snapshot :: "(replay_error, job_snapshot) reading" where
  "read_snapshot = rbind read_run_state (\<lambda>state. rbind (rd_array 3) (\<lambda>numbers. rbind rd_u64 (\<lambda>elapsed_ms.
    rbind rd_u64 (\<lambda>stdout_bytes. rbind rd_u64 (\<lambda>stderr_bytes.
    rreturn \<lparr>sn_state = state, sn_numbers = numbers, sn_elapsed_ms = elapsed_ms,
      sn_stdout_bytes = stdout_bytes, sn_stderr_bytes = stderr_bytes\<rparr>)))))"

definition read_job_page :: "(replay_error, job_page) reading" where
  "read_job_page = rbind (rd_coded output_stream_from_code) (\<lambda>stream. rbind rd_u64 (\<lambda>start. rbind rd_u32 (\<lambda>source_len.
    rbind rd_u64 (\<lambda>tot. rbind (rd_coded page_state_from_code) (\<lambda>state. rbind rd_hash (\<lambda>digest.
    rreturn \<lparr>pg_stream = stream, pg_start = start, pg_source_len = source_len, pg_total = tot,
      pg_state = state, pg_digest = digest\<rparr>))))))"

definition read_view :: "nat \<Rightarrow> (replay_error, job_page list) reading" where
  "read_view ranges = rbind rd_byte (\<lambda>count. rbind (rd_require (unat count = ranges)) (\<lambda>_.
    rd_times ranges read_job_page))"

definition read_list_entry :: "(replay_error, job_list_entry) reading" where
  "read_list_entry = rbind rd_id (\<lambda>job. rbind read_run_state (\<lambda>state. rbind (rd_array 3) (\<lambda>numbers.
    rbind rd_u64 (\<lambda>stdout_bytes. rbind rd_u64 (\<lambda>stderr_bytes.
    rreturn \<lparr>le_job = job, le_state = state, le_numbers = numbers, le_stdout_bytes = stdout_bytes,
      le_stderr_bytes = stderr_bytes\<rparr>)))))"

definition view_ranges :: "nat \<Rightarrow> bool \<Rightarrow> nat option" where
  "view_ranges bytes_left waits = find (\<lambda>n. bytes_left =
    (if waits then JOB_WAIT_BLOCK else JOB_STATE_BLOCK) + job_view_block n) [0..<MAX_JOB_VIEW_RANGES + 1]"

definition read_job_list :: "nat \<Rightarrow> (replay_error, job_result_body) reading" where
  "read_job_list bytes_left = rbind rd_byte (\<lambda>count.
    rbind (rd_require (unat count \<le> MAX_JOB_LIST_ENTRIES \<and> bytes_left = 2 + unat count * JOB_LIST_ENTRY)) (\<lambda>_.
    rbind rd_flag (\<lambda>more_entries. rbind (rd_times (unat count) read_list_entry) (\<lambda>entries.
    rreturn (ListBody more_entries entries)))))"

definition read_job_body :: "nat \<Rightarrow> (replay_error, job_result_body \<times> job_page list) reading" where
  "read_job_body bytes_left =
    (if bytes_left = 0 then rreturn (NoBody, [])
     else if bytes_left = JOB_PAGE_BLOCK then rbind read_job_page (\<lambda>page. rreturn (PageBody page, []))
     else case view_ranges bytes_left False of
        Some ranges \<Rightarrow> rbind read_snapshot (\<lambda>snapshot. rbind (read_view ranges) (\<lambda>view.
          rreturn (StateBody snapshot, view)))
      | None \<Rightarrow> (case view_ranges bytes_left True of
          Some ranges \<Rightarrow> rbind read_snapshot (\<lambda>snapshot. rbind (rd_coded wait_end_from_code) (\<lambda>stop.
            rbind (read_view ranges) (\<lambda>view. rreturn (WaitBody snapshot stop, view))))
        | None \<Rightarrow> rbind (read_job_list bytes_left) (\<lambda>body. rreturn (body, []))))"

definition rd_left :: "(replay_error, nat) reading" where
  "rd_left r = Inr (length (rd_bytes r) - rd_offset r, r)"

definition read_job_result :: "(replay_error, job_result) reading" where
  "read_job_result = rbind rd_id (\<lambda>operation. rbind rd_u64 (\<lambda>generation. rbind rd_u32 (\<lambda>ordinal.
    rbind rd_byte (\<lambda>status. rbind (rd_coded result_outcome_from_code) (\<lambda>outcome. rbind rd_id (\<lambda>job.
    rbind rd_left (\<lambda>bytes_left. rbind (read_job_body bytes_left) (\<lambda>(body, view).
    let v = \<lparr>jr_operation = operation, jr_generation = generation, jr_ordinal = ordinal, jr_status = status,
      jr_outcome = outcome, jr_job = job, jr_body = body, jr_view = view\<rparr> in
    rbind (rlift (job_result_validate v)) (\<lambda>_. rreturn v)))))))))"

subsection \<open>Block contracts\<close>

definition wf_snapshot :: "job_snapshot \<Rightarrow> bool" where
  "wf_snapshot s \<longleftrightarrow> length (sn_numbers s) = 3"

definition wf_list_entry :: "job_list_entry \<Rightarrow> bool" where
  "wf_list_entry e \<longleftrightarrow> is_id (le_job e) \<and> length (le_numbers e) = 3"

definition wf_page :: "job_page \<Rightarrow> bool" where
  "wf_page p \<longleftrightarrow> is_hash (pg_digest p)"

lemma codec_run_state: "codec read_run_state w_run_state (\<lambda>_. True)"
proof (rule codecI, goal_cases)
  case (1 pre rest v r')
  then show ?case
    by (auto simp: read_run_state_def w_run_state_def parse run_state_from_codes_iff split: option.splits)
next
  case (2 pre post v)
  have "run_state_from_codes (run_state_code v) (run_state_reason_code v) = Some v"
    by (simp add: run_state_from_codes_iff)
  then show ?case by (simp add: read_run_state_def w_run_state_def run)
qed

interpretation run_state_field: codec read_run_state w_run_state "\<lambda>_. True"
  by (rule codec_run_state)

lemma codec_snapshot: "codec read_snapshot write_snapshot wf_snapshot"
proof (rule codecI, goal_cases)
  case (1 pre rest v r')
  then show ?case
    by (auto simp: read_snapshot_def write_snapshot_def wf_snapshot_def run_state_field.bind_exact parse)
next
  case (2 pre post v)
  then show ?case
    by (cases v) (simp add: read_snapshot_def write_snapshot_def wf_snapshot_def
        run_state_field.bind_run [simplified] run)
qed

interpretation snapshot: codec read_snapshot write_snapshot wf_snapshot
  by (rule codec_snapshot)

lemma codec_page: "codec read_job_page write_page wf_page"
proof (rule codecI, goal_cases)
  case (1 pre rest v r')
  then show ?case
    by (auto simp: read_job_page_def write_page_def wf_page_def output_stream.coded.bind_exact
        page_state.coded.bind_exact parse)
next
  case (2 pre post v)
  then show ?case
    by (cases v) (simp add: read_job_page_def write_page_def wf_page_def
        output_stream.coded.bind_run [simplified] page_state.coded.bind_run [simplified] run)
qed

interpretation job_page: codec read_job_page write_page wf_page
  by (rule codec_page)

lemma codec_list_entry: "codec read_list_entry write_list_entry wf_list_entry"
proof (rule codecI, goal_cases)
  case (1 pre rest v r')
  then show ?case
    by (auto simp: read_list_entry_def write_list_entry_def wf_list_entry_def run_state_field.bind_exact parse)
next
  case (2 pre post v)
  then show ?case
    by (cases v) (simp add: read_list_entry_def write_list_entry_def wf_list_entry_def
        run_state_field.bind_run [simplified] run)
qed

subsection \<open>The body, read by its size\<close>

lemma block_lengths [simp]:
  "wf_snapshot s \<Longrightarrow> length (write_snapshot s) = JOB_STATE_BLOCK"
  "wf_page p \<Longrightarrow> length (write_page p) = JOB_PAGE_BLOCK"
  "wf_list_entry e \<Longrightarrow> length (write_list_entry e) = JOB_LIST_ENTRY"
  by (simp_all add: write_snapshot_def write_page_def write_list_entry_def w_run_state_def wf_snapshot_def
      wf_page_def wf_list_entry_def)

lemma entries_length: "\<forall>e\<in>set es. wf_list_entry e \<Longrightarrow> length (concat (map write_list_entry es)) = JOB_LIST_ENTRY * length es"
  by (rule length_concat_const) simp

lemma pages_length: "\<forall>p\<in>set ps. wf_page p \<Longrightarrow> length (concat (map write_page ps)) = JOB_PAGE_BLOCK * length ps"
  by (rule length_concat_const) simp

lemma view_ranges_iff:
  "view_ranges n waits = Some k \<longleftrightarrow> k \<le> 3 \<and> n = (if waits then 31 else 30) + k * 54"
  unfolding view_ranges_def job_view_block_def by (auto simp: upt_rec split: if_splits; presburger)

lemma view_ranges_None:
  "view_ranges n waits = None \<longleftrightarrow> (\<forall>k\<le>3. n \<noteq> (if waits then 31 else 30) + k * 54)"
  by (metis (no_types, lifting) not_None_eq view_ranges_iff)

definition wf_view :: "job_page list \<Rightarrow> bool" where
  "wf_view view \<longleftrightarrow> length view \<le> MAX_JOB_VIEW_RANGES \<and> (\<forall>page\<in>set view. wf_page page)"

fun body_form :: "job_result_body \<Rightarrow> job_page list \<Rightarrow> bool" where
  "body_form NoBody view \<longleftrightarrow> view = []"
| "body_form (StateBody s) view \<longleftrightarrow> wf_snapshot s \<and> wf_view view"
| "body_form (WaitBody s stop) view \<longleftrightarrow> wf_snapshot s \<and> wf_view view"
| "body_form (PageBody page) view \<longleftrightarrow> wf_page page \<and> view = []"
| "body_form (ListBody more_entries entries) view \<longleftrightarrow>
    length entries \<le> MAX_JOB_LIST_ENTRIES \<and> (\<forall>e\<in>set entries. wf_list_entry e) \<and> view = []"

lemma length_write_view: "wf_view view \<Longrightarrow> length (write_view view) = 1 + length view * 54"
  by (simp add: write_view_def wf_view_def pages_length)

lemma codec_view:
  assumes "n \<le> 3"
  shows "codec (read_view n) write_view (\<lambda>view. wf_view view \<and> length view = n)"
proof (rule codecI, goal_cases)
  case (1 pre rest v r')
  then show ?case
    using assms by (auto simp: read_view_def write_view_def wf_view_def parse length_byte
        codec.exact [OF codec_times [OF codec_page]])
next
  case (2 pre post v)
  then have "unat (of_nat (length v) :: u8) = n" using assms by (simp add: unat_of_nat)
  with 2 show ?case
    by (simp add: read_view_def write_view_def wf_view_def run codec.exact [OF codec_times [OF codec_page]])
qed

lemma view_run:
  "wf_view view \<Longrightarrow> rbind (read_view (length view)) f (rd pre (write_view view)) = f view (rd (pre @ write_view view) [])"
  using codec.bind_run [OF codec_view, of "length view" view f pre "[]"] by (simp add: wf_view_def)

lemma entries_run:
  "\<forall>e\<in>set es. wf_list_entry e \<Longrightarrow> rbind (rd_times (length es) read_list_entry) f (rd pre (concat (map write_list_entry es)))
    = f es (rd (pre @ concat (map write_list_entry es)) [])"
  using codec.bind_run [OF codec_times [OF codec_list_entry], of es "length es" f pre "[]"] by simp

lemma page_run: "wf_page p \<Longrightarrow> rbind read_job_page f (rd pre (write_page p)) = f p (rd (pre @ write_page p) [])"
  using job_page.bind_run [of p f pre "[]"] by simp

lemma read_job_list_exact:
  "read_job_list (length rest) (rd pre rest) = Inr (body, r') \<longleftrightarrow>
    (\<exists>more_entries entries. body = ListBody more_entries entries \<and> body_form body [] \<and>
      rest = body_bytes body [] \<and> r' = rd (pre @ rest) [])" (is "?L \<longleftrightarrow> ?R")
proof
  assume ?L
  then obtain count more_entries entries post where
    parts: "unat count \<le> 8" "length rest = 2 + unat count * 37" "body = ListBody more_entries entries"
      "rest = [count] @ w_flag more_entries @ concat (map write_list_entry entries) @ post"
      "length entries = unat count" "\<forall>e\<in>set entries. wf_list_entry e" "r' = rd (pre @ [count] @ w_flag more_entries @ concat (map write_list_entry entries)) post"
    by (auto simp: read_job_list_def parse codec.bind_exact [OF codec_times [OF codec_list_entry]])
  have "post = []"
    using parts by (simp add: entries_length w_flag_def)
  then show ?R using parts by (auto simp: length_byte)
next
  assume ?R
  then obtain more_entries entries where b: "body = ListBody more_entries entries" "length entries \<le> 8"
    "\<forall>e\<in>set entries. wf_list_entry e" and rest: "rest = [of_nat (length entries)] @ w_flag more_entries @ concat (map write_list_entry entries)"
    and r': "r' = rd (pre @ rest) []" by auto
  have n: "unat (of_nat (length entries) :: u8) = length entries" using b(2) by (simp add: unat_of_nat)
  have len: "length rest = 2 + length entries * 37"
    unfolding rest using b(3) by (simp add: entries_length w_flag_def)
  show ?L
    unfolding r' len unfolding rest read_job_list_def using b n by (simp add: run entries_run)
qed

text \<open>The sizes of the forms are distinct.\<close>

lemma list_size_distinct: "c \<le> 8 \<Longrightarrow> view_ranges (2 + 37 * c) waits = None" "2 + 37 * c \<noteq> (54 :: nat)"
proof -
  assume "c \<le> 8"
  then have "c = 0 \<or> c = 1 \<or> c = 2 \<or> c = 3 \<or> c = 4 \<or> c = 5 \<or> c = 6 \<or> c = 7 \<or> c = 8" by arith
  then show "view_ranges (2 + 37 * c) waits = None"
    by (elim disjE) (simp_all add: view_ranges_def job_view_block_def upt_rec)
qed presburger

lemma view_size_distinct:
  "k \<le> 3 \<Longrightarrow> view_ranges (31 + k * 54) False = None" "30 + k * 54 \<noteq> (54 :: nat)" "31 + k * 54 \<noteq> (54 :: nat)"
proof -
  assume "k \<le> 3"
  then have "k = 0 \<or> k = 1 \<or> k = 2 \<or> k = 3" by arith
  then show "view_ranges (31 + k * 54) False = None"
    by (elim disjE) (simp_all add: view_ranges_def job_view_block_def upt_rec)
qed presburger+

lemma read_job_body_form:
  assumes "read_job_body (length rest) (rd pre rest) = Inr ((body, view), r')"
  shows "body_form body view \<and> rest = body_bytes body view \<and> r' = rd (pre @ rest) []"
proof -
  consider (none) "rest = []" | (page) "length rest = JOB_PAGE_BLOCK"
    | (state) k where "rest \<noteq> []" "length rest \<noteq> JOB_PAGE_BLOCK" "view_ranges (length rest) False = Some k"
    | (wait) k where "rest \<noteq> []" "length rest \<noteq> JOB_PAGE_BLOCK" "view_ranges (length rest) False = None"
        "view_ranges (length rest) True = Some k"
    | (listing) "rest \<noteq> []" "length rest \<noteq> JOB_PAGE_BLOCK" "view_ranges (length rest) False = None"
        "view_ranges (length rest) True = None"
    by fastforce
  then show ?thesis
  proof cases
    case none
    then show ?thesis using assms by (auto simp: read_job_body_def)
  next
    case page
    then obtain p post where "wf_page p" "rest = write_page p @ post" "body = PageBody p" "view = []"
      "r' = rd (pre @ write_page p) post"
      using assms by (auto simp: read_job_body_def job_page.bind_exact)
    then show ?thesis using page by simp
  next
    case (state k)
    then have k: "k \<le> 3" "length rest = 30 + k * 54" by (auto simp: view_ranges_iff)
    obtain s post where "wf_snapshot s" "wf_view view" "length view = k" "body = StateBody s"
      "rest = write_snapshot s @ write_view view @ post" "r' = rd (pre @ write_snapshot s @ write_view view) post"
      using assms state by (auto simp: read_job_body_def snapshot.bind_exact codec.bind_exact [OF codec_view [OF k(1)]])
    then show ?thesis using k by (simp add: length_write_view)
  next
    case (wait k)
    then have k: "k \<le> 3" "length rest = 31 + k * 54" by (auto simp: view_ranges_iff)
    obtain s stop post where "wf_snapshot s" "wf_view view" "length view = k" "body = WaitBody s stop"
      "rest = write_snapshot s @ [wait_end_code stop] @ write_view view @ post"
      "r' = rd (pre @ write_snapshot s @ [wait_end_code stop] @ write_view view) post"
      using assms wait by (auto simp: read_job_body_def snapshot.bind_exact wait_end.coded.bind_exact
          codec.bind_exact [OF codec_view [OF k(1)]])
    then show ?thesis using k by (simp add: length_write_view)
  next
    case listing
    then have "read_job_list (length rest) (rd pre rest) = Inr (body, r')" "view = []"
      using assms by (auto simp: read_job_body_def rbind_eq_Inr)
    then show ?thesis unfolding read_job_list_exact by auto
  qed
qed

lemma read_job_body_exact:
  "read_job_body (length rest) (rd pre rest) = Inr ((body, view), r') \<longleftrightarrow>
    body_form body view \<and> rest = body_bytes body view \<and> r' = rd (pre @ rest) []" (is "?L \<longleftrightarrow> ?R")
proof
  assume ?L
  then show ?R by (rule read_job_body_form)
next
  assume R: ?R
  then have r': "r' = rd (pre @ rest) []" and rest: "rest = body_bytes body view" and form: "body_form body view" by auto
  show ?L
  proof (cases body)
    case (ListBody more_entries entries)
    then have "length rest = 2 + 37 * length entries" "length entries \<le> 8" "view = []"
      using form rest by (auto simp: entries_length w_flag_def)
    then have "length rest \<noteq> 0" "length rest \<noteq> 54" "view_ranges (length rest) waits = None" for waits
      by (simp_all only: list_size_distinct) simp
    moreover have "read_job_list (length rest) (rd pre rest) = Inr (body, r')"
      unfolding read_job_list_exact using R ListBody \<open>view = []\<close> by auto
    ultimately show ?thesis using \<open>view = []\<close> by (simp add: read_job_body_def rbind_eq_Inr)
  next
    case (StateBody s)
    then have n: "length view \<le> 3" "length rest = 30 + length view * 54" and ok: "wf_snapshot s" "wf_view view"
      using form rest by (auto simp: length_write_view wf_view_def)
    then have "view_ranges (length rest) False = Some (length view)" "length rest \<noteq> 54" "length rest \<noteq> 0"
      by (simp_all only: view_ranges_iff view_size_distinct) simp_all
    then show ?thesis
      unfolding r' using ok StateBody
      by (simp add: read_job_body_def rest view_run snapshot.bind_run run)
  next
    case (WaitBody s stop)
    then have n: "length view \<le> 3" "length rest = 31 + length view * 54" and ok: "wf_snapshot s" "wf_view view"
      using form rest by (auto simp: length_write_view wf_view_def)
    then have "view_ranges (length rest) True = Some (length view)" "length rest \<noteq> 54"
      "view_ranges (length rest) False = None" "length rest \<noteq> 0"
      by (simp_all only: view_ranges_iff view_size_distinct) simp_all
    then show ?thesis
      unfolding r' using ok WaitBody
      by (simp add: read_job_body_def rest view_run snapshot.bind_run wait_end.coded.bind_run [simplified] run)
  next
    case (PageBody page)
    then show ?thesis
      unfolding r' using form by (simp add: read_job_body_def rest page_run)
  qed (use form rest r' in \<open>simp add: read_job_body_def\<close>)
qed

subsection \<open>The record contract\<close>

definition wf_job_body :: "job_result_body \<Rightarrow> bool" where
  "wf_job_body body = (case body of NoBody \<Rightarrow> True | StateBody s \<Rightarrow> wf_snapshot s | WaitBody s _ \<Rightarrow> wf_snapshot s
    | PageBody page \<Rightarrow> wf_page page | ListBody _ entries \<Rightarrow> \<forall>e\<in>set entries. wf_list_entry e)"

definition wf_job_result :: "job_result \<Rightarrow> bool" where
  "wf_job_result p \<longleftrightarrow> is_id (jr_operation p) \<and> is_id (jr_job p) \<and> wf_job_body (jr_body p) \<and>
    (\<forall>page\<in>set (jr_view p). wf_page page)"

lemma job_result_form:
  assumes "job_result_validate p = Inr ()"
  shows "wf_job_body (jr_body p) \<and> (\<forall>page\<in>set (jr_view p). wf_page page) \<longleftrightarrow> body_form (jr_body p) (jr_view p)"
  using assms
  by (cases "jr_body p") (auto simp: job_result_validate_def body_valid_def view_valid_def has_view_form_def
      wf_job_body_def wf_view_def)

lemma left_run: "rbind rd_left f (rd pre rest) = f (length rest) (rd pre rest)"
  by (simp add: rbind_def rd_left_def)

lemma job_result_eta:
  "\<lparr>jr_operation = jr_operation p, jr_generation = jr_generation p, jr_ordinal = jr_ordinal p, jr_status = jr_status p,
    jr_outcome = jr_outcome p, jr_job = jr_job p, jr_body = jr_body p, jr_view = jr_view p\<rparr> = p"
  by (cases p) simp

lemma body_run:
  "body_form body view \<Longrightarrow> rbind (read_job_body (length (body_bytes body view))) f (rd pre (body_bytes body view)) =
    f (body, view) (rd (pre @ body_bytes body view) [])"
  by (rule rbind_Inr) (simp add: read_job_body_exact)

lemma read_job_result_written:
  assumes "wf_job_result p" "job_result_payload p = Inr bs"
  shows "read_job_result (rd [] bs) = Inr (p, rd bs [])"
proof -
  have valid: "job_result_validate p = Inr ()" and bs: "bs = job_result_fields p"
    using assms(2) by (auto simp: job_result_payload_def result_bind_eq_Inr)
  have form: "body_form (jr_body p) (jr_view p)"
    using assms(1) job_result_form [OF valid] by (simp add: wf_job_result_def)
  show ?thesis
    using assms(1) valid form unfolding bs wf_job_result_def
    by (simp add: read_job_result_def job_result_fields_def run left_run body_run Let_def job_result_eta
        result_outcome.coded.bind_run [simplified])
qed

lemma read_job_result_exact:
  assumes "read_job_result (rd [] bs) = Inr (p, r')"
  shows "wf_job_result p" "job_result_payload p = Inr bs" "r' = rd bs []"
proof -
  obtain body view rest where
    at: "bs = jr_operation p @ be64 (jr_generation p) @ be32 (jr_ordinal p) @ [jr_status p] @
        [result_outcome_code (jr_outcome p)] @ jr_job p @ rest"
    and ids: "is_id (jr_operation p)" "is_id (jr_job p)" and valid: "job_result_validate p = Inr ()"
    and body: "body_form (jr_body p) (jr_view p)" "rest = body_bytes (jr_body p) (jr_view p)" "r' = rd bs []"
    using assms
    by (auto simp: read_job_result_def parse left_run lift_parse Let_def result_outcome.coded.bind_exact
        rbind_eq_Inr [of "read_job_body n" for n] read_job_body_exact)
  show "wf_job_result p" using ids body(1) job_result_form [OF valid] by (simp add: wf_job_result_def)
  show "job_result_payload p = Inr bs" using valid at body(2) by (simp add: job_result_payload_def job_result_fields_def)
  show "r' = rd bs []" by (rule body(3))
qed

interpretation job_result: payload_codec read_job_result job_result_payload wf_job_result
  by unfold_locales (auto simp: decode_all_eq_Inr read_job_result_written dest: read_job_result_exact)

subsection \<open>Properties\<close>

text \<open>C12: The untagged body of a job result is read back unambiguously: decoding a whole kind 29 payload gives a
  record exactly when the record passes \<open>JobResult::validate\<close> and the payload is what the writer makes of it,
  so no two forms of a body have the same bytes and no other bytes are accepted.\<close>

theorem job_result_decodes_exactly:
  "decode_all read_job_result bs = Inr p \<longleftrightarrow>
    wf_job_result p \<and> job_result_validate p = Inr () \<and> bs = job_result_fields p"
  by (auto simp: job_result.whole job_result_payload_def result_bind_eq_Inr)

text \<open>A valid job result fits the payload bound of its reader, \<open>MAX_JOB_RESULT_PAYLOAD\<close>.\<close>

lemma job_result_payload_bound:
  assumes "wf_job_result p" "job_result_payload p = Inr bs"
  shows "length bs \<le> MAX_JOB_RESULT_PAYLOAD"
proof -
  have valid: "job_result_validate p = Inr ()" and bs: "bs = job_result_fields p"
    using assms(2) by (auto simp: job_result_payload_def result_bind_eq_Inr)
  have "body_form (jr_body p) (jr_view p)"
    using assms(1) job_result_form [OF valid] by (simp add: wf_job_result_def)
  then have "length (body_bytes (jr_body p) (jr_view p)) \<le> 298"
    by (cases "jr_body p") (auto simp: length_write_view wf_view_def entries_length w_flag_def)
  then show ?thesis using assms(1) unfolding bs by (simp add: job_result_fields_def wf_job_result_def)
qed

end
