(* ===== verification/Codec.thy ===== *)
theory Codec
  imports Records PersonCommands ExecPaths Policies JobSettlement JobResults
begin

section \<open>All record kinds: \<open>payload\<close> and \<open>decode_record\<close>\<close>

text \<open>
  The enumeration \<open>Record\<close> of \<open>authority/conversation/types.rs\<close> and the two functions of
  \<open>authority/conversation/codec.rs\<close> that map a record to its payload and back. The per-kind writers and
  readers are those of the theories below; here they are put together with the payload bounds that
  \<open>decode_record\<close> checks first. \<open>sha\<close> stands for SHA-256, which kind 31 uses.
\<close>

abbreviation MAX_FRAME :: nat where "MAX_FRAME \<equiv> 65536"
abbreviation HEADER :: nat where "HEADER \<equiv> 144"
abbreviation TRAILER :: nat where "TRAILER \<equiv> 40"

datatype journal_record =
    R_PendingInit pending_init
  | R_ActiveBinding active_binding
  | R_OwnerGeneration
  | R_ProjectRegistered project_registered
  | R_ProjectRequestAlias project_request_alias
  | R_ProjectRenamed project_renamed
  | R_TurnAccepted turn_accepted
  | R_StartAuthorized start_authorized
  | R_RequestStarted request_started
  | R_CancelRequested cancel_requested
  | R_TurnTerminal turn_terminal
  | R_InputQueued input_queued
  | R_InputReordered input_reordered
  | R_InputDecision input_decision
  | R_InputPromoted input_promoted
  | R_ToolCall tool_call
  | R_ToolResult tool_result
  | R_ResponseText response_text
  | R_ThinkingText response_text
  | R_PersonCommandQueued person_command
  | R_JobIntent job_intent
  | R_JobCancelRequested job_cancel_requested
  | R_JobSettled job_settled
  | R_JobResult job_result
  | R_JobRetention job_retention
  | R_ExecutionPath execution_path
  | R_PolicyDecision policy_decision
  | R_PolicyRevision policy_revision

fun record_kind :: "journal_record \<Rightarrow> u16" where
  "record_kind (R_PendingInit _) = 10"
| "record_kind (R_ActiveBinding _) = 11"
| "record_kind R_OwnerGeneration = 3"
| "record_kind (R_ProjectRegistered _) = 4"
| "record_kind (R_ProjectRequestAlias _) = 9"
| "record_kind (R_ProjectRenamed _) = 20"
| "record_kind (R_TurnAccepted _) = 21"
| "record_kind (R_StartAuthorized _) = 6"
| "record_kind (R_RequestStarted _) = 33"
| "record_kind (R_CancelRequested _) = 7"
| "record_kind (R_TurnTerminal _) = 8"
| "record_kind (R_InputQueued _) = 18"
| "record_kind (R_InputReordered _) = 19"
| "record_kind (R_InputDecision _) = 13"
| "record_kind (R_InputPromoted _) = 16"
| "record_kind (R_ToolCall _) = 14"
| "record_kind (R_ToolResult _) = 15"
| "record_kind (R_ResponseText _) = 24"
| "record_kind (R_ThinkingText _) = 25"
| "record_kind (R_PersonCommandQueued _) = 31"
| "record_kind (R_JobIntent _) = 26"
| "record_kind (R_JobCancelRequested _) = 27"
| "record_kind (R_JobSettled _) = 28"
| "record_kind (R_JobResult _) = 29"
| "record_kind (R_JobRetention _) = 30"
| "record_kind (R_ExecutionPath _) = 32"
| "record_kind (R_PolicyDecision _) = 34"
| "record_kind (R_PolicyRevision _) = 35"

fun record_payload :: "(bytes \<Rightarrow> bytes) \<Rightarrow> journal_record \<Rightarrow> bytes result" where
  "record_payload sha (R_PendingInit p) = pending_init_payload p"
| "record_payload sha (R_ActiveBinding p) = active_binding_payload p"
| "record_payload sha R_OwnerGeneration = Inr []"
| "record_payload sha (R_ProjectRegistered p) = project_registered_payload p"
| "record_payload sha (R_ProjectRequestAlias p) = project_request_alias_payload p"
| "record_payload sha (R_ProjectRenamed p) = project_renamed_payload p"
| "record_payload sha (R_TurnAccepted p) = turn_accepted_payload p"
| "record_payload sha (R_StartAuthorized p) = start_authorized_payload p"
| "record_payload sha (R_RequestStarted p) = request_started_payload p"
| "record_payload sha (R_CancelRequested p) = cancel_requested_payload p"
| "record_payload sha (R_TurnTerminal p) = turn_terminal_payload p"
| "record_payload sha (R_InputQueued p) = input_queued_payload p"
| "record_payload sha (R_InputReordered p) = input_reordered_payload p"
| "record_payload sha (R_InputDecision p) = input_decision_payload p"
| "record_payload sha (R_InputPromoted p) = input_promoted_payload p"
| "record_payload sha (R_ToolCall p) = write_tool_call p"
| "record_payload sha (R_ToolResult p) = tool_result_payload p"
| "record_payload sha (R_ResponseText p) = response_text_payload p"
| "record_payload sha (R_ThinkingText p) = response_text_payload p"
| "record_payload sha (R_PersonCommandQueued p) = write_person_command sha p"
| "record_payload sha (R_JobIntent p) = job_intent_payload p"
| "record_payload sha (R_JobCancelRequested p) = job_cancel_payload p"
| "record_payload sha (R_JobSettled p) = job_settled_payload p"
| "record_payload sha (R_JobResult p) = job_result_payload p"
| "record_payload sha (R_JobRetention p) = job_retention_payload p"
| "record_payload sha (R_ExecutionPath p) = write_execution_path p"
| "record_payload sha (R_PolicyDecision p) = write_policy_decision p"
| "record_payload sha (R_PolicyRevision p) = write_policy_revision p"

text \<open>The bounds of the types: array lengths and UTF-8 strings.\<close>

fun wf_record :: "journal_record \<Rightarrow> bool" where
  "wf_record (R_PendingInit p) = wf_pending_init p"
| "wf_record (R_ActiveBinding p) = wf_active_binding p"
| "wf_record R_OwnerGeneration = True"
| "wf_record (R_ProjectRegistered p) = wf_project_registered p"
| "wf_record (R_ProjectRequestAlias p) = wf_project_request_alias p"
| "wf_record (R_ProjectRenamed p) = wf_project_renamed p"
| "wf_record (R_TurnAccepted p) = wf_turn_accepted p"
| "wf_record (R_StartAuthorized p) = wf_start_authorized p"
| "wf_record (R_RequestStarted p) = wf_request_started p"
| "wf_record (R_CancelRequested p) = wf_cancel_requested p"
| "wf_record (R_TurnTerminal p) = wf_turn_terminal p"
| "wf_record (R_InputQueued p) = wf_input_queued p"
| "wf_record (R_InputReordered p) = wf_input_reordered p"
| "wf_record (R_InputDecision p) = wf_input_decision p"
| "wf_record (R_InputPromoted p) = wf_input_promoted p"
| "wf_record (R_ToolCall p) = wf_tool_call p"
| "wf_record (R_ToolResult p) = wf_tool_result p"
| "wf_record (R_ResponseText p) = wf_response_text p"
| "wf_record (R_ThinkingText p) = wf_response_text p"
| "wf_record (R_PersonCommandQueued p) = wf_person_command p"
| "wf_record (R_JobIntent p) = wf_job_intent p"
| "wf_record (R_JobCancelRequested p) = wf_job_cancel p"
| "wf_record (R_JobSettled p) = wf_job_settled p"
| "wf_record (R_JobResult p) = wf_job_result p"
| "wf_record (R_JobRetention p) = wf_job_retention p"
| "wf_record (R_ExecutionPath p) = wf_execution_path p"
| "wf_record (R_PolicyDecision p) = wf_policy_decision p"
| "wf_record (R_PolicyRevision p) = wf_policy_revision p"

definition as_record :: "('a \<Rightarrow> journal_record) \<Rightarrow> (replay_error, 'a) reading \<Rightarrow> (replay_error, journal_record) reading" where
  "as_record C p = rbind p (\<lambda>v. rreturn (C v))"

definition bounded_by :: "bool \<Rightarrow> replay_error \<Rightarrow> (replay_error, 'a) reading \<Rightarrow> (replay_error, 'a) reading" where
  "bounded_by ok e p = (if ok then p else rfail e)"

text \<open>The arms of \<open>decode_record\<close>, in their order; \<open>n\<close> is the length of the payload.\<close>

definition record_reading :: "(bytes \<Rightarrow> bytes) \<Rightarrow> u16 \<Rightarrow> nat \<Rightarrow> (replay_error, journal_record) reading" where
  "record_reading sha kind n =
    (if kind = 18 then as_record R_InputQueued read_input_queued
     else if kind = 19 then as_record R_InputReordered read_input_reordered
     else if kind = 13 then as_record R_InputDecision read_input_decision
     else if kind = 16 then as_record R_InputPromoted read_input_promoted
     else if kind = 10 then as_record R_PendingInit read_pending_init
     else if kind = 11 then as_record R_ActiveBinding read_active_binding
     else if kind = 3 then rreturn R_OwnerGeneration
     else if kind = 4 then as_record R_ProjectRegistered read_project_registered
     else if kind = 9 then as_record R_ProjectRequestAlias read_project_request_alias
     else if kind = 20 then as_record R_ProjectRenamed read_project_renamed
     else if kind = 21 then as_record R_TurnAccepted read_turn_accepted
     else if kind = 6 then as_record R_StartAuthorized read_start_authorized
     else if kind = 33 then as_record R_RequestStarted read_request_started
     else if kind = 7 then as_record R_CancelRequested read_cancel_requested
     else if kind = 8 then as_record R_TurnTerminal read_turn_terminal
     else if kind = 24 then as_record R_ResponseText read_response_text
     else if kind = 25 then as_record R_ThinkingText read_response_text
     else if kind = 14 then bounded_by (n \<le> MAX_TOOL_CALL_PAYLOAD) Corrupt (as_record R_ToolCall read_tool_call)
     else if kind = 15 then as_record R_ToolResult read_tool_result
     else if kind = 26 then bounded_by (n \<le> MAX_JOB_INTENT_PAYLOAD) Corrupt (as_record R_JobIntent read_job_intent)
     else if kind = 27 then bounded_by (n = JOB_CANCEL_PAYLOAD) Corrupt (as_record R_JobCancelRequested read_job_cancel)
     else if kind = 28 then bounded_by (n \<le> MAX_JOB_SETTLED_PAYLOAD) Corrupt (as_record R_JobSettled read_job_settled)
     else if kind = 29 then bounded_by (n \<le> MAX_JOB_RESULT_PAYLOAD) Corrupt (as_record R_JobResult read_job_result)
     else if kind = 30 then bounded_by (n \<le> MAX_JOB_RETENTION_PAYLOAD) Corrupt (as_record R_JobRetention read_job_retention)
     else if kind = 31 then bounded_by (n \<le> MAX_PERSON_COMMAND_PAYLOAD) Corrupt (as_record R_PersonCommandQueued (read_person_command sha))
     else if kind = 32 then bounded_by (n \<le> MAX_EXECUTION_PATH_PAYLOAD) Corrupt (as_record R_ExecutionPath read_execution_path)
     else if kind = 34 then bounded_by (n \<le> MAX_POLICY_DECISION_PAYLOAD) Limit (as_record R_PolicyDecision read_policy_decision)
     else if kind = 35 then bounded_by (n \<le> MAX_POLICY_REVISION_PAYLOAD) Limit (as_record R_PolicyRevision read_policy_revision)
     else rfail UnsupportedFormat)"

definition decode_record :: "(bytes \<Rightarrow> bytes) \<Rightarrow> u16 \<Rightarrow> bytes \<Rightarrow> journal_record result" where
  "decode_record sha kind bs = (if length bs > MAX_FRAME - HEADER - TRAILER then Inl Limit
    else decode_all (record_reading sha kind (length bs)) bs)"

subsection \<open>Whole payloads\<close>

lemma decode_all_as_record:
  "decode_all (as_record C p) bs = Inr r \<longleftrightarrow> (\<exists>v. r = C v \<and> decode_all p bs = Inr v)"
  by (auto simp: decode_all_eq_Inr as_record_def rbind_eq_Inr)

lemma decode_all_bounded_by:
  "decode_all (bounded_by ok e p) bs = Inr r \<longleftrightarrow> ok \<and> decode_all p bs = Inr r"
  by (auto simp: bounded_by_def decode_all_eq_Inr)

lemma decode_all_return: "decode_all (rreturn r) bs = Inr r' \<longleftrightarrow> r' = r \<and> bs = []"
  by (auto simp: decode_all_eq_Inr)

lemma decode_all_fail: "decode_all (rfail e) bs \<noteq> Inr r"
  by (simp add: decode_all_eq_Inr)

lemma decode_all_if: "decode_all (if b then p else q) bs = (if b then decode_all p bs else decode_all q bs)"
  by simp

lemma if_eq_Inr: "(if b then x else y) = Inr r \<longleftrightarrow> b \<and> x = Inr r \<or> \<not> b \<and> y = Inr r"
  by simp

lemma written_bounds:
  "wf_tool_call p1 \<Longrightarrow> write_tool_call p1 = Inr bs \<Longrightarrow> length bs \<le> MAX_TOOL_CALL_PAYLOAD"
  "wf_person_command p2 \<Longrightarrow> write_person_command sha p2 = Inr bs \<Longrightarrow> length bs \<le> MAX_PERSON_COMMAND_PAYLOAD"
  "wf_job_intent p3 \<Longrightarrow> job_intent_payload p3 = Inr bs \<Longrightarrow> length bs \<le> MAX_JOB_INTENT_PAYLOAD"
  "wf_job_cancel p4 \<Longrightarrow> job_cancel_payload p4 = Inr bs \<Longrightarrow> length bs = JOB_CANCEL_PAYLOAD"
  "wf_job_settled p5 \<Longrightarrow> job_settled_payload p5 = Inr bs \<Longrightarrow> length bs \<le> MAX_JOB_SETTLED_PAYLOAD"
  "wf_job_result p6 \<Longrightarrow> job_result_payload p6 = Inr bs \<Longrightarrow> length bs \<le> MAX_JOB_RESULT_PAYLOAD"
  "wf_job_retention p7 \<Longrightarrow> job_retention_payload p7 = Inr bs \<Longrightarrow> length bs \<le> MAX_JOB_RETENTION_PAYLOAD"
  "wf_execution_path p8 \<Longrightarrow> write_execution_path p8 = Inr bs \<Longrightarrow> length bs \<le> MAX_EXECUTION_PATH_PAYLOAD"
  by (fact tool_call_payload_bound person_command_payload_bound job_intent_payload_bound
      job_cancel_payload_length job_settled_payload_bound job_result_payload_bound
      job_retention_payload_bound execution_path_payload_bound)+

lemma whole_payloads:
  "length bs \<le> MAX_POLICY_DECISION_PAYLOAD \<and> decode_all read_policy_decision bs = Inr p1 \<longleftrightarrow>
    wf_policy_decision p1 \<and> write_policy_decision p1 = Inr bs"
  "length bs \<le> MAX_POLICY_REVISION_PAYLOAD \<and> decode_all read_policy_revision bs = Inr p2 \<longleftrightarrow>
    wf_policy_revision p2 \<and> write_policy_revision p2 = Inr bs"
  by (auto simp: policy_decision.whole policy_revision.whole write_policy_decision_eq_Inr write_policy_revision_eq_Inr)

lemmas record_wholes =
  pending_init.whole active_binding.whole project_registered.whole project_request_alias.whole project_renamed.whole
  turn_accepted.whole start_authorized.whole request_started.whole cancel_requested.whole turn_terminal.whole
  input_queued.whole input_reordered.whole input_decision.whole input_promoted.whole tool_call.whole
  tool_result.whole response_text.whole person_command.whole job_intent.whole job_cancel.whole
  job_settled.whole job_result.whole job_retention.whole execution_path.whole

lemma record_reading_exact:
  "decode_all (record_reading sha kind (length bs)) bs = Inr r \<longleftrightarrow>
    wf_record r \<and> record_kind r = kind \<and> record_payload sha r = Inr bs"
  unfolding record_reading_def
  by (cases r) (auto simp add: decode_all_if decode_all_as_record decode_all_bounded_by decode_all_return
      decode_all_fail if_eq_Inr record_wholes whole_payloads intro: written_bounds)

text \<open>Every other kind is refused, the retired kinds 17, 22 and 23 among them.\<close>

lemma decode_record_unknown:
  assumes "kind \<notin> set [18, 19, 13, 16, 10, 11, 3, 4, 9, 20, 21, 6, 33, 7, 8, 24, 25, 14, 15, 26, 27, 28, 29, 30, 31, 32, 34, 35]"
    "length bs \<le> MAX_FRAME - HEADER - TRAILER"
  shows "decode_record sha kind bs = Inl UnsupportedFormat"
  using assms by (simp add: decode_record_def record_reading_def decode_all_def rfail_def rbind_def)

subsection \<open>Properties\<close>

text \<open>C16: Decoding is exact for every record kind. \<open>decode_record\<close> returns a record of a kind just when the record has
  that kind, is well formed and the payload is what \<open>payload\<close> writes for it, within the largest payload of a frame. Well
  formed means that fixed fields have their width, texts are UTF-8, and the rule of a policy refusal (kind 14) is within the
  reader's \<open>MAX_POLICY_RULE\<close>, which the writer does not check. The tighter payload bounds that the decoder checks for kinds
  14, 26 to 32, 34 and 35 refuse no payload of a well-formed record.\<close>

theorem decode_record_exact:
  "decode_record sha kind bs = Inr r \<longleftrightarrow> wf_record r \<and> record_kind r = kind \<and> record_payload sha r = Inr bs \<and>
    length bs \<le> MAX_FRAME - HEADER - TRAILER"
  by (auto simp: decode_record_def record_reading_exact)

end
