(* ===== verification/Outcomes.thy ===== *)
theory Outcomes
  imports Prelude
begin

section \<open>Checked steps\<close>

text \<open>
  The early returns of the replay code, and a small calculus for them: \<open>safe P r\<close> says that \<open>r\<close> did not panic and that
  a value it returned satisfies \<open>P\<close>. The collection \<open>vcg\<close> holds the rules that take a sequence of steps apart.
\<close>

named_theorems vcg \<open>rules that reduce a safe sequence of steps to its checks\<close>
named_theorems steps \<open>what a successful sequence of steps says of each step\<close>

text \<open>\<open>require(b)?\<close>, \<open>Option::ok_or(ReplayError::Corrupt)?\<close> and \<open>next\<close>.\<close>

definition check :: "bool \<Rightarrow> 'a outcome \<Rightarrow> 'a outcome" where
  "check b k = (if b then k else Inl (Err Corrupt))"

definition some_or_corrupt :: "'a option \<Rightarrow> 'a outcome" where
  "some_or_corrupt x = (case x of None \<Rightarrow> Inl (Err Corrupt) | Some v \<Rightarrow> Inr v)"

definition next_u64 :: "u64 \<Rightarrow> u64 outcome" where
  "next_u64 n = (case u64_checked_add n 1 of None \<Rightarrow> Inl (Err Limit) | Some m \<Rightarrow> Inr m)"

definition safe :: "('a \<Rightarrow> bool) \<Rightarrow> 'a outcome \<Rightarrow> bool" where
  "safe P r = (case r of Inl f \<Rightarrow> f \<noteq> Panic | Inr x \<Rightarrow> P x)"

lemma check_eq_Inr [steps]: "check b k = Inr x \<longleftrightarrow> b \<and> k = Inr x"
  by (simp add: check_def)

lemma check_True [simp]: "check True k = k"
  by (simp add: check_def)

lemma some_or_corrupt_simps [simp]: "some_or_corrupt None = Inl (Err Corrupt)" "some_or_corrupt (Some v) = Inr v"
  by (simp_all add: some_or_corrupt_def)

lemma some_or_corrupt_eq_Inr [steps]: "some_or_corrupt x = Inr v \<longleftrightarrow> x = Some v"
  by (cases x) simp_all

lemma next_u64_eq_Inr [steps]: "next_u64 n = Inr m \<longleftrightarrow> u64_checked_add n 1 = Some m"
  by (simp add: next_u64_def split: option.split)

lemma limit_eq_Inr [steps]: "(if b then Inl f else k) = Inr x \<longleftrightarrow> \<not> b \<and> k = Inr x"
  by simp

lemmas [steps] = result_bind_eq_Inr

subsection \<open>Safe steps\<close>

lemma safe_Inr [simp]: "safe P (Inr x) \<longleftrightarrow> P x"
  by (simp add: safe_def)

lemma safe_Err [simp]: "safe P (Inl (Err e))" "\<not> safe P (Inl Panic)"
  by (simp_all add: safe_def)

lemma safe_mono: "safe P r \<Longrightarrow> (\<And>x. r = Inr x \<Longrightarrow> P x \<Longrightarrow> Q x) \<Longrightarrow> safe Q r"
  by (cases r) (auto simp: safe_def)

lemma safe_iff: "safe P r \<longleftrightarrow> r \<noteq> Inl Panic \<and> (\<forall>x. r = Inr x \<longrightarrow> P x)"
  by (cases r) (auto simp: safe_def)

lemma safe_bind: "safe Q r \<Longrightarrow> (\<And>x. r = Inr x \<Longrightarrow> Q x \<Longrightarrow> safe P (f x)) \<Longrightarrow> safe P (result_bind r f)"
  by (cases r) (auto simp: safe_def)

lemma safe_then: "safe Q r \<Longrightarrow> (\<And>x. Q x \<Longrightarrow> safe P (f x)) \<Longrightarrow> safe P (result_bind r f)"
  by (rule safe_bind)

lemma safe_InrI [vcg]: "P x \<Longrightarrow> safe P (Inr x)"
  by simp

lemma safe_ErrI [vcg]: "safe P (Inl (Err e))"
  by simp

lemma safe_check [vcg]: "(b \<Longrightarrow> safe P k) \<Longrightarrow> safe P (check b k)"
  by (simp add: check_def)

lemma safe_if [vcg]: "(b \<Longrightarrow> safe P r) \<Longrightarrow> (\<not> b \<Longrightarrow> safe P k) \<Longrightarrow> safe P (if b then r else k)"
  by simp

lemma safe_option [vcg]:
  "(x = None \<Longrightarrow> safe P r) \<Longrightarrow> (\<And>y. x = Some y \<Longrightarrow> safe P (f y)) \<Longrightarrow> safe P (case x of None \<Rightarrow> r | Some y \<Rightarrow> f y)"
  by (cases x) simp_all

lemma safe_list [vcg]:
  "(xs = [] \<Longrightarrow> safe P r) \<Longrightarrow> (\<And>y ys. xs = y # ys \<Longrightarrow> safe P (f y ys)) \<Longrightarrow>
    safe P (case xs of [] \<Rightarrow> r | y # ys \<Rightarrow> f y ys)"
  by (cases xs) simp_all

lemma safe_prod [vcg]: "(\<And>a b. x = (a, b) \<Longrightarrow> safe P (f a b)) \<Longrightarrow> safe P (case x of (a, b) \<Rightarrow> f a b)"
  by (cases x) simp

lemma safe_lift: "safe (\<lambda>_. True) (lift_result r)" "safe (\<lambda>_. True) (some_or_corrupt x)" "safe (\<lambda>_. True) (next_u64 n)"
  by (simp_all add: safe_def lift_result_def some_or_corrupt_def next_u64_def split: option.split sum.split)
    (cases r; simp)

lemma safe_bind_lift [vcg]:
  "(\<And>x. r = Inr x \<Longrightarrow> safe P (f x)) \<Longrightarrow> safe P (result_bind (lift_result r) f)"
  "(\<And>v. x = Some v \<Longrightarrow> safe P (g v)) \<Longrightarrow> safe P (result_bind (some_or_corrupt x) g)"
  "(\<And>m. u64_checked_add n 1 = Some m \<Longrightarrow> safe P (h m)) \<Longrightarrow> safe P (result_bind (next_u64 n) h)"
  by (cases r; cases x; simp add: next_u64_def split: option.split)+

lemma safe_bind_some [vcg]:
  "x \<noteq> None \<Longrightarrow> (\<And>v. x = Some v \<Longrightarrow> safe P (f v)) \<Longrightarrow> safe P (result_bind (no_panic x) f)"
  by auto

text \<open>A block inside a sequence is taken apart like the sequence.\<close>

lemma safe_bind_bind [vcg]: "safe P (result_bind r (\<lambda>x. result_bind (f x) g)) \<Longrightarrow> safe P (result_bind (result_bind r f) g)"
  by (cases r) simp_all

lemma safe_bind_check [vcg]: "(b \<Longrightarrow> safe P (result_bind r f)) \<Longrightarrow> safe P (result_bind (check b r) f)"
  by (simp add: check_def)

lemma safe_bind_if [vcg]:
  "(b \<Longrightarrow> safe P (result_bind r f)) \<Longrightarrow> (\<not> b \<Longrightarrow> safe P (result_bind k f)) \<Longrightarrow> safe P (result_bind (if b then r else k) f)"
  by simp

lemma safe_bind_option [vcg]:
  "(x = None \<Longrightarrow> safe P (result_bind r f)) \<Longrightarrow> (\<And>y. x = Some y \<Longrightarrow> safe P (result_bind (g y) f)) \<Longrightarrow>
    safe P (result_bind (case x of None \<Rightarrow> r | Some y \<Rightarrow> g y) f)"
  by (cases x) simp_all

lemma safe_bind_value [vcg]: "safe P (f x) \<Longrightarrow> safe P (result_bind (Inr x) f)" "safe P (result_bind (Inl (Err e)) f)"
  by simp_all

end
