(* ===== verification/Frames.thy ===== *)
theory Frames
  imports Codec Outcomes
begin

section \<open>Journal frames\<close>

text \<open>
  The frame around a record: \<open>encode_frame\<close> of \<open>authority/conversation/codec.rs\<close> and \<open>envelope\<close> and its
  callers in \<open>authority.rs\<close>. A frame is a header of 144 bytes, the payload and a trailer of 40 bytes; the
  header holds the digest of the command and the trailer the digest of everything before it. \<open>sha\<close> stands
  for SHA-256; where a result depends on it, the hypothesis is that a digest has 32 bytes.
\<close>

record frame_context =
  fc_installation_id :: id16
  fc_transition_id :: id16
  fc_sequence :: u64
  fc_prior_digest :: hash32
  fc_expected_revision :: u64
  fc_owner_generation :: u64

definition wf_context :: "frame_context \<Rightarrow> bool" where
  "wf_context c \<longleftrightarrow> is_id (fc_installation_id c) \<and> is_id (fc_transition_id c) \<and> is_hash (fc_prior_digest c)"

definition frame_head :: "(bytes \<Rightarrow> bytes) \<Rightarrow> frame_context \<Rightarrow> u16 \<Rightarrow> nat \<Rightarrow> u64 \<Rightarrow> bytes \<Rightarrow> bytes" where
  "frame_head sha c kind len resulting p =
    ascii ''ASURAJ01'' @ be16 1 @ be16 kind @ be32 (of_nat len) @ be64 (fc_sequence c) @ fc_prior_digest c @
    fc_installation_id c @ fc_transition_id c @ sha (be16 kind @ p) @ be64 (fc_expected_revision c) @
    be64 resulting @ be64 (fc_owner_generation c) @ p"

definition frame_bytes :: "(bytes \<Rightarrow> bytes) \<Rightarrow> frame_context \<Rightarrow> u16 \<Rightarrow> nat \<Rightarrow> u64 \<Rightarrow> bytes \<Rightarrow> bytes" where
  "frame_bytes sha c kind len resulting p =
    (let w = frame_head sha c kind len resulting p in w @ sha w @ ascii ''ASURAC01'')"

definition encode_frame :: "(bytes \<Rightarrow> bytes) \<Rightarrow> frame_context \<Rightarrow> journal_record \<Rightarrow> bytes result" where
  "encode_frame sha c record =
    (if fc_installation_id c = zero_id \<or> fc_transition_id c = zero_id \<or> fc_sequence c = 0 \<or> fc_owner_generation c = 0
     then Inl Corrupt
     else result_bind (record_payload sha record) (\<lambda>p.
       let len = HEADER + length p + TRAILER in
       if len > MAX_FRAME then Inl Limit
       else case u64_checked_add (fc_expected_revision c) 1 of
           None \<Rightarrow> Inl Limit
         | Some resulting \<Rightarrow> Inr (frame_bytes sha c (record_kind record) len resulting p)))"

record frame_envelope =
  ev_context :: frame_context
  ev_kind :: u16
  ev_payload :: bytes
  ev_digest :: hash32
  ev_length :: nat

text \<open>A slice \<open>&bytes[a..b]\<close>, a slice turned into an array of \<open>n\<close> bytes with \<open>try_into().unwrap()\<close> or
  \<open>expect\<close>, and a subtraction of \<open>usize\<close>: each panics outside its domain.\<close>

definition slice_of :: "nat \<Rightarrow> nat \<Rightarrow> bytes \<Rightarrow> bytes outcome" where
  "slice_of a b bs = (if a \<le> b \<and> b \<le> length bs then Inr (subrange a b bs) else Inl Panic)"

definition fixed :: "nat \<Rightarrow> bytes \<Rightarrow> bytes outcome" where
  "fixed n bs = (if length bs = n then Inr bs else Inl Panic)"

definition usize_sub :: "nat \<Rightarrow> nat \<Rightarrow> nat outcome" where
  "usize_sub a b = (if b \<le> a then Inr (a - b) else Inl Panic)"

definition array_of :: "nat \<Rightarrow> nat \<Rightarrow> bytes \<Rightarrow> bytes outcome" where
  "array_of n offset bs = result_bind (slice_of offset (offset + n) bs) (fixed n)"

definition u64_at :: "bytes \<Rightarrow> nat \<Rightarrow> u64 outcome" where
  "u64_at bs offset = result_bind (array_of 8 offset bs) (\<lambda>v. Inr (u64_of_be v))"

definition id_at :: "bytes \<Rightarrow> nat \<Rightarrow> id16 outcome" where
  "id_at bs offset = array_of 16 offset bs"

definition envelope_fields :: "(bytes \<Rightarrow> bytes) \<Rightarrow> bytes \<Rightarrow> nat \<Rightarrow> frame_envelope outcome" where
  "envelope_fields sha frame len =
    (result_bind (usize_sub len TRAILER) (\<lambda>hash_end.
     result_bind (slice_of 0 hash_end frame) (\<lambda>hashed.
     let digest = sha hashed in
     result_bind (slice_of hash_end (hash_end + 32) frame) (\<lambda>trailer.
     if trailer \<noteq> digest then Inl (Err Corrupt) else
     result_bind (usize_sub len 8) (\<lambda>commit.
     result_bind (slice_of commit (length frame) frame) (\<lambda>magic.
     if magic \<noteq> ascii ''ASURAC01'' then Inl (Err Corrupt) else
     result_bind (array_of 2 10 frame) (\<lambda>kind.
     result_bind (slice_of HEADER hash_end frame) (\<lambda>payload.
     result_bind (slice_of 88 120 frame) (\<lambda>command.
     if command \<noteq> sha (kind @ payload) then Inl (Err Corrupt) else
     result_bind (u64_at frame 120) (\<lambda>expected.
     result_bind (id_at frame 56) (\<lambda>installation_id.
     result_bind (id_at frame 72) (\<lambda>transition_id.
     result_bind (u64_at frame 136) (\<lambda>owner_generation.
     if installation_id = zero_id \<or> transition_id = zero_id \<or> owner_generation = 0 then Inl (Err Corrupt) else
     result_bind (u64_at frame 128) (\<lambda>resulting.
     result_bind (some_or_corrupt (u64_checked_add expected 1)) (\<lambda>following.
     if resulting \<noteq> following then Inl (Err Corrupt) else
     result_bind (u64_at frame 16) (\<lambda>sequence.
     result_bind (array_of 32 24 frame) (\<lambda>prior_digest.
     Inr \<lparr>ev_context = \<lparr>fc_installation_id = installation_id, fc_transition_id = transition_id,
         fc_sequence = sequence, fc_prior_digest = prior_digest, fc_expected_revision = expected,
         fc_owner_generation = owner_generation\<rparr>,
       ev_kind = u16_of_be kind, ev_payload = payload, ev_digest = digest, ev_length = len\<rparr>)))))))))))))))))"

definition envelope :: "(bytes \<Rightarrow> bytes) \<Rightarrow> bytes \<Rightarrow> frame_envelope outcome" where
  "envelope sha bs =
    (if length bs < HEADER then Inl (Err IncompleteTail) else
     result_bind (slice_of 0 8 bs) (\<lambda>magic.
     if magic \<noteq> ascii ''ASURAJ01'' then Inl (Err Corrupt) else
     result_bind (slice_of 8 10 bs) (\<lambda>version.
     if version \<noteq> be16 1 then Inl (Err UnsupportedFormat) else
     result_bind (array_of 4 12 bs) (\<lambda>size.
     let len = unat (u32_of_be size) in
     if len > MAX_FRAME then Inl (Err Limit)
     else if len < HEADER + TRAILER then Inl (Err Corrupt)
     else if length bs < len then Inl (Err IncompleteTail)
     else result_bind (slice_of 0 len bs) (\<lambda>frame. envelope_fields sha frame len)))))"

definition verified_frame ::
  "(bytes \<Rightarrow> bytes) \<Rightarrow> bytes \<Rightarrow> locator \<Rightarrow> (frame_context \<times> journal_record \<times> hash32) outcome" where
  "verified_frame sha bs loc =
    (case envelope sha bs of
        Inl Panic \<Rightarrow> Inl Panic
      | Inl (Err e) \<Rightarrow> Inl (Err (if e = UnsupportedFormat then e else Corrupt))
      | Inr e \<Rightarrow>
          if ev_length e \<noteq> length bs \<or> ev_length e \<noteq> unat (loc_length loc) \<or>
             fc_sequence (ev_context e) \<noteq> loc_sequence loc then Inl (Err Corrupt)
          else result_bind (lift_result (decode_record sha (ev_kind e) (ev_payload e))) (\<lambda>record.
            Inr (ev_context e, record, ev_digest e)))"

definition verified_command :: "(bytes \<Rightarrow> bytes) \<Rightarrow> bytes \<Rightarrow> locator \<Rightarrow> (hash32 \<times> journal_record) outcome" where
  "verified_command sha bs loc =
    result_bind (verified_frame sha bs loc) (\<lambda>(_, record, _).
    result_bind (array_of 32 88 bs) (\<lambda>command. Inr (command, record)))"

definition verified_record :: "(bytes \<Rightarrow> bytes) \<Rightarrow> bytes \<Rightarrow> locator \<Rightarrow> journal_record outcome" where
  "verified_record sha bs loc = result_bind (verified_frame sha bs loc) (\<lambda>(_, record, _). Inr record)"

subsection \<open>No slice is out of range\<close>

text \<open>The frame's fields read with slices that cannot fail. That \<open>envelope\<close> agrees with this reading says that every slice,
  conversion and subtraction of it is inside its domain.\<close>

definition u64_field :: "bytes \<Rightarrow> nat \<Rightarrow> u64" where
  "u64_field bs offset = u64_of_be (subrange offset (offset + 8) bs)"

definition id_field :: "bytes \<Rightarrow> nat \<Rightarrow> id16" where
  "id_field bs offset = subrange offset (offset + 16) bs"

definition envelope_of :: "(bytes \<Rightarrow> bytes) \<Rightarrow> bytes \<Rightarrow> nat \<Rightarrow> frame_envelope result" where
  "envelope_of sha frame len =
    (let hash_end = len - TRAILER;
         digest = sha (take hash_end frame);
         kind = u16_of_be (subrange 10 12 frame);
         payload = subrange HEADER hash_end frame;
         expected = u64_field frame 120
     in if subrange hash_end (hash_end + 32) frame \<noteq> digest \<or> drop (len - 8) frame \<noteq> ascii ''ASURAC01'' then Inl Corrupt
        else if subrange 88 120 frame \<noteq> sha (subrange 10 12 frame @ payload) then Inl Corrupt
        else if id_field frame 56 = zero_id \<or> id_field frame 72 = zero_id \<or> u64_field frame 136 = 0 \<or>
          Some (u64_field frame 128) \<noteq> u64_checked_add expected 1 then Inl Corrupt
        else Inr \<lparr>ev_context = \<lparr>fc_installation_id = id_field frame 56, fc_transition_id = id_field frame 72,
            fc_sequence = u64_field frame 16, fc_prior_digest = subrange 24 56 frame, fc_expected_revision = expected,
            fc_owner_generation = u64_field frame 136\<rparr>,
          ev_kind = kind, ev_payload = payload, ev_digest = digest, ev_length = len\<rparr>)"

definition envelope_view :: "(bytes \<Rightarrow> bytes) \<Rightarrow> bytes \<Rightarrow> frame_envelope result" where
  "envelope_view sha bs =
    (if length bs < HEADER then Inl IncompleteTail
     else if take 8 bs \<noteq> ascii ''ASURAJ01'' then Inl Corrupt
     else if subrange 8 10 bs \<noteq> be16 1 then Inl UnsupportedFormat
     else let len = unat (u32_of_be (subrange 12 16 bs)) in
       if len > MAX_FRAME then Inl Limit
       else if len < HEADER + TRAILER then Inl Corrupt
       else if length bs < len then Inl IncompleteTail
       else envelope_of sha (take len bs) len)"

lemma slice_inside [simp]: "a \<le> b \<Longrightarrow> b \<le> length bs \<Longrightarrow> slice_of a b bs = Inr (subrange a b bs)"
  by (simp add: slice_of_def)

lemma array_inside [simp]: "offset + n \<le> length bs \<Longrightarrow> array_of n offset bs = Inr (subrange offset (offset + n) bs)"
  by (simp add: array_of_def fixed_def)

lemma usize_sub_inside [simp]: "b \<le> a \<Longrightarrow> usize_sub a b = Inr (a - b)"
  by (simp add: usize_sub_def)

lemma field_inside [simp]:
  "offset + 8 \<le> length bs \<Longrightarrow> u64_at bs offset = Inr (u64_field bs offset)"
  "offset + 16 \<le> length bs \<Longrightarrow> id_at bs offset = Inr (id_field bs offset)"
  by (simp_all add: u64_at_def id_at_def u64_field_def id_field_def)

lemma subrange_tail [simp]: "subrange n (length xs) xs = drop n xs"
  by (simp add: subrange_def)

lemma envelope_fields_inside:
  assumes "length frame = len" "HEADER + TRAILER \<le> len"
  shows "envelope_fields sha frame len = lift_result (envelope_of sha frame len)"
proof -
  have cut: "subrange 0 n frame = take n frame" "subrange n len frame = drop n frame" for n
    using assms(1) by (simp_all add: subrange_def)
  show ?thesis
    using assms by (simp add: envelope_fields_def envelope_of_def Let_def cut some_or_corrupt_def split: option.split)
qed

lemma envelope_inside_view: "envelope sha bs = lift_result (envelope_view sha bs)"
proof -
  have cut: "subrange 0 n bs = take n bs" for n by (simp add: subrange_def)
  show ?thesis by (simp add: envelope_def envelope_view_def Let_def cut envelope_fields_inside)
qed

subsection \<open>The layout\<close>

lemma length_frame_head:
  "is_hash (sha (be16 kind @ p)) \<Longrightarrow> wf_context c \<Longrightarrow> length (frame_head sha c kind len resulting p) = HEADER + length p"
  by (simp add: frame_head_def wf_context_def)

lemma length_frame_bytes:
  "\<forall>m. is_hash (sha m) \<Longrightarrow> wf_context c \<Longrightarrow>
    length (frame_bytes sha c kind len resulting p) = HEADER + length p + TRAILER"
  by (simp add: frame_bytes_def length_frame_head Let_def)

lemmas slice_simps = subrange_skip subrange_hit u64_field_def id_field_def

lemma frame_head_fields:
  assumes "is_hash (sha (be16 kind @ p))" "wf_context c"
  shows "take 8 (frame_head sha c kind len resulting p @ r) = ascii ''ASURAJ01''"
    "subrange 8 10 (frame_head sha c kind len resulting p @ r) = be16 1"
    "subrange 10 12 (frame_head sha c kind len resulting p @ r) = be16 kind"
    "subrange 12 16 (frame_head sha c kind len resulting p @ r) = be32 (of_nat len)"
    "u64_field (frame_head sha c kind len resulting p @ r) 16 = fc_sequence c"
    "subrange 24 56 (frame_head sha c kind len resulting p @ r) = fc_prior_digest c"
    "id_field (frame_head sha c kind len resulting p @ r) 56 = fc_installation_id c"
    "id_field (frame_head sha c kind len resulting p @ r) 72 = fc_transition_id c"
    "subrange 88 120 (frame_head sha c kind len resulting p @ r) = sha (be16 kind @ p)"
    "u64_field (frame_head sha c kind len resulting p @ r) 120 = fc_expected_revision c"
    "u64_field (frame_head sha c kind len resulting p @ r) 128 = resulting"
    "u64_field (frame_head sha c kind len resulting p @ r) 136 = fc_owner_generation c"
    "subrange HEADER (HEADER + length p) (frame_head sha c kind len resulting p @ r) = p"
  using assms by (simp_all add: frame_head_def wf_context_def slice_simps)

lemma frame_head_split:
  assumes "HEADER \<le> n"
  shows "take n f = take 8 f @ subrange 8 10 f @ subrange 10 12 f @ subrange 12 16 f @ subrange 16 24 f @
    subrange 24 56 f @ subrange 56 72 f @ subrange 72 88 f @ subrange 88 120 f @ subrange 120 128 f @
    subrange 128 136 f @ subrange 136 144 f @ subrange 144 n f"
proof -
  have "take 8 f = subrange 0 8 f" "take n f = subrange 0 n f" by (simp_all add: subrange_def)
  then show ?thesis using assms by (simp add: subrange_subrange del: subrange_0)
qed

definition wf_envelope :: "frame_envelope \<Rightarrow> bool" where
  "wf_envelope e \<longleftrightarrow> wf_context (ev_context e) \<and> fc_installation_id (ev_context e) \<noteq> zero_id \<and>
    fc_transition_id (ev_context e) \<noteq> zero_id \<and> fc_owner_generation (ev_context e) \<noteq> 0 \<and>
    ev_length e = HEADER + length (ev_payload e) + TRAILER \<and> ev_length e \<le> MAX_FRAME"

lemma envelope_of_exact:
  assumes "\<forall>m. is_hash (sha m)" "length frame = len" "HEADER + TRAILER \<le> len" "len \<le> MAX_FRAME"
    "take 8 frame = ascii ''ASURAJ01''" "subrange 8 10 frame = be16 1" "unat (u32_of_be (subrange 12 16 frame)) = len"
  shows "envelope_of sha frame len = Inr e \<longleftrightarrow> wf_envelope e \<and> (\<exists>resulting.
      u64_checked_add (fc_expected_revision (ev_context e)) 1 = Some resulting \<and>
      frame = frame_bytes sha (ev_context e) (ev_kind e) (ev_length e) resulting (ev_payload e) \<and>
      ev_digest e = sha (take (len - TRAILER) frame))"
    (is "?l \<longleftrightarrow> ?r")
proof
  assume l: ?l
  let ?n = "len - TRAILER"
  have e: "e = \<lparr>ev_context = \<lparr>fc_installation_id = id_field frame 56, fc_transition_id = id_field frame 72,
        fc_sequence = u64_field frame 16, fc_prior_digest = subrange 24 56 frame, fc_expected_revision = u64_field frame 120,
        fc_owner_generation = u64_field frame 136\<rparr>, ev_kind = u16_of_be (subrange 10 12 frame),
      ev_payload = subrange HEADER ?n frame, ev_digest = sha (take ?n frame), ev_length = len\<rparr>"
    and trail: "subrange ?n (?n + 32) frame = sha (take ?n frame)" "drop (len - 8) frame = ascii ''ASURAC01''"
    and command: "subrange 88 120 frame = sha (subrange 10 12 frame @ subrange HEADER ?n frame)"
    and ids: "id_field frame 56 \<noteq> zero_id" "id_field frame 72 \<noteq> zero_id" "u64_field frame 136 \<noteq> 0"
      "u64_checked_add (u64_field frame 120) 1 = Some (u64_field frame 128)"
    using l by (auto simp: envelope_of_def Let_def split: if_splits)
  have "(of_nat len :: u32) = u32_of_be (subrange 12 16 frame)" unfolding assms(7) [symmetric] by simp
  then have size: "be32 (of_nat len) = subrange 12 16 frame" using assms(2,3) by simp
  have "frame = take ?n frame @ subrange ?n (?n + 32) frame @ drop (len - 8) frame"
  proof -
    have "?n + 32 = len - 8" using assms(3) by simp
    then show ?thesis using assms(2) by (metis append_take_drop_id subrange_def drop_drop add.commute diff_add_inverse)
  qed
  moreover have "take ?n frame = frame_head sha (ev_context e) (ev_kind e) (ev_length e) (u64_field frame 128) (ev_payload e)"
    using assms frame_head_split [of ?n frame] command
    by (simp add: e frame_head_def u64_field_def id_field_def size)
  ultimately have "frame = frame_bytes sha (ev_context e) (ev_kind e) (ev_length e) (u64_field frame 128) (ev_payload e)"
    unfolding frame_bytes_def Let_def using trail by simp
  moreover have "wf_envelope e"
    using assms(2-4) ids by (simp add: e wf_envelope_def wf_context_def id_field_def)
  ultimately show ?r using ids(4) by (auto simp: e)
next
  assume ?r
  then obtain resulting where r: "wf_envelope e" "u64_checked_add (fc_expected_revision (ev_context e)) 1 = Some resulting"
    "frame = frame_bytes sha (ev_context e) (ev_kind e) (ev_length e) resulting (ev_payload e)"
    "ev_digest e = sha (take (len - TRAILER) frame)" by blast
  let ?h = "frame_head sha (ev_context e) (ev_kind e) (ev_length e) resulting (ev_payload e)"
  have wf: "wf_context (ev_context e)" and hash: "is_hash (sha (be16 (ev_kind e) @ ev_payload e))"
    using r(1) assms(1) by (simp_all add: wf_envelope_def)
  have frame: "frame = ?h @ sha ?h @ ascii ''ASURAC01''" using r(3) by (simp add: frame_bytes_def Let_def)
  have len: "len = HEADER + length (ev_payload e) + TRAILER" "ev_length e = len"
    using assms(1,2) r(1,3) wf by (simp_all add: length_frame_bytes wf_envelope_def)
  have h: "length ?h = len - TRAILER" "length ?h = HEADER + length (ev_payload e)"
    using length_frame_head [of sha, OF hash wf] len by simp_all
  have cut: "take (len - TRAILER) frame = ?h" "subrange (len - TRAILER) (len - TRAILER + 32) frame = sha ?h"
      "drop (len - 8) frame = ascii ''ASURAC01''"
    using assms(1) len(1) unfolding frame h(1) [symmetric] by (simp_all add: h(2) slice_simps)
  have payload: "subrange HEADER (len - TRAILER) frame = ev_payload e"
    using frame_head_fields(13) [of sha, OF hash wf] unfolding frame h(1) [symmetric] h(2) .
  note fields = frame_head_fields [of sha, OF hash wf, of "ev_length e" resulting "sha ?h @ ascii ''ASURAC01''", folded frame]
  show ?l
    using r len fields cut payload by (cases e) (simp add: envelope_of_def Let_def wf_envelope_def)
qed

lemma frame_bytes_start:
  assumes "\<forall>m. is_hash (sha m)" "wf_context c"
  shows "take 8 (frame_bytes sha c kind len resulting p @ post) = ascii ''ASURAJ01''"
    "subrange 8 10 (frame_bytes sha c kind len resulting p @ post) = be16 1"
    "subrange 12 16 (frame_bytes sha c kind len resulting p @ post) = be32 (of_nat len)"
  using assms by (simp_all add: frame_bytes_def Let_def frame_head_fields del: take_append)

lemma frame_size_word: "len \<le> MAX_FRAME \<Longrightarrow> unat (of_nat len :: u32) = len"
  by (simp add: unat_of_nat)

lemma envelope_exact:
  assumes "\<forall>m. is_hash (sha m)"
  shows "envelope sha bs = Inr e \<longleftrightarrow> wf_envelope e \<and> (\<exists>resulting post.
    u64_checked_add (fc_expected_revision (ev_context e)) 1 = Some resulting \<and>
    bs = frame_bytes sha (ev_context e) (ev_kind e) (ev_length e) resulting (ev_payload e) @ post \<and>
    ev_digest e = sha (take (ev_length e - TRAILER) bs))"
    (is "?l \<longleftrightarrow> ?r")
proof
  assume l: ?l
  let ?len = "unat (u32_of_be (subrange 12 16 bs))"
  have b: "HEADER + TRAILER \<le> ?len" "?len \<le> MAX_FRAME" "?len \<le> length bs" "take 8 bs = ascii ''ASURAJ01''"
    "subrange 8 10 bs = be16 1" "envelope_of sha (take ?len bs) ?len = Inr e"
    using l by (auto simp: envelope_inside_view envelope_view_def Let_def split: if_splits)
  have start: "take 8 (take ?len bs) = ascii ''ASURAJ01''" "subrange 8 10 (take ?len bs) = be16 1"
    "unat (u32_of_be (subrange 12 16 (take ?len bs))) = ?len"
    using b by (simp_all add: subrange_take min_def)
  have "length (take ?len bs) = ?len" using b(3) by simp
  from b(6) [unfolded envelope_of_exact [OF assms this b(1,2) start]]
  obtain resulting where r: "wf_envelope e" "u64_checked_add (fc_expected_revision (ev_context e)) 1 = Some resulting"
    "take ?len bs = frame_bytes sha (ev_context e) (ev_kind e) (ev_length e) resulting (ev_payload e)"
    "ev_digest e = sha (take (?len - TRAILER) (take ?len bs))" by blast
  have "ev_length e = ?len"
    using r(1) arg_cong [OF r(3), of length] b(3) assms
    by (simp add: length_frame_bytes wf_envelope_def)
  moreover have "bs = take ?len bs @ drop ?len bs" by simp
  ultimately show ?r using r by (metis take_take min.cobounded2 diff_le_self min_absorb1)
next
  assume ?r
  then obtain resulting post where r: "wf_envelope e" "u64_checked_add (fc_expected_revision (ev_context e)) 1 = Some resulting"
    "bs = frame_bytes sha (ev_context e) (ev_kind e) (ev_length e) resulting (ev_payload e) @ post"
    "ev_digest e = sha (take (ev_length e - TRAILER) bs)" by blast
  let ?f = "frame_bytes sha (ev_context e) (ev_kind e) (ev_length e) resulting (ev_payload e)"
  have wf: "wf_context (ev_context e)" "ev_length e \<le> MAX_FRAME"
    "ev_length e = HEADER + length (ev_payload e) + TRAILER" using r(1) by (simp_all add: wf_envelope_def)
  have len: "length ?f = ev_length e" using length_frame_bytes [OF assms wf(1)] wf(3) by simp
  note start = frame_bytes_start [OF assms wf(1), of "ev_kind e" "ev_length e" resulting "ev_payload e"]
  have "envelope_of sha ?f (ev_length e) = Inr e"
    using envelope_of_exact [OF assms len] wf r start [of "[]"] frame_size_word [OF wf(2)] len by auto
  then show ?l
    using start [of post] len wf frame_size_word [OF wf(2)] unfolding r(3)
    by (simp add: envelope_inside_view envelope_view_def Let_def)
qed

subsection \<open>Properties\<close>

text \<open>C17: A frame read through a locator is exactly an encoded frame. For a locator whose sequence is not 0,
  \<open>verified_frame\<close> returns a context, a record and a digest just when the context's fields have their widths, the record
  is well formed, the bytes are what \<open>encode_frame\<close> makes of that context and record, the locator has their length and
  sequence, and the digest is that of the bytes before the trailer. Both side conditions are needed: \<open>envelope\<close> accepts a
  frame with sequence 0, which \<open>encode_frame\<close> refuses to write; and a record is well formed only within the bounds of its
  reader, among them the bound on the rule of a policy refusal that the writer of a tool call does not check.\<close>

theorem verified_frame_exact:
  assumes "\<forall>m. is_hash (sha m)" "loc_sequence loc \<noteq> 0"
  shows "verified_frame sha bs loc = Inr (c, record, digest) \<longleftrightarrow>
    wf_context c \<and> wf_record record \<and> encode_frame sha c record = Inr bs \<and> length bs = unat (loc_length loc) \<and>
    fc_sequence c = loc_sequence loc \<and> digest = sha (take (length bs - TRAILER) bs)"
proof
  assume l: "verified_frame sha bs loc = Inr (c, record, digest)"
  obtain e where env: "envelope sha bs = Inr e"
    using l by (auto simp: verified_frame_def split: sum.splits fault.splits)
  have checks: "\<not> (ev_length e \<noteq> length bs \<or> ev_length e \<noteq> unat (loc_length loc) \<or>
      fc_sequence (ev_context e) \<noteq> loc_sequence loc)"
    using l env by (rule_tac notI) (simp only: verified_frame_def sum.case if_True, simp)
  then have "result_bind (lift_result (decode_record sha (ev_kind e) (ev_payload e))) (\<lambda>record.
      Inr (ev_context e, record, ev_digest e)) = Inr (c, record, digest)"
    using l env by (simp only: verified_frame_def sum.case if_False)
  then have e: "decode_record sha (ev_kind e) (ev_payload e) = Inr record" "c = ev_context e" "digest = ev_digest e"
    by (auto simp: result_bind_eq_Inr)
  from env obtain resulting post where r: "wf_envelope e"
    "u64_checked_add (fc_expected_revision (ev_context e)) 1 = Some resulting"
    "bs = frame_bytes sha (ev_context e) (ev_kind e) (ev_length e) resulting (ev_payload e) @ post"
    "ev_digest e = sha (take (ev_length e - TRAILER) bs)"
    unfolding envelope_exact [OF assms(1)] by blast
  have "post = []"
    using arg_cong [OF r(3), of length] checks r(1) assms(1) by (simp add: length_frame_bytes wf_envelope_def)
  from e(1) have written: "wf_record record" "record_kind record = ev_kind e" "record_payload sha record = Inr (ev_payload e)"
    by (auto simp: decode_record_def record_reading_exact split: if_splits)
  then have "encode_frame sha c record =
      Inr (frame_bytes sha (ev_context e) (ev_kind e) (ev_length e) resulting (ev_payload e))"
    using assms(2) e(2) checks r(1,2) by (simp add: encode_frame_def wf_envelope_def Let_def)
  then have "encode_frame sha c record = Inr bs" using r(3) \<open>post = []\<close> by simp
  then show "wf_context c \<and> wf_record record \<and> encode_frame sha c record = Inr bs \<and> length bs = unat (loc_length loc) \<and>
      fc_sequence c = loc_sequence loc \<and> digest = sha (take (length bs - TRAILER) bs)"
    using e(2,3) checks written(1) r(1,4) by (simp add: wf_envelope_def)
next
  assume a: "wf_context c \<and> wf_record record \<and> encode_frame sha c record = Inr bs \<and> length bs = unat (loc_length loc) \<and>
      fc_sequence c = loc_sequence loc \<and> digest = sha (take (length bs - TRAILER) bs)"
  then obtain p resulting where p: "record_payload sha record = Inr p" "HEADER + length p + TRAILER \<le> MAX_FRAME"
    "u64_checked_add (fc_expected_revision c) 1 = Some resulting" "fc_installation_id c \<noteq> zero_id"
    "fc_transition_id c \<noteq> zero_id" "fc_owner_generation c \<noteq> 0"
    "bs = frame_bytes sha c (record_kind record) (HEADER + length p + TRAILER) resulting p"
    by (auto simp: encode_frame_def result_bind_eq_Inr Let_def not_less split: if_splits option.splits)
  let ?e = "\<lparr>ev_context = c, ev_kind = record_kind record, ev_payload = p, ev_digest = digest,
    ev_length = HEADER + length p + TRAILER\<rparr>"
  have len: "length bs = HEADER + length p + TRAILER" unfolding p(7) using a assms(1) by (blast intro: length_frame_bytes)
  have "envelope sha bs = Inr ?e"
    using a p len assms(1) by (subst envelope_exact) (auto simp: wf_envelope_def)
  moreover have "decode_record sha (record_kind record) p = Inr record"
    using a p(1,2) by (simp add: decode_record_def record_reading_exact)
  moreover have "unat (loc_length loc) = length bs" "loc_sequence loc = fc_sequence c" using a by simp_all
  ultimately show "verified_frame sha bs loc = Inr (c, record, digest)"
    using len by (simp add: verified_frame_def)
qed

definition demo_context :: frame_context where
  "demo_context = \<lparr>fc_installation_id = replicate 16 1, fc_transition_id = replicate 16 2, fc_sequence = 7,
    fc_prior_digest = replicate 32 3, fc_expected_revision = 6, fc_owner_generation = 2\<rparr>"

definition demo_frame :: bytes where
  "demo_frame = frame_bytes (\<lambda>_. replicate 32 9) demo_context 3 184 7 []"

lemma demo_frame_encoded:
  "wf_context demo_context" "encode_frame (\<lambda>_. replicate 32 9) demo_context R_OwnerGeneration = Inr demo_frame"
  by (simp_all add: wf_context_def demo_context_def demo_frame_def encode_frame_def zero_id_def u64_checked_add_def)

lemma length_demo_frame: "length demo_frame = 184"
  using length_frame_bytes [of "\<lambda>_. replicate 32 9", OF _ demo_frame_encoded(1)] by (simp add: demo_frame_def)

theorem verified_frame_exact_witness:
  "verified_frame (\<lambda>_. replicate 32 9) demo_frame \<lparr>loc_sequence = 7, loc_segment = 1, loc_offset = 0, loc_length = 184\<rparr> =
    Inr (demo_context, R_OwnerGeneration, replicate 32 9)"
  using demo_frame_encoded
  by (subst verified_frame_exact) (simp_all add: length_demo_frame, simp add: demo_context_def)

text \<open>C19: A torn write is seen as one. Every proper prefix of an encoded frame makes \<open>envelope\<close> report
  \<open>IncompleteTail\<close>, never an accepted frame and never corruption.\<close>

theorem torn_frame_incomplete:
  assumes "\<forall>m. is_hash (sha m)" "wf_context c" "encode_frame sha c record = Inr bs" "k < length bs"
  shows "envelope sha (take k bs) = Inl (Err IncompleteTail)"
proof -
  obtain p resulting where p: "HEADER + length p + TRAILER \<le> MAX_FRAME"
    "bs = frame_bytes sha c (record_kind record) (HEADER + length p + TRAILER) resulting p"
    using assms(3) by (auto simp: encode_frame_def result_bind_eq_Inr Let_def not_less split: if_splits option.splits)
  have len: "length bs = HEADER + length p + TRAILER" unfolding p(2) by (rule length_frame_bytes [OF assms(1,2)])
  have whole: "take 8 bs = ascii ''ASURAJ01''" "subrange 8 10 bs = be16 1" "subrange 12 16 bs = be32 (of_nat (length bs))"
    using frame_bytes_start [OF assms(1,2), of "record_kind record" "length bs" resulting p "[]"] p(2) len
    by (simp_all only: append_Nil2)
  have cut: "length (take k bs) = k" using assms(4) by simp
  show ?thesis
  proof (cases "k < HEADER")
    case True
    then show ?thesis unfolding envelope_inside_view envelope_view_def cut by simp
  next
    case False
    then have "take 8 (take k bs) = ascii ''ASURAJ01''" "subrange 8 10 (take k bs) = be16 1"
      "unat (u32_of_be (subrange 12 16 (take k bs))) = length bs"
      using whole p(1) len frame_size_word [of "length bs"] by (simp_all add: subrange_take min_def)
    then show ?thesis
      unfolding envelope_inside_view envelope_view_def cut Let_def using False assms(4) p(1) len by (simp del: take_take)
  qed
qed

theorem torn_frame_incomplete_witness:
  "envelope (\<lambda>_. replicate 32 9) (take 150 demo_frame) = Inl (Err IncompleteTail)"
  using demo_frame_encoded by (rule torn_frame_incomplete [rotated]) (simp_all add: length_demo_frame)

end
