(* ===== verification/PolicyReplay.thy ===== *)
theory PolicyReplay
  imports Policies ToolCalls BTree
begin

section \<open>Replay of the policy records\<close>

text \<open>
  \<open>PolicyReplay\<close> of \<open>authority/conversation/policy.rs\<close>: the facts that replay keeps about policy
  revisions and pending decisions, and its rules R1 to R10. A method that takes \<open>&mut self\<close> and returns
  a \<open>Result\<close> is a function to the result and the state it leaves, also when it fails.
\<close>

abbreviation MAX_PENDING_POLICY_DECISIONS :: nat where "MAX_PENDING_POLICY_DECISIONS \<equiv> 64"
abbreviation MAX_PENDING_PERSON_DECISIONS :: nat where "MAX_PENDING_PERSON_DECISIONS \<equiv> 512"

type_synonym call_key = "id16 \<times> u64 \<times> u32"

record policy_replay =
  pr_last_seq :: u64
  pr_active :: "(u64 \<times> hash32) option"
  pr_pending :: "(call_key, policy_outcome) btree"
  pr_person :: "(id16, policy_outcome) btree"

definition policy_replay_default :: policy_replay where
  "policy_replay_default = \<lparr>pr_last_seq = 0, pr_active = None, pr_pending = [], pr_person = []\<rparr>"

type_synonym 's effect = "'s \<Rightarrow> unit result \<times> 's"

definition replay_pending :: "policy_replay \<Rightarrow> id16 \<Rightarrow> u64 \<Rightarrow> u32 \<Rightarrow> policy_outcome option" where
  "replay_pending s operation generation ordinal = bt_get (pr_pending s) (operation, generation, ordinal)"

definition replay_revision :: "policy_revision \<Rightarrow> policy_replay effect" where
  "replay_revision p s =
    (if pv_event p = Activated \<and> Some (pv_seq p) = u64_checked_add (pr_last_seq s) 1 \<and>
        pv_previous_seq p = (case pr_active s of None \<Rightarrow> 0 | Some (seq, _) \<Rightarrow> seq)
     then (Inr (), s\<lparr>pr_last_seq := pv_seq p, pr_active := Some (pv_seq p, pv_digest p)\<rparr>)
     else (Inl Corrupt, s))"

definition replay_decision :: "policy_decision \<Rightarrow> policy_replay effect" where
  "replay_decision p s =
    (if \<not> (pd_outcome p \<noteq> PolicyAsk \<and> pr_active s = Some (pd_revision_seq p, pd_revision_digest p))
     then (Inl Corrupt, s)
     else case (policy_call p, pd_subject p) of
        (Some call, _) \<Rightarrow>
          if bt_get (pr_pending s) call \<noteq> None then (Inl Corrupt, s)
          else if length (pr_pending s) \<ge> MAX_PENDING_POLICY_DECISIONS then (Inl Limit, s)
          else (Inr (), s\<lparr>pr_pending := bt_insert call (pd_outcome p) (pr_pending s)\<rparr>)
      | (None, PersonInput input) \<Rightarrow>
          if bt_get (pr_person s) input = None \<and> length (pr_person s) \<ge> MAX_PENDING_PERSON_DECISIONS
          then (Inl Limit, s)
          else (Inr (), s\<lparr>pr_person := bt_insert input (pd_outcome p) (pr_person s)\<rparr>)
      | (None, ModelCall _ _ _) \<Rightarrow> (Inl Corrupt, s))"

definition person_pending :: "policy_replay \<Rightarrow> id16 \<Rightarrow> policy_outcome option" where
  "person_pending s input = bt_get (pr_person s) input"

definition replay_person_job :: "id16 \<Rightarrow> policy_replay effect" where
  "replay_person_job input s =
    (let removed = bt_get (pr_person s) input;
         s' = s\<lparr>pr_person := bt_remove input (pr_person s)\<rparr>
     in (if removed \<in> {Some PolicyDeny, Some PolicyAsk} then Inl Corrupt else Inr (), s'))"

definition replay_person_settled :: "id16 \<Rightarrow> policy_replay \<Rightarrow> policy_replay" where
  "replay_person_settled input s = s\<lparr>pr_person := bt_remove input (pr_person s)\<rparr>"

definition replay_tool_call :: "tool_call \<Rightarrow> policy_replay effect" where
  "replay_tool_call p s =
    (let key = (tc_operation p, tc_generation p, tc_ordinal p);
         pending = bt_get (pr_pending s) key;
         s' = s\<lparr>pr_pending := bt_remove key (pr_pending s)\<rparr>
     in if tc_reason p = Some DR_PolicyDenied \<and> pending \<noteq> Some PolicyDeny then (Inl Corrupt, s')
        else if pending = Some PolicyDeny \<and> tc_decision p = D_Run then (Inl Corrupt, s')
        else (Inr (), s'))"

definition replay_terminal :: "id16 \<Rightarrow> u64 \<Rightarrow> bool \<Rightarrow> policy_replay effect" where
  "replay_terminal operation generation interrupted s =
    (if \<exists>e\<in>set (pr_pending s). fst (fst e) = operation \<and> fst (snd (fst e)) = generation
     then if \<not> interrupted then (Inl Corrupt, s)
       else (Inr (), s\<lparr>pr_pending := bt_retain
         (\<lambda>k. \<not> (fst k = operation \<and> fst (snd k) = generation)) (pr_pending s)\<rparr>)
     else (Inr (), s))"

definition policy_restore :: "u64 \<Rightarrow> (u64 \<times> hash32) option \<Rightarrow> (call_key, policy_outcome) btree
    \<Rightarrow> (id16, policy_outcome) btree \<Rightarrow> policy_replay result" where
  "policy_restore last_seq active pending person =
    (if (case active of None \<Rightarrow> True | Some (seq, _) \<Rightarrow> 1 \<le> seq \<and> seq \<le> last_seq) \<and>
        (last_seq = 0 \<longleftrightarrow> active = None) \<and>
        length pending \<le> MAX_PENDING_POLICY_DECISIONS \<and> (\<forall>e\<in>set pending. snd e \<noteq> PolicyAsk) \<and>
        length person \<le> MAX_PENDING_PERSON_DECISIONS \<and> (\<forall>e\<in>set person. snd e \<noteq> PolicyAsk) \<and>
        (person = [] \<or> active \<noteq> None)
     then Inr \<lparr>pr_last_seq = last_seq, pr_active = active, pr_pending = pending, pr_person = person\<rparr>
     else Inl Corrupt)"

subsection \<open>Runs\<close>

text \<open>One event per call that the replay of a journal makes. Replay stops at the first error.\<close>

datatype policy_event =
    RevisionRecord policy_revision
  | DecisionRecord policy_decision
  | PersonJob id16
  | PersonSettled id16
  | CallRecord tool_call
  | TerminalRecord id16 u64 bool

fun policy_step :: "policy_event \<Rightarrow> policy_replay effect" where
  "policy_step (RevisionRecord p) s = replay_revision p s"
| "policy_step (DecisionRecord p) s = replay_decision p s"
| "policy_step (PersonJob input) s = replay_person_job input s"
| "policy_step (PersonSettled input) s = (Inr (), replay_person_settled input s)"
| "policy_step (CallRecord p) s = replay_tool_call p s"
| "policy_step (TerminalRecord operation generation interrupted) s = replay_terminal operation generation interrupted s"

inductive policy_runs :: "policy_replay \<Rightarrow> policy_event list \<Rightarrow> policy_replay \<Rightarrow> bool" where
  done_runs: "policy_runs s [] s"
| step_runs: "policy_step e s = (Inr (), s') \<Longrightarrow> policy_runs s' es s'' \<Longrightarrow> policy_runs s (e # es) s''"

inductive_simps policy_runs_Nil [simp]: "policy_runs s [] s'"
inductive_simps policy_runs_Cons: "policy_runs s (e # es) s'"

lemma policy_runs_append:
  "policy_runs s (es @ fs) s'' \<longleftrightarrow> (\<exists>s'. policy_runs s es s' \<and> policy_runs s' fs s'')"
  by (induction es arbitrary: s) (auto simp: policy_runs_Cons)

subsection \<open>The invariant\<close>

definition policy_inv :: "policy_replay \<Rightarrow> bool" where
  "policy_inv s \<longleftrightarrow>
    (case pr_active s of None \<Rightarrow> pr_last_seq s = 0 | Some (seq, _) \<Rightarrow> seq = pr_last_seq s \<and> 1 \<le> seq) \<and>
    bt_ok (pr_pending s) \<and> length (pr_pending s) \<le> MAX_PENDING_POLICY_DECISIONS \<and>
    PolicyAsk \<notin> snd ` set (pr_pending s) \<and>
    bt_ok (pr_person s) \<and> length (pr_person s) \<le> MAX_PENDING_PERSON_DECISIONS \<and>
    PolicyAsk \<notin> snd ` set (pr_person s) \<and> (pr_active s = None \<longrightarrow> pr_pending s = [] \<and> pr_person s = [])"

lemma policy_inv_default: "policy_inv policy_replay_default"
  by (simp add: policy_inv_def policy_replay_default_def)

lemma policy_inv_pending:
  "policy_inv s \<Longrightarrow> bt_ok m \<Longrightarrow> length m \<le> MAX_PENDING_POLICY_DECISIONS \<Longrightarrow> PolicyAsk \<notin> snd ` set m
    \<Longrightarrow> (pr_active s = None \<Longrightarrow> m = []) \<Longrightarrow> policy_inv (s\<lparr>pr_pending := m\<rparr>)"
  by (cases "pr_active s") (auto simp: policy_inv_def)

lemma policy_inv_person:
  "policy_inv s \<Longrightarrow> bt_ok m \<Longrightarrow> length m \<le> MAX_PENDING_PERSON_DECISIONS \<Longrightarrow> PolicyAsk \<notin> snd ` set m
    \<Longrightarrow> (pr_active s = None \<Longrightarrow> m = []) \<Longrightarrow> policy_inv (s\<lparr>pr_person := m\<rparr>)"
  by (cases "pr_active s") (auto simp: policy_inv_def)

lemma policy_invD:
  assumes "policy_inv s"
  shows "bt_ok (pr_pending s)" "length (pr_pending s) \<le> MAX_PENDING_POLICY_DECISIONS"
    "PolicyAsk \<notin> snd ` set (pr_pending s)" "bt_ok (pr_person s)"
    "length (pr_person s) \<le> MAX_PENDING_PERSON_DECISIONS" "PolicyAsk \<notin> snd ` set (pr_person s)"
    "pr_active s = None \<Longrightarrow> pr_pending s = []" "pr_active s = None \<Longrightarrow> pr_person s = []"
  using assms by (simp_all add: policy_inv_def)

lemma policy_inv_filter:
  assumes "policy_inv s"
  shows "policy_inv (s\<lparr>pr_person := filter P (pr_person s)\<rparr>)" "policy_inv (s\<lparr>pr_pending := filter Q (pr_pending s)\<rparr>)"
  using policy_invD [OF assms]
  by (auto intro!: policy_inv_person policy_inv_pending assms bt_ok_filter le_trans [OF length_filter_le])

lemma policy_inv_insert_pending:
  assumes "policy_inv s" "pr_active s \<noteq> None" "bt_get (pr_pending s) k = None"
    "length (pr_pending s) < MAX_PENDING_POLICY_DECISIONS" "v \<noteq> PolicyAsk"
  shows "policy_inv (s\<lparr>pr_pending := bt_insert k v (pr_pending s)\<rparr>)"
  using policy_invD [OF assms(1)] assms bt_insert_values [of k v "pr_pending s"]
  by (intro policy_inv_pending) (auto simp: length_bt_insert)

lemma policy_inv_insert_person:
  assumes "policy_inv s" "pr_active s \<noteq> None" "v \<noteq> PolicyAsk"
    "bt_get (pr_person s) k = None \<longrightarrow> length (pr_person s) < MAX_PENDING_PERSON_DECISIONS"
  shows "policy_inv (s\<lparr>pr_person := bt_insert k v (pr_person s)\<rparr>)"
  using policy_invD [OF assms(1)] assms bt_insert_values [of k v "pr_person s"]
  by (intro policy_inv_person) (auto simp: length_bt_insert)

lemma policy_step_inv:
  assumes "policy_inv s" "policy_step e s = (Inr (), s')"
  shows "policy_inv s'"
proof (cases e)
  case (RevisionRecord p)
  with assms have "unat (pv_seq p) = unat (pr_last_seq s) + 1"
    and s': "s' = s\<lparr>pr_last_seq := pv_seq p, pr_active := Some (pv_seq p, pv_digest p)\<rparr>"
    by (simp_all add: replay_revision_def u64_checked_add_1 split: if_splits)
  then have "1 \<le> pv_seq p" by (simp add: word_le_nat_alt)
  then show ?thesis using assms(1) by (simp add: s' policy_inv_def)
next
  case (DecisionRecord p)
  then show ?thesis
    using assms by (cases "pd_subject p")
      (auto simp: replay_decision_def policy_call_def split: if_splits
        intro!: policy_inv_insert_pending policy_inv_insert_person)
next
  case (PersonJob input)
  then show ?thesis
    using assms by (auto simp: replay_person_job_def Let_def bt_remove_def policy_inv_filter split: if_splits)
next
  case (PersonSettled input)
  then show ?thesis
    using assms by (auto simp: replay_person_settled_def bt_remove_def policy_inv_filter)
next
  case (CallRecord p)
  then show ?thesis
    using assms by (auto simp: replay_tool_call_def Let_def bt_remove_def policy_inv_filter split: if_splits)
next
  case (TerminalRecord operation generation interrupted)
  then show ?thesis
    using assms by (auto simp: replay_terminal_def bt_retain_def policy_inv_filter split: if_splits)
qed

lemma policy_runs_inv: "policy_runs s es s' \<Longrightarrow> policy_inv s \<Longrightarrow> policy_inv s'"
  by (induction rule: policy_runs.induct) (auto intro: policy_step_inv)

subsection \<open>A pending denial stays pending\<close>

definition call_of :: "tool_call \<Rightarrow> call_key" where
  "call_of p = (tc_operation p, tc_generation p, tc_ordinal p)"

text \<open>The events that resolve a pending decision of a call.\<close>

fun resolves :: "call_key \<Rightarrow> policy_event \<Rightarrow> bool" where
  "resolves key (CallRecord p) = (call_of p = key)"
| "resolves key (TerminalRecord operation generation _) = (fst key = operation \<and> fst (snd key) = generation)"
| "resolves _ _ = False"

lemma pending_kept:
  assumes "policy_step e s = (Inr (), s')" "bt_get (pr_pending s) key = Some v" "\<not> resolves key e"
  shows "bt_get (pr_pending s') key = Some v"
proof (cases e)
  case (DecisionRecord p)
  then show ?thesis
    using assms by (auto simp: replay_decision_def split: if_splits option.splits policy_subject.splits)
next
  case (TerminalRecord operation generation interrupted)
  then show ?thesis using assms by (auto simp: replay_terminal_def split: if_splits)
qed (use assms in \<open>auto simp: replay_revision_def replay_person_job_def replay_person_settled_def
    replay_tool_call_def call_of_def Let_def split: if_splits\<close>)

lemma pending_kept_run:
  "policy_runs s es s' \<Longrightarrow> bt_get (pr_pending s) key = Some v \<Longrightarrow> \<forall>e\<in>set es. \<not> resolves key e
    \<Longrightarrow> bt_get (pr_pending s') key = Some v"
  by (induction rule: policy_runs.induct) (auto dest: pending_kept)

lemma decision_pending:
  "replay_decision d s = (Inr (), s') \<Longrightarrow> policy_call d = Some key \<Longrightarrow> bt_get (pr_pending s') key = Some (pd_outcome d)"
  by (auto simp: replay_decision_def split: if_splits)

subsection \<open>Revisions of a run\<close>

fun revisions :: "policy_event list \<Rightarrow> policy_revision list" where
  "revisions [] = []"
| "revisions (RevisionRecord p # es) = p # revisions es"
| "revisions (_ # es) = revisions es"

lemma revisions_append: "revisions (es @ fs) = revisions es @ revisions fs"
  by (induction es rule: revisions.induct) auto

lemma policy_step_revision:
  assumes "policy_step e s = (Inr (), s')"
  shows "unat (pr_last_seq s') = unat (pr_last_seq s) + length (revisions [e])"
    "pr_active s' = (case revisions [e] of [] \<Rightarrow> pr_active s | p # _ \<Rightarrow> Some (pv_seq p, pv_digest p))"
  using assms
  by (cases e; auto simp: replay_revision_def u64_checked_add_1 replay_decision_def replay_person_job_def
      replay_person_settled_def replay_tool_call_def replay_terminal_def Let_def
      split: if_splits option.splits policy_subject.splits)+

lemma policy_runs_revision:
  "policy_runs s es s' \<Longrightarrow> unat (pr_last_seq s') = unat (pr_last_seq s) + length (revisions es) \<and>
    pr_active s' = (if revisions es = [] then pr_active s
      else Some (pv_seq (last (revisions es)), pv_digest (last (revisions es))))"
proof (induction rule: policy_runs.induct)
  case (step_runs e s s' es s'')
  have "revisions (e # es) = revisions [e] @ revisions es"
    using revisions_append [of "[e]" es] by simp
  moreover have "revisions [e] = [] \<or> (\<exists>p. revisions [e] = [p])" by (cases e) auto
  ultimately show ?case using step_runs.IH policy_step_revision [OF step_runs.hyps(1)] by auto
qed simp

lemma policy_runs_numbers:
  "policy_runs t es s \<Longrightarrow> policy_inv t \<Longrightarrow> \<forall>i < length (revisions es).
    unat (pv_seq (revisions es ! i)) = unat (pr_last_seq t) + Suc i \<and>
    unat (pv_previous_seq (revisions es ! i)) = unat (pr_last_seq t) + i"
proof (induction rule: policy_runs.induct)
  case (step_runs e s s' es s'')
  have "revisions (e # es) = revisions [e] @ revisions es"
    using revisions_append [of "[e]" es] by simp
  moreover have "revisions [e] = [] \<or> (\<exists>p. revisions [e] = [p] \<and> unat (pv_seq p) = unat (pr_last_seq s) + 1 \<and>
      pv_previous_seq p = pr_last_seq s)"
    using step_runs.hyps(1) step_runs.prems
    by (cases e) (auto simp: replay_revision_def u64_checked_add_1 policy_inv_def split: if_splits option.splits)
  ultimately show ?case
    using step_runs.IH [OF policy_step_inv [OF step_runs.prems step_runs.hyps(1)]]
      policy_step_revision(1) [OF step_runs.hyps(1)]
    by (auto simp: nth_append nth_Cons split: nat.splits)
qed simp

text \<open>A call that a pending decision denies is not run by the record that resolves the decision.\<close>

lemma denied_run:
  assumes "policy_runs s (before @ [DecisionRecord d] @ between @ [CallRecord p] @ rest) s'"
    "pd_outcome d = PolicyDeny" "policy_call d = Some (call_of p)"
    "\<forall>e\<in>set between. \<not> resolves (call_of p) e"
  shows "tc_decision p \<noteq> D_Run"
proof -
  from assms(1) obtain s1 s2 s3 s4 where
    d: "replay_decision d s1 = (Inr (), s2)" and run: "policy_runs s2 between s3" and
    p: "replay_tool_call p s3 = (Inr (), s4)"
    by (auto simp: policy_runs_append policy_runs_Cons)
  have "bt_get (pr_pending s3) (call_of p) = Some PolicyDeny"
    using pending_kept_run [OF run _ assms(4)] decision_pending [OF d assms(3)] assms(2) by simp
  with p show ?thesis by (auto simp: replay_tool_call_def Let_def call_of_def split: if_splits)
qed

lemma numbered_run:
  assumes "policy_runs policy_replay_default es s"
  shows "unat (pr_last_seq s) = length (revisions es) \<and>
    pr_active s = (if revisions es = [] then None
      else Some (pv_seq (last (revisions es)), pv_digest (last (revisions es)))) \<and>
    (\<forall>i < length (revisions es). unat (pv_seq (revisions es ! i)) = Suc i \<and>
      unat (pv_previous_seq (revisions es ! i)) = i)"
  using policy_runs_revision [OF assms] policy_runs_numbers [OF assms policy_inv_default]
  by (simp add: policy_replay_default_def)

subsection \<open>Properties\<close>

definition demo_revision :: policy_revision where
  "demo_revision = \<lparr>pv_seq = 1, pv_digest = replicate 32 7, pv_previous_seq = 0, pv_event = Activated,
    pv_schema_digest = replicate 32 8, pv_cedar_lang = ascii ''4.2'', pv_cedar_sdk = ascii ''4.2.2'',
    pv_solver_digest = None, pv_admission_digest = None, pv_scopes = []\<rparr>"

definition demo_decision :: policy_decision where
  "demo_decision = \<lparr>pd_subject = ModelCall (replicate 16 1) 1 1, pd_action = 1, pd_origin = 1, pd_profile = 1,
    pd_project = replicate 16 2, pd_task_conversation = replicate 16 3, pd_task_agent = 0,
    pd_resource_digest = replicate 32 4, pd_request_digest = replicate 32 5, pd_intent_digest = None,
    pd_revision_seq = 1, pd_revision_digest = replicate 32 7, pd_scopes = [], pd_outcome = PolicyDeny,
    pd_primary_scope = 0, pd_reason = ascii ''denied'', pd_constraint_digest = None, pd_now_ms = 0\<rparr>"

definition demo_events :: "policy_event list" where
  "demo_events = [RevisionRecord demo_revision] @ [DecisionRecord demo_decision] @ [] @ [CallRecord long_rule_call] @ []"

lemma demo_policy_run:
  "policy_runs policy_replay_default demo_events
    \<lparr>pr_last_seq = 1, pr_active = Some (1, replicate 32 7), pr_pending = [], pr_person = []\<rparr>"
  by (simp add: demo_events_def policy_runs_Cons replay_revision_def replay_decision_def replay_tool_call_def
      demo_revision_def demo_decision_def long_rule_call_def demo_call_def policy_replay_default_def
      policy_call_def u64_checked_add_def bt_remove_def Let_def)

text \<open>C11: Every state that replay reaches can be checkpointed and restored. The facts of a state
  reached from the empty one pass the checks of \<open>PolicyReplay::restore\<close>, which rebuilds that state.\<close>

theorem policy_state_restores:
  assumes "policy_runs policy_replay_default es s"
  shows "policy_restore (pr_last_seq s) (pr_active s) (pr_pending s) (pr_person s) = Inr s"
proof -
  have "policy_inv s" by (rule policy_runs_inv [OF assms policy_inv_default])
  then show ?thesis
    by (cases s; cases "pr_active s") (auto simp: policy_inv_def policy_restore_def image_iff)
qed

theorem policy_state_restores_witness:
  "policy_restore 1 (Some (1, replicate 32 7)) [] [] =
    Inr \<lparr>pr_last_seq = 1, pr_active = Some (1, replicate 32 7), pr_pending = [], pr_person = []\<rparr>"
  using policy_state_restores [OF demo_policy_run] by simp

end
