(* ===== verification/ReplayState.thy ===== *)
theory ReplayState
  imports Requests Frames PolicyReplay Outcomes
begin

section \<open>The replay state\<close>

text \<open>
  The live state of \<open>authority/conversation/state.rs\<close> and the types of \<open>authority/conversation/types.rs\<close> it is made of.
  A \<open>BTreeMap\<close> is a \<open>btree\<close>, a \<open>BTreeSet\<close> a set, a \<open>usize\<close> a natural number. A method with \<open>&mut self\<close> returns the
  updated state; after an error the state is dropped, as \<open>apply_next\<close> does, so an error carries none. A result is an
  \<open>outcome\<close>: a value, an error or a panic.
\<close>

abbreviation MAX_INPUTS :: nat where "MAX_INPUTS \<equiv> 16"
abbreviation MAX_UNSETTLED_JOBS :: nat where "MAX_UNSETTLED_JOBS \<equiv> 64"
abbreviation MAX_RESPONSE_PIECES :: nat where "MAX_RESPONSE_PIECES \<equiv> 65536"
abbreviation RECENT_PROJECTS :: nat where "RECENT_PROJECTS \<equiv> 64"
abbreviation RECENT_CONVERSATIONS :: nat where "RECENT_CONVERSATIONS \<equiv> 256"
abbreviation RECENT_SETTLED_INPUTS :: nat where "RECENT_SETTLED_INPUTS \<equiv> 64"
abbreviation MAX_MEMORY :: nat where "MAX_MEMORY \<equiv> 16 * 1024 * 1024"

subsection \<open>Requests, projects and conversations\<close>

datatype request_outcome =
    OutcomeInitialization bool
  | OutcomeProject id16
  | OutcomeProjectRename id16 bytes u64 bool
  | OutcomeInput id16
  | OutcomeQueueInput id16 id16 u64
  | OutcomeReorderInput id16 u64
  | OutcomeInputDecision id16
  | OutcomeTurn id16 u64 id16 id16

record request_result =
  rr_digest :: hash32
  rr_result :: request_outcome
  rr_kind :: u16
  rr_frame :: locator

record project_title =
  nm_name :: bytes
  nm_revision :: u64

record project_latest =
  pl_conversation :: id16
  pl_operation :: id16
  pl_generation :: u64
  pl_accepted :: u64
  pl_terminal :: "u64 option"

record project_entry =
  pj_registration :: project_registered
  pj_registered :: locator
  pj_name :: "project_title option"
  pj_latest :: "project_latest option"
  pj_activity :: u64

record latest_turn =
  lt_operation :: id16
  lt_terminal :: "terminal_kind option"
  lt_accepted :: locator
  lt_notice_through :: u64

record conversation =
  cv_project :: id16
  cv_generation :: u64
  cv_created :: locator
  cv_latest :: "latest_turn option"
  cv_completed :: u64
  cv_activity :: u64

subsection \<open>Operations\<close>

record response_piece =
  piece_start :: u64
  piece_kept :: u64
  piece_frame :: locator

record response =
  resp_len :: u64
  resp_pieces :: "response_piece list"

definition response_default :: response where
  "response_default = \<lparr>resp_len = 0, resp_pieces = []\<rparr>"

text \<open>\<open>Response::apply\<close>: the subtraction is on the last piece kept, whose start is below the offset.\<close>

definition cut_last :: "u64 \<Rightarrow> response_piece list \<Rightarrow> response_piece list" where
  "cut_last offset pieces = (if pieces = [] then []
    else butlast pieces @ [(last pieces)\<lparr>piece_kept := min (piece_kept (last pieces)) (offset - piece_start (last pieces))\<rparr>])"

definition response_apply :: "u64 \<Rightarrow> u64 \<Rightarrow> locator \<Rightarrow> response \<Rightarrow> response option" where
  "response_apply offset appended frame r =
    (if offset > resp_len r then None
     else case u64_checked_add offset appended of
        None \<Rightarrow> None
      | Some len \<Rightarrow> Some \<lparr>resp_len = len,
          resp_pieces = cut_last offset (filter (\<lambda>piece. piece_start piece < offset) (resp_pieces r)) @
            (if appended > 0 then [\<lparr>piece_start = offset, piece_kept = appended, piece_frame = frame\<rparr>] else [])\<rparr>)"

record terminal =
  tm_kind :: terminal_kind
  tm_cause :: cause
  tm_usage_known :: bool
  tm_output_tokens :: u32
  tm_frame :: locator
  tm_completed :: u64

record exec_cmd_call =
  xc_fixed_command :: "bytes option"
  xc_secret_variables :: u16
  xc_job :: id16
  xc_stdout_payload :: id16
  xc_stderr_payload :: id16
  xc_intent_sequence :: u64
  xc_job_intent :: "locator option"

record tool_record =
  tl_name :: bytes
  tl_tool :: "registered_tool option"
  tl_tool_operation :: "tool_operation option"
  tl_decision :: tool_decision
  tl_fault :: "tool_fault option"
  tl_reason :: "tool_decision_reason option"
  tl_refusal :: "exec_cmd_refusal option"
  tl_policy :: "policy_refusal option"
  tl_whole_command :: bool
  tl_form :: argument_form
  tl_arguments_bytes :: u32
  tl_arguments :: bytes
  tl_result_status :: "u8 option"
  tl_intent_frame :: locator
  tl_result_frame :: "locator option"
  tl_result_bytes :: nat
  tl_preview :: "bytes option"
  tl_truncated :: "bool option"
  tl_create :: "create_note_call option"
  tl_exec_cmd :: "exec_cmd_call option"
  tl_job_result :: "job_result option"
  tl_note :: "(id16 \<times> locator) option"

definition tool_unresolved :: "tool_record \<Rightarrow> bool" where
  "tool_unresolved t \<longleftrightarrow> tl_decision t = D_Run \<and> tl_result_frame t = None"

record operation =
  op_conversation :: id16
  op_generation :: u64
  op_task :: id16
  op_owner_generation :: u64
  op_input_digest :: hash32
  op_accepted_frame :: locator
  op_notice_through :: u64
  op_helper :: "id16 option"
  op_cancel :: "cause option"
  op_terminal :: "terminal option"
  op_tools :: "tool_record list"
  op_request_starts :: "nat list"
  op_response :: response
  op_thinking :: response

subsection \<open>Inputs and jobs\<close>

datatype input_kind = InputQueue | InputSteer | InputPerson
datatype input_status = StatusQueued | StatusHeld | StatusRunning | StatusComplete | StatusFailed | StatusDropped

fun input_status_code :: "input_status \<Rightarrow> u8" where
  "input_status_code StatusQueued = 1"
| "input_status_code StatusHeld = 2"
| "input_status_code StatusRunning = 3"
| "input_status_code StatusComplete = 4"
| "input_status_code StatusFailed = 5"
| "input_status_code StatusDropped = 6"

definition input_status_from :: "u8 \<Rightarrow> input_status option" where
  "input_status_from code = map_of [(1, StatusQueued), (2, StatusHeld), (3, StatusRunning), (4, StatusComplete),
    (5, StatusFailed), (6, StatusDropped)] code"

interpretation input_status: code_table input_status_code input_status_from
proof
  show "input_status_from b = Some v \<longleftrightarrow> b = input_status_code v" for b v
    by (cases v) (auto simp: input_status_from_def)
qed

record person_input =
  pin_outside_sandbox :: bool
  pin_job :: "locator option"
  pin_outcome :: "job_outcome option"

record queued_input =
  qi_request :: id16
  qi_dispatch_request :: id16
  qi_project :: id16
  qi_conversation :: id16
  qi_target_operation :: id16
  qi_target_generation :: u64
  qi_kind :: input_kind
  qi_frame :: locator
  qi_sequence :: u64
  qi_owner_generation :: u64
  qi_held :: bool
  qi_dropped :: bool
  qi_resumed :: bool
  qi_order_position :: u64
  qi_promoted :: "locator option"
  qi_dispatched :: "(id16 \<times> u64) option"
  qi_dispatched_terminal :: "terminal_kind option"
  qi_target_terminal :: "(terminal_kind \<times> cause) option"
  qi_settled :: "u64 option"
  qi_person :: "person_input option"

record job_cancel =
  jx_requester :: job_requester
  jx_reason :: job_reason
  jx_kill :: bool
  jx_frame :: locator

record unsettled_job =
  uj_job :: id16
  uj_origin :: job_origin
  uj_agent :: u32
  uj_conversation :: id16
  uj_project :: id16
  uj_owner_generation :: u64
  uj_time :: u64
  uj_intent :: locator
  uj_cancel :: "job_cancel option"
  uj_payloads :: "id16 \<times> id16"

record settled_job =
  sj_job :: id16
  sj_conversation :: id16
  sj_origin :: u8
  sj_intent :: locator
  sj_cancel :: locator
  sj_settled :: locator

datatype job_state = Unsettled unsettled_job | Settled settled_job

subsection \<open>The state\<close>

record activity =
  ac_project :: id16
  ac_conversation :: "id16 option"
  ac_operation :: "id16 option"
  ac_generation :: u64
  ac_sequence :: u64
  ac_settled :: bool

record delta =
  de_generated :: "(id16, generated \<times> locator) btree"
  de_entries :: "(key, bytes) btree"

record replay =
  rp_installation_id :: id16
  rp_sequence :: u64
  rp_last_digest :: hash32
  rp_last_frame :: locator
  rp_revision :: u64
  rp_owner_generation :: u64
  rp_initialization :: pending_init
  rp_binding :: "active_binding option"
  rp_projects :: "(id16, project_entry) btree"
  rp_conversations :: "(id16, conversation) btree"
  rp_operations :: "(id16, operation) btree"
  rp_active_operation :: "id16 option"
  rp_inputs :: "(id16, queued_input) btree"
  rp_jobs :: "(id16, unsettled_job) btree"
  rp_order_revision :: u64
  rp_last_dispatched_lane :: "id16 option"
  rp_reserved_bytes :: nat
  rp_reserved_frames :: nat
  rp_requests :: "(id16, request_result) btree"
  rp_policy :: policy_replay
  rp_base :: u64
  rp_activity :: "activity option"
  rp_delta :: delta
  rp_transition_ids :: "id16 set"
  rp_claimed :: "id16 set"
  rp_delta_charge :: nat
  rp_piece_limit :: nat

definition replay_empty :: "id16 \<Rightarrow> pending_init \<Rightarrow> replay" where
  "replay_empty installation_id initialization =
    \<lparr>rp_installation_id = installation_id, rp_sequence = 0, rp_last_digest = zero_hash, rp_last_frame = locator_NONE,
     rp_revision = 0, rp_owner_generation = 1, rp_initialization = initialization, rp_binding = None, rp_projects = [],
     rp_conversations = [], rp_operations = [], rp_active_operation = None, rp_inputs = [], rp_jobs = [],
     rp_order_revision = 0, rp_last_dispatched_lane = None, rp_reserved_bytes = 0, rp_reserved_frames = 0,
     rp_requests = [], rp_policy = policy_replay_default, rp_base = 0, rp_activity = None,
     rp_delta = \<lparr>de_generated = [], de_entries = []\<rparr>, rp_transition_ids = {}, rp_claimed = {}, rp_delta_charge = 0,
     rp_piece_limit = MAX_RESPONSE_PIECES\<rparr>"

definition charge :: "nat \<Rightarrow> replay \<Rightarrow> replay" where
  "charge n s = s\<lparr>rp_delta_charge := rp_delta_charge s + n\<rparr>"

definition op_charge :: "operation \<Rightarrow> nat" where
  "op_charge op = 512 + sum_list (map (\<lambda>tool. 1536 + length (tl_name tool)) (op_tools op)) +
    (length (resp_pieces (op_response op)) + length (resp_pieces (op_thinking op))) * 64"

definition live_charge :: "replay \<Rightarrow> nat" where
  "live_charge s = MAX_FRAME + 4096 +
    sum_list (map (\<lambda>(_, p). 512 + length (pr_location (pj_registration p)) +
      (case pj_name p of None \<Rightarrow> 0 | Some n \<Rightarrow> length (nm_name n))) (rp_projects s)) +
    length (rp_conversations s) * 256 + length (rp_inputs s) * 512 + length (rp_jobs s) * 512 +
    (case rp_active_operation s of None \<Rightarrow> 0
     | Some i \<Rightarrow> (case bt_get (rp_operations s) i of None \<Rightarrow> 0 | Some op \<Rightarrow> op_charge op)) +
    rp_reserved_frames s * 128"

definition memory_charge :: "replay \<Rightarrow> nat" where
  "memory_charge s = live_charge s + rp_delta_charge s"

definition delta_is_empty :: "replay \<Rightarrow> bool" where
  "delta_is_empty s \<longleftrightarrow> rp_requests s = [] \<and> de_generated (rp_delta s) = [] \<and> de_entries (rp_delta s) = [] \<and>
    list_all (\<lambda>(i, _). Some i = rp_active_operation s) (rp_operations s)"

definition generate :: "id16 \<Rightarrow> generated \<Rightarrow> locator \<Rightarrow> replay \<Rightarrow> replay outcome" where
  "generate i entity frame s =
    (check (i \<noteq> zero_id) (
     Inr (charge 128 (s\<lparr>rp_delta := (rp_delta s)\<lparr>de_generated := bt_insert i (entity, frame) (de_generated (rp_delta s))\<rparr>\<rparr>))))"

definition emit :: "key \<Rightarrow> entry \<Rightarrow> replay \<Rightarrow> replay outcome" where
  "emit k e s =
    (result_bind (no_panic (entry_encode e)) (\<lambda>v.
     check (bt_get (de_entries (rp_delta s)) k = None) (
     Inr (charge 192 (s\<lparr>rp_delta := (rp_delta s)\<lparr>de_entries := bt_insert k v (de_entries (rp_delta s))\<rparr>\<rparr>)))))"

definition insert_request :: "id16 \<Rightarrow> hash32 \<Rightarrow> request_outcome \<Rightarrow> u16 \<Rightarrow> locator \<Rightarrow> replay \<Rightarrow> replay" where
  "insert_request i digest result kind frame s = charge 384 (s\<lparr>rp_requests :=
    bt_insert i \<lparr>rr_digest = digest, rr_result = result, rr_kind = kind, rr_frame = frame\<rparr> (rp_requests s)\<rparr>)"

definition genesis ::
  "(bytes \<Rightarrow> bytes) \<Rightarrow> unicode \<Rightarrow> frame_context \<Rightarrow> pending_init \<Rightarrow> locator \<Rightarrow> replay outcome" where
  "genesis sha uc context init frame =
    (check (fc_sequence context = 1 \<and> fc_expected_revision context = 0 \<and> fc_owner_generation context = 1 \<and>
      fc_prior_digest context = zero_hash) (
     check (pi_configuration_revision init > 0 \<and> pi_graph init \<noteq> zero_id \<and> pi_graph init \<noteq> fc_installation_id context) (
     result_bind (lift_result (request_digest sha uc (Initialize (pi_mode init)))) (\<lambda>digest.
     check (pi_digest init = digest) (
     let s = replay_empty (fc_installation_id context) init in
     let s = charge 128 (s\<lparr>rp_transition_ids := insert (fc_transition_id context) (rp_transition_ids s)\<rparr>) in
     result_bind (generate (fc_installation_id context) GeneratedInstallation frame s) (\<lambda>s.
     result_bind (generate (pi_graph init) GeneratedGraph frame s) (\<lambda>s.
     Inr (insert_request (pi_request init) (pi_digest init) (OutcomeInitialization False) 10 frame s))))))))"

end
