(* ===== verification/ReplayIndex.thy ===== *)
theory ReplayIndex
  imports ReplayState
begin

section \<open>Lookups of the replay state\<close>

text \<open>
  The lookups of \<open>impl Replay\<close> in \<open>authority/conversation/state.rs\<close>: the live state and the delta first, then the index
  runs. The trait \<open>Index\<close> is a record of its methods; a read returns the same value whenever it is repeated while one
  frame is applied.
\<close>

record index_reads =
  ix_get :: "key \<Rightarrow> bytes option result"
  ix_range :: "key \<Rightarrow> key \<Rightarrow> bool \<Rightarrow> nat \<Rightarrow> (key \<times> bytes) list result"
  ix_frame :: "locator \<Rightarrow> journal_record result"
  ix_frame_owner :: "locator \<Rightarrow> (u64 \<times> journal_record) result"
  ix_frame_command :: "locator \<Rightarrow> (hash32 \<times> journal_record) result"

subsection \<open>The delta\<close>

definition operation_facts_of :: "operation \<Rightarrow> terminal \<Rightarrow> operation_facts" where
  "operation_facts_of op terminal =
    \<lparr>of_conversation = op_conversation op, of_generation = op_generation op, of_terminal = tm_kind terminal,
     of_cause = tm_cause terminal, of_response_len = resp_len (op_response op),
     of_pieces = of_nat (length (resp_pieces (op_response op))), of_calls = of_nat (length (op_tools op)),
     of_accepted = op_accepted_frame op, of_terminal_frame = tm_frame terminal\<rparr>"

definition call_entry :: "id16 \<Rightarrow> nat \<Rightarrow> tool_record \<Rightarrow> key \<times> entry" where
  "call_entry i n tool = (Key TagCall i (of_nat n + 1), EntryCall (tool_decision_code (tl_decision tool))
    (tl_intent_frame tool) (case tl_result_frame tool of None \<Rightarrow> locator_NONE | Some frame \<Rightarrow> frame))"

definition terminal_entries :: "tag \<Rightarrow> id16 \<times> operation \<Rightarrow> (key \<times> entry) list" where
  "terminal_entries t x = (case x of (i, op) \<Rightarrow> (case op_terminal op of
      None \<Rightarrow> []
    | Some terminal \<Rightarrow> (case t of
        TagOperation \<Rightarrow> [(Key TagOperation i 0, EntryOperation (operation_facts_of op terminal))]
      | TagPiece \<Rightarrow> map (\<lambda>piece. (Key TagPiece i (piece_start piece), EntryPiece (piece_kept piece) (piece_frame piece)))
          (resp_pieces (op_response op))
      | TagThinking \<Rightarrow> map (\<lambda>piece. (Key TagThinking i (piece_start piece), EntryThinking (piece_kept piece) (piece_frame piece)))
          (resp_pieces (op_thinking op))
      | TagCall \<Rightarrow> map (\<lambda>(n, tool). call_entry i n tool) (enumerate 0 (op_tools op))
      | TagTurn \<Rightarrow> [(Key TagTurn (op_conversation op) (op_generation op), EntryTurn i (tm_kind terminal)
          (op_accepted_frame op) (tm_completed terminal) (op_notice_through op))]
      | _ \<Rightarrow> [])))"

fun encode_entries :: "(key \<times> entry) list \<Rightarrow> (key \<times> bytes) list outcome" where
  "encode_entries [] = Inr []"
| "encode_entries ((k, e) # es) =
  (result_bind (no_panic (entry_encode e)) (\<lambda>v.
   result_bind (encode_entries es) (\<lambda>vs.
   Inr ((k, v) # vs))))"

definition operation_entries :: "(id16, operation) btree \<Rightarrow> tag \<Rightarrow> (key \<times> bytes) list outcome" where
  "operation_entries operations t = encode_entries (concat (map (terminal_entries t) operations))"

definition delta_tag :: "tag \<Rightarrow> replay \<Rightarrow> (key \<times> bytes) list outcome" where
  "delta_tag t s =
    (result_bind ((case t of
        TagRequest \<Rightarrow> encode_entries (map (\<lambda>(i, r). (Key TagRequest i 0,
          EntryRequest (rr_kind r) (rr_digest r) (rr_frame r))) (rp_requests s))
      | TagGenerated \<Rightarrow> encode_entries (map (\<lambda>(i, entity, frame). (Key TagGenerated i 0, EntryGenerated entity frame))
          (de_generated (rp_delta s)))
      | TagOperation \<Rightarrow> operation_entries (rp_operations s) t
      | TagPiece \<Rightarrow> operation_entries (rp_operations s) t
      | TagThinking \<Rightarrow> operation_entries (rp_operations s) t
      | TagCall \<Rightarrow> operation_entries (rp_operations s) t
      | TagTurn \<Rightarrow> operation_entries (rp_operations s) t
      | _ \<Rightarrow> Inr (filter (\<lambda>(k, _). key_first t \<le> k \<and> k \<le> key_last t) (de_entries (rp_delta s))))) (\<lambda>out.
     Inr (sort_key fst out)))"

fun delta_tags :: "tag list \<Rightarrow> replay \<Rightarrow> (key \<times> bytes) list outcome" where
  "delta_tags [] s = Inr []"
| "delta_tags (t # ts) s =
  (result_bind (delta_tag t s) (\<lambda>out.
   result_bind (delta_tags ts s) (\<lambda>rest.
   Inr (out @ rest))))"

definition delta_entries :: "replay \<Rightarrow> (key \<times> bytes) list outcome" where
  "delta_entries s = delta_tags tag_ALL s"

definition delta_entry_count :: "replay \<Rightarrow> u64" where
  "delta_entry_count s = of_nat (length (rp_requests s) + length (de_generated (rp_delta s)) +
    length (de_entries (rp_delta s)) + sum_list (map (\<lambda>(_, op). 2 + length (resp_pieces (op_response op)) +
      length (resp_pieces (op_thinking op)) + length (op_tools op))
      (filter (\<lambda>(_, op). op_terminal op \<noteq> None) (rp_operations s))))"

definition find_key :: "key \<Rightarrow> (key \<times> bytes) list \<Rightarrow> bytes option" where
  "find_key k out = map_option snd (find (\<lambda>e. fst e = k) out)"

definition delta_get :: "key \<Rightarrow> replay \<Rightarrow> bytes option outcome" where
  "delta_get k s =
    (if key_tag k \<in> {TagRequest, TagGenerated, TagTurn} then
      (result_bind (delta_tag (key_tag k) s) (\<lambda>out.
       Inr (find_key k out)))
     else if key_tag k \<in> {TagOperation, TagPiece, TagThinking, TagCall}
     then (case bt_get (rp_operations s) (key_id k) of
        None \<Rightarrow> Inr None
      | Some op \<Rightarrow> if op_terminal op = None then Inr None
          else
            (result_bind (operation_entries [(key_id k, op)] (key_tag k)) (\<lambda>out.
             Inr (find_key k out))))
     else Inr (bt_get (de_entries (rp_delta s)) k))"

subsection \<open>Delta and runs\<close>

definition replay_get :: "index_reads \<Rightarrow> key \<Rightarrow> replay \<Rightarrow> bytes option outcome" where
  "replay_get ix k s =
    (result_bind (delta_get k s) (\<lambda>found.
     (case found of Some v \<Rightarrow> Inr (Some v) | None \<Rightarrow> lift_result (ix_get ix k))))"

definition replay_entry :: "index_reads \<Rightarrow> key \<Rightarrow> replay \<Rightarrow> entry option outcome" where
  "replay_entry ix k s =
    (result_bind (replay_get ix k s) (\<lambda>found.
     (case found of None \<Rightarrow> Inr None | Some v \<Rightarrow>
       (result_bind (entry_decode (key_tag k) v) (\<lambda>e.
        Inr (Some e))))))"

definition replay_range ::
  "index_reads \<Rightarrow> key \<Rightarrow> key \<Rightarrow> bool \<Rightarrow> nat \<Rightarrow> replay \<Rightarrow> (key \<times> bytes) list outcome" where
  "replay_range ix lo hi descending limit s =
    (result_bind (delta_tag (key_tag lo) s) (\<lambda>own.
     result_bind (lift_result (ix_range ix lo hi descending limit)) (\<lambda>runs.
     let merged = sort_key fst (filter (\<lambda>(k, _). lo \<le> k \<and> k < hi) own @ runs) in
     check (distinct_adj (map fst merged)) (
     Inr (take limit (if descending then rev merged else merged))))))"

definition last_under :: "index_reads \<Rightarrow> tag \<Rightarrow> id16 \<Rightarrow> replay \<Rightarrow> (u64 \<times> entry) option outcome" where
  "last_under ix t i s =
    (result_bind (replay_range ix (Key t i 0) (Key t i (- 1)) True 1 s) (\<lambda>found.
     (case found of [] \<Rightarrow> Inr None | (k, v) # _ \<Rightarrow>
       (result_bind (entry_decode t v) (\<lambda>e.
        Inr (Some (key_disc k, e)))))))"

definition unused :: "index_reads \<Rightarrow> key \<Rightarrow> replay \<Rightarrow> unit outcome" where
  "unused ix k s =
    (result_bind (replay_get ix k s) (\<lambda>found.
     check (found = None) (
     Inr ())))"

definition fresh :: "index_reads \<Rightarrow> id16 \<Rightarrow> replay \<Rightarrow> replay outcome" where
  "fresh ix i s =
    (check (i \<noteq> zero_id \<and> i \<notin> rp_claimed s) (
     let s = s\<lparr>rp_claimed := insert i (rp_claimed s)\<rparr> in
     result_bind (unused ix (Key TagGenerated i 0) s) (\<lambda>u.
     result_bind (unused ix (Key TagProject i 0) s) (\<lambda>u.
     result_bind (unused ix (Key TagConversation i 0) s) (\<lambda>u.
     Inr s)))))"

fun is_turn :: "request_outcome \<Rightarrow> bool" where
  "is_turn (OutcomeTurn _ _ _ _) = True"
| "is_turn _ = False"

fun is_dispatch :: "entry option \<Rightarrow> bool" where
  "is_dispatch (Some (EntryGenerated entity _)) = (entity = GeneratedDispatch)"
| "is_dispatch _ = False"

definition replay_request :: "index_reads \<Rightarrow> id16 \<Rightarrow> hash32 \<Rightarrow> request_outcome \<Rightarrow> u16 \<Rightarrow> locator \<Rightarrow> replay \<Rightarrow> replay outcome" where
  "replay_request ix i digest result kind frame s =
    (check (i \<noteq> zero_id) (
     result_bind (unused ix (Key TagRequest i 0) s) (\<lambda>u.
     result_bind ((if is_turn result then Inr () else
       (result_bind (replay_entry ix (Key TagGenerated i 0) s) (\<lambda>e.
        check (\<not> is_dispatch e) (
        Inr ()))))) (\<lambda>u.
     Inr (insert_request i digest result kind frame s)))))"

subsection \<open>Projects, conversations and operations\<close>

definition project_location :: "index_reads \<Rightarrow> id16 \<Rightarrow> replay \<Rightarrow> (bytes \<times> locator) outcome" where
  "project_location ix project s = (case bt_get (rp_projects s) project of
      Some entry \<Rightarrow> Inr (pr_location (pj_registration entry), pj_registered entry)
    | None \<Rightarrow>
      (result_bind (replay_entry ix (Key TagProject project 0) s) (\<lambda>e.
       (case e of Some (EntryProject _ _ _ frame) \<Rightarrow>
         (result_bind (lift_result (ix_frame ix frame)) (\<lambda>r.
          (case r of R_ProjectRegistered p \<Rightarrow> Inr (pr_location p, frame) | _ \<Rightarrow> Inl (Err Corrupt))))
          | _ \<Rightarrow> Inl (Err Corrupt)))))"

definition project_title_of :: "index_reads \<Rightarrow> id16 \<Rightarrow> replay \<Rightarrow> project_title option outcome" where
  "project_title_of ix project s =
    (result_bind (last_under ix TagName project s) (\<lambda>found.
     (case found of
        Some (revision, EntryName frame) \<Rightarrow>
       (result_bind (lift_result (ix_frame ix frame)) (\<lambda>r.
        (case r of R_ProjectRenamed renamed \<Rightarrow>
          (check (pn_project renamed = project \<and> pn_name_revision renamed = revision) (
           Inr (Some \<lparr>nm_name = pn_name renamed, nm_revision = revision\<rparr>)))
            | _ \<Rightarrow> Inl (Err Corrupt))))
      | Some _ \<Rightarrow> Inl (Err Corrupt)
      | None \<Rightarrow> Inr None)))"

definition terminal_sequence :: "index_reads \<Rightarrow> id16 \<Rightarrow> replay \<Rightarrow> u64 option outcome" where
  "terminal_sequence ix i s = (case bt_get (rp_operations s) i of
      Some op \<Rightarrow> Inr (map_option (\<lambda>t. loc_sequence (tm_frame t)) (op_terminal op))
    | None \<Rightarrow>
      (result_bind (replay_entry ix (Key TagOperation i 0) s) (\<lambda>e.
       (case e of
            Some (EntryOperation facts) \<Rightarrow> Inr (Some (loc_sequence (of_terminal_frame facts)))
          | Some _ \<Rightarrow> Inl (Err Corrupt)
          | None \<Rightarrow> Inr None))))"

definition project_latest_of :: "index_reads \<Rightarrow> id16 \<Rightarrow> replay \<Rightarrow> project_latest option outcome" where
  "project_latest_of ix project s =
    (result_bind (last_under ix TagActivity project s) (\<lambda>found.
     (case found of
        Some (accepted, EntryActivity conversation operation generation) \<Rightarrow>
       (result_bind (terminal_sequence ix operation s) (\<lambda>terminal.
        Inr (Some \<lparr>pl_conversation = conversation, pl_operation = operation, pl_generation = generation,
            pl_accepted = accepted, pl_terminal = terminal\<rparr>)))
      | Some _ \<Rightarrow> Inl (Err Corrupt)
      | None \<Rightarrow> Inr None)))"

definition find_project :: "index_reads \<Rightarrow> id16 \<Rightarrow> replay \<Rightarrow> project_entry option outcome" where
  "find_project ix project s = (case bt_get (rp_projects s) project of
      Some entry \<Rightarrow> Inr (Some entry)
    | None \<Rightarrow>
      (result_bind (replay_entry ix (Key TagProject project 0) s) (\<lambda>e.
       (case e of
            Some (EntryProject _ _ _ frame) \<Rightarrow>
         (result_bind (lift_result (ix_frame ix frame)) (\<lambda>r.
          (case r of R_ProjectRegistered registration \<Rightarrow>
            (check (pr_project registration = project) (
             result_bind (project_title_of ix project s) (\<lambda>title.
             result_bind (project_latest_of ix project s) (\<lambda>latest.
             Inr (Some \<lparr>pj_registration = registration, pj_registered = frame, pj_name = title, pj_latest = latest,
                    pj_activity = 0\<rparr>)))))
                | _ \<Rightarrow> Inl (Err Corrupt))))
          | _ \<Rightarrow> Inr None))))"

definition find_conversation :: "index_reads \<Rightarrow> id16 \<Rightarrow> replay \<Rightarrow> conversation option outcome" where
  "find_conversation ix conversation s = (case bt_get (rp_conversations s) conversation of
      Some entry \<Rightarrow> Inr (Some entry)
    | None \<Rightarrow>
      (result_bind (replay_entry ix (Key TagConversation conversation 0) s) (\<lambda>e.
       (case e of
            Some (EntryConversation project frame) \<Rightarrow>
         (result_bind (replay_range ix (Key TagTurn conversation 0) (Key TagTurn conversation (- 1)) True 1 s) (\<lambda>newest.
          (case newest of
                  [] \<Rightarrow> Inr (Some \<lparr>cv_project = project, cv_generation = 0, cv_created = frame, cv_latest = None,
                    cv_completed = 0, cv_activity = 0\<rparr>)
                | (k, v) # _ \<Rightarrow>
            (result_bind (entry_decode TagTurn v) (\<lambda>turn.
             (case turn of EntryTurn operation terminal accepted completed notice_through \<Rightarrow>
                        Inr (Some \<lparr>cv_project = project, cv_generation = key_disc k, cv_created = frame,
                          cv_latest = Some \<lparr>lt_operation = operation, lt_terminal = Some terminal, lt_accepted = accepted,
                            lt_notice_through = notice_through\<rparr>,
                          cv_completed = completed, cv_activity = 0\<rparr>)
                      | _ \<Rightarrow> Inl (Err Corrupt)))))))
          | _ \<Rightarrow> Inr None))))"

definition load_project :: "index_reads \<Rightarrow> id16 \<Rightarrow> replay \<Rightarrow> (bool \<times> replay) outcome" where
  "load_project ix project s =
    (if bt_get (rp_projects s) project \<noteq> None then Inr (True, s)
     else
       (result_bind (find_project ix project s) (\<lambda>found.
        (case found of
          Some entry \<Rightarrow> Inr (True, s\<lparr>rp_projects := bt_insert project entry (rp_projects s)\<rparr>)
        | None \<Rightarrow> Inr (False, s)))))"

definition load_conversation :: "index_reads \<Rightarrow> id16 \<Rightarrow> replay \<Rightarrow> (bool \<times> replay) outcome" where
  "load_conversation ix conversation s =
    (if bt_get (rp_conversations s) conversation \<noteq> None then Inr (True, s)
     else
       (result_bind (find_conversation ix conversation s) (\<lambda>found.
        (case found of
          Some entry \<Rightarrow> Inr (True, s\<lparr>rp_conversations := bt_insert conversation entry (rp_conversations s)\<rparr>)
        | None \<Rightarrow> Inr (False, s)))))"

definition operation_facts_in :: "index_reads \<Rightarrow> id16 \<Rightarrow> replay \<Rightarrow> operation_facts option outcome" where
  "operation_facts_in ix operation s =
    (result_bind (replay_entry ix (Key TagOperation operation 0) s) (\<lambda>e.
     (case e of
        Some (EntryOperation facts) \<Rightarrow> Inr (Some facts)
      | Some _ \<Rightarrow> Inl (Err Corrupt)
      | None \<Rightarrow> Inr None)))"

definition project_name :: "unicode \<Rightarrow> id16 \<Rightarrow> replay \<Rightarrow> (bytes \<times> u64) option" where
  "project_name uc project s = (case bt_get (rp_projects s) project of
      None \<Rightarrow> None
    | Some entry \<Rightarrow> Some (case pj_name entry of
        Some title \<Rightarrow> (nm_name title, nm_revision title)
      | None \<Rightarrow> (default_project_name uc project (pr_location (pj_registration entry)), 0)))"

definition latest_conversation :: "id16 \<Rightarrow> replay \<Rightarrow> id16 option" where
  "latest_conversation project s = (case bt_get (rp_projects s) project of
      None \<Rightarrow> None | Some entry \<Rightarrow> map_option pl_conversation (pj_latest entry))"

subsection \<open>Stored outcomes\<close>

definition prior_name :: "index_reads \<Rightarrow> unicode \<Rightarrow> project_renamed \<Rightarrow> replay \<Rightarrow> bytes outcome" where
  "prior_name ix uc p s =
    (if pn_expected_name_revision p = 0 then
      (result_bind (project_location ix (pn_project p) s) (\<lambda>(location, _).
       Inr (default_project_name uc (pn_project p) location)))
     else
       (result_bind (replay_entry ix (Key TagName (pn_project p) (pn_expected_name_revision p)) s) (\<lambda>e.
        (case e of
          Some (EntryName frame) \<Rightarrow>
          (result_bind (lift_result (ix_frame ix frame)) (\<lambda>r.
           (case r of R_ProjectRenamed prior \<Rightarrow> Inr (pn_name prior) | _ \<Rightarrow> Inl (Err Corrupt))))
        | _ \<Rightarrow> Inl (Err Corrupt)))))"

definition record_outcome :: "index_reads \<Rightarrow> unicode \<Rightarrow> journal_record \<Rightarrow> replay \<Rightarrow> request_outcome outcome" where
  "record_outcome ix uc r s = (case r of
      R_PendingInit _ \<Rightarrow> Inr (OutcomeInitialization (rp_binding s \<noteq> None))
    | R_ProjectRegistered p \<Rightarrow> Inr (OutcomeProject (pr_project p))
    | R_ProjectRequestAlias p \<Rightarrow> Inr (OutcomeProject (pa_project p))
    | R_ProjectRenamed p \<Rightarrow>
      (result_bind (prior_name ix uc p s) (\<lambda>prior.
       Inr (OutcomeProjectRename (pn_project p) (pn_name p) (pn_name_revision p) (prior \<noteq> pn_name p))))
    | R_InputQueued p \<Rightarrow> Inr (OutcomeQueueInput (iq_input p) (iq_conversation p) (iq_order_revision p))
    | R_PersonCommandQueued p \<Rightarrow> Inr (OutcomeQueueInput (pc_input p) (pc_conversation p) (pc_order_revision p))
    | R_InputReordered p \<Rightarrow> Inr (OutcomeReorderInput (ir_input p) (ir_order_revision p))
    | R_InputDecision p \<Rightarrow> Inr (OutcomeInputDecision (ides_input p))
    | R_InputPromoted p \<Rightarrow> Inr (OutcomeInputDecision (ip_input p))
    | R_TurnAccepted p \<Rightarrow> Inr (OutcomeTurn (ta_conversation p) (ta_generation p) (ta_task p) (ta_operation p))
    | _ \<Rightarrow> Inl (Err Corrupt))"

definition replay_outcome :: "index_reads \<Rightarrow> unicode \<Rightarrow> id16 \<Rightarrow> replay \<Rightarrow> request_result option outcome" where
  "replay_outcome ix uc request s = (case bt_get (rp_requests s) request of
      Some result \<Rightarrow> Inr (Some (case rr_result result of
          OutcomeInitialization _ \<Rightarrow> result\<lparr>rr_result := OutcomeInitialization (rp_binding s \<noteq> None)\<rparr>
        | _ \<Rightarrow> result))
    | None \<Rightarrow>
      (result_bind (replay_entry ix (Key TagRequest request 0) s) (\<lambda>e.
       (case e of
            Some (EntryRequest kind digest frame) \<Rightarrow>
         (result_bind (lift_result (ix_frame ix frame)) (\<lambda>r.
          check (record_kind r = kind) (
          result_bind (record_outcome ix uc r s) (\<lambda>result.
          Inr (Some \<lparr>rr_digest = digest, rr_result = result, rr_kind = kind, rr_frame = frame\<rparr>)))))
          | _ \<Rightarrow> Inr None))))"

end
