(* ===== verification/Queue.thy ===== *)
theory Queue
  imports ReplayIndex
begin

section \<open>Inputs: status, readiness and dispatch order\<close>

text \<open>
  The queries of \<open>impl Replay\<close> in \<open>authority/conversation/state.rs\<close> on the live state, which decide what the service may do
  next: the status of a queued input, whether it heads its lane (the inputs of its conversation), and which lane
  dispatches next.
\<close>

subsection \<open>The active operation\<close>

definition active :: "replay \<Rightarrow> (id16 \<times> operation) option" where
  "active s = (case rp_active_operation s of None \<Rightarrow> None
    | Some i \<Rightarrow> map_option (Pair i) (bt_get (rp_operations s) i))"

definition operation_mut :: "id16 \<Rightarrow> u64 \<Rightarrow> replay \<Rightarrow> operation outcome" where
  "operation_mut i generation s =
    (check (rp_active_operation s = Some i) (
     result_bind (some_or_corrupt (bt_get (rp_operations s) i)) (\<lambda>op.
     check (op_generation op = generation \<and> op_terminal op = None) (
     Inr op))))"

definition put_operation :: "id16 \<Rightarrow> operation \<Rightarrow> replay \<Rightarrow> replay" where
  "put_operation i op s = s\<lparr>rp_operations := bt_modify i (\<lambda>_. op) (rp_operations s)\<rparr>"

definition unresolved_creates :: "replay \<Rightarrow> create_note_call list" where
  "unresolved_creates s = (case active s of None \<Rightarrow> []
    | Some (_, op) \<Rightarrow> List.map_filter tl_create (filter (\<lambda>tool. tl_result_frame tool = None) (op_tools op)))"

definition project_memory_blocked :: "id16 \<Rightarrow> replay \<Rightarrow> bool" where
  "project_memory_blocked project s \<longleftrightarrow> list_ex (\<lambda>intent. nc_project intent = project) (unresolved_creates s)"

subsection \<open>Status\<close>

definition lane_status :: "queued_input \<Rightarrow> replay \<Rightarrow> input_status" where
  "lane_status input s =
    (case qi_dispatched input of
        Some _ \<Rightarrow> (case qi_dispatched_terminal input of
            None \<Rightarrow> StatusRunning | Some TerminalComplete \<Rightarrow> StatusComplete | Some _ \<Rightarrow> StatusFailed)
      | None \<Rightarrow>
          if qi_dropped input then StatusDropped
          else if qi_held input then StatusHeld
          else if qi_resumed input then StatusQueued
          else if qi_kind input = InputSteer then (case qi_target_terminal input of
              None \<Rightarrow> StatusQueued
            | Some (kind, cause) \<Rightarrow>
                if kind = TerminalCancelled \<and> cause = Steering \<and> qi_owner_generation input = rp_owner_generation s
                then StatusQueued else StatusHeld)
          else (case bt_get (rp_conversations s) (qi_conversation input) of
              None \<Rightarrow> StatusQueued
            | Some c \<Rightarrow> (case cv_latest c of
                None \<Rightarrow> StatusQueued
              | Some turn \<Rightarrow> if lt_terminal turn = Some TerminalInterrupted then StatusHeld else StatusQueued)))"

definition status_of :: "queued_input \<Rightarrow> replay \<Rightarrow> input_status" where
  "status_of input s = (case qi_person input of
      None \<Rightarrow> lane_status input s
    | Some person \<Rightarrow> (case pin_outcome person of
        Some outcome \<Rightarrow> if outcome = JO_Exited \<or> outcome = JO_Signalled then StatusComplete else StatusFailed
      | None \<Rightarrow> (case pin_job person of Some _ \<Rightarrow> StatusRunning | None \<Rightarrow> lane_status input s)))"

definition input_status :: "id16 \<Rightarrow> replay \<Rightarrow> input_status option" where
  "input_status i s = map_option (\<lambda>input. status_of input s) (bt_get (rp_inputs s) i)"

definition waiting :: "id16 \<Rightarrow> replay \<Rightarrow> bool" where
  "waiting i s \<longleftrightarrow> input_status i s \<in> {Some StatusQueued, Some StatusHeld}"

definition unresolved :: "id16 \<Rightarrow> replay \<Rightarrow> bool" where
  "unresolved i s \<longleftrightarrow> input_status i s \<in> {Some StatusQueued, Some StatusHeld, Some StatusRunning}"

definition input_operation :: "id16 \<Rightarrow> replay \<Rightarrow> (id16 \<times> u64) option" where
  "input_operation i s = (case bt_get (rp_inputs s) i of None \<Rightarrow> None | Some input \<Rightarrow> qi_dispatched input)"

definition input_values :: "replay \<Rightarrow> queued_input list" where
  "input_values s = map snd (rp_inputs s)"

definition steering_input :: "id16 \<Rightarrow> replay \<Rightarrow> id16 option" where
  "steering_input operation s = map_option qi_request (find (\<lambda>input. qi_kind input = InputSteer \<and>
    qi_target_operation input = operation \<and> input_status (qi_request input) s = Some StatusQueued) (input_values s))"

definition can_promote_input :: "id16 \<Rightarrow> id16 \<Rightarrow> u64 \<Rightarrow> replay \<Rightarrow> bool" where
  "can_promote_input i target generation s = (case bt_get (rp_inputs s) i of
      None \<Rightarrow> False
    | Some input \<Rightarrow> qi_kind input = InputQueue \<and> waiting (qi_request input) s \<and> qi_dispatched input = None \<and>
        rp_active_operation s = Some target \<and>
        (case bt_get (rp_operations s) target of
            None \<Rightarrow> False
          | Some op \<Rightarrow> op_conversation op = qi_conversation input \<and> op_generation op = generation \<and>
              op_terminal op = None \<and> op_cancel op = None) \<and>
        steering_input target s = None)"

subsection \<open>Readiness\<close>

definition blocks :: "id16 set option \<Rightarrow> queued_input \<Rightarrow> replay \<Rightarrow> queued_input \<Rightarrow> bool" where
  "blocks released input s prior \<longleftrightarrow> (case input_status (qi_request prior) s of
      Some StatusQueued \<Rightarrow> qi_order_position prior < qi_order_position input
    | Some StatusHeld \<Rightarrow> qi_order_position prior < qi_order_position input
    | Some StatusRunning \<Rightarrow> qi_person prior = None \<or>
        (case released of None \<Rightarrow> False | Some ids \<Rightarrow> qi_request prior \<notin> ids)
    | _ \<Rightarrow> False)"

definition lane_ready :: "id16 \<Rightarrow> id16 set option \<Rightarrow> replay \<Rightarrow> bool" where
  "lane_ready i released s = (case bt_get (rp_inputs s) i of
      None \<Rightarrow> False
    | Some input \<Rightarrow>
        if input_status i s \<noteq> Some StatusQueued then False
        else if qi_kind input = InputSteer then qi_target_terminal input \<noteq> None
        else \<not> list_ex (\<lambda>prior. qi_conversation prior = qi_conversation input \<and> qi_request prior \<noteq> i \<and>
          blocks released input s prior) (input_values s))"

definition input_ready :: "id16 \<Rightarrow> replay \<Rightarrow> bool" where
  "input_ready i s = lane_ready i None s"

definition input_ready_with :: "id16 \<Rightarrow> id16 set \<Rightarrow> replay \<Rightarrow> bool" where
  "input_ready_with i released s = lane_ready i (Some released) s"

definition lane_sequence :: "queued_input \<Rightarrow> replay \<Rightarrow> u64" where
  "lane_sequence input s =
    (case map qi_sequence (filter (\<lambda>q. qi_conversation q = qi_conversation input) (input_values s)) of
        [] \<Rightarrow> qi_sequence input
      | n # ns \<Rightarrow> min_list (n # ns))"

definition lane_rank :: "queued_input \<Rightarrow> bool \<times> u64" where
  "lane_rank input = (qi_kind input \<noteq> InputSteer, qi_order_position input)"

type_synonym lanes = "(id16, queued_input \<times> u64) btree"

definition add_lane :: "replay \<Rightarrow> queued_input \<Rightarrow> lanes \<Rightarrow> lanes" where
  "add_lane s input lanes = (case bt_get lanes (qi_conversation input) of
      Some (current, first) \<Rightarrow> if lane_rank input < lane_rank current
        then bt_insert (qi_conversation input) (input, first) lanes else lanes
    | None \<Rightarrow> bt_insert (qi_conversation input) (input, lane_sequence input s) lanes)"

definition ready_lanes :: "id16 set \<Rightarrow> replay \<Rightarrow> lanes" where
  "ready_lanes released s = fold (add_lane s) (filter (\<lambda>q. qi_kind q \<noteq> InputPerson \<and>
    input_ready_with (qi_request q) released s) (input_values s)) []"

definition ready_input_with :: "id16 set \<Rightarrow> replay \<Rightarrow> id16 option" where
  "ready_input_with released s =
    (if rp_active_operation s \<noteq> None then None
     else let lanes = sort_key snd (map snd (ready_lanes released s));
       pick = (case rp_last_dispatched_lane s of
           None \<Rightarrow> 0
         | Some lane \<Rightarrow> (case position lane (map (\<lambda>(input, _). qi_conversation input) lanes) of
             None \<Rightarrow> 0
           | Some n \<Rightarrow> (n + 1) mod length lanes))
     in if pick < length lanes then Some (qi_request (fst (lanes ! pick))) else None)"

definition ready_input :: "replay \<Rightarrow> id16 option" where
  "ready_input s = ready_input_with {} s"

definition ready_person_inputs :: "id16 set \<Rightarrow> replay \<Rightarrow> id16 list" where
  "ready_person_inputs released s =
    (let busy = map_option (\<lambda>(_, op). op_conversation op) (active s) in
     map snd (sort (map (\<lambda>q. (lane_sequence q s, qi_request q))
       (filter (\<lambda>q. qi_kind q = InputPerson \<and> busy \<noteq> Some (qi_conversation q) \<and>
         input_ready_with (qi_request q) released s) (input_values s)))))"

end
