(* ===== verification/ReplayTurns.thy ===== *)
theory ReplayTurns
  imports Queue
begin

section \<open>Replay of projects, inputs and turns\<close>

text \<open>
  The arms of \<open>Replay::apply\<close> in \<open>authority/conversation/state.rs\<close> for kinds 4, 6 to 9, 11, 13, 16, 18 to 21, 24, 25, 31 and 33
  and the methods they call: one definition per record kind, with the checks in the order of the source.
\<close>

subsection \<open>Activity\<close>

definition touch :: "id16 \<Rightarrow> id16 option \<Rightarrow> u64 \<Rightarrow> replay \<Rightarrow> replay" where
  "touch project conversation sequence s = s\<lparr>
    rp_projects := bt_modify project (\<lambda>entry. entry\<lparr>pj_activity := sequence\<rparr>) (rp_projects s),
    rp_conversations := (case conversation of None \<Rightarrow> rp_conversations s
      | Some i \<Rightarrow> bt_modify i (\<lambda>entry. entry\<lparr>cv_activity := sequence\<rparr>) (rp_conversations s))\<rparr>"

definition activity_facts :: "id16 option \<Rightarrow> replay \<Rightarrow> id16 option \<times> u64 \<times> bool" where
  "activity_facts conversation s = (case conversation of None \<Rightarrow> (None, 0, False)
    | Some i \<Rightarrow> (case bt_get (rp_conversations s) i of None \<Rightarrow> (None, 0, False)
      | Some c \<Rightarrow> (case cv_latest c of None \<Rightarrow> (None, 0, False)
        | Some latest \<Rightarrow> (Some (lt_operation latest), cv_generation c, lt_terminal latest \<noteq> None))))"

definition record_activity :: "id16 \<Rightarrow> id16 option \<Rightarrow> u64 \<Rightarrow> replay \<Rightarrow> replay" where
  "record_activity project conversation sequence s =
    (let s = touch project conversation sequence s;
       (operation, generation, settled) = activity_facts conversation s
     in s\<lparr>rp_activity := Some \<lparr>ac_project = project, ac_conversation = conversation, ac_operation = operation,
       ac_generation = generation, ac_sequence = sequence, ac_settled = settled\<rparr>\<rparr>)"

definition active_activity :: "u64 \<Rightarrow> replay \<Rightarrow> replay" where
  "active_activity sequence s = (case active s of None \<Rightarrow> s
    | Some (_, op) \<Rightarrow> (case bt_get (rp_conversations s) (op_conversation op) of None \<Rightarrow> s
      | Some c \<Rightarrow> record_activity (cv_project c) (Some (op_conversation op)) sequence s))"

subsection \<open>Installation and projects\<close>

definition apply_active_binding :: "index_reads \<Rightarrow> active_binding \<Rightarrow> replay \<Rightarrow> replay outcome" where
  "apply_active_binding ix p s =
    (check (rp_binding s = None \<and> ab_request p = pi_request (rp_initialization s) \<and> ab_generation p = 1 \<and>
      ab_graph p = pi_graph (rp_initialization s) \<and>
      ab_configuration_digest p = pi_configuration_digest (rp_initialization s)) (
     result_bind (replay_get ix (Key TagRequest (ab_request p) 0) s) (\<lambda>found.
     check (found \<noteq> None) (
     Inr (s\<lparr>rp_requests := bt_modify (ab_request p) (\<lambda>r. r\<lparr>rr_result := OutcomeInitialization True\<rparr>) (rp_requests s),
      rp_binding := Some p\<rparr>)))))"

definition hold_input :: "queued_input \<Rightarrow> queued_input" where
  "hold_input q = (if qi_dispatched q = None \<and> \<not> qi_dropped q \<and>
      (case qi_person q of None \<Rightarrow> True | Some person \<Rightarrow> pin_job person = None)
    then q\<lparr>qi_held := True, qi_resumed := False\<rparr> else q)"

definition apply_owner_generation :: "u64 \<Rightarrow> replay \<Rightarrow> replay outcome" where
  "apply_owner_generation generation s =
    (result_bind (next_u64 (rp_owner_generation s)) (\<lambda>n.
     check (generation = n) (
     Inr (s\<lparr>rp_owner_generation := generation, rp_inputs := bt_map hold_input (rp_inputs s)\<rparr>))))"

definition apply_project_registered :: "(bytes \<Rightarrow> bytes) \<Rightarrow> unicode \<Rightarrow> index_reads \<Rightarrow> project_registered \<Rightarrow> locator \<Rightarrow>
    replay \<Rightarrow> replay outcome" where
  "apply_project_registered sha uc ix p frame s =
    (check (rp_binding s \<noteq> None \<and> pr_registry_revision p = 1 \<and> pr_visibility p = 1) (
     result_bind (lift_result (request_digest sha uc (Register (pr_location p)))) (\<lambda>digest.
     check (pr_digest p = digest) (
     let identity = Key TagIdentity (identity_id (pr_device p) (pr_inode p)) 0 in
     result_bind (unused ix identity s) (\<lambda>u.
     result_bind (fresh ix (pr_project p) s) (\<lambda>s.
     result_bind (replay_request ix (pr_request p) (pr_digest p) (OutcomeProject (pr_project p)) 4 frame s) (\<lambda>s.
     result_bind (emit (Key TagProject (pr_project p) 0) (EntryProject (pr_device p) (pr_inode p) (pr_visibility p) frame) s) (\<lambda>s.
     result_bind (emit identity (EntryIdentity (pr_project p)) s) (\<lambda>s.
     let s = s\<lparr>rp_projects := bt_insert (pr_project p) \<lparr>pj_registration = p, pj_registered = frame, pj_name = None,
      pj_latest = None, pj_activity = loc_sequence frame\<rparr> (rp_projects s)\<rparr> in
     Inr (record_activity (pr_project p) None (loc_sequence frame) s))))))))))"

definition apply_project_request_alias :: "(bytes \<Rightarrow> bytes) \<Rightarrow> unicode \<Rightarrow> index_reads \<Rightarrow> project_request_alias \<Rightarrow>
    locator \<Rightarrow> replay \<Rightarrow> replay outcome" where
  "apply_project_request_alias sha uc ix p frame s =
    (check (rp_binding s \<noteq> None) (
     result_bind (load_project ix (pa_project p) s) (\<lambda>(known, s).
     check known (
     result_bind (no_panic (bt_get (rp_projects s) (pa_project p))) (\<lambda>project.
     check (pa_registry_revision p = pr_registry_revision (pj_registration project)) (
     result_bind (lift_result (request_digest sha uc (Register (pa_location p)))) (\<lambda>digest.
     check (pa_digest p = digest) (
     result_bind (replay_request ix (pa_request p) (pa_digest p) (OutcomeProject (pa_project p)) 9 frame s) (\<lambda>s.
     Inr (record_activity (pa_project p) None (loc_sequence frame) s))))))))))"

definition apply_project_renamed :: "(bytes \<Rightarrow> bytes) \<Rightarrow> unicode \<Rightarrow> index_reads \<Rightarrow> project_renamed \<Rightarrow> locator \<Rightarrow>
    replay \<Rightarrow> replay outcome" where
  "apply_project_renamed sha uc ix p frame s =
    (check (rp_binding s \<noteq> None) (
     result_bind (load_project ix (pn_project p) s) (\<lambda>(known, s).
     check known (
     result_bind (lift_result (request_digest sha uc
      (RenameProject (pn_project p) (pn_expected_name_revision p) (pn_requested_name p)))) (\<lambda>digest.
     check (pn_digest p = digest) (
     result_bind (lift_result (capitalize_project_name uc (pn_requested_name p))) (\<lambda>name.
     check (pn_name p = name) (
     result_bind (some_or_corrupt (project_name uc (pn_project p) s)) (\<lambda>(prior_name, prior_revision).
     check (pn_expected_name_revision p = prior_revision) (
     result_bind (next_u64 prior_revision) (\<lambda>n.
     check (pn_name_revision p = n) (
     result_bind (replay_request ix (pn_request p) (pn_digest p)
      (OutcomeProjectRename (pn_project p) (pn_name p) (pn_name_revision p) (prior_name \<noteq> pn_name p)) 20 frame s) (\<lambda>s.
     result_bind (emit (Key TagName (pn_project p) (pn_name_revision p)) (EntryName frame) s) (\<lambda>s.
     result_bind (some_or_corrupt (bt_get (rp_projects s) (pn_project p))) (\<lambda>u.
     let s = s\<lparr>rp_projects := bt_modify (pn_project p) (\<lambda>entry. entry\<lparr>pj_name :=
      Some \<lparr>nm_name = pn_name p, nm_revision = pn_name_revision p\<rparr>\<rparr>) (rp_projects s)\<rparr> in
     Inr (record_activity (pn_project p) None (loc_sequence frame) s))))))))))))))))"

subsection \<open>Conversations and queued inputs\<close>

definition create_conversation :: "id16 \<Rightarrow> id16 \<Rightarrow> locator \<Rightarrow> replay \<Rightarrow> replay outcome" where
  "create_conversation i project frame s =
    (result_bind (emit (Key TagConversation i 0) (EntryConversation project frame) s) (\<lambda>s.
     result_bind (emit (Key TagProjectConversation project (loc_sequence frame)) (EntryProjectConversation i) s) (\<lambda>s.
     Inr (s\<lparr>rp_conversations := bt_insert i \<lparr>cv_project = project, cv_generation = 0, cv_created = frame, cv_latest = None,
      cv_completed = 0, cv_activity = loc_sequence frame\<rparr> (rp_conversations s)\<rparr>))))"

record enqueued =
  nq_request :: id16
  nq_digest :: hash32
  nq_input :: id16
  nq_dispatch_request :: "id16 option"
  nq_project :: id16
  nq_conversation :: id16
  nq_expected_generation :: u64
  nq_new_conversation :: bool
  nq_order_revision :: u64
  nq_person :: "person_input option"

text \<open>\<open>enqueue_entry\<close> in the order of the source: the lane, the bound on unresolved inputs, the IDs, the new entry.\<close>

definition enqueue_lane :: "index_reads \<Rightarrow> enqueued \<Rightarrow> replay \<Rightarrow> replay outcome" where
  "enqueue_lane ix p s =
    (if nq_new_conversation p then
      (check (nq_expected_generation p = 0) (
       result_bind (fresh ix (nq_conversation p) s) (\<lambda>s.
       check (\<not> list_ex (\<lambda>q. qi_project q = nq_project p \<and>
        (case bt_get (rp_conversations s) (qi_conversation q) of None \<Rightarrow> False | Some c \<Rightarrow> cv_generation c = 0) \<and>
        waiting (qi_request q) s) (input_values s)) (
       Inr s))))
     else
       (result_bind (load_conversation ix (nq_conversation p) s) (\<lambda>(known, s).
        check known (
        check ((case bt_get (rp_conversations s) (nq_conversation p) of None \<Rightarrow> False
        | Some c \<Rightarrow> cv_project c = nq_project p \<and> nq_expected_generation p \<le> cv_generation c)) (
        Inr s)))))"

definition enqueue_ids :: "index_reads \<Rightarrow> enqueued \<Rightarrow> locator \<Rightarrow> replay \<Rightarrow> replay outcome" where
  "enqueue_ids ix p frame s =
    (result_bind ((case nq_dispatch_request p of None \<Rightarrow> Inr () | Some dispatch \<Rightarrow> unused ix (Key TagRequest dispatch 0) s)) (\<lambda>u.
     result_bind (fresh ix (nq_input p) s) (\<lambda>s.
     result_bind ((case nq_dispatch_request p of None \<Rightarrow> Inr s | Some dispatch \<Rightarrow> fresh ix dispatch s)) (\<lambda>s.
     result_bind (generate (nq_input p) GeneratedInput frame s) (\<lambda>s.
     (case nq_dispatch_request p of None \<Rightarrow> Inr s | Some dispatch \<Rightarrow> generate dispatch GeneratedDispatch frame s))))))"

definition lane_end :: "id16 \<Rightarrow> replay \<Rightarrow> u64" where
  "lane_end conversation s =
    fold max (map qi_order_position (filter (\<lambda>q. qi_conversation q = conversation) (input_values s))) 0"

definition new_input :: "enqueued \<Rightarrow> u64 \<Rightarrow> u64 \<Rightarrow> locator \<Rightarrow> queued_input" where
  "new_input p owner order_position frame =
    \<lparr>qi_request = nq_input p,
     qi_dispatch_request = (case nq_dispatch_request p of None \<Rightarrow> zero_id | Some dispatch \<Rightarrow> dispatch),
     qi_project = nq_project p, qi_conversation = nq_conversation p, qi_target_operation = zero_id,
     qi_target_generation = nq_expected_generation p,
     qi_kind = (if nq_person p \<noteq> None then InputPerson else InputQueue),
     qi_frame = frame, qi_sequence = loc_sequence frame, qi_owner_generation = owner, qi_held = False, qi_dropped = False,
     qi_resumed = False, qi_order_position = order_position, qi_promoted = None, qi_dispatched = None,
     qi_dispatched_terminal = None, qi_target_terminal = None, qi_settled = None, qi_person = nq_person p\<rparr>"

definition enqueue_entry :: "index_reads \<Rightarrow> enqueued \<Rightarrow> u64 \<Rightarrow> u16 \<Rightarrow> locator \<Rightarrow> replay \<Rightarrow> replay outcome" where
  "enqueue_entry ix p owner kind frame s =
    (check (rp_binding s \<noteq> None) (
     result_bind (load_project ix (nq_project p) s) (\<lambda>(known, s).
     check known (
     check (nq_input p \<noteq> zero_id \<and> nq_input p \<noteq> nq_request p) (
     result_bind (next_u64 (rp_order_revision s)) (\<lambda>n.
     check (nq_order_revision p = n) (
     result_bind (enqueue_lane ix p s) (\<lambda>s.
     if length (filter (\<lambda>(i, _). unresolved i s) (rp_inputs s)) \<ge> MAX_INPUTS then Inl (Err Limit) else
     check (bt_get (rp_inputs s) (nq_input p) = None) (
     result_bind (enqueue_ids ix p frame s) (\<lambda>s.
     result_bind ((if nq_new_conversation p then create_conversation (nq_conversation p) (nq_project p) frame s else Inr s)) (\<lambda>s.
     result_bind (replay_request ix (nq_request p) (nq_digest p)
      (OutcomeQueueInput (nq_input p) (nq_conversation p) (nq_order_revision p)) kind frame s) (\<lambda>s.
     result_bind (next_u64 (lane_end (nq_conversation p) s)) (\<lambda>order_position.
     let s = s\<lparr>rp_inputs := bt_insert (nq_input p) (new_input p owner order_position frame) (rp_inputs s),
      rp_order_revision := nq_order_revision p\<rparr> in
     Inr (record_activity (nq_project p) (Some (nq_conversation p)) (loc_sequence frame) s))))))))))))))"

definition enqueue :: "(bytes \<Rightarrow> bytes) \<Rightarrow> unicode \<Rightarrow> index_reads \<Rightarrow> input_queued \<Rightarrow> u64 \<Rightarrow> locator \<Rightarrow> replay \<Rightarrow> replay outcome"
  where
  "enqueue sha uc ix p owner frame s =
    (check (iq_input p \<noteq> iq_dispatch_request p \<and> iq_dispatch_request p \<noteq> iq_request p) (
     let original = (if iq_new_conversation p then None else Some (iq_conversation p)) in
     result_bind (lift_result (request_digest sha uc (QueueInput (iq_project p) original (iq_expected_generation p)
      (iq_new_conversation p) (iq_prompt p)))) (\<lambda>digest.
     check (iq_digest p = digest) (
     enqueue_entry ix \<lparr>nq_request = iq_request p, nq_digest = iq_digest p, nq_input = iq_input p,
      nq_dispatch_request = Some (iq_dispatch_request p), nq_project = iq_project p, nq_conversation = iq_conversation p,
      nq_expected_generation = iq_expected_generation p, nq_new_conversation = iq_new_conversation p,
      nq_order_revision = iq_order_revision p, nq_person = None\<rparr> owner 18 frame s))))"

definition enqueue_person ::
  "(bytes \<Rightarrow> bytes) \<Rightarrow> index_reads \<Rightarrow> person_command \<Rightarrow> u64 \<Rightarrow> locator \<Rightarrow> replay \<Rightarrow> replay outcome" where
  "enqueue_person sha ix p owner frame s =
    (result_bind (lift_result (person_command_validate sha p)) (\<lambda>u.
     enqueue_entry ix \<lparr>nq_request = pc_request p, nq_digest = pc_digest p, nq_input = pc_input p,
      nq_dispatch_request = None, nq_project = pc_project p, nq_conversation = pc_conversation p,
      nq_expected_generation = pc_expected_generation p, nq_new_conversation = pc_new_conversation p,
      nq_order_revision = pc_order_revision p,
      nq_person = Some \<lparr>pin_outside_sandbox = pc_outside_sandbox p, pin_job = None, pin_outcome = None\<rparr>\<rparr>
      owner 31 frame s))"

definition modify_input :: "id16 \<Rightarrow> (queued_input \<Rightarrow> queued_input) \<Rightarrow> replay \<Rightarrow> replay" where
  "modify_input i f s = s\<lparr>rp_inputs := bt_modify i f (rp_inputs s)\<rparr>"

definition waiting_order :: "id16 \<Rightarrow> replay \<Rightarrow> id16 list" where
  "waiting_order lane s = map snd (sort (map (\<lambda>q. (qi_order_position q, qi_request q))
    (filter (\<lambda>q. qi_conversation q = lane \<and> waiting (qi_request q) s) (input_values s))))"

fun renumber :: "id16 list \<Rightarrow> u64 \<Rightarrow> replay \<Rightarrow> replay outcome" where
  "renumber [] n s = Inr s"
| "renumber (i # is) n s =
  (result_bind (some_or_corrupt (bt_get (rp_inputs s) i)) (\<lambda>u.
   renumber is (n + 1) (modify_input i (\<lambda>q. q\<lparr>qi_order_position := n\<rparr>) s)))"

text \<open>\<open>Vec::insert\<close> panics past the end.\<close>

definition vec_insert :: "nat \<Rightarrow> 'a \<Rightarrow> 'a list \<Rightarrow> 'a list outcome" where
  "vec_insert n x xs = (if n \<le> length xs then Inr (take n xs @ [x] @ drop n xs) else Inl Panic)"

lemma safe_vec_insert [vcg]:
  "n \<le> length xs \<Longrightarrow> (\<And>ys. vec_insert n x xs = Inr ys \<Longrightarrow> safe P (f ys)) \<Longrightarrow> safe P (result_bind (vec_insert n x xs) f)"
  by (simp add: vec_insert_def)

definition reorder_input :: "(bytes \<Rightarrow> bytes) \<Rightarrow> unicode \<Rightarrow> index_reads \<Rightarrow> input_reordered \<Rightarrow> locator \<Rightarrow> replay \<Rightarrow> replay outcome"
  where
  "reorder_input sha uc ix p frame s =
    (check (ir_expected_order_revision p = rp_order_revision s) (
     result_bind (next_u64 (rp_order_revision s)) (\<lambda>n.
     check (ir_order_revision p = n) (
     result_bind (lift_result (request_digest sha uc (ReorderInput (ir_input p) (ir_after p) (ir_expected_order_revision p)))) (\<lambda>digest.
     check (ir_digest p = digest) (
     result_bind (some_or_corrupt (bt_get (rp_inputs s) (ir_input p))) (\<lambda>input.
     check (waiting (ir_input p) s) (
     result_bind ((case ir_after p of None \<Rightarrow> Inr () | Some after \<Rightarrow>
       (result_bind (some_or_corrupt (bt_get (rp_inputs s) after)) (\<lambda>anchor.
        check (qi_conversation anchor = qi_conversation input \<and> waiting after s) (
        Inr ()))))) (\<lambda>u.
     let ids = filter (\<lambda>i. i \<noteq> ir_input p) (waiting_order (qi_conversation input) s) in
     let at = (case ir_after p of None \<Rightarrow> 0 | Some after \<Rightarrow> (case position after ids of None \<Rightarrow> 2 ^ 64 - 1 | Some n \<Rightarrow> n + 1)) in
     check (at \<le> length ids) (
     result_bind (vec_insert at (ir_input p) ids) (\<lambda>ids.
     result_bind (replay_request ix (ir_request p) (ir_digest p) (OutcomeReorderInput (ir_input p) (ir_order_revision p)) 19 frame s) (\<lambda>s.
     result_bind (renumber ids 1 s) (\<lambda>s.
     let s = s\<lparr>rp_order_revision := ir_order_revision p\<rparr> in
     Inr (record_activity (qi_project input) (Some (qi_conversation input)) (loc_sequence frame) s))))))))))))))"

definition apply_input_promoted :: "(bytes \<Rightarrow> bytes) \<Rightarrow> unicode \<Rightarrow> index_reads \<Rightarrow> input_promoted \<Rightarrow> u64 \<Rightarrow> locator \<Rightarrow>
    replay \<Rightarrow> replay outcome" where
  "apply_input_promoted sha uc ix p generation frame s =
    (result_bind (lift_result (request_digest sha uc
      (PromoteInput (ip_input p) (ip_target_operation p) (ip_target_generation p)))) (\<lambda>digest.
     check (ip_digest p = digest) (
     check (can_promote_input (ip_input p) (ip_target_operation p) (ip_target_generation p) s) (
     result_bind (replay_request ix (ip_request p) (ip_digest p) (OutcomeInputDecision (ip_input p)) 16 frame s) (\<lambda>s.
     result_bind (some_or_corrupt (bt_get (rp_inputs s) (ip_input p))) (\<lambda>input.
     let s = modify_input (ip_input p) (\<lambda>q. q\<lparr>qi_kind := InputSteer, qi_held := False,
      qi_target_operation := ip_target_operation p, qi_target_generation := ip_target_generation p, qi_resumed := False,
      qi_owner_generation := generation, qi_promoted := Some frame\<rparr>) s in
     result_bind (next_u64 (rp_order_revision s)) (\<lambda>n.
     let s = s\<lparr>rp_order_revision := n\<rparr> in
     Inr (record_activity (qi_project input) (Some (qi_conversation input)) (loc_sequence frame) s))))))))"

definition input_entry :: "queued_input \<Rightarrow> input_status \<Rightarrow> entry" where
  "input_entry input status = EntryInput (input_status_code status) (qi_frame input)
    (case qi_promoted input of None \<Rightarrow> locator_NONE | Some frame \<Rightarrow> frame)
    (case qi_dispatched input of None \<Rightarrow> zero_id | Some (op, _) \<Rightarrow> op)"

definition settle_input :: "id16 \<Rightarrow> u64 \<Rightarrow> replay \<Rightarrow> replay outcome" where
  "settle_input i sequence s =
    (result_bind (some_or_corrupt (input_status i s)) (\<lambda>status.
     result_bind (some_or_corrupt (bt_get (rp_inputs s) i)) (\<lambda>input.
     check (qi_settled input = None) (
     emit (Key TagInput i 0) (input_entry input status) (modify_input i (\<lambda>q. q\<lparr>qi_settled := Some sequence\<rparr>) s)))))"

definition decide_input :: "input_action \<Rightarrow> u64 \<Rightarrow> queued_input \<Rightarrow> queued_input" where
  "decide_input action generation q = (case action of
      Resume \<Rightarrow> q\<lparr>qi_held := False, qi_resumed := True, qi_owner_generation := generation\<rparr>
    | Drop \<Rightarrow> q\<lparr>qi_dropped := True\<rparr>
    | Hold \<Rightarrow> q\<lparr>qi_held := True\<rparr>)"

definition apply_input_decision :: "(bytes \<Rightarrow> bytes) \<Rightarrow> unicode \<Rightarrow> index_reads \<Rightarrow> input_decision \<Rightarrow> u64 \<Rightarrow> locator \<Rightarrow>
    replay \<Rightarrow> replay outcome" where
  "apply_input_decision sha uc ix p generation frame s =
    (result_bind (lift_result (request_digest sha uc (DecideInput (ides_input p) (ides_action p)))) (\<lambda>digest.
     check (ides_digest p = digest) (
     result_bind (some_or_corrupt (input_status (ides_input p) s)) (\<lambda>status.
     check ((if ides_action p = Hold then status = StatusQueued else status = StatusHeld)) (
     result_bind (replay_request ix (ides_request p) (ides_digest p) (OutcomeInputDecision (ides_input p)) 13 frame s) (\<lambda>s.
     result_bind (some_or_corrupt (bt_get (rp_inputs s) (ides_input p))) (\<lambda>input.
     let s = modify_input (ides_input p) (decide_input (ides_action p) generation) s in
     let s = (if ides_action p \<noteq> Resume
      then s\<lparr>rp_policy := replay_person_settled (ides_input p) (rp_policy s)\<rparr> else s) in
     result_bind (next_u64 (rp_order_revision s)) (\<lambda>n.
     let s = s\<lparr>rp_order_revision := n\<rparr> in
     result_bind ((if ides_action p = Drop then settle_input (ides_input p) (loc_sequence frame) s else Inr s)) (\<lambda>s.
     Inr (record_activity (qi_project input) (Some (qi_conversation input)) (loc_sequence frame) s))))))))))"

subsection \<open>Turns\<close>

text \<open>The loop over \<open>prior_operations\<close>: distinct completed operations of the conversation, by rising generation.\<close>

fun prior_turns :: "index_reads \<Rightarrow> id16 \<Rightarrow> id16 list \<Rightarrow> id16 set \<Rightarrow> u64 \<Rightarrow> replay \<Rightarrow> unit outcome" where
  "prior_turns ix conversation [] prior last_generation s = Inr ()"
| "prior_turns ix conversation (i # is) prior last_generation s =
  (result_bind (operation_facts_in ix i s) (\<lambda>found.
   result_bind (some_or_corrupt found) (\<lambda>facts.
   check (i \<notin> prior \<and> of_conversation facts = conversation \<and> of_generation facts > last_generation \<and>
      of_terminal facts = TerminalComplete) (
   prior_turns ix conversation is (insert i prior) (of_generation facts) s))))"

definition dispatched_input :: "turn_accepted \<Rightarrow> replay \<Rightarrow> id16 option" where
  "dispatched_input p s = map_option qi_request
    (find (\<lambda>q. qi_dispatch_request q = ta_request p \<and> qi_dispatched q = None) (input_values s))"

definition accept_conversation ::
  "index_reads \<Rightarrow> turn_accepted \<Rightarrow> id16 option \<Rightarrow> replay \<Rightarrow> ((u64 \<times> u64) \<times> replay) outcome" where
  "accept_conversation ix p dispatched s = (case ta_original_conversation p of
      None \<Rightarrow>
        (check (ta_generation p = 1) (
         result_bind (fresh ix (ta_conversation p) s) (\<lambda>s.
         Inr ((0, 0), s))))
    | Some i \<Rightarrow>
      (result_bind (load_conversation ix i s) (\<lambda>(known, s).
       check known (
       result_bind (no_panic (bt_get (rp_conversations s) i)) (\<lambda>c.
       check (i = ta_conversation p \<and> cv_project c = ta_project p \<and> cv_generation c = ta_expected_generation p) (
       result_bind (next_u64 (cv_generation c)) (\<lambda>n.
       check (ta_generation p = n) (
       result_bind ((if cv_generation c \<noteq> 0 then Inr () else
         (result_bind (some_or_corrupt dispatched) (\<lambda>input.
          result_bind (no_panic (bt_get (rp_inputs s) input)) (\<lambda>q.
          check (qi_conversation q = i) (
          Inr ())))))) (\<lambda>u.
       Inr ((cv_completed c, case cv_latest c of None \<Rightarrow> 0 | Some latest \<Rightarrow> lt_notice_through latest), s))))))))))"

definition new_operation :: "turn_accepted \<Rightarrow> u64 \<Rightarrow> locator \<Rightarrow> operation" where
  "new_operation p owner frame =
    \<lparr>op_conversation = ta_conversation p, op_generation = ta_generation p, op_task = ta_task p,
     op_owner_generation = owner, op_input_digest = ta_input_digest p, op_accepted_frame = frame,
     op_notice_through = co_notice_through (ta_composition p), op_helper = None, op_cancel = None, op_terminal = None,
     op_tools = [], op_request_starts = [], op_response = response_default, op_thinking = response_default\<rparr>"

definition accept_checks ::
  "(bytes \<Rightarrow> bytes) \<Rightarrow> unicode \<Rightarrow> index_reads \<Rightarrow> turn_accepted \<Rightarrow> id16 option \<Rightarrow> locator \<Rightarrow> replay \<Rightarrow> replay outcome" where
  "accept_checks sha uc ix p dispatched frame s =
    (result_bind ((case Option.bind dispatched (bt_get (rp_inputs s)) of None \<Rightarrow> Inr () | Some input \<Rightarrow>
       (check (qi_project input = ta_project p \<and> Some (qi_conversation input) = ta_original_conversation p \<and>
        input_ready (qi_request input) s) (
        Inr ())))) (\<lambda>u.
     check (ta_event_cursor p = 1 \<and> ta_model p \<noteq> []) (
     result_bind (lift_result (request_digest sha uc
      (Submit (ta_project p) (ta_original_conversation p) (ta_expected_generation p) (ta_prompt p)))) (\<lambda>digest.
     check (ta_digest p = digest) (
     result_bind (accept_conversation ix p dispatched s) (\<lambda>((completed, previous), s).
     let notice_through = co_notice_through (ta_composition p) in
     check (notice_through < loc_sequence frame \<and> notice_through \<ge> previous) (
     check (unat (co_notice_live (ta_composition p)) \<le> MAX_UNSETTLED_JOBS) (
     result_bind (prior_turns ix (ta_conversation p) (ta_prior_operations p) {} 0 s) (\<lambda>u.
     check (length (ta_prior_operations p) + unat (co_omitted_turns (ta_composition p)) = unat completed) (
     result_bind (fresh ix (ta_task p) s) (\<lambda>s.
     fresh ix (ta_operation p) s)))))))))))"

definition accept_start :: "turn_accepted \<Rightarrow> u64 \<Rightarrow> locator \<Rightarrow> replay \<Rightarrow> replay outcome" where
  "accept_start p owner frame s =
    (result_bind ((if ta_original_conversation p = None
      then create_conversation (ta_conversation p) (ta_project p) frame s else Inr s)) (\<lambda>s.
     result_bind (some_or_corrupt (bt_get (rp_conversations s) (ta_conversation p))) (\<lambda>u.
     let s = s\<lparr>rp_conversations := bt_modify (ta_conversation p) (\<lambda>c. c\<lparr>cv_generation := ta_generation p,
      cv_latest := Some \<lparr>lt_operation = ta_operation p, lt_terminal = None, lt_accepted = frame,
        lt_notice_through = co_notice_through (ta_composition p)\<rparr>\<rparr>) (rp_conversations s)\<rparr> in
     result_bind (emit (Key TagActivity (ta_project p) (loc_sequence frame))
      (EntryActivity (ta_conversation p) (ta_operation p) (ta_generation p)) s) (\<lambda>s.
     result_bind (some_or_corrupt (bt_get (rp_projects s) (ta_project p))) (\<lambda>u.
     let s = s\<lparr>rp_projects := bt_modify (ta_project p) (\<lambda>entry. entry\<lparr>pj_latest := Some
      \<lparr>pl_conversation = ta_conversation p, pl_operation = ta_operation p, pl_generation = ta_generation p,
       pl_accepted = loc_sequence frame, pl_terminal = None\<rparr>\<rparr>) (rp_projects s)\<rparr> in
     Inr (s\<lparr>rp_operations := bt_insert (ta_operation p) (new_operation p owner frame) (rp_operations s),
      rp_active_operation := Some (ta_operation p), rp_last_dispatched_lane := Some (ta_conversation p)\<rparr>))))))"

definition accept ::
  "(bytes \<Rightarrow> bytes) \<Rightarrow> unicode \<Rightarrow> index_reads \<Rightarrow> turn_accepted \<Rightarrow> u64 \<Rightarrow> locator \<Rightarrow> replay \<Rightarrow> replay outcome" where
  "accept sha uc ix p owner frame s =
    (check (rp_binding s \<noteq> None \<and> rp_active_operation s = None) (
     result_bind (load_project ix (ta_project p) s) (\<lambda>(known, s).
     check known (
     let dispatched = dispatched_input p s in
     result_bind (accept_checks sha uc ix p dispatched frame s) (\<lambda>s.
     result_bind (replay_request ix (ta_request p) (ta_digest p)
      (OutcomeTurn (ta_conversation p) (ta_generation p) (ta_task p) (ta_operation p)) 21 frame s) (\<lambda>s.
     result_bind (generate (ta_task p) GeneratedTask frame s) (\<lambda>s.
     result_bind (generate (ta_operation p) GeneratedOperation frame s) (\<lambda>s.
     result_bind (accept_start p owner frame s) (\<lambda>s.
     result_bind ((case dispatched of None \<Rightarrow> Inr s | Some input \<Rightarrow>
       (result_bind (some_or_corrupt (bt_get (rp_inputs s) input)) (\<lambda>u.
        let s = modify_input input (\<lambda>q. q\<lparr>qi_dispatched := Some (ta_operation p, ta_generation p)\<rparr>) s in
        result_bind (next_u64 (rp_order_revision s)) (\<lambda>n.
        Inr (s\<lparr>rp_order_revision := n\<rparr>)))))) (\<lambda>s.
     Inr (record_activity (ta_project p) (Some (ta_conversation p)) (loc_sequence frame) s)))))))))))"

definition apply_start_authorized :: "start_authorized \<Rightarrow> locator \<Rightarrow> replay \<Rightarrow> replay outcome" where
  "apply_start_authorized p frame s =
    (result_bind (operation_mut (sa_operation p) (sa_generation p) s) (\<lambda>op.
     check (op_owner_generation op = rp_owner_generation s \<and> op_helper op = None \<and> op_cancel op = None \<and>
      op_input_digest op = sa_input_digest p \<and> sa_helper p \<noteq> zero_id) (
     let op = op\<lparr>op_helper := Some (sa_helper p), op_request_starts := op_request_starts op @ [length (op_tools op)]\<rparr> in
     Inr (active_activity (loc_sequence frame) (put_operation (sa_operation p) op s)))))"

definition apply_request_started :: "request_started \<Rightarrow> locator \<Rightarrow> replay \<Rightarrow> replay outcome" where
  "apply_request_started p frame s =
    (result_bind (operation_mut (rs_operation p) (rs_generation p) s) (\<lambda>op.
     check (op_owner_generation op = rp_owner_generation s \<and> op_helper op \<noteq> None \<and> op_cancel op = None \<and>
      op_terminal op = None \<and> rs_request p \<noteq> 0 \<and> length (op_request_starts op) = unat (rs_request p - 1) \<and>
      rs_request p \<ge> 2 \<and> op_request_starts op \<noteq> [] \<and> length (op_tools op) > last (op_request_starts op) \<and>
      list_all (\<lambda>tool. \<not> tool_unresolved tool) (op_tools op)) (
     let op = op\<lparr>op_request_starts := op_request_starts op @ [length (op_tools op)]\<rparr> in
     Inr (active_activity (loc_sequence frame) (put_operation (rs_operation p) op s)))))"

definition apply_cancel_requested :: "cancel_requested \<Rightarrow> locator \<Rightarrow> replay \<Rightarrow> replay outcome" where
  "apply_cancel_requested p frame s =
    (check (cr_cause p \<in> {UserCancel, Steering, Deadline, OutputLimit, ServiceShutdown}) (
     result_bind (operation_mut (cr_operation p) (cr_generation p) s) (\<lambda>op.
     check (op_cancel op = None) (
     Inr (active_activity (loc_sequence frame) (put_operation (cr_operation p) (op\<lparr>op_cancel := Some (cr_cause p)\<rparr>) s))))))"

definition extend_response :: "nat \<Rightarrow> response_text \<Rightarrow> locator \<Rightarrow> response \<Rightarrow> response outcome" where
  "extend_response piece_limit p frame r =
    (check (rt_offset p < resp_len r \<or> rt_text p \<noteq> []) (
     result_bind (some_or_corrupt (response_apply (rt_offset p) (of_nat (length (rt_text p))) frame r)) (\<lambda>r.
     if length (resp_pieces r) > piece_limit then Inl (Err Limit) else
     Inr r)))"

definition apply_response_text :: "response_text \<Rightarrow> locator \<Rightarrow> replay \<Rightarrow> replay outcome" where
  "apply_response_text p frame s =
    (result_bind (operation_mut (rt_operation p) (rt_generation p) s) (\<lambda>op.
     check (op_helper op \<noteq> None) (
     result_bind (extend_response (rp_piece_limit s) p frame (op_response op)) (\<lambda>r.
     Inr (active_activity (loc_sequence frame) (put_operation (rt_operation p) (op\<lparr>op_response := r\<rparr>) s))))))"

definition apply_thinking_text :: "response_text \<Rightarrow> locator \<Rightarrow> replay \<Rightarrow> replay outcome" where
  "apply_thinking_text p frame s =
    (result_bind (operation_mut (rt_operation p) (rt_generation p) s) (\<lambda>op.
     check (op_helper op \<noteq> None) (
     result_bind (extend_response (rp_piece_limit s) p frame (op_thinking op)) (\<lambda>r.
     Inr (active_activity (loc_sequence frame) (put_operation (rt_operation p) (op\<lparr>op_thinking := r\<rparr>) s))))))"

subsection \<open>The end of a turn\<close>

definition policy_effect :: "policy_replay effect \<Rightarrow> replay \<Rightarrow> replay outcome" where
  "policy_effect f s = (case f (rp_policy s) of
      (Inl e, _) \<Rightarrow> Inl (Err e)
    | (Inr _, policy) \<Rightarrow> Inr (s\<lparr>rp_policy := policy\<rparr>))"

definition terminal_allowed :: "turn_terminal \<Rightarrow> response \<Rightarrow> operation \<Rightarrow> u64 \<Rightarrow> bool outcome" where
  "terminal_allowed p response op owner = (case tt_kind p of
      TerminalComplete \<Rightarrow> Inr (op_helper op \<noteq> None \<and> list_all (\<lambda>tool. \<not> tool_unresolved tool) (op_tools op) \<and>
        op_cancel op = None \<and> tt_cause p = CauseNone \<and> resp_len response > 0 \<and> op_owner_generation op = owner)
    | TerminalInterrupted \<Rightarrow> Inr (tt_cause p = Restart \<and> op_owner_generation op < owner \<and>
        (op_helper op \<noteq> None \<longrightarrow> \<not> tt_usage_known p))
    | TerminalCancelled \<Rightarrow> if op_cancel op = None then Inr False
        else result_bind (no_panic (op_cancel op)) (\<lambda>cancel. Inr (tt_cause p = cancel \<and> op_owner_generation op = owner))
    | TerminalFailed \<Rightarrow> Inr (tt_cause p \<noteq> CauseNone \<and> tt_cause p \<noteq> Restart \<and> op_owner_generation op = owner))"

lemma terminal_allowed_found: "\<exists>b. terminal_allowed p response op owner = Inr b"
  by (auto simp: terminal_allowed_def split: terminal_kind.split)

lemma safe_terminal_allowed [vcg]:
  "(\<And>b. terminal_allowed p response op owner = Inr b \<Longrightarrow> safe P (f b)) \<Longrightarrow>
    safe P (result_bind (terminal_allowed p response op owner) f)"
  using terminal_allowed_found [of p response op owner] by auto

definition terminal_response :: "turn_terminal \<Rightarrow> operation \<Rightarrow> locator \<Rightarrow> replay \<Rightarrow> response outcome" where
  "terminal_response p op frame s =
    (check (tt_final_cursor p = - 1) (
     check (list_all (\<lambda>tool. tl_create tool = None \<or> tl_result_frame tool \<noteq> None) (op_tools op)) (
     check (tt_usage_known p \<or> tt_output_tokens p = 0) (
     check (op_helper op \<noteq> None \<or> tt_usage_known p \<and> tt_output_tokens p = 0) (
     result_bind (some_or_corrupt (response_apply (tt_text_offset p) (of_nat (length (tt_text p))) frame (op_response op))) (\<lambda>response.
     if length (resp_pieces response) > rp_piece_limit s then Inl (Err Limit) else
     result_bind (terminal_allowed p response op (rp_owner_generation s)) (\<lambda>allowed.
     check allowed (
     Inr response))))))))"

definition terminal_input :: "turn_terminal \<Rightarrow> queued_input \<Rightarrow> queued_input" where
  "terminal_input p q =
    (let q = (case qi_dispatched q of
         Some (i, _) \<Rightarrow> if i = tt_operation p then q\<lparr>qi_dispatched_terminal := Some (tt_kind p)\<rparr> else q
       | None \<Rightarrow> q)
     in if qi_kind q = InputSteer \<and> qi_target_operation q = tt_operation p
        then q\<lparr>qi_target_terminal := Some (tt_kind p, tt_cause p)\<rparr> else q)"

definition dispatched_to :: "id16 \<Rightarrow> replay \<Rightarrow> id16 list" where
  "dispatched_to operation s = map qi_request
    (filter (\<lambda>q. (case qi_dispatched q of Some (i, _) \<Rightarrow> i = operation | None \<Rightarrow> False)) (input_values s))"

fun settle_inputs :: "id16 list \<Rightarrow> u64 \<Rightarrow> replay \<Rightarrow> replay outcome" where
  "settle_inputs [] sequence s = Inr s"
| "settle_inputs (i # is) sequence s =
  (result_bind (settle_input i sequence s) (\<lambda>s.
   settle_inputs is sequence s))"

definition latest_ended :: "id16 \<Rightarrow> terminal_kind \<Rightarrow> conversation \<Rightarrow> conversation" where
  "latest_ended operation kind c = (case cv_latest c of
      Some latest \<Rightarrow> if lt_operation latest = operation
        then c\<lparr>cv_latest := Some (latest\<lparr>lt_terminal := Some kind\<rparr>)\<rparr> else c
    | None \<Rightarrow> c)"

definition project_ended :: "id16 \<Rightarrow> u64 \<Rightarrow> project_entry \<Rightarrow> project_entry" where
  "project_ended operation sequence entry = (case pj_latest entry of
      Some latest \<Rightarrow> if pl_operation latest = operation
        then entry\<lparr>pj_latest := Some (latest\<lparr>pl_terminal := Some sequence\<rparr>)\<rparr> else entry
    | None \<Rightarrow> entry)"

definition end_operation :: "turn_terminal \<Rightarrow> operation \<Rightarrow> u64 \<Rightarrow> locator \<Rightarrow> replay \<Rightarrow> replay" where
  "end_operation p op completed frame s =
    (let op = op\<lparr>op_terminal := Some \<lparr>tm_kind = tt_kind p, tm_cause = tt_cause p, tm_usage_known = tt_usage_known p,
       tm_output_tokens = tt_output_tokens p, tm_frame = frame, tm_completed = completed\<rparr>\<rparr>
     in charge (op_charge op) (put_operation (tt_operation p) op s)\<lparr>rp_active_operation := None\<rparr>)"

definition apply_terminal :: "turn_terminal \<Rightarrow> locator \<Rightarrow> replay \<Rightarrow> replay outcome" where
  "apply_terminal p frame s =
    (result_bind (policy_effect (replay_terminal (tt_operation p) (tt_generation p) (tt_kind p = TerminalInterrupted)) s) (\<lambda>s.
     result_bind (operation_mut (tt_operation p) (tt_generation p) s) (\<lambda>op.
     result_bind (terminal_response p op frame s) (\<lambda>response.
     let op = op\<lparr>op_response := response\<rparr> in
     result_bind (some_or_corrupt (bt_get (rp_conversations s) (op_conversation op))) (\<lambda>c.
     result_bind ((if tt_kind p = TerminalComplete then next_u64 (cv_completed c) else Inr (cv_completed c))) (\<lambda>completed.
     let s = s\<lparr>rp_conversations := bt_modify (op_conversation op)
      (\<lambda>c. latest_ended (tt_operation p) (tt_kind p) (c\<lparr>cv_completed := completed\<rparr>)) (rp_conversations s)\<rparr> in
     let s = end_operation p op completed frame s in
     let s = s\<lparr>rp_projects := bt_modify (cv_project c) (project_ended (tt_operation p) (loc_sequence frame)) (rp_projects s)\<rparr> in
     let settled = dispatched_to (tt_operation p) s in
     let s = s\<lparr>rp_inputs := bt_map (terminal_input p) (rp_inputs s)\<rparr> in
     result_bind (settle_inputs settled (loc_sequence frame) s) (\<lambda>s.
     Inr (record_activity (cv_project c) (Some (op_conversation op)) (loc_sequence frame) s))))))))"

end
