(* ===== verification/ReplayJobs.thy ===== *)
theory ReplayJobs
  imports ReplayTurns
begin

section \<open>Replay of jobs\<close>

text \<open>
  Kinds 26 to 28 and 30 in \<open>authority/conversation/state.rs\<close>: the intent, cancellation, settlement and retention of jobs
  (rules JR1 to JR10 and PR2 to PR4), what the journal knows of one job, and the restoring of unsettled jobs from a
  checkpoint.
\<close>

subsection \<open>Queries\<close>

definition job_state_of :: "index_reads \<Rightarrow> id16 \<Rightarrow> replay \<Rightarrow> job_state option outcome" where
  "job_state_of ix job s = (case bt_get (rp_jobs s) job of
      Some unsettled \<Rightarrow> Inr (Some (Unsettled unsettled))
    | None \<Rightarrow>
      (result_bind (replay_entry ix (Key TagJob job 0) s) (\<lambda>e.
       (case e of
            Some (EntryJob conversation origin intent cancel settled) \<Rightarrow>
              Inr (Some (Settled \<lparr>sj_job = job, sj_conversation = conversation, sj_origin = origin, sj_intent = intent,
                sj_cancel = cancel, sj_settled = settled\<rparr>))
          | Some _ \<Rightarrow> Inl (Err Corrupt)
          | None \<Rightarrow> Inr None))))"

definition unsettled_jobs :: "replay \<Rightarrow> unsettled_job list" where
  "unsettled_jobs s = sort_key (\<lambda>job. loc_sequence (uj_intent job)) (map snd (rp_jobs s))"

definition conversation_job :: "index_reads \<Rightarrow> id16 \<Rightarrow> id16 \<Rightarrow> replay \<Rightarrow> (u64 \<times> bool) outcome" where
  "conversation_job ix job conversation s =
    (result_bind (job_state_of ix job s) (\<lambda>found.
     (case found of
        Some (Unsettled j) \<Rightarrow> check (uj_conversation j = conversation) (Inr (loc_sequence (uj_intent j), False))
      | Some (Settled j) \<Rightarrow> check (sj_conversation j = conversation) (Inr (loc_sequence (sj_intent j), True))
      | None \<Rightarrow> Inl (Err Corrupt))))"

fun outlived_calls :: "index_reads \<Rightarrow> tool_record list \<Rightarrow> u64 \<Rightarrow> replay \<Rightarrow> (u64 \<times> id16) list outcome" where
  "outlived_calls ix [] terminal s = Inr []"
| "outlived_calls ix (tool # tools) terminal s = (case tl_exec_cmd tool of
      None \<Rightarrow> outlived_calls ix tools terminal s
    | Some exec \<Rightarrow> (case xc_job_intent exec of
        None \<Rightarrow> outlived_calls ix tools terminal s
      | Some intent \<Rightarrow>
          if \<not> loc_sequence intent < terminal then outlived_calls ix tools terminal s
          else
            (result_bind (job_state_of ix (xc_job exec) s) (\<lambda>found.
             result_bind ((case found of
              Some (Unsettled _) \<Rightarrow> Inr True
            | Some (Settled job) \<Rightarrow> Inr (loc_sequence (sj_settled job) > terminal)
            | None \<Rightarrow> Inl (Err Corrupt))) (\<lambda>outlived.
             result_bind (outlived_calls ix tools terminal s) (\<lambda>rest.
             Inr (if outlived then (loc_sequence intent, xc_job exec) # rest else rest)))))))"

abbreviation MAX_OUTLIVED_JOB_IDS :: nat where "MAX_OUTLIVED_JOB_IDS \<equiv> 8"

definition outlived_jobs :: "index_reads \<Rightarrow> tool_record list \<Rightarrow> u64 \<Rightarrow> replay \<Rightarrow> (u32 \<times> id16 list) outcome" where
  "outlived_jobs ix tools terminal s =
    (result_bind (outlived_calls ix tools terminal s) (\<lambda>found.
     if length found \<ge> 2 ^ 32 then Inl (Err Limit) else
     Inr (of_nat (length found), map snd (take MAX_OUTLIVED_JOB_IDS (sort found)))))"

subsection \<open>Intents\<close>

definition derive_owner :: "index_reads \<Rightarrow> job_origin \<Rightarrow> replay \<Rightarrow> (id16 \<times> id16) outcome" where
  "derive_owner ix origin s = (case origin of
      OriginModel operation _ _ \<Rightarrow>
        (result_bind ((case bt_get (rp_operations s) operation of
            Some op \<Rightarrow> Inr (op_conversation op)
          | None \<Rightarrow>
           (result_bind (operation_facts_in ix operation s) (\<lambda>found.
            result_bind (some_or_corrupt found) (\<lambda>facts.
            Inr (of_conversation facts)))))) (\<lambda>conversation.
         result_bind (find_conversation ix conversation s) (\<lambda>found.
         result_bind (some_or_corrupt found) (\<lambda>c.
         Inr (conversation, cv_project c)))))
    | OriginPerson input \<Rightarrow>
      (result_bind (some_or_corrupt (bt_get (rp_inputs s) input)) (\<lambda>q.
       check (qi_person q \<noteq> None) (
       Inr (qi_conversation q, qi_project q)))))"

definition derive_job ::
  "(bytes \<Rightarrow> bytes) \<Rightarrow> index_reads \<Rightarrow> job_intent \<Rightarrow> u64 \<Rightarrow> locator \<Rightarrow> replay \<Rightarrow> unsettled_job outcome" where
  "derive_job sha ix p owner frame s =
    (result_bind (derive_owner ix (ji_origin p) s) (\<lambda>(conversation, project).
     let job = job_id sha (ji_origin p) in
     Inr \<lparr>uj_job = job, uj_origin = ji_origin p, uj_agent = ji_agent p, uj_conversation = conversation,
      uj_project = project, uj_owner_generation = owner, uj_time = ji_time p, uj_intent = frame, uj_cancel = None,
      uj_payloads = job_payloads sha (rp_installation_id s) job\<rparr>))"

text \<open>JR5 and JR9: the job ID is new in the whole journal, and one more job fits.\<close>

definition admit_job :: "index_reads \<Rightarrow> unsettled_job \<Rightarrow> replay \<Rightarrow> unit outcome" where
  "admit_job ix job s =
    (check (bt_get (rp_jobs s) (uj_job job) = None) (
     result_bind (unused ix (Key TagJob (uj_job job) 0) s) (\<lambda>u.
     if length (rp_jobs s) \<ge> MAX_UNSETTLED_JOBS then Inl (Err Limit) else
     Inr ())))"

definition replace_last :: "tool_record \<Rightarrow> operation \<Rightarrow> operation" where
  "replace_last tool op = op\<lparr>op_tools := butlast (op_tools op) @ [tool]\<rparr>"

definition last_tool :: "operation \<Rightarrow> tool_record outcome" where
  "last_tool op = some_or_corrupt (if op_tools op = [] then None else Some (last (op_tools op)))"

definition awaits_intent :: "tool_record \<Rightarrow> bool" where
  "awaits_intent tool \<longleftrightarrow> tl_decision tool = D_Run \<and> tl_tool_operation tool = Some Op_ExecCmd \<and>
    tl_result_frame tool = None \<and> (case tl_exec_cmd tool of None \<Rightarrow> False | Some exec \<Rightarrow> xc_job_intent exec = None)"

definition model_job_intent :: "(bytes \<Rightarrow> bytes) \<Rightarrow> index_reads \<Rightarrow> job_intent \<Rightarrow> id16 \<Rightarrow> u64 \<Rightarrow> u32 \<Rightarrow> u64 \<Rightarrow> locator \<Rightarrow>
    replay \<Rightarrow> replay outcome" where
  "model_job_intent sha ix p operation generation ordinal owner frame s =
    (result_bind (operation_mut operation generation s) (\<lambda>op.
     check (op_owner_generation op = owner \<and> unat ordinal = length (op_tools op)) (
     result_bind (last_tool op) (\<lambda>tool.
     check (awaits_intent tool) (
     result_bind (derive_job sha ix p owner frame s) (\<lambda>job.
     result_bind (admit_job ix job s) (\<lambda>u.
     result_bind (some_or_corrupt (tl_exec_cmd tool)) (\<lambda>exec.
     let exec = exec\<lparr>xc_job_intent := Some frame, xc_stdout_payload := fst (uj_payloads job),
      xc_stderr_payload := snd (uj_payloads job)\<rparr> in
     let s = put_operation operation (replace_last (tool\<lparr>tl_exec_cmd := Some exec\<rparr>) op) s in
     let s = s\<lparr>rp_jobs := bt_insert (uj_job job) job (rp_jobs s)\<rparr> in
     Inr (active_activity (loc_sequence frame) s)))))))))"

definition person_started :: "locator \<Rightarrow> queued_input \<Rightarrow> queued_input" where
  "person_started frame q = q\<lparr>qi_person := map_option (\<lambda>person. person\<lparr>pin_job := Some frame\<rparr>) (qi_person q)\<rparr>"

definition person_job_intent :: "(bytes \<Rightarrow> bytes) \<Rightarrow> index_reads \<Rightarrow> job_intent \<Rightarrow> id16 \<Rightarrow> u64 \<Rightarrow> locator \<Rightarrow> replay \<Rightarrow>
    replay outcome" where
  "person_job_intent sha ix p input owner frame s =
    (result_bind (some_or_corrupt (bt_get (rp_inputs s) input)) (\<lambda>q.
     result_bind (some_or_corrupt (qi_person q)) (\<lambda>person.
     check (pin_job person = None \<and> \<not> qi_dropped q \<and> input_ready input s) (
     result_bind (policy_effect (replay_person_job input) s) (\<lambda>s.
     result_bind (derive_job sha ix p owner frame s) (\<lambda>job.
     result_bind (admit_job ix job s) (\<lambda>u.
     let s = s\<lparr>rp_jobs := bt_insert (uj_job job) job (rp_jobs s)\<rparr> in
     result_bind (some_or_corrupt (bt_get (rp_inputs s) input)) (\<lambda>q.
     let s = modify_input input (person_started frame) s in
     result_bind (emit (Key TagPersonCommand (uj_conversation job) (loc_sequence frame))
      (EntryPersonCommand input (uj_job job) (qi_target_generation q) (qi_frame q)) s) (\<lambda>s.
     result_bind (next_u64 (rp_order_revision s)) (\<lambda>n.
     let s = s\<lparr>rp_order_revision := n, rp_last_dispatched_lane := Some (uj_conversation job)\<rparr> in
     Inr (record_activity (uj_project job) (Some (uj_conversation job)) (loc_sequence frame) s)))))))))))"

definition apply_job_intent ::
  "(bytes \<Rightarrow> bytes) \<Rightarrow> index_reads \<Rightarrow> job_intent \<Rightarrow> u64 \<Rightarrow> locator \<Rightarrow> replay \<Rightarrow> replay outcome" where
  "apply_job_intent sha ix p owner frame s =
    (result_bind (lift_result (job_intent_validate p)) (\<lambda>u.
     (case ji_origin p of
        OriginModel operation generation ordinal \<Rightarrow>
          model_job_intent sha ix p operation generation ordinal owner frame s
      | OriginPerson input \<Rightarrow> person_job_intent sha ix p input owner frame s)))"

subsection \<open>Cancellation and settlement\<close>

definition person_outside :: "unsettled_job \<Rightarrow> replay \<Rightarrow> bool option outcome" where
  "person_outside job s = (case uj_origin job of
      OriginModel _ _ _ \<Rightarrow> Inr None
    | OriginPerson input \<Rightarrow>
      (result_bind (some_or_corrupt (Option.bind (bt_get (rp_inputs s) input) qi_person)) (\<lambda>person.
       Inr (Some (pin_outside_sandbox person)))))"

definition apply_job_cancel :: "job_cancel_requested \<Rightarrow> u64 \<Rightarrow> locator \<Rightarrow> replay \<Rightarrow> replay outcome" where
  "apply_job_cancel p owner frame s =
    (result_bind (lift_result (job_cancel_validate p)) (\<lambda>u.
     result_bind (some_or_corrupt (bt_get (rp_jobs s) (jc_job p))) (\<lambda>job.
     check (uj_cancel job = None \<and> uj_owner_generation job = owner) (
     let s = s\<lparr>rp_jobs := bt_modify (jc_job p) (\<lambda>job. job\<lparr>uj_cancel := Some \<lparr>jx_requester = jc_requester p,
      jx_reason = jc_reason p, jx_kill = jc_kill p, jx_frame = frame\<rparr>\<rparr>) (rp_jobs s)\<rparr> in
     Inr (record_activity (uj_project job) (Some (uj_conversation job)) (loc_sequence frame) s)))))"

definition person_ended :: "job_outcome \<Rightarrow> queued_input \<Rightarrow> queued_input" where
  "person_ended outcome q = q\<lparr>qi_person := map_option (\<lambda>person. person\<lparr>pin_outcome := Some outcome\<rparr>) (qi_person q)\<rparr>"

definition settle_person :: "unsettled_job \<Rightarrow> job_outcome \<Rightarrow> locator \<Rightarrow> replay \<Rightarrow> replay outcome" where
  "settle_person job outcome frame s = (case uj_origin job of
      OriginModel _ _ _ \<Rightarrow> Inr s
    | OriginPerson input \<Rightarrow>
      (result_bind (some_or_corrupt (bt_get (rp_inputs s) input)) (\<lambda>q.
       result_bind (some_or_corrupt (qi_person q)) (\<lambda>person.
       check (pin_job person = Some (uj_intent job) \<and> pin_outcome person = None) (
       settle_input input (loc_sequence frame) (modify_input input (person_ended outcome) s))))))"

fun emit_all :: "(key \<times> entry) list \<Rightarrow> replay \<Rightarrow> replay outcome" where
  "emit_all [] s = Inr s"
| "emit_all ((k, e) # es) s =
  (result_bind (emit k e s) (\<lambda>s.
   emit_all es s))"

definition settled_entries :: "unsettled_job \<Rightarrow> locator \<Rightarrow> (key \<times> entry) list" where
  "settled_entries job frame =
    (let cancel = (case uj_cancel job of None \<Rightarrow> locator_NONE | Some c \<Rightarrow> jx_frame c);
       at = loc_sequence (uj_intent job);
       payload = EntryJobPayload (uj_job job) (uj_intent job) frame (loc_sequence frame)
     in [(Key TagJob (uj_job job) 0,
           EntryJob (uj_conversation job) (origin_kind (uj_origin job)) (uj_intent job) cancel frame),
         (Key TagPayload (fst (uj_payloads job)) 0, payload),
         (Key TagPayload (snd (uj_payloads job)) 0, payload),
         (Key TagConversationJob (uj_conversation job) at, EntryConversationJob (uj_job job)),
         (Key TagProjectJob (uj_project job) at, EntryProjectJob (uj_job job) (uj_conversation job)),
         (Key TagAllJobs zero_id at, EntryAllJobs (uj_job job) (uj_project job)),
         (Key TagSettlement (uj_conversation job) (loc_sequence frame), EntrySettlement (uj_job job))])"

definition apply_job_settled :: "job_settled \<Rightarrow> u64 \<Rightarrow> locator \<Rightarrow> replay \<Rightarrow> replay outcome" where
  "apply_job_settled p owner frame s =
    (result_bind (lift_result (job_settled_validate p)) (\<lambda>u.
     result_bind (some_or_corrupt (bt_get (rp_jobs s) (st_job p))) (\<lambda>job.
     check ((if st_outcome p = JO_Interrupted then owner > uj_owner_generation job else owner = uj_owner_generation job)) (
     result_bind (person_outside job s) (\<lambda>outside.
     check (outside = Some True \<or> st_reason p \<noteq> JR_OutsideSandboxOff \<and> st_capture_reason p \<noteq> CR_ClosedAfterCancel) (
     check (st_reason p \<noteq> JR_EnforcementMismatch \<or> origin_kind (uj_origin job) = 1) (
     let s = s\<lparr>rp_jobs := bt_remove (st_job p) (rp_jobs s)\<rparr> in
     result_bind (settle_person job (st_outcome p) frame s) (\<lambda>s.
     result_bind (emit_all (settled_entries job frame) s) (\<lambda>s.
     Inr (record_activity (uj_project job) (Some (uj_conversation job)) (loc_sequence frame) s))))))))))"

subsection \<open>Retention\<close>

fun summarize :: "(key \<times> bytes) list \<Rightarrow> retention_summary \<Rightarrow> retention_summary outcome" where
  "summarize [] summary = Inr summary"
| "summarize ((k, v) # es) summary =
  (result_bind (entry_decode TagRetention v) (\<lambda>e.
   (case e of
        EntryRetention action _ _ \<Rightarrow>
     (result_bind (some_or_corrupt (retention_action_from_code action)) (\<lambda>action.
      summarize es (retention_apply action summary)))
      | _ \<Rightarrow> Inl (Err Corrupt))))"

definition job_retention_summary :: "index_reads \<Rightarrow> id16 \<Rightarrow> replay \<Rightarrow> retention_summary outcome" where
  "job_retention_summary ix job s =
    (result_bind (replay_range ix (Key TagRetention job 0) (Key TagRetention job (- 1)) False
      (MAX_JOB_RETENTION_RECORDS + 1) s) (\<lambda>entries.
     if length entries > MAX_JOB_RETENTION_RECORDS then Inl (Err Limit) else
     summarize entries retention_default))"

definition retained_job :: "index_reads \<Rightarrow> id16 \<Rightarrow> replay \<Rightarrow> (id16 \<times> id16 \<times> bool) outcome" where
  "retained_job ix job s =
    (result_bind (job_state_of ix job s) (\<lambda>found.
     (case found of
        Some (Unsettled j) \<Rightarrow> Inr (uj_project j, uj_conversation j, False)
      | Some (Settled j) \<Rightarrow>
       (result_bind (find_conversation ix (sj_conversation j) s) (\<lambda>found.
        result_bind (some_or_corrupt found) (\<lambda>c.
        Inr (cv_project c, sj_conversation j, True))))
      | None \<Rightarrow> Inl (Err Corrupt))))"

definition model_note :: "job_retention \<Rightarrow> id16 \<Rightarrow> locator \<Rightarrow> replay \<Rightarrow> replay outcome" where
  "model_note p conversation frame s = (case jn_author p of
      AuthorPerson _ \<Rightarrow> Inr s
    | AuthorModel operation generation ordinal \<Rightarrow>
      (result_bind (operation_mut operation generation s) (\<lambda>op.
       check (op_owner_generation op = rp_owner_generation s \<and> op_conversation op = conversation \<and>
          unat ordinal = length (op_tools op)) (
       result_bind (last_tool op) (\<lambda>tool.
       check (tool_unresolved tool \<and> tl_tool_operation tool = Some Op_JobNote \<and> tl_note tool = None) (
       Inr (put_operation operation (replace_last (tool\<lparr>tl_note := Some (jn_job p, frame)\<rparr>) op) s)))))))"

definition apply_job_retention :: "index_reads \<Rightarrow> job_retention \<Rightarrow> locator \<Rightarrow> replay \<Rightarrow> replay outcome" where
  "apply_job_retention ix p frame s =
    (result_bind (lift_result (job_retention_validate p)) (\<lambda>u.
     result_bind (retained_job ix (jn_job p) s) (\<lambda>(project, conversation, settled).
     result_bind (job_retention_summary ix (jn_job p) s) (\<lambda>summary.
     check (retention_allows summary (jn_action p) settled) (
     result_bind (model_note p conversation frame s) (\<lambda>s.
     result_bind (emit (Key TagRetention (jn_job p) (loc_sequence frame))
      (EntryRetention (retention_action_code (jn_action p)) (author_code (jn_author p)) frame) s) (\<lambda>s.
     Inr (record_activity project (Some conversation) (loc_sequence frame) s))))))))"

subsection \<open>Restoring a checkpoint\<close>

definition load_cancel :: "index_reads \<Rightarrow> locator \<Rightarrow> u64 \<Rightarrow> locator \<Rightarrow> unsettled_job \<Rightarrow> replay \<Rightarrow> unsettled_job outcome" where
  "load_cancel ix intent owner cancel job s =
    (if locator_is_none cancel then Inr job
     else
       (result_bind (lift_result (ix_frame_owner ix cancel)) (\<lambda>(cancel_owner, r).
        (case r of
          R_JobCancelRequested c \<Rightarrow>
          (result_bind (lift_result (job_cancel_validate c)) (\<lambda>u.
           check (jc_job c = uj_job job \<and> cancel_owner = owner \<and> loc_sequence cancel > loc_sequence intent \<and>
              loc_sequence cancel \<le> rp_sequence s) (
           Inr (job\<lparr>uj_cancel := Some \<lparr>jx_requester = jc_requester c, jx_reason = jc_reason c, jx_kill = jc_kill c,
              jx_frame = cancel\<rparr>\<rparr>))))
        | _ \<Rightarrow> Inl (Err Corrupt)))))"

definition load_job :: "(bytes \<Rightarrow> bytes) \<Rightarrow> index_reads \<Rightarrow> locator \<Rightarrow> locator \<Rightarrow> replay \<Rightarrow> replay outcome" where
  "load_job sha ix intent cancel s =
    (check (\<not> locator_is_none intent \<and> loc_sequence intent \<le> rp_sequence s \<and> length (rp_jobs s) < MAX_UNSETTLED_JOBS \<and>
      list_all (\<lambda>(_, job). loc_sequence (uj_intent job) < loc_sequence intent) (rp_jobs s)) (
     result_bind (lift_result (ix_frame_owner ix intent)) (\<lambda>(owner, r).
     (case r of
        R_JobIntent p \<Rightarrow>
       (result_bind (lift_result (job_intent_validate p)) (\<lambda>u.
        result_bind (derive_job sha ix p owner intent s) (\<lambda>job.
        check ((case ji_origin p of OriginModel _ _ _ \<Rightarrow> True
            | OriginPerson input \<Rightarrow> (case Option.bind (bt_get (rp_inputs s) input) qi_person of None \<Rightarrow> False
              | Some person \<Rightarrow> pin_job person = Some intent \<and> pin_outcome person = None))) (
        result_bind (load_cancel ix intent owner cancel job s) (\<lambda>job.
        check (bt_get (rp_jobs s) (uj_job job) = None) (
        Inr (s\<lparr>rp_jobs := bt_insert (uj_job job) job (rp_jobs s)\<rparr>)))))))
      | _ \<Rightarrow> Inl (Err Corrupt)))))"

definition job_ledger :: "unsettled_job list \<Rightarrow> nat \<times> nat" where
  "job_ledger jobs = foldl (\<lambda>(bytes, frames) job. if uj_cancel job \<noteq> None
      then (bytes + (HEADER + TRAILER + MAX_JOB_SETTLED_PAYLOAD), frames + 1)
      else (bytes + (HEADER + TRAILER + MAX_JOB_SETTLED_PAYLOAD) + (HEADER + TRAILER + JOB_CANCEL_PAYLOAD), frames + 2))
    (0, 0) jobs"

end
