(* ===== verification/ReplayTools.thy ===== *)
theory ReplayTools
  imports ReplayJobs
begin

section \<open>Replay of tool calls\<close>

text \<open>
  Kinds 14, 15 and 29 in \<open>authority/conversation/state.rs\<close>: the recorded call, its result and the result of a job call
  (rules JR11 to JR17), and the rebuilding of a call from its frames.
\<close>

subsection \<open>The projection of a call\<close>

definition exec_cmd_call_of :: "(bytes \<Rightarrow> bytes) \<Rightarrow> id16 \<Rightarrow> tool_call \<Rightarrow> u64 \<Rightarrow> exec_cmd_call" where
  "exec_cmd_call_of sha installation p sequence =
    (let job = exec_cmd_job_id sha (tc_operation p) (tc_generation p) (tc_ordinal p);
       payloads = job_payloads sha installation job
     in \<lparr>xc_fixed_command = (if tc_whole_command p then Some WHOLE_COMMAND else None),
       xc_secret_variables = (if tc_whole_command p then 1 else of_nat (length (tc_number_kinds p))),
       xc_job = job, xc_stdout_payload = fst payloads, xc_stderr_payload = snd payloads,
       xc_intent_sequence = sequence, xc_job_intent = None\<rparr>)"

definition tool_record_of ::
  "tool_call \<Rightarrow> locator \<Rightarrow> create_note_call option \<Rightarrow> exec_cmd_call option \<Rightarrow> tool_record outcome" where
  "tool_record_of p frame create exec_cmd = result_bind (display_prefix (tc_arguments p) 192) (\<lambda>arguments. Inr
    \<lparr>tl_name = tc_name p, tl_tool = tool_lookup (tc_name p), tl_tool_operation = tc_tool_operation p,
     tl_decision = tc_decision p, tl_fault = tc_fault p, tl_reason = tc_reason p, tl_refusal = tc_refusal p,
     tl_policy = tc_policy p, tl_whole_command = tc_whole_command p, tl_form = tc_form p,
     tl_arguments_bytes = tc_arguments_bytes p, tl_arguments = arguments,
     tl_result_status = None, tl_intent_frame = frame, tl_result_frame = None, tl_result_bytes = 0, tl_preview = None,
     tl_truncated = None, tl_create = create, tl_exec_cmd = exec_cmd, tl_job_result = None, tl_note = None\<rparr>)"

definition apply_result_projection :: "tool_operation \<Rightarrow> tool_result \<Rightarrow> tool_record \<Rightarrow> tool_record outcome" where
  "apply_result_projection operation p tool =
    result_bind (case operation of
        Op_GetNote \<Rightarrow> Inr (ascii ''captured '' @ decimal (length (tr_text p)) @ ascii '' bytes'')
      | Op_CreateNote \<Rightarrow> Inr []
      | _ \<Rightarrow> display_prefix (tr_text p) 128) (\<lambda>preview.
    Inr (tool\<lparr>tl_result_status := Some (tr_status p), tl_result_bytes := length (tr_text p),
      tl_preview := Some preview, tl_truncated := Some (tr_truncated p)\<rparr>))"

lemma safe_display_prefix [vcg]: "(\<And>p. safe P (f p)) \<Longrightarrow> safe P (result_bind (display_prefix s limit) f)"
  using display_prefix_found [of s limit] by auto

lemma tool_record_found: "\<exists>tool. tool_record_of p frame create exec_cmd = Inr tool"
  using display_prefix_found [of "tc_arguments p" 192] by (auto simp: tool_record_of_def)

lemma result_projection_found: "\<exists>tool'. apply_result_projection operation p tool = Inr tool'"
  using display_prefix_found [of "tr_text p" 128] by (auto simp: apply_result_projection_def split: tool_operation.split)

lemma safe_projections [vcg]:
  "(\<And>tool. tool_record_of p frame create exec_cmd = Inr tool \<Longrightarrow> safe P (f tool)) \<Longrightarrow>
    safe P (result_bind (tool_record_of p frame create exec_cmd) f)"
  "(\<And>tool'. apply_result_projection operation r tool = Inr tool' \<Longrightarrow> safe P (f tool')) \<Longrightarrow>
    safe P (result_bind (apply_result_projection operation r tool) f)"
  using tool_record_found [of p frame create exec_cmd] result_projection_found [of operation r tool] by auto

definition follow_frame :: "tool_record \<Rightarrow> locator option" where
  "follow_frame tool = (case Option.bind (tl_exec_cmd tool) xc_job_intent of
      Some frame \<Rightarrow> Some frame
    | None \<Rightarrow> map_option snd (tl_note tool))"

subsection \<open>Kind 14\<close>

definition create_call :: "(bytes \<Rightarrow> bytes) \<Rightarrow> tool_call \<Rightarrow> replay \<Rightarrow> create_note_call option outcome" where
  "create_call sha p s =
    (if \<not> (tc_decision p = D_Run \<and> tc_tool_operation p = Some Op_CreateNote) then Inr None
     else
       (if length (unresolved_creates s) \<ge> 32 then Inl (Err Limit) else
        result_bind (some_or_corrupt (bt_get (rp_operations s) (tc_operation p))) (\<lambda>op.
        result_bind (some_or_corrupt (bt_get (rp_conversations s) (op_conversation op))) (\<lambda>c.
        check (bt_get (rp_projects s) (cv_project c) \<noteq> None \<and> \<not> project_memory_blocked (cv_project c) s) (
        result_bind (lift_result (create_note_call_derive sha
        [rp_installation_id s, pi_graph (rp_initialization s), pi_request (rp_initialization s)]
        (cv_project c) (tc_operation p) (tc_generation p) (tc_ordinal p))) (\<lambda>call.
        Inr (Some call)))))))"

definition exec_call :: "(bytes \<Rightarrow> bytes) \<Rightarrow> id16 \<Rightarrow> tool_call \<Rightarrow> u64 \<Rightarrow> exec_cmd_call option" where
  "exec_call sha installation p sequence =
    (if tc_decision p = D_Run \<and> tc_tool_operation p = Some Op_ExecCmd
     then Some (exec_cmd_call_of sha installation p sequence) else None)"

definition apply_tool_call :: "(bytes \<Rightarrow> bytes) \<Rightarrow> tool_call \<Rightarrow> locator \<Rightarrow> replay \<Rightarrow> replay outcome" where
  "apply_tool_call sha p frame s =
    (result_bind (policy_effect (replay_tool_call p) s) (\<lambda>s.
     result_bind (create_call sha p s) (\<lambda>create.
     result_bind (operation_mut (tc_operation p) (tc_generation p) s) (\<lambda>op.
     check (op_owner_generation op = rp_owner_generation s \<and> op_helper op \<noteq> None \<and>
      unat (tc_ordinal p) = length (op_tools op) + 1 \<and>
      list_all (\<lambda>tool. \<not> tool_unresolved tool) (op_tools op) \<and> (op_cancel op = None \<or> tc_decision p = D_Cancelled)) (
     result_bind (tool_record_of p frame create (exec_call sha (rp_installation_id s) p (loc_sequence frame))) (\<lambda>tool.
     Inr (put_operation (tc_operation p) (op\<lparr>op_tools := op_tools op @ [tool]\<rparr>) s)))))))"

subsection \<open>Kind 15\<close>

definition result_fits :: "tool_operation \<Rightarrow> tool_result \<Rightarrow> bool" where
  "result_fits operation p \<longleftrightarrow>
    (if operation = Op_CreateNote then tr_next_offset p = None \<and> \<not> tr_truncated p \<and> tr_text p = [] \<and>
       tr_status p \<in> {1, 2, 4, 5, 6, 7}
     else if tr_status p \<noteq> 1 then tr_next_offset p = None \<and> \<not> tr_truncated p
     else if operation \<in> {Op_ReadFile, Op_GetNote} then tr_next_offset p \<noteq> None
     else if operation = Op_ListDirectory then tr_next_offset p = None
     else tr_next_offset p = None \<and> \<not> tr_truncated p)"

definition apply_tool_result :: "tool_result \<Rightarrow> locator \<Rightarrow> replay \<Rightarrow> replay outcome" where
  "apply_tool_result p frame s =
    (result_bind (operation_mut (tr_operation p) (tr_generation p) s) (\<lambda>op.
     check (unat (tr_ordinal p) = length (op_tools op)) (
     check (op_owner_generation op = rp_owner_generation s \<or>
      op_tools op \<noteq> [] \<and> tl_create (last (op_tools op)) \<noteq> None \<and> tl_result_frame (last (op_tools op)) = None) (
     result_bind (last_tool op) (\<lambda>tool.
     check (tool_unresolved tool) (
     result_bind (some_or_corrupt (tl_tool_operation tool)) (\<lambda>operation.
     check (\<not> job_result_operation operation) (
     check (result_fits operation p) (
     result_bind (apply_result_projection operation p (tool\<lparr>tl_result_frame := Some frame\<rparr>)) (\<lambda>tool.
     Inr (put_operation (tr_operation p) (replace_last tool op) s)))))))))))"

subsection \<open>Kind 29\<close>

fun body_fits :: "job_result_body \<Rightarrow> tool_operation \<Rightarrow> result_outcome \<Rightarrow> bool" where
  "body_fits (StateBody _) code outcome \<longleftrightarrow>
    code = Op_ExecCmd \<and> outcome \<in> {RO_Ok, RO_Cancelled} \<or> code \<in> {Op_JobStatus, Op_JobCancel} \<and> outcome = RO_Ok"
| "body_fits (ListBody _ _) code outcome \<longleftrightarrow> code = Op_JobList \<and> outcome = RO_Ok"
| "body_fits (PageBody _) code outcome \<longleftrightarrow> code = Op_JobRead \<and> outcome = RO_Ok"
| "body_fits (WaitBody _ _) code outcome \<longleftrightarrow> code = Op_JobWait \<and> outcome = RO_Ok"
| "body_fits NoBody code outcome \<longleftrightarrow>
    (if code = Op_ExecCmd then outcome = RO_Private else if code = Op_JobNote then True else outcome \<noteq> RO_Ok)"

definition names_job :: "tool_operation \<Rightarrow> result_outcome \<Rightarrow> bool" where
  "names_job code outcome \<longleftrightarrow> code \<notin> {Op_ExecCmd, Op_JobList} \<and> outcome \<noteq> RO_NotFound"

definition result_job :: "tool_record \<Rightarrow> tool_operation \<Rightarrow> job_result \<Rightarrow> id16 option outcome" where
  "result_job tool code p =
    (if code = Op_ExecCmd then
      (result_bind (some_or_corrupt (tl_exec_cmd tool)) (\<lambda>exec.
       check (xc_job_intent exec \<noteq> None) (
       Inr (Some (xc_job exec)))))
     else Inr (if names_job code (jr_outcome p) then Some (jr_job p) else None))"

fun list_rows :: "index_reads \<Rightarrow> id16 \<Rightarrow> job_list_entry list \<Rightarrow> u64 \<Rightarrow> replay \<Rightarrow> unit outcome" where
  "list_rows ix conversation [] newest s = Inr ()"
| "list_rows ix conversation (entry # entries) newest s =
  (result_bind (conversation_job ix (le_job entry) conversation s) (\<lambda>(intent, settled).
   check (intent < newest \<and> (le_state entry \<noteq> RS_Settled \<or> settled)) (
   list_rows ix conversation entries intent s)))"

fun body_states :: "index_reads \<Rightarrow> id16 \<Rightarrow> bool \<Rightarrow> job_result_body \<Rightarrow> replay \<Rightarrow> unit outcome" where
  "body_states ix conversation settled (StateBody snapshot) s =
    check (sn_state snapshot \<noteq> RS_Settled \<or> settled) (Inr ())"
| "body_states ix conversation settled (WaitBody snapshot _) s =
    check (sn_state snapshot \<noteq> RS_Settled \<or> settled) (Inr ())"
| "body_states ix conversation settled (ListBody _ entries) s = list_rows ix conversation entries (- 1) s"
| "body_states ix conversation settled (PageBody _) s = Inr ()"
| "body_states ix conversation settled NoBody s = Inr ()"

definition apply_job_result :: "index_reads \<Rightarrow> job_result \<Rightarrow> locator \<Rightarrow> replay \<Rightarrow> replay outcome" where
  "apply_job_result ix p frame s =
    (result_bind (lift_result (job_result_validate p)) (\<lambda>u.
     result_bind (operation_mut (jr_operation p) (jr_generation p) s) (\<lambda>op.
     check (op_owner_generation op = rp_owner_generation s \<and> unat (jr_ordinal p) = length (op_tools op)) (
     result_bind (last_tool op) (\<lambda>tool.
     check (tool_unresolved tool) (
     result_bind (some_or_corrupt (tl_tool_operation tool)) (\<lambda>code.
     check (job_result_operation code \<and> result_allows (jr_outcome p) code) (
     check (body_fits (jr_body p) code (jr_outcome p)) (
     check (jr_view p = [] \<or> code \<in> {Op_ExecCmd, Op_JobStatus, Op_JobWait}) (
     check ((jr_job p \<noteq> zero_id) = names_job code (jr_outcome p)) (
     result_bind (result_job tool code p) (\<lambda>job.
     check (code = Op_JobNote \<and> jr_outcome p = RO_Ok \<longrightarrow> map_option fst (tl_note tool) = Some (jr_job p)) (
     result_bind ((case job of None \<Rightarrow> Inr False | Some job \<Rightarrow>
       (result_bind (conversation_job ix job (op_conversation op) s) (\<lambda>(_, settled).
        Inr settled)))) (\<lambda>settled.
     result_bind (body_states ix (op_conversation op) settled (jr_body p) s) (\<lambda>u.
     let tool = tool\<lparr>tl_result_frame := Some frame, tl_result_status := Some (jr_status p), tl_job_result := Some p\<rparr> in
     Inr (put_operation (jr_operation p) (replace_last tool op) s))))))))))))))))"

subsection \<open>Kind 34\<close>

definition apply_policy_decision :: "policy_decision \<Rightarrow> locator \<Rightarrow> replay \<Rightarrow> replay outcome" where
  "apply_policy_decision p frame s = (case policy_call p of
      None \<Rightarrow> (case pd_subject p of
          PersonInput input \<Rightarrow>
            (result_bind (some_or_corrupt (bt_get (rp_inputs s) input)) (\<lambda>q.
             result_bind (some_or_corrupt (qi_person q)) (\<lambda>person.
             check (pin_job person = None \<and> \<not> qi_dropped q \<and> \<not> qi_held q \<and> input_status input s = Some StatusQueued \<and>
              pd_profile p = (if pin_outside_sandbox person then 3 else 2) \<and> pd_project p = qi_project q \<and>
              pd_task_conversation p = qi_conversation q) (
             policy_effect (replay_decision p) s))))
        | ModelCall _ _ _ \<Rightarrow> Inl (Err Corrupt))
    | Some (operation, generation, ordinal) \<Rightarrow>
      (result_bind (operation_mut operation generation s) (\<lambda>op.
       check (op_owner_generation op = rp_owner_generation s \<and> op_helper op \<noteq> None \<and>
          unat ordinal = length (op_tools op) + 1 \<and> list_all (\<lambda>tool. \<not> tool_unresolved tool) (op_tools op)) (
       result_bind (policy_effect (replay_decision p) s) (\<lambda>s.
       Inr (active_activity (loc_sequence frame) s))))))"

subsection \<open>A call rebuilt from its frames\<close>

definition follow_call ::
  "tool_call \<Rightarrow> (locator \<times> journal_record) option \<Rightarrow> exec_cmd_call option \<Rightarrow>
    (exec_cmd_call option \<times> (id16 \<times> locator) option) outcome" where
  "follow_call call follow exec = (case follow of
      None \<Rightarrow> Inr (exec, None)
    | Some (frame, R_JobIntent p) \<Rightarrow>
      (check (ji_origin p = OriginModel (tc_operation call) (tc_generation call) (tc_ordinal call)) (
       result_bind (some_or_corrupt exec) (\<lambda>e.
       Inr (Some (e\<lparr>xc_job_intent := Some frame\<rparr>), None))))
    | Some (frame, R_JobRetention p) \<Rightarrow>
      (check (tc_decision call = D_Run \<and> tc_tool_operation call = Some Op_JobNote \<and>
          jn_author p = AuthorModel (tc_operation call) (tc_generation call) (tc_ordinal call)) (
       Inr (exec, Some (jn_job p, frame))))
    | Some _ \<Rightarrow> Inl (Err Corrupt))"

definition result_call :: "tool_call \<Rightarrow> (locator \<times> journal_record) option \<Rightarrow> tool_record \<Rightarrow> tool_record outcome" where
  "result_call call result tool = (case result of
      None \<Rightarrow> Inr tool
    | Some (frame, R_ToolResult p) \<Rightarrow>
      (result_bind (some_or_corrupt (tc_tool_operation call)) (\<lambda>operation.
       check (tc_decision call = D_Run \<and> \<not> job_result_operation operation) (
       apply_result_projection operation p (tool\<lparr>tl_result_frame := Some frame\<rparr>))))
    | Some (frame, R_JobResult p) \<Rightarrow>
      (check (tc_decision call = D_Run \<and>
          (case tc_tool_operation call of None \<Rightarrow> False | Some operation \<Rightarrow> job_result_operation operation)) (
       Inr (tool\<lparr>tl_result_frame := Some frame, tl_result_status := Some (jr_status p), tl_job_result := Some p\<rparr>)))
    | Some _ \<Rightarrow> Inl (Err Corrupt))"

definition tool_from_frames :: "(bytes \<Rightarrow> bytes) \<Rightarrow> id16 \<Rightarrow> id16 list \<Rightarrow> id16 \<Rightarrow> locator \<times> journal_record \<Rightarrow>
    (locator \<times> journal_record) option \<Rightarrow> (locator \<times> journal_record) option \<Rightarrow> tool_record outcome" where
  "tool_from_frames sha installation binding project intent follow result = (case snd intent of
      R_ToolCall call \<Rightarrow>
        (result_bind ((if tc_decision call = D_Run \<and> tc_tool_operation call = Some Op_CreateNote
          then lift_result (map_sum id Some (create_note_call_derive sha binding project (tc_operation call)
            (tc_generation call) (tc_ordinal call)))
          else Inr None)) (\<lambda>create.
         result_bind (follow_call call follow (exec_call sha installation call (loc_sequence (fst intent)))) (\<lambda>(exec, note).
         result_bind (tool_record_of call (fst intent) create exec) (\<lambda>tool.
         result_call call result (tool\<lparr>tl_note := note\<rparr>)))))
    | _ \<Rightarrow> Inl (Err Corrupt))"

end
