(* ===== verification/ReplayPaths.thy ===== *)
theory ReplayPaths
  imports ReplayJobs
begin

section \<open>Replay of execution path records\<close>

text \<open>
  Kind 32 in \<open>authority/conversation/execution_path.rs\<close>: changed paths, acknowledgements, approvals and revocations of a
  project, each emitted as an index entry, and the guard view that is read back from the entries.
\<close>

definition project_known :: "index_reads \<Rightarrow> id16 \<Rightarrow> replay \<Rightarrow> bool outcome" where
  "project_known ix project s =
    (if bt_get (rp_projects s) project \<noteq> None then Inr True
     else
       (result_bind (replay_get ix (Key TagProject project 0) s) (\<lambda>found.
        Inr (found \<noteq> None))))"

definition last_change :: "index_reads \<Rightarrow> id16 \<Rightarrow> replay \<Rightarrow> (u64 \<times> u64) option outcome" where
  "last_change ix project s =
    (result_bind (last_under ix TagPathChange project s) (\<lambda>found.
     (case found of
        Some (sequence, EntryPathChange _ number _) \<Rightarrow> Inr (Some (sequence, number))
      | Some _ \<Rightarrow> Inl (Err Corrupt)
      | None \<Rightarrow> Inr None)))"

definition last_acknowledgement :: "index_reads \<Rightarrow> id16 \<Rightarrow> replay \<Rightarrow> (id16 \<times> u64 \<times> u64 \<times> locator) option outcome" where
  "last_acknowledgement ix project s =
    (result_bind (last_under ix TagPathAck project s) (\<lambda>found.
     (case found of
        Some (_, EntryPathAck input through covered frame) \<Rightarrow> Inr (Some (input, through, covered, frame))
      | Some _ \<Rightarrow> Inl (Err Corrupt)
      | None \<Rightarrow> Inr None)))"

definition project_approvals :: "index_reads \<Rightarrow> id16 \<Rightarrow> replay \<Rightarrow> (approvals \<times> nat) outcome" where
  "project_approvals ix project s =
    (result_bind (replay_range ix (Key TagPathApproval project 0) (Key TagPathApproval project (- 1)) False
      (MAX_PATH_APPROVAL_RECORDS + 1) s) (\<lambda>entries.
     approval_set entries))"

definition path_changed :: "index_reads \<Rightarrow> execution_path \<Rightarrow> locator \<Rightarrow> replay \<Rightarrow> (id16 option \<times> replay) outcome" where
  "path_changed ix p frame s =
    (result_bind (job_state_of ix (ep_reference p) s) (\<lambda>found.
     (case found of
        Some (Settled job) \<Rightarrow>
       (result_bind (find_conversation ix (sj_conversation job) s) (\<lambda>found.
        result_bind (some_or_corrupt found) (\<lambda>c.
        check (sj_origin job = 1 \<and> cv_project c = ep_project p) (
        result_bind (last_change ix (ep_project p) s) (\<lambda>newest.
        result_bind ((case newest of
              Some (_, number) \<Rightarrow> some_or_corrupt (u64_checked_add number 1)
            | None \<Rightarrow> Inr 1)) (\<lambda>number.
        result_bind (emit (Key TagPathChange (ep_project p) (loc_sequence frame))
            (EntryPathChange (ep_reference p) number frame) s) (\<lambda>s.
        Inr (Some (sj_conversation job), s))))))))
      | _ \<Rightarrow> Inl (Err Corrupt))))"

definition path_acknowledged :: "index_reads \<Rightarrow> execution_path \<Rightarrow> locator \<Rightarrow> replay \<Rightarrow> (id16 option \<times> replay) outcome" where
  "path_acknowledged ix p frame s =
    (result_bind (some_or_corrupt (bt_get (rp_inputs s) (ep_reference p))) (\<lambda>q.
     check (qi_project q = ep_project p \<and> \<not> qi_dropped q \<and>
      (case qi_person q of None \<Rightarrow> False | Some person \<Rightarrow> pin_job person = None)) (
     result_bind (last_acknowledgement ix (ep_project p) s) (\<lambda>previous.
     let prior = (case previous of None \<Rightarrow> (0, 0) | Some (_, through, covered, _) \<Rightarrow> (through, covered)) in
     result_bind ((if ep_through p = fst prior then Inr (snd prior)
      else
       (check (ep_through p > fst prior) (
        result_bind (replay_entry ix (Key TagPathChange (ep_project p) (ep_through p)) s) (\<lambda>e.
        (case e of Some (EntryPathChange _ number _) \<Rightarrow> Inr number | _ \<Rightarrow> Inl (Err Corrupt))))))) (\<lambda>covered.
     result_bind (emit (Key TagPathAck (ep_project p) (loc_sequence frame))
      (EntryPathAck (ep_reference p) (ep_through p) covered frame) s) (\<lambda>s.
     Inr (Some (qi_conversation q), s)))))))"

definition path_approval ::
  "(bytes \<Rightarrow> bytes) \<Rightarrow> index_reads \<Rightarrow> execution_path \<Rightarrow> locator \<Rightarrow> replay \<Rightarrow> (id16 option \<times> replay) outcome" where
  "path_approval sha ix p frame s =
    (result_bind (project_approvals ix (ep_project p) s) (\<lambda>state.
     if snd state \<ge> MAX_PATH_APPROVAL_RECORDS then Inl (Err Limit) else
     result_bind (no_panic (case ep_entries p of [] \<Rightarrow> None | e # _ \<Rightarrow> Some e)) (\<lambda>entry.
     let key = path_key sha (pe_path entry) in
     result_bind (approval_allowed (ep_action p) key state) (\<lambda>u.
     result_bind (emit (Key TagPathApproval (ep_project p) (loc_sequence frame))
      (EntryPathApproval (path_action_code (ep_action p)) key (ep_digest p) frame) s) (\<lambda>s.
     Inr (None, s))))))"

definition apply_execution_path ::
  "(bytes \<Rightarrow> bytes) \<Rightarrow> index_reads \<Rightarrow> execution_path \<Rightarrow> locator \<Rightarrow> replay \<Rightarrow> replay outcome" where
  "apply_execution_path sha ix p frame s =
    (result_bind (lift_result (execution_path_validate p)) (\<lambda>u.
     result_bind (project_known ix (ep_project p) s) (\<lambda>known.
     check known (
     let reference = Key TagPathReference (ep_reference p) 0 in
     result_bind (unused ix reference s) (\<lambda>u.
     result_bind ((case ep_action p of
        PA_ModelChanged \<Rightarrow> path_changed ix p frame s
      | PA_Acknowledged \<Rightarrow> path_acknowledged ix p frame s
      | PA_Approved \<Rightarrow> path_approval sha ix p frame s
      | PA_Revoked \<Rightarrow> path_approval sha ix p frame s)) (\<lambda>(conversation, s).
     result_bind (emit reference (EntryPathReference (path_action_code (ep_action p)) (ep_project p) frame) s) (\<lambda>s.
     Inr (record_activity (ep_project p) conversation (loc_sequence frame) s))))))))"

subsection \<open>The guard view\<close>

abbreviation MAX_PENDING_PATH_CHANGES :: nat where "MAX_PENDING_PATH_CHANGES \<equiv> 64"

record path_acknowledgement =
  pk_frame :: locator
  pk_input :: id16
  pk_through :: u64

record path_change =
  ph_frame :: locator
  ph_job :: id16
  ph_paths :: "bytes list"
  ph_overflow :: u32

record path_approved =
  pp_path :: bytes
  pp_digest :: hash32
  pp_frame :: locator

record path_guard_view =
  gv_acknowledged :: "path_acknowledgement option"
  gv_changes :: "path_change list"
  gv_omitted_changes :: u64
  gv_approvals :: "path_approved list"
  gv_approval_records :: nat

definition guard_through :: "path_guard_view \<Rightarrow> u64" where
  "guard_through v = (if gv_changes v = []
    then (case gv_acknowledged v of None \<Rightarrow> 0 | Some a \<Rightarrow> pk_through a)
    else loc_sequence (ph_frame (last (gv_changes v))))"

definition guard_has_room :: "path_guard_view \<Rightarrow> path_action \<Rightarrow> bytes \<Rightarrow> bool" where
  "guard_has_room v action path \<longleftrightarrow> gv_approval_records v < MAX_PATH_APPROVAL_RECORDS \<and>
    (action \<noteq> PA_Approved \<or> length (gv_approvals v) < MAX_PATH_APPROVALS \<or>
      list_ex (\<lambda>a. pp_path a = path) (gv_approvals v))"

definition path_record :: "index_reads \<Rightarrow> id16 \<Rightarrow> replay \<Rightarrow> (locator \<times> execution_path) option outcome" where
  "path_record ix reference s =
    (result_bind (replay_entry ix (Key TagPathReference reference 0) s) (\<lambda>e.
     (case e of
        Some (EntryPathReference _ _ frame) \<Rightarrow>
       (result_bind (lift_result (ix_frame ix frame)) (\<lambda>r.
        (case r of
              R_ExecutionPath p \<Rightarrow> check (ep_reference p = reference) (Inr (Some (frame, p)))
            | _ \<Rightarrow> Inl (Err Corrupt))))
      | Some _ \<Rightarrow> Inl (Err Corrupt)
      | None \<Rightarrow> Inr None)))"

definition u64_checked_sub :: "u64 \<Rightarrow> u64 \<Rightarrow> u64 option" where
  "u64_checked_sub a b = (if b \<le> a then Some (a - b) else None)"

definition u64_saturating_add :: "u64 \<Rightarrow> u64 \<Rightarrow> u64" where
  "u64_saturating_add a b = (case u64_checked_add a b of None \<Rightarrow> - 1 | Some c \<Rightarrow> c)"

definition omitted_changes :: "(key \<times> bytes) list \<Rightarrow> u64 \<Rightarrow> u64 outcome" where
  "omitted_changes newest covered = (case newest of
      [] \<Rightarrow> Inr 0
    | (_, v) # _ \<Rightarrow>
      (result_bind (entry_decode TagPathChange v) (\<lambda>e.
       (case e of
            EntryPathChange _ number _ \<Rightarrow>
         (result_bind (some_or_corrupt (u64_checked_sub number covered)) (\<lambda>pending.
          some_or_corrupt (u64_checked_sub pending (of_nat (length newest)))))
          | _ \<Rightarrow> Inl (Err Corrupt)))))"

fun guard_changes :: "index_reads \<Rightarrow> id16 \<Rightarrow> (key \<times> bytes) list \<Rightarrow> path_change list outcome" where
  "guard_changes ix project [] = Inr []"
| "guard_changes ix project ((k, v) # es) =
  (result_bind (entry_decode TagPathChange v) (\<lambda>e.
   result_bind ((case e of
        EntryPathChange job _ frame \<Rightarrow>
     (result_bind (lift_result (ix_frame ix frame)) (\<lambda>r.
      (case r of
              R_ExecutionPath p \<Rightarrow>
        (check (ep_action p = PA_ModelChanged \<and> ep_project p = project \<and> ep_reference p = job \<and>
                  loc_sequence frame = key_disc k) (
         Inr \<lparr>ph_frame = frame, ph_job = job, ph_paths = map pe_path (ep_entries p), ph_overflow = ep_overflow p\<rparr>))
            | _ \<Rightarrow> Inl (Err Corrupt))))
      | _ \<Rightarrow> Inl (Err Corrupt))) (\<lambda>change.
   result_bind (guard_changes ix project es) (\<lambda>changes.
   Inr (change # changes)))))"

fun guard_approvals :: "(bytes \<Rightarrow> bytes) \<Rightarrow> index_reads \<Rightarrow> id16 \<Rightarrow> approvals \<Rightarrow> path_approved list outcome" where
  "guard_approvals sha ix project [] = Inr []"
| "guard_approvals sha ix project ((key, digest, frame) # rest) =
  (result_bind (lift_result (ix_frame ix frame)) (\<lambda>r.
   result_bind ((case r of
        R_ExecutionPath p \<Rightarrow>
     (result_bind (some_or_corrupt (approval_path p)) (\<lambda>path.
      check (ep_action p = PA_Approved \<and> ep_project p = project \<and> ep_digest p = digest \<and> path_key sha path = key) (
      Inr \<lparr>pp_path = path, pp_digest = digest, pp_frame = frame\<rparr>)))
      | _ \<Rightarrow> Inl (Err Corrupt))) (\<lambda>approval.
   result_bind (guard_approvals sha ix project rest) (\<lambda>approvals.
   Inr (approval # approvals)))))"

definition path_guard :: "(bytes \<Rightarrow> bytes) \<Rightarrow> index_reads \<Rightarrow> id16 \<Rightarrow> replay \<Rightarrow> path_guard_view outcome" where
  "path_guard sha ix project s =
    (result_bind (last_acknowledgement ix project s) (\<lambda>ack.
     let (acknowledged, through, covered) = (case ack of
        Some (input, through, covered, frame) \<Rightarrow>
          (Some \<lparr>pk_frame = frame, pk_input = input, pk_through = through\<rparr>, through, covered)
      | None \<Rightarrow> (None, 0, 0)) in
     result_bind (replay_range ix (Key TagPathChange project (u64_saturating_add through 1)) (Key TagPathChange project (- 1))
      True MAX_PENDING_PATH_CHANGES s) (\<lambda>newest.
     result_bind (omitted_changes newest covered) (\<lambda>omitted.
     result_bind (guard_changes ix project (rev newest)) (\<lambda>changes.
     result_bind (project_approvals ix project s) (\<lambda>(approved, records).
     result_bind (guard_approvals sha ix project approved) (\<lambda>approvals.
     Inr \<lparr>gv_acknowledged = acknowledged, gv_changes = changes, gv_omitted_changes = omitted,
      gv_approvals = sort_key pp_path approvals, gv_approval_records = records\<rparr>)))))))"

end
