(* ===== verification/Replay.thy ===== *)
theory Replay
  imports ReplayTools ReplayPaths
begin

section \<open>Replay of a journal\<close>

text \<open>
  \<open>Replay::apply\<close>, \<open>apply_frame\<close>, \<open>evict\<close> and \<open>reserve\<close> of \<open>authority/conversation/state.rs\<close>, the pure replay of one journal held in
  memory (\<open>MemoryIndex\<close>, \<open>apply_next\<close>, \<open>replay\<close>), and \<open>replay\<close> and \<open>summary\<close> of \<open>authority.rs\<close>. The cancel flag is a function
  from the number of earlier loads to the value that a load returns.
\<close>

subsection \<open>One record\<close>

definition reconciles :: "id16 \<Rightarrow> operation \<Rightarrow> tool_result \<Rightarrow> bool" where
  "reconciles i op p \<longleftrightarrow> tr_operation p = i \<and> tr_generation p = op_generation op \<and>
    unat (tr_ordinal p) = length (op_tools op) \<and> op_tools op \<noteq> [] \<and>
    tl_create (last (op_tools op)) \<noteq> None \<and> tl_result_frame (last (op_tools op)) = None"

text \<open>The records that are accepted while the active operation belongs to an earlier owner.\<close>

definition allowed_after_restart :: "id16 \<Rightarrow> operation \<Rightarrow> journal_record \<Rightarrow> bool" where
  "allowed_after_restart i op r = (case r of
      R_ToolResult p \<Rightarrow> reconciles i op p
    | R_JobRetention p \<Rightarrow> (case jn_author p of AuthorPerson _ \<Rightarrow> True | AuthorModel _ _ _ \<Rightarrow> False)
    | R_ExecutionPath _ \<Rightarrow> True
    | R_PolicyRevision _ \<Rightarrow> True
    | R_OwnerGeneration \<Rightarrow> True
    | R_TurnTerminal _ \<Rightarrow> True
    | R_JobCancelRequested _ \<Rightarrow> True
    | R_JobSettled _ \<Rightarrow> True
    | _ \<Rightarrow> False)"

definition owner_check :: "journal_record \<Rightarrow> u64 \<Rightarrow> replay \<Rightarrow> unit outcome" where
  "owner_check r generation s =
    (check (r = R_OwnerGeneration \<or> generation = rp_owner_generation s) (
     (case rp_active_operation s of
        None \<Rightarrow> Inr ()
      | Some i \<Rightarrow>
       (result_bind (some_or_corrupt (bt_get (rp_operations s) i)) (\<lambda>op.
        check (op_owner_generation op = rp_owner_generation s \<or> allowed_after_restart i op r) (
        Inr ()))))))"

definition then_active :: "locator \<Rightarrow> replay outcome \<Rightarrow> replay outcome" where
  "then_active frame r = result_bind r (\<lambda>s. Inr (active_activity (loc_sequence frame) s))"

definition apply_record :: "(bytes \<Rightarrow> bytes) \<Rightarrow> unicode \<Rightarrow> index_reads \<Rightarrow> journal_record \<Rightarrow> u64 \<Rightarrow> locator \<Rightarrow> replay \<Rightarrow>
    replay outcome" where
  "apply_record sha uc ix r generation frame s = (case r of
      R_PendingInit _ \<Rightarrow> Inl (Err Corrupt)
    | R_ActiveBinding p \<Rightarrow> apply_active_binding ix p s
    | R_OwnerGeneration \<Rightarrow> apply_owner_generation generation s
    | R_ProjectRegistered p \<Rightarrow> apply_project_registered sha uc ix p frame s
    | R_ProjectRequestAlias p \<Rightarrow> apply_project_request_alias sha uc ix p frame s
    | R_ProjectRenamed p \<Rightarrow> apply_project_renamed sha uc ix p frame s
    | R_TurnAccepted p \<Rightarrow> accept sha uc ix p generation frame s
    | R_StartAuthorized p \<Rightarrow> apply_start_authorized p frame s
    | R_RequestStarted p \<Rightarrow> apply_request_started p frame s
    | R_CancelRequested p \<Rightarrow> apply_cancel_requested p frame s
    | R_TurnTerminal p \<Rightarrow> apply_terminal p frame s
    | R_InputQueued p \<Rightarrow> enqueue sha uc ix p generation frame s
    | R_InputReordered p \<Rightarrow> reorder_input sha uc ix p frame s
    | R_InputDecision p \<Rightarrow> apply_input_decision sha uc ix p generation frame s
    | R_InputPromoted p \<Rightarrow> apply_input_promoted sha uc ix p generation frame s
    | R_ToolCall p \<Rightarrow> then_active frame (apply_tool_call sha p frame s)
    | R_ToolResult p \<Rightarrow> then_active frame (apply_tool_result p frame s)
    | R_ResponseText p \<Rightarrow> apply_response_text p frame s
    | R_ThinkingText p \<Rightarrow> apply_thinking_text p frame s
    | R_PersonCommandQueued p \<Rightarrow> enqueue_person sha ix p generation frame s
    | R_JobIntent p \<Rightarrow> apply_job_intent sha ix p generation frame s
    | R_JobCancelRequested p \<Rightarrow> apply_job_cancel p generation frame s
    | R_JobSettled p \<Rightarrow> apply_job_settled p generation frame s
    | R_JobResult p \<Rightarrow> then_active frame (apply_job_result ix p frame s)
    | R_JobRetention p \<Rightarrow> apply_job_retention ix p frame s
    | R_ExecutionPath p \<Rightarrow> apply_execution_path sha ix p frame s
    | R_PolicyDecision p \<Rightarrow> apply_policy_decision p frame s
    | R_PolicyRevision p \<Rightarrow> policy_effect (replay_revision p) s)"

definition replay_apply :: "(bytes \<Rightarrow> bytes) \<Rightarrow> unicode \<Rightarrow> index_reads \<Rightarrow> journal_record \<Rightarrow> u64 \<Rightarrow> locator \<Rightarrow> replay \<Rightarrow>
    replay outcome" where
  "replay_apply sha uc ix r generation frame s =
    (result_bind (owner_check r generation s) (\<lambda>u.
     apply_record sha uc ix r generation frame s))"

subsection \<open>Resident entries and reservations\<close>

definition pinned_projects :: "replay \<Rightarrow> id16 set" where
  "pinned_projects s =
    (case active s of None \<Rightarrow> {}
     | Some (_, op) \<Rightarrow> (case bt_get (rp_conversations s) (op_conversation op) of None \<Rightarrow> {} | Some c \<Rightarrow> {cv_project c})) \<union>
    set (map qi_project (filter (\<lambda>q. unresolved (qi_request q) s) (input_values s))) \<union>
    set (map (\<lambda>(_, job). uj_project job) (rp_jobs s))"

definition pinned_conversations :: "replay \<Rightarrow> id16 set" where
  "pinned_conversations s =
    (case active s of None \<Rightarrow> {} | Some (_, op) \<Rightarrow> {op_conversation op}) \<union>
    set (map qi_conversation (filter (\<lambda>q. unresolved (qi_request q) s) (input_values s))) \<union>
    set (map (\<lambda>(_, job). uj_conversation job) (rp_jobs s))"

text \<open>The IDs after the first \<open>n\<close> in the order newest activity, then ID.\<close>

definition oldest :: "nat \<Rightarrow> (u64 \<times> id16) list \<Rightarrow> id16 set" where
  "oldest n entries = set (map snd (drop n (sort (map (\<lambda>(activity, i). (- 1 - activity, i)) entries))))"

definition evict_projects :: "id16 set \<Rightarrow> (id16, project_entry) btree \<Rightarrow> (id16, project_entry) btree" where
  "evict_projects pinned projects =
    (if length projects \<le> RECENT_PROJECTS then projects
     else let old = oldest RECENT_PROJECTS (map (\<lambda>(i, entry). (pj_activity entry, i)) projects)
       in bt_retain (\<lambda>i. i \<notin> old \<or> i \<in> pinned) projects)"

definition evict_conversations :: "id16 set \<Rightarrow> (id16, conversation) btree \<Rightarrow> (id16, conversation) btree" where
  "evict_conversations pinned conversations =
    (if length conversations \<le> RECENT_CONVERSATIONS then conversations
     else let old = oldest RECENT_CONVERSATIONS (map (\<lambda>(i, entry). (cv_activity entry, i)) conversations)
       in bt_retain (\<lambda>i. i \<notin> old \<or> i \<in> pinned) conversations)"

definition settled_inputs :: "replay \<Rightarrow> (u64 \<times> id16) list" where
  "settled_inputs s = List.map_filter (\<lambda>q. case qi_settled q of
      None \<Rightarrow> None
    | Some sequence \<Rightarrow> if (case qi_dispatched q of None \<Rightarrow> False | Some (op, _) \<Rightarrow> Some op = rp_active_operation s) then None
        else Some (sequence, qi_request q)) (input_values s)"

definition evict_inputs :: "replay \<Rightarrow> (id16, queued_input) btree" where
  "evict_inputs s =
    (if length (settled_inputs s) \<le> RECENT_SETTLED_INPUTS then rp_inputs s
     else bt_retain (\<lambda>i. i \<notin> oldest RECENT_SETTLED_INPUTS (settled_inputs s)) (rp_inputs s))"

definition evict :: "replay \<Rightarrow> replay" where
  "evict s = s\<lparr>rp_projects := evict_projects (pinned_projects s) (rp_projects s),
    rp_conversations := evict_conversations (pinned_conversations s) (rp_conversations s),
    rp_inputs := evict_inputs s\<rparr>"

abbreviation FRAME :: nat where "FRAME \<equiv> HEADER + TRAILER"
abbreviation TERMINAL_CAPACITY :: nat where "TERMINAL_CAPACITY \<equiv> FRAME + 51 + 61440"
abbreviation START_CAPACITY :: nat where "START_CAPACITY \<equiv> FRAME + 72"
abbreviation CANCEL_CAPACITY :: nat where "CANCEL_CAPACITY \<equiv> FRAME + 25"
abbreviation OWNER_CAPACITY :: nat where "OWNER_CAPACITY \<equiv> FRAME"
abbreviation RESULT_CAPACITY :: nat where "RESULT_CAPACITY \<equiv> FRAME + 43 + 16384"
abbreviation JOB_RESULT_CAPACITY :: nat where "JOB_RESULT_CAPACITY \<equiv> FRAME + MAX_JOB_RESULT_PAYLOAD"
abbreviation MODEL_NOTE_CAPACITY :: nat where "MODEL_NOTE_CAPACITY \<equiv> FRAME + 58"

text \<open>What \<open>reserve\<close> holds, as a list of frame capacities: for the pending call of the active operation, for the rest of its
  turn, and for one input.\<close>

definition call_capacities :: "operation \<Rightarrow> nat list outcome" where
  "call_capacities op =
    (if op_tools op = [] \<or> \<not> tool_unresolved (last (op_tools op)) then Inr []
     else
       (result_bind (some_or_corrupt (tl_tool_operation (last (op_tools op)))) (\<lambda>code.
        Inr ((if job_result_operation code then JOB_RESULT_CAPACITY else RESULT_CAPACITY) #
        (if code = Op_JobNote \<and> tl_note (last (op_tools op)) = None then [MODEL_NOTE_CAPACITY] else [])))))"

definition turn_capacities :: "u64 \<Rightarrow> operation \<Rightarrow> nat list" where
  "turn_capacities owner op = (if op_owner_generation op \<noteq> owner then [] else
    OWNER_CAPACITY # (if op_helper op = None \<and> op_cancel op = None then [START_CAPACITY] else []) @
    (if op_cancel op = None then [CANCEL_CAPACITY] else []))"

definition operation_capacities :: "replay \<Rightarrow> nat list outcome" where
  "operation_capacities s = (case rp_active_operation s of
      None \<Rightarrow> Inr []
    | Some i \<Rightarrow>
      (result_bind (some_or_corrupt (bt_get (rp_operations s) i)) (\<lambda>op.
       result_bind (call_capacities op) (\<lambda>call.
       Inr (TERMINAL_CAPACITY # call @ turn_capacities (rp_owner_generation s) op)))))"

definition input_capacities :: "replay \<Rightarrow> queued_input \<Rightarrow> nat list" where
  "input_capacities s q = (case input_status (qi_request q) s of
      Some StatusQueued \<Rightarrow> [FRAME + 65, FRAME + 65]
    | Some StatusHeld \<Rightarrow> [FRAME + 65]
    | _ \<Rightarrow> [])"

definition reserve :: "replay \<Rightarrow> replay outcome" where
  "reserve s =
    (result_bind (operation_capacities s) (\<lambda>held.
     let held = held @ concat (map (input_capacities s) (input_values s)) in
     let (bytes, frames) = job_ledger (map snd (rp_jobs s)) in
     let s = s\<lparr>rp_reserved_bytes := sum_list held + bytes, rp_reserved_frames := length held + frames\<rparr> in
     if memory_charge s > MAX_MEMORY then Inl (Err Limit) else
     Inr s))"

subsection \<open>One frame\<close>

definition apply_frame :: "(bytes \<Rightarrow> bytes) \<Rightarrow> unicode \<Rightarrow> index_reads \<Rightarrow> frame_context \<Rightarrow> journal_record \<Rightarrow> hash32 \<Rightarrow>
    locator \<Rightarrow> replay \<Rightarrow> replay outcome" where
  "apply_frame sha uc ix context r digest frame s =
    (result_bind (next_u64 (rp_sequence s)) (\<lambda>n.
     check (fc_sequence context = n \<and> loc_sequence frame = fc_sequence context \<and>
      fc_prior_digest context = rp_last_digest s \<and> fc_expected_revision context = rp_revision s \<and>
      fc_installation_id context = rp_installation_id s \<and> fc_transition_id context \<notin> rp_transition_ids s) (
     let s = charge 128 (s\<lparr>rp_transition_ids := insert (fc_transition_id context) (rp_transition_ids s),
      rp_activity := None, rp_claimed := {}\<rparr>) in
     result_bind (replay_apply sha uc ix r (fc_owner_generation context) frame s) (\<lambda>s.
     result_bind (next_u64 (fc_expected_revision context)) (\<lambda>revision.
     let s = s\<lparr>rp_sequence := fc_sequence context, rp_revision := revision, rp_last_digest := digest,
      rp_last_frame := frame\<rparr> in
     reserve (evict s))))))"

definition clear_delta :: "replay \<Rightarrow> replay" where
  "clear_delta s = s\<lparr>rp_requests := [], rp_delta := \<lparr>de_generated = [], de_entries = []\<rparr>, rp_transition_ids := {},
    rp_operations := bt_retain (\<lambda>i. Some i = rp_active_operation s) (rp_operations s), rp_delta_charge := 0,
    rp_base := rp_sequence s\<rparr>"

definition recompute :: "replay \<Rightarrow> replay outcome" where
  "recompute s = reserve (s\<lparr>rp_delta_charge := 0, rp_activity := None\<rparr>)"

definition apply_next :: "(bytes \<Rightarrow> bytes) \<Rightarrow> unicode \<Rightarrow> index_reads \<Rightarrow> replay option \<Rightarrow> frame_context \<Rightarrow> journal_record \<Rightarrow>
    hash32 \<Rightarrow> locator \<Rightarrow> replay outcome" where
  "apply_next sha uc ix state context r digest frame = (case state of
      Some s \<Rightarrow> apply_frame sha uc ix context r digest frame s
    | None \<Rightarrow> (case r of
        R_PendingInit p \<Rightarrow>
          (result_bind (genesis sha uc context p frame) (\<lambda>s.
           result_bind (next_u64 (fc_expected_revision context)) (\<lambda>revision.
           reserve (s\<lparr>rp_sequence := fc_sequence context, rp_revision := revision, rp_last_digest := digest,
            rp_last_frame := frame\<rparr>))))
      | _ \<Rightarrow> Inl (Err Corrupt)))"

subsection \<open>One journal\<close>

definition memory_bytes :: "bytes \<Rightarrow> locator \<Rightarrow> bytes result" where
  "memory_bytes journal l =
    (if loc_segment l \<noteq> 1 \<or> snd (locator_range l) > length journal then Inl Corrupt
     else Inr (subrange (fst (locator_range l)) (snd (locator_range l)) journal))"

definition memory_frame :: "(bytes \<Rightarrow> bytes) \<Rightarrow> bytes \<Rightarrow> locator \<Rightarrow> journal_record outcome" where
  "memory_frame sha journal l = result_bind (lift_result (memory_bytes journal l)) (\<lambda>bs. verified_record sha bs l)"

definition memory_frame_owner :: "(bytes \<Rightarrow> bytes) \<Rightarrow> bytes \<Rightarrow> locator \<Rightarrow> (u64 \<times> journal_record) outcome" where
  "memory_frame_owner sha journal l = result_bind (lift_result (memory_bytes journal l)) (\<lambda>bs.
    result_bind (verified_frame sha bs l) (\<lambda>(context, r, _). Inr (fc_owner_generation context, r)))"

definition memory_frame_command :: "(bytes \<Rightarrow> bytes) \<Rightarrow> bytes \<Rightarrow> locator \<Rightarrow> (hash32 \<times> journal_record) outcome" where
  "memory_frame_command sha journal l =
    result_bind (lift_result (memory_bytes journal l)) (\<lambda>bs. verified_command sha bs l)"

text \<open>The reads of an index answer with a value or an error, so that other stores than this one fit. The reads of a journal in
  memory are their outcomes: that none of them is a panic is part of the theorem on panics.\<close>

definition read_answer :: "'a outcome \<Rightarrow> 'a result" where
  "read_answer r = (case r of Inr x \<Rightarrow> Inr x | Inl (Err e) \<Rightarrow> Inl e | Inl Panic \<Rightarrow> Inl Corrupt)"

definition memory_index :: "(bytes \<Rightarrow> bytes) \<Rightarrow> bytes \<Rightarrow> index_reads" where
  "memory_index sha journal =
    \<lparr>ix_get = (\<lambda>_. Inr None),
     ix_range = (\<lambda>_ _ _ _. Inr []),
     ix_frame = (\<lambda>l. read_answer (memory_frame sha journal l)),
     ix_frame_owner = (\<lambda>l. read_answer (memory_frame_owner sha journal l)),
     ix_frame_command = (\<lambda>l. read_answer (memory_frame_command sha journal l))\<rparr>"

definition u32_try_from :: "nat \<Rightarrow> u32 outcome" where
  "u32_try_from n = (if n < 2 ^ 32 then Inr (of_nat n) else Inl (Err Limit))"

definition not_cancelled :: "(nat \<Rightarrow> bool) \<Rightarrow> nat \<Rightarrow> unit outcome" where
  "not_cancelled cancelled n = (if cancelled n then Inl (Err Cancelled) else Inr ())"

lemma envelope_length: "envelope sha bs = Inr e \<Longrightarrow> HEADER + TRAILER \<le> ev_length e"
  by (auto simp: envelope_inside_view envelope_view_def envelope_of_def Let_def split: if_splits option.splits)

function replay_frames :: "(bytes \<Rightarrow> bytes) \<Rightarrow> unicode \<Rightarrow> (nat \<Rightarrow> bool) \<Rightarrow> bytes \<Rightarrow> nat \<Rightarrow> nat \<Rightarrow> replay option \<Rightarrow>
    replay outcome" where
  "replay_frames sha uc cancelled journal n offset state =
    (if \<not> offset < length journal then
      (result_bind (not_cancelled cancelled n) (\<lambda>u.
       (case state of None \<Rightarrow> Inl (Err Empty) | Some s \<Rightarrow> Inr s)))
     else
       (result_bind (not_cancelled cancelled n) (\<lambda>u.
        result_bind (slice_of offset (length journal) journal) (\<lambda>rest.
        result_bind (envelope sha rest) (\<lambda>e.
        result_bind (u32_try_from offset) (\<lambda>at.
        let frame = \<lparr>loc_sequence = fc_sequence (ev_context e), loc_segment = 1, loc_offset = at,
        loc_length = of_nat (ev_length e)\<rparr> in
        result_bind (lift_result (decode_record sha (ev_kind e) (ev_payload e))) (\<lambda>r.
        result_bind (apply_next sha uc (memory_index sha journal) state (ev_context e) r (ev_digest e) frame) (\<lambda>s.
        replay_frames sha uc cancelled journal (n + 1) (offset + ev_length e) (Some s)))))))))"
  by auto
termination
  by (relation "measure (\<lambda>(_, _, _, journal, _, offset, _). length journal - offset)") (auto dest!: envelope_length)

declare replay_frames.simps [simp del]

definition replay_journal :: "(bytes \<Rightarrow> bytes) \<Rightarrow> unicode \<Rightarrow> (nat \<Rightarrow> bool) \<Rightarrow> bytes \<Rightarrow> replay outcome" where
  "replay_journal sha uc cancelled journal =
    (result_bind (not_cancelled cancelled 0) (\<lambda>u.
     result_bind ((if journal = [] then Inl (Err Empty) else Inr ())) (\<lambda>u.
     replay_frames sha uc cancelled journal 1 0 None)))"

datatype replay_phase = PhasePendingInit | PhaseActiveBinding

record replay_summary =
  su_installation_id :: id16
  su_revision :: u64
  su_owner_generation :: u64
  su_binding_generation :: "u64 option"
  su_state :: replay_phase

definition summary :: "replay \<Rightarrow> replay_summary" where
  "summary s = \<lparr>su_installation_id = rp_installation_id s, su_revision = rp_revision s,
    su_owner_generation = rp_owner_generation s, su_binding_generation = map_option ab_generation (rp_binding s),
    su_state = (if rp_binding s \<noteq> None then PhaseActiveBinding else PhasePendingInit)\<rparr>"

definition authority_replay :: "(bytes \<Rightarrow> bytes) \<Rightarrow> unicode \<Rightarrow> (nat \<Rightarrow> bool) \<Rightarrow> bytes \<Rightarrow> replay_summary outcome" where
  "authority_replay sha uc cancelled journal =
    (result_bind (not_cancelled cancelled 0) (\<lambda>u.
     result_bind ((if journal = [] then Inl (Err Empty) else Inr ())) (\<lambda>u.
     result_bind (envelope sha journal) (\<lambda>e.
     result_bind ((if ev_kind e \<noteq> 10 then Inl (Err UnsupportedFormat) else Inr ())) (\<lambda>u.
     result_bind (replay_journal sha uc (\<lambda>n. cancelled (n + 1)) journal) (\<lambda>s.
     Inr (summary s)))))))"

end
