(* ===== verification/ReplayInv.thy ===== *)
theory ReplayInv
  imports Replay
begin

section \<open>The invariant of the replay state\<close>

text \<open>
  The invariant that every frame keeps, part by part, and the lemmas on the steps that the record handlers share. Each
  part speaks of the fields it is about, so that an update of another field leaves it as it is.
\<close>

subsection \<open>Parts\<close>

definition lane_open :: "queued_input \<Rightarrow> bool" where
  "lane_open q \<longleftrightarrow> (if qi_dispatched q = None then \<not> qi_dropped q else qi_dispatched_terminal q = None)"

text \<open>An input is open while its status is queued, held or running; this depends on the input alone.\<close>

definition input_open :: "queued_input \<Rightarrow> bool" where
  "input_open q \<longleftrightarrow> (case qi_person q of
      None \<Rightarrow> lane_open q
    | Some person \<Rightarrow> pin_outcome person = None \<and> (pin_job person \<noteq> None \<or> lane_open q))"

lemma lane_status_open: "lane_status q s \<in> {StatusQueued, StatusHeld, StatusRunning} \<longleftrightarrow> lane_open q"
  by (auto simp: lane_status_def lane_open_def split: option.splits terminal_kind.splits)

lemma status_open: "status_of q s \<in> {StatusQueued, StatusHeld, StatusRunning} \<longleftrightarrow> input_open q"
  using lane_status_open [of q s] by (simp add: status_of_def input_open_def split: option.split)

lemma unresolved_iff: "unresolved i s \<longleftrightarrow> (\<exists>q. bt_get (rp_inputs s) i = Some q \<and> input_open q)"
  using status_open [of _ s] by (cases "bt_get (rp_inputs s) i") (simp_all add: unresolved_def input_status_def)

definition well_typed_operation :: "id16 \<Rightarrow> operation \<Rightarrow> bool" where
  "well_typed_operation i op \<longleftrightarrow> is_id i \<and> is_id (op_conversation op)"

definition operation_ok :: "nat \<Rightarrow> u64 \<Rightarrow> operation \<Rightarrow> bool" where
  "operation_ok pieces owner op \<longleftrightarrow> op_owner_generation op \<le> owner \<and>
    list_all (\<lambda>tool. \<not> tool_unresolved tool) (butlast (op_tools op)) \<and>
    length (resp_pieces (op_response op)) \<le> pieces \<and> length (resp_pieces (op_thinking op)) \<le> pieces"

definition operations_inv :: "(id16, operation) btree \<Rightarrow> id16 option \<Rightarrow> nat \<Rightarrow> u64 \<Rightarrow> bool" where
  "operations_inv ops active_id pieces owner \<longleftrightarrow> bt_ok ops \<and>
    (\<forall>i op. bt_get ops i = Some op \<longrightarrow> well_typed_operation i op \<and> operation_ok pieces owner op \<and>
      (op_terminal op = None \<longleftrightarrow> active_id = Some i)) \<and>
    (\<forall>i. active_id = Some i \<longrightarrow> bt_get ops i \<noteq> None)"

definition input_ok :: "id16 \<Rightarrow> queued_input \<Rightarrow> bool" where
  "input_ok i q \<longleftrightarrow> qi_request q = i \<and> is_id i \<and> is_id (qi_dispatch_request q) \<and> is_id (qi_project q) \<and>
    is_id (qi_conversation q) \<and> (\<forall>op g. qi_dispatched q = Some (op, g) \<longrightarrow> is_id op) \<and>
    (qi_kind q = InputPerson \<longleftrightarrow> qi_person q \<noteq> None) \<and>
    (qi_dispatched q = None \<longrightarrow> qi_dispatched_terminal q = None) \<and>
    (qi_person q \<noteq> None \<longrightarrow> qi_dispatch_request q = zero_id \<and> qi_dispatched q = None)"

definition settled_ok :: "queued_input \<Rightarrow> bool" where
  "settled_ok q \<longleftrightarrow> (qi_settled q \<noteq> None \<longrightarrow> \<not> input_open q)"

definition inputs_inv :: "(id16, queued_input) btree \<Rightarrow> bool" where
  "inputs_inv inputs \<longleftrightarrow> bt_ok inputs \<and> (\<forall>i q. bt_get inputs i = Some q \<longrightarrow> input_ok i q \<and> settled_ok q)"

definition open_inputs :: "(id16, queued_input) btree \<Rightarrow> nat" where
  "open_inputs inputs = length (filter (\<lambda>(_, q). input_open q) inputs)"

definition jobs_inv :: "(id16, unsettled_job) btree \<Rightarrow> bool" where
  "jobs_inv jobs \<longleftrightarrow> bt_ok jobs \<and> length jobs \<le> MAX_UNSETTLED_JOBS \<and>
    (\<forall>i job. bt_get jobs i = Some job \<longrightarrow> uj_job job = i \<and> is_id i \<and> is_id (uj_conversation job) \<and> is_id (uj_project job))"

definition conversations_inv :: "(id16, conversation) btree \<Rightarrow> bool" where
  "conversations_inv conversations \<longleftrightarrow> bt_ok conversations \<and>
    (\<forall>i c. bt_get conversations i = Some c \<longrightarrow> is_id i \<and> is_id (cv_project c))"

definition requests_inv :: "(id16, request_result) btree \<Rightarrow> bool" where
  "requests_inv requests \<longleftrightarrow> bt_ok requests \<and> (\<forall>i r. bt_get requests i = Some r \<longrightarrow> is_hash (rr_digest r))"

text \<open>The conversation of the active operation is resident.\<close>

definition active_resident :: "(id16, operation) btree \<Rightarrow> id16 option \<Rightarrow> (id16, conversation) btree \<Rightarrow> bool" where
  "active_resident ops active_id conversations \<longleftrightarrow> (\<forall>i op. active_id = Some i \<longrightarrow> bt_get ops i = Some op \<longrightarrow>
    bt_get conversations (op_conversation op) \<noteq> None)"

text \<open>The index entries and generated IDs of the delta agree with the inputs: inputs are generated, a settled entry belongs
  to a settled input, and an input was dispatched to a generated operation, which has not ended while it is active.\<close>

definition delta_inv :: "delta \<Rightarrow> (id16, queued_input) btree \<Rightarrow> id16 option \<Rightarrow> bool" where
  "delta_inv d inputs active_id \<longleftrightarrow> bt_ok (de_generated d) \<and> bt_ok (de_entries d) \<and>
    (\<forall>i. bt_get inputs i \<noteq> None \<longrightarrow> bt_get (de_generated d) i \<noteq> None) \<and>
    (\<forall>i. bt_get (de_entries d) (Key TagInput i 0) \<noteq> None \<longrightarrow> bt_get (de_generated d) i \<noteq> None \<and>
      (\<forall>q. bt_get inputs i = Some q \<longrightarrow> qi_settled q \<noteq> None)) \<and>
    (\<forall>i q op g. bt_get inputs i = Some q \<longrightarrow> qi_dispatched q = Some (op, g) \<longrightarrow> bt_get (de_generated d) op \<noteq> None \<and>
      (active_id = Some op \<longrightarrow> qi_dispatched_terminal q = None))"

definition replay_inv :: "replay \<Rightarrow> bool" where
  "replay_inv s \<longleftrightarrow>
    operations_inv (rp_operations s) (rp_active_operation s) (rp_piece_limit s) (rp_owner_generation s) \<and>
    inputs_inv (rp_inputs s) \<and> open_inputs (rp_inputs s) \<le> MAX_INPUTS \<and>
    jobs_inv (rp_jobs s) \<and> conversations_inv (rp_conversations s) \<and> bt_ok (rp_projects s) \<and>
    requests_inv (rp_requests s) \<and> policy_inv (rp_policy s) \<and>
    active_resident (rp_operations s) (rp_active_operation s) (rp_conversations s) \<and>
    delta_inv (rp_delta s) (rp_inputs s) (rp_active_operation s)"

subsection \<open>Reads\<close>

text \<open>A lookup reads the delta through encodings of well-typed entries, so it does not panic.\<close>

lemma encode_entries_safe:
  "(\<And>k e. (k, e) \<in> set es \<Longrightarrow> wf_entry e) \<Longrightarrow> \<exists>vs. encode_entries es = Inr vs \<and> map fst vs = map fst es"
proof (induction es)
  case (Cons x es)
  obtain k e where x: "x = (k, e)" by (cases x)
  obtain vs where "encode_entries es = Inr vs" "map fst vs = map fst es" using Cons by auto
  moreover obtain v where "entry_encode e = Some v" using entry_encode_wf [of e] Cons.prems [of k e] x by auto
  ultimately show ?case by (simp add: x)
qed simp

definition readable :: "replay \<Rightarrow> bool" where
  "readable s \<longleftrightarrow> bt_ok (rp_operations s) \<and> bt_ok (rp_requests s) \<and> bt_ok (de_generated (rp_delta s)) \<and>
    (\<forall>i op. bt_get (rp_operations s) i = Some op \<longrightarrow> well_typed_operation i op) \<and>
    (\<forall>i r. bt_get (rp_requests s) i = Some r \<longrightarrow> is_hash (rr_digest r))"

lemma terminal_entries_wf:
  "well_typed_operation i op \<Longrightarrow> (k, e) \<in> set (terminal_entries t (i, op)) \<Longrightarrow> wf_entry e"
  by (cases t; cases "op_terminal op")
    (auto simp: terminal_entries_def well_typed_operation_def operation_facts_of_def call_entry_def)

lemma operation_entries_safe:
  assumes "\<And>i op. (i, op) \<in> set ops \<Longrightarrow> well_typed_operation i op"
  shows "\<exists>vs. operation_entries ops t = Inr vs"
  using assms terminal_entries_wf encode_entries_safe [of "concat (map (terminal_entries t) ops)"]
  by (force simp: operation_entries_def)

lemma readableD:
  assumes "readable s"
  shows "(i, op) \<in> set (rp_operations s) \<Longrightarrow> well_typed_operation i op"
    "(j, r) \<in> set (rp_requests s) \<Longrightarrow> is_hash (rr_digest r)"
  using assms by (auto simp: readable_def bt_get_set)

lemma request_entries_safe:
  assumes "readable s"
  shows "\<exists>vs. encode_entries (map (\<lambda>(i, r). (Key TagRequest i 0, EntryRequest (rr_kind r) (rr_digest r) (rr_frame r)))
      (rp_requests s)) = Inr vs \<and> map fst vs = map (\<lambda>x. Key TagRequest (fst x) 0) (rp_requests s)"
proof -
  have "\<exists>vs. encode_entries (map (\<lambda>(i, r). (Key TagRequest i 0, EntryRequest (rr_kind r) (rr_digest r) (rr_frame r)))
      (rp_requests s)) = Inr vs \<and> map fst vs =
      map fst (map (\<lambda>(i, r). (Key TagRequest i 0, EntryRequest (rr_kind r) (rr_digest r) (rr_frame r))) (rp_requests s))"
    by (rule encode_entries_safe) (use readableD(2) [OF assms] in auto)
  then show ?thesis by (simp add: comp_def case_prod_beta)
qed

lemma generated_entries_safe:
  "\<exists>vs. encode_entries (map (\<lambda>(i, entity, frame). (Key TagGenerated i 0, EntryGenerated entity frame)) m) = Inr vs \<and>
    map fst vs = map (\<lambda>x. Key TagGenerated (fst x) 0) m"
proof -
  have "\<exists>vs. encode_entries (map (\<lambda>(i, entity, frame). (Key TagGenerated i 0, EntryGenerated entity frame)) m) = Inr vs \<and>
    map fst vs = map fst (map (\<lambda>(i, entity, frame). (Key TagGenerated i 0, EntryGenerated entity frame)) m)"
    by (rule encode_entries_safe) auto
  then show ?thesis by (simp add: comp_def case_prod_beta)
qed

lemma delta_tag_safe:
  assumes "readable s"
  shows "\<exists>vs. delta_tag t s = Inr vs"
  using request_entries_safe [OF assms] generated_entries_safe [of "de_generated (rp_delta s)"]
    operation_entries_safe [of "rp_operations s" t] readableD(1) [OF assms]
  by (cases t) (auto simp: delta_tag_def)

lemma find_key_None: "find_key k out = None \<longleftrightarrow> k \<notin> fst ` set out"
  by (force simp: find_key_def find_None_iff)

lemma delta_get_safe:
  assumes "readable s"
  shows "\<exists>v. delta_get k s = Inr v"
proof (cases "bt_get (rp_operations s) (key_id k)")
  case None
  then show ?thesis using delta_tag_safe [OF assms, of "key_tag k"] by (auto simp: delta_get_def)
next
  case (Some op)
  then have "\<exists>vs. operation_entries [(key_id k, op)] (key_tag k) = Inr vs"
    using assms by (intro operation_entries_safe) (simp add: readable_def)
  then show ?thesis using Some delta_tag_safe [OF assms, of "key_tag k"] by (auto simp: delta_get_def)
qed

lemma replay_get_safe: "readable s \<Longrightarrow> safe (\<lambda>_. True) (replay_get ix k s)"
  using delta_get_safe [of s k] safe_lift(1) by (auto simp: replay_get_def split: option.splits)

lemma entry_decode_safe: "safe (\<lambda>e. wf_entry e \<and> entry_tag e = t) (entry_decode t v)"
  by (simp add: safe_iff entry_decode_iff entry_decode_no_panic)

lemma replay_entry_safe:
  "readable s \<Longrightarrow> safe (\<lambda>e. \<forall>x. e = Some x \<longrightarrow> wf_entry x \<and> entry_tag x = key_tag k) (replay_entry ix k s)"
  unfolding replay_entry_def
  by (intro vcg safe_bind [OF replay_get_safe] safe_bind [OF entry_decode_safe]) auto

lemma replay_range_safe: "readable s \<Longrightarrow> safe (\<lambda>_. True) (replay_range ix lo hi descending limit s)"
  using delta_tag_safe [of s "key_tag lo"]
  by (auto simp: replay_range_def Let_def intro!: vcg)

lemma replay_inv_readable: "replay_inv s \<Longrightarrow> readable s"
  by (auto simp: replay_inv_def readable_def operations_inv_def requests_inv_def delta_inv_def)

lemma readable_claimed [simp]: "readable (s\<lparr>rp_claimed := m\<rparr>) = readable s"
  by (simp add: readable_def)

lemma replay_inv_irrelevant [simp]:
  "replay_inv (s\<lparr>rp_claimed := m\<rparr>) = replay_inv s" "replay_inv (s\<lparr>rp_transition_ids := t\<rparr>) = replay_inv s"
  "replay_inv (s\<lparr>rp_activity := a\<rparr>) = replay_inv s" "replay_inv (s\<lparr>rp_delta_charge := c\<rparr>) = replay_inv s"
  "replay_inv (s\<lparr>rp_order_revision := n\<rparr>) = replay_inv s"
  "replay_inv (s\<lparr>rp_last_dispatched_lane := l\<rparr>) = replay_inv s" "replay_inv (s\<lparr>rp_binding := b\<rparr>) = replay_inv s"
  "replay_inv (charge k s) = replay_inv s"
  by (simp_all add: replay_inv_def charge_def)

lemma unused_safe: "readable s \<Longrightarrow> safe (\<lambda>_. True) (unused ix k s)"
  unfolding unused_def by (intro vcg safe_bind [OF replay_get_safe] TrueI)

lemma find_key_sorted:
  assumes "map fst vs = map (\<lambda>x. Key t (fst x) 0) m"
  shows "find_key (Key t i 0) (sort_key fst vs) = None \<longleftrightarrow> bt_get m i = None"
proof -
  have "fst ` set vs = (\<lambda>x. Key t (fst x) 0) ` set m"
    using arg_cong [OF assms, of set] by simp
  then show ?thesis by (auto simp: find_key_None map_of_eq_None_iff)
qed

lemma delta_get_generated:
  assumes "delta_get (Key TagGenerated i 0) s = Inr v"
  shows "v = None \<longleftrightarrow> bt_get (de_generated (rp_delta s)) i = None"
proof -
  obtain vs where vs: "encode_entries (map (\<lambda>(i, entity, frame). (Key TagGenerated i 0, EntryGenerated entity frame))
      (de_generated (rp_delta s))) = Inr vs"
    and keys: "map fst vs = map (\<lambda>x. Key TagGenerated (fst x) 0) (de_generated (rp_delta s))"
    using generated_entries_safe by blast
  have "v = find_key (Key TagGenerated i 0) (sort_key fst vs)"
    using assms by (simp add: delta_get_def delta_tag_def vs)
  then show ?thesis by (simp add: find_key_sorted [OF keys])
qed

lemma delta_get_request:
  assumes "readable s" "delta_get (Key TagRequest i 0) s = Inr v"
  shows "v = None \<longleftrightarrow> bt_get (rp_requests s) i = None"
proof -
  obtain vs where vs: "encode_entries (map (\<lambda>(i, r). (Key TagRequest i 0,
      EntryRequest (rr_kind r) (rr_digest r) (rr_frame r))) (rp_requests s)) = Inr vs"
    and keys: "map fst vs = map (\<lambda>x. Key TagRequest (fst x) 0) (rp_requests s)"
    using request_entries_safe [OF assms(1)] by blast
  have "v = find_key (Key TagRequest i 0) (sort_key fst vs)"
    using assms(2) by (simp add: delta_get_def delta_tag_def vs)
  then show ?thesis by (simp add: find_key_sorted [OF keys])
qed

lemma unused_delta: "unused ix k s = Inr u \<Longrightarrow> delta_get k s = Inr None"
  by (auto simp: unused_def replay_get_def steps split: option.splits)

lemma unused_generated: "unused ix (Key TagGenerated i 0) s = Inr u \<Longrightarrow> bt_get (de_generated (rp_delta s)) i = None"
  using unused_delta delta_get_generated by blast

lemma unused_request: "readable s \<Longrightarrow> unused ix (Key TagRequest i 0) s = Inr u \<Longrightarrow> bt_get (rp_requests s) i = None"
  using unused_delta delta_get_request by blast

subsection \<open>Steps that the handlers share\<close>

lemma fresh_safe:
  assumes "readable s"
  shows "safe (\<lambda>s'. i \<noteq> zero_id \<and> bt_get (de_generated (rp_delta s)) i = None \<and> (\<exists>m. s' = s\<lparr>rp_claimed := m\<rparr>))
    (fresh ix i s)"
  unfolding fresh_def Let_def
  by (intro vcg safe_bind [OF unused_safe] conjI exI refl)
    (use assms in \<open>simp_all\<close>, auto dest: unused_generated)

lemma replay_request_safe:
  assumes "replay_inv s" "is_hash digest"
  shows "safe (\<lambda>s'. replay_inv s' \<and> i \<noteq> zero_id \<and> bt_get (rp_requests s) i = None \<and>
    (\<exists>m c. s' = s\<lparr>rp_requests := m, rp_delta_charge := c\<rparr>)) (replay_request ix i digest result kind frame s)"
proof -
  have inv: "replay_inv (insert_request i digest result kind frame s)"
    using assms by (simp add: insert_request_def replay_inv_def charge_def requests_inv_def)
  have shape: "\<exists>m c. insert_request i digest result kind frame s = s\<lparr>rp_requests := m, rp_delta_charge := c\<rparr>"
    unfolding insert_request_def charge_def by simp blast
  note readable = replay_inv_readable [OF assms(1)]
  show ?thesis
    unfolding replay_request_def
    by (intro vcg safe_bind [OF unused_safe] safe_bind [OF replay_entry_safe] conjI)
      (use inv shape readable unused_request in \<open>simp_all\<close>)
qed

lemma charged_delta:
  assumes "replay_inv (s\<lparr>rp_delta := d\<rparr>)"
  shows "replay_inv (charge n (s\<lparr>rp_delta := d\<rparr>)) \<and>
    (\<exists>d' c. charge n (s\<lparr>rp_delta := d\<rparr>) = s\<lparr>rp_delta := d', rp_delta_charge := c\<rparr> \<and> de_generated d' = de_generated d)"
  using assms unfolding charge_def by (intro conjI exI [of _ d] exI [of _ "rp_delta_charge s + n"]) simp_all

lemma emit_safe:
  assumes "replay_inv s" "wf_entry e" "key_tag k \<noteq> TagInput"
  shows "safe (\<lambda>s'. replay_inv s' \<and> (\<exists>d c. s' = s\<lparr>rp_delta := d, rp_delta_charge := c\<rparr> \<and>
    de_generated d = de_generated (rp_delta s))) (emit k e s)"
proof -
  obtain v where v: "entry_encode e = Some v" using entry_encode_wf [OF assms(2)] by blast
  have "replay_inv (s\<lparr>rp_delta := (rp_delta s)\<lparr>de_entries := bt_insert k v (de_entries (rp_delta s))\<rparr>\<rparr>)"
    using assms(1,3) by (auto simp: replay_inv_def delta_inv_def)
  from charged_delta [OF this] show ?thesis unfolding emit_def v by (simp add: check_def)
qed

lemma generate_safe:
  assumes "replay_inv s"
  shows "safe (\<lambda>s'. replay_inv s' \<and> (\<exists>d c. s' = s\<lparr>rp_delta := d, rp_delta_charge := c\<rparr> \<and>
    de_generated d = bt_insert i (entity, frame) (de_generated (rp_delta s)))) (generate i entity frame s)"
proof -
  have "replay_inv (s\<lparr>rp_delta := (rp_delta s)\<lparr>de_generated := bt_insert i (entity, frame) (de_generated (rp_delta s))\<rparr>\<rparr>)"
    using assms by (auto simp: replay_inv_def delta_inv_def)
  from charged_delta [OF this] show ?thesis unfolding generate_def by (simp add: check_def)
qed

lemma policy_effect_safe:
  assumes "replay_inv s"
  shows "safe (\<lambda>s'. replay_inv s' \<and> (\<exists>p. s' = s\<lparr>rp_policy := p\<rparr>)) (policy_effect (policy_step e) s)"
proof (cases "policy_step e (rp_policy s)")
  case (Pair r p)
  show ?thesis
  proof (cases r)
    case (Inr u)
    then have "policy_inv p" using policy_step_inv [of "rp_policy s" e p] assms Pair by (simp add: replay_inv_def)
    then have "replay_inv (s\<lparr>rp_policy := p\<rparr>)" using assms by (simp add: replay_inv_def)
    then show ?thesis using Pair Inr by (auto simp: policy_effect_def)
  qed (simp add: policy_effect_def Pair)
qed

subsection \<open>Projects, conversations and operations\<close>

lemma last_under_safe: "readable s \<Longrightarrow> safe (\<lambda>x. \<forall>n e. x = Some (n, e) \<longrightarrow> wf_entry e) (last_under ix t i s)"
  unfolding last_under_def
  by (intro vcg safe_list safe_bind [OF replay_range_safe] safe_bind [OF entry_decode_safe]) auto

lemma terminal_sequence_safe: "readable s \<Longrightarrow> safe (\<lambda>_. True) (terminal_sequence ix i s)"
  unfolding terminal_sequence_def
  by (intro vcg safe_bind [OF replay_entry_safe]) (auto split: option.split entry.split)

lemma project_latest_of_safe: "readable s \<Longrightarrow> safe (\<lambda>_. True) (project_latest_of ix project s)"
  unfolding project_latest_of_def
  by (intro vcg safe_bind [OF last_under_safe])
    (auto split: option.split entry.split intro!: safe_bind [OF terminal_sequence_safe])

lemma project_title_of_safe: "readable s \<Longrightarrow> safe (\<lambda>_. True) (project_title_of ix project s)"
  unfolding project_title_of_def
  by (intro vcg safe_bind [OF last_under_safe])
    (auto split: option.split entry.split journal_record.split intro!: vcg)

lemma find_project_safe: "readable s \<Longrightarrow> safe (\<lambda>_. True) (find_project ix project s)"
  unfolding find_project_def
  by (intro vcg safe_bind [OF replay_entry_safe])
    (auto split: option.split entry.split journal_record.split
      intro!: vcg safe_bind [OF project_title_of_safe] safe_bind [OF project_latest_of_safe])

lemma find_conversation_safe:
  assumes "readable s" "conversations_inv (rp_conversations s)"
  shows "safe (\<lambda>x. \<forall>c. x = Some c \<longrightarrow> is_id (cv_project c)) (find_conversation ix i s)"
  unfolding find_conversation_def
  using assms
  by (intro vcg safe_bind [OF replay_entry_safe])
    (auto simp: conversations_inv_def split: option.split entry.split
      intro!: vcg safe_list safe_bind [OF replay_range_safe] safe_bind [OF entry_decode_safe])

lemma operation_facts_in_safe:
  "readable s \<Longrightarrow> safe (\<lambda>x. \<forall>facts. x = Some facts \<longrightarrow> is_id (of_conversation facts)) (operation_facts_in ix i s)"
  unfolding operation_facts_in_def
  by (intro vcg safe_bind [OF replay_entry_safe]) (auto split: option.split entry.split)

lemma load_project_safe:
  assumes "replay_inv s"
  shows "safe (\<lambda>(known, s'). replay_inv s' \<and> (\<exists>m. s' = s\<lparr>rp_projects := m\<rparr> \<and> (known \<longrightarrow> bt_get m i \<noteq> None)))
    (load_project ix i s)"
proof -
  have inv: "replay_inv (s\<lparr>rp_projects := bt_insert i entry (rp_projects s)\<rparr>)" for entry
    using assms by (simp add: replay_inv_def)
  have same: "\<exists>m. s = s\<lparr>rp_projects := m\<rparr> \<and> (bt_get (rp_projects s) i \<noteq> None \<longrightarrow> bt_get m i \<noteq> None)"
    by (rule exI [of _ "rp_projects s"]) simp
  show ?thesis
    unfolding load_project_def
    by (intro vcg safe_bind [OF find_project_safe]) (use assms inv same replay_inv_readable in \<open>auto intro!: exI\<close>)
qed

lemma load_conversation_safe:
  assumes "replay_inv s" "is_id i"
  shows "safe (\<lambda>(known, s'). replay_inv s' \<and> (\<exists>m. s' = s\<lparr>rp_conversations := m\<rparr> \<and> (known \<longrightarrow> bt_get m i \<noteq> None)))
    (load_conversation ix i s)"
proof -
  have inv: "replay_inv (s\<lparr>rp_conversations := bt_insert i c (rp_conversations s)\<rparr>)" if "is_id (cv_project c)" for c
    using assms that by (auto simp: replay_inv_def conversations_inv_def active_resident_def)
  have same: "\<exists>m. s = s\<lparr>rp_conversations := m\<rparr> \<and> (bt_get (rp_conversations s) i \<noteq> None \<longrightarrow> bt_get m i \<noteq> None)"
    by (rule exI [of _ "rp_conversations s"]) simp
  have "conversations_inv (rp_conversations s)" using assms(1) by (simp add: replay_inv_def)
  then show ?thesis
    unfolding load_conversation_def
    by (intro vcg safe_bind [OF find_conversation_safe])
      (use assms inv same replay_inv_readable in \<open>auto intro!: exI\<close>)
qed

lemma conversations_inv_modify:
  "conversations_inv m \<Longrightarrow> (\<And>c. cv_project (f c) = cv_project c) \<Longrightarrow> conversations_inv (bt_modify i f m)"
  by (auto simp: conversations_inv_def)

lemma active_resident_modify:
  "active_resident ops a m \<Longrightarrow> active_resident ops a (bt_modify i f m)"
  by (auto simp: active_resident_def)

lemma touch_inv [intro]: "replay_inv s \<Longrightarrow> replay_inv (touch project conversation sequence s)"
  by (simp add: replay_inv_def touch_def conversations_inv_modify active_resident_modify split: option.split)

lemma record_activity_inv [intro]: "replay_inv s \<Longrightarrow> replay_inv (record_activity project conversation sequence s)"
  using touch_inv [of s project conversation sequence]
  by (simp add: record_activity_def Let_def split: prod.split)

lemma active_activity_inv [intro]: "replay_inv s \<Longrightarrow> replay_inv (active_activity sequence s)"
  by (auto simp: active_activity_def split: option.split)

lemma operation_mutD:
  assumes "operation_mut i g s = Inr op"
  shows "rp_active_operation s = Some i" "bt_get (rp_operations s) i = Some op" "op_generation op = g" "op_terminal op = None"
  using assms by (simp_all add: operation_mut_def steps)

lemma safe_bind_operation [vcg]:
  "(\<And>op. operation_mut i g s = Inr op \<Longrightarrow> safe P (f op)) \<Longrightarrow> safe P (result_bind (operation_mut i g s) f)"
proof -
  have "safe (\<lambda>_. True) (operation_mut i g s)" unfolding operation_mut_def by (intro vcg TrueI)
  then show "(\<And>op. operation_mut i g s = Inr op \<Longrightarrow> safe P (f op)) \<Longrightarrow> safe P (result_bind (operation_mut i g s) f)"
    by (rule safe_bind)
qed

lemma put_operation_inv:
  assumes "replay_inv s" "operation_mut i g s = Inr op" "op_conversation op' = op_conversation op" "op_terminal op' = None"
    "operation_ok (rp_piece_limit s) (rp_owner_generation s) op'"
  shows "replay_inv (put_operation i op' s)"
  using assms(1,3-5) operation_mutD [OF assms(2)]
  by (auto simp: replay_inv_def put_operation_def operations_inv_def active_resident_def well_typed_operation_def)

lemma operation_ok_of: "replay_inv s \<Longrightarrow> operation_mut i g s = Inr op \<Longrightarrow> operation_ok (rp_piece_limit s) (rp_owner_generation s) op"
  using operation_mutD [of i g s op] by (auto simp: replay_inv_def operations_inv_def)

lemma open_inputs_modify:
  "(\<And>a q. (a, q) \<in> set m \<Longrightarrow> input_open (f a q) \<Longrightarrow> input_open q) \<Longrightarrow>
    open_inputs (map (\<lambda>(a, q). (a, f a q)) m) \<le> open_inputs m"
proof (induction m)
  case (Cons x m)
  have "open_inputs (map (\<lambda>(a, q). (a, f a q)) m) \<le> open_inputs m" using Cons by auto
  then show ?case using Cons.prems [of "fst x" "snd x"] by (cases x) (auto simp: open_inputs_def)
qed (simp add: open_inputs_def)

text \<open>An update of inputs that keeps their identity and opens none.\<close>

definition keeps_input :: "id16 option \<Rightarrow> queued_input \<Rightarrow> queued_input \<Rightarrow> bool" where
  "keeps_input active_id q q' \<longleftrightarrow> qi_request q' = qi_request q \<and> qi_dispatch_request q' = qi_dispatch_request q \<and>
    qi_project q' = qi_project q \<and> qi_conversation q' = qi_conversation q \<and> qi_dispatched q' = qi_dispatched q \<and>
    (qi_dispatched q = None \<or> active_id \<noteq> None \<longrightarrow> qi_dispatched_terminal q' = qi_dispatched_terminal q) \<and>
    (qi_kind q' = InputPerson \<longleftrightarrow> qi_kind q = InputPerson) \<and>
    (qi_person q' = None \<longleftrightarrow> qi_person q = None) \<and> qi_settled q' = qi_settled q \<and>
    (input_open q' \<longrightarrow> input_open q)"

lemma bt_get_entries: "bt_get (map (\<lambda>(a, q). (a, f a q)) m) a = map_option (f a) (bt_get m a)"
  by (induction m) auto

lemma keeps_inputs_inv:
  assumes "replay_inv s" "\<And>a q. bt_get (rp_inputs s) a = Some q \<Longrightarrow> keeps_input (rp_active_operation s) q (f a q)"
  shows "replay_inv (s\<lparr>rp_inputs := map (\<lambda>(a, q). (a, f a q)) (rp_inputs s)\<rparr>)"
proof -
  let ?m = "map (\<lambda>(a, q). (a, f a q)) (rp_inputs s)"
  have ok: "bt_ok (rp_inputs s)" and old: "\<And>a q. bt_get (rp_inputs s) a = Some q \<Longrightarrow> input_ok a q \<and> settled_ok q"
    using assms(1) by (simp_all add: replay_inv_def inputs_inv_def)
  have "map fst ?m = map fst (rp_inputs s)" by (simp add: comp_def case_prod_beta)
  then have "bt_ok ?m" using ok unfolding bt_ok_def by metis
  moreover have "input_ok a (f a q) \<and> settled_ok (f a q)" if "bt_get (rp_inputs s) a = Some q" for a q
    using old [OF that] assms(2) [OF that] by (auto simp: keeps_input_def input_ok_def settled_ok_def)
  ultimately have "inputs_inv ?m" by (auto simp: inputs_inv_def bt_get_entries)
  moreover have "open_inputs ?m \<le> open_inputs (rp_inputs s)"
    using assms(2) ok by (intro open_inputs_modify) (auto simp: bt_get_set keeps_input_def)
  moreover have "delta_inv (rp_delta s) ?m (rp_active_operation s)"
  proof -
    have "delta_inv (rp_delta s) (rp_inputs s) (rp_active_operation s)" using assms(1) by (simp add: replay_inv_def)
    moreover have "qi_settled (f a q) = qi_settled q \<and> qi_dispatched (f a q) = qi_dispatched q \<and>
        (rp_active_operation s \<noteq> None \<longrightarrow> qi_dispatched_terminal (f a q) = qi_dispatched_terminal q)"
      if "bt_get (rp_inputs s) a = Some q" for a q
      using assms(2) [OF that] by (simp add: keeps_input_def)
    ultimately show ?thesis unfolding delta_inv_def bt_get_entries by fastforce
  qed
  ultimately show ?thesis using assms(1) by (simp add: replay_inv_def)
qed

lemma modify_input_inv:
  assumes "replay_inv s" "\<And>q. bt_get (rp_inputs s) i = Some q \<Longrightarrow> keeps_input (rp_active_operation s) q (f q)"
  shows "replay_inv (modify_input i f s)"
proof -
  have "keeps_input (rp_active_operation s) q q" for q by (simp add: keeps_input_def)
  then show ?thesis
    unfolding modify_input_def bt_modify_def by (intro keeps_inputs_inv assms(1)) (auto simp: assms(2))
qed

text \<open>Settling a closed input.\<close>

lemma input_ok_of: "replay_inv s \<Longrightarrow> bt_get (rp_inputs s) i = Some q \<Longrightarrow> input_ok i q \<and> settled_ok q"
  by (simp add: replay_inv_def inputs_inv_def)

lemma settled_input_inv:
  assumes "replay_inv s" "bt_get (rp_inputs s) i = Some q" "\<not> input_open q"
  shows "replay_inv (s\<lparr>rp_inputs := bt_modify i (\<lambda>q. q\<lparr>qi_settled := Some sequence\<rparr>) (rp_inputs s),
    rp_delta := (rp_delta s)\<lparr>de_entries := bt_insert (Key TagInput i 0) v (de_entries (rp_delta s))\<rparr>\<rparr>)"
proof -
  let ?m = "bt_modify i (\<lambda>q. q\<lparr>qi_settled := Some sequence\<rparr>) (rp_inputs s)"
  have same: "input_open (q\<lparr>qi_settled := x\<rparr>) = input_open q" for q x
    by (simp add: input_open_def lane_open_def split: option.split)
  have "open_inputs ?m \<le> open_inputs (rp_inputs s)"
    unfolding bt_modify_def by (rule open_inputs_modify) (simp add: same split: if_splits)
  moreover have "inputs_inv ?m"
    using assms by (auto simp: replay_inv_def inputs_inv_def input_ok_def settled_ok_def same)
  moreover have "delta_inv ((rp_delta s)\<lparr>de_entries := bt_insert (Key TagInput i 0) v (de_entries (rp_delta s))\<rparr>) ?m
      (rp_active_operation s)"
    using assms(1,2) by (auto simp: replay_inv_def delta_inv_def split: if_splits)
  ultimately show ?thesis using assms(1) by (simp add: replay_inv_def)
qed

lemma settle_input_safe:
  assumes "replay_inv s" "\<And>q. bt_get (rp_inputs s) i = Some q \<Longrightarrow> \<not> input_open q"
  shows "safe (\<lambda>s'. replay_inv s' \<and> (\<exists>d c. s' = s\<lparr>rp_inputs := bt_modify i (\<lambda>q. q\<lparr>qi_settled := Some sequence\<rparr>)
    (rp_inputs s), rp_delta := d, rp_delta_charge := c\<rparr> \<and> de_generated d = de_generated (rp_delta s)))
    (settle_input i sequence s)"
proof (cases "bt_get (rp_inputs s) i")
  case (Some q)
  have "wf_entry (input_entry q st)" for st
    using input_ok_of [OF assms(1) Some] by (auto simp: input_entry_def input_ok_def split: option.split)
  then obtain v where v: "entry_encode (input_entry q (status_of q s)) = Some v"
    using entry_encode_wf by blast
  have inv: "replay_inv (s\<lparr>rp_inputs := bt_modify i (\<lambda>q. q\<lparr>qi_settled := Some sequence\<rparr>) (rp_inputs s),
    rp_delta := (rp_delta s)\<lparr>de_entries := bt_insert (Key TagInput i 0) v (de_entries (rp_delta s))\<rparr>\<rparr>)"
    using settled_input_inv [OF assms(1) Some assms(2) [OF Some]] .
  show ?thesis
    unfolding settle_input_def input_status_def Some emit_def
    using charged_delta [OF inv, of 192]
    by (auto simp: v check_def modify_input_def intro!: exI)
qed (simp add: settle_input_def input_status_def)

end
