(* ===== verification/ReplayKeeps.thy ===== *)
theory ReplayKeeps
  imports ReplayInv
begin

section \<open>Every record keeps the invariant\<close>

text \<open>
  One lemma per handler of \<open>Replay\<close>: applied to a state with the invariant and to a well-formed record, the handler does
  not panic, and a state that it returns has the invariant again.
\<close>

text \<open>The shared steps leave the turn, the queue, the jobs and the policy as they are, and lose no entry.\<close>

definition quiet :: "replay \<Rightarrow> replay \<Rightarrow> bool" where
  "quiet s s' \<longleftrightarrow> rp_operations s' = rp_operations s \<and> rp_active_operation s' = rp_active_operation s \<and>
    rp_inputs s' = rp_inputs s \<and> rp_jobs s' = rp_jobs s \<and> rp_policy s' = rp_policy s \<and>
    rp_owner_generation s' = rp_owner_generation s \<and> rp_piece_limit s' = rp_piece_limit s \<and>
    rp_installation_id s' = rp_installation_id s \<and>
    (\<forall>i. bt_get (de_generated (rp_delta s)) i \<noteq> None \<longrightarrow> bt_get (de_generated (rp_delta s')) i \<noteq> None) \<and>
    (\<forall>i. bt_get (de_entries (rp_delta s')) (Key TagInput i 0) = bt_get (de_entries (rp_delta s)) (Key TagInput i 0))"

lemma quiet_refl: "quiet s s"
  by (simp add: quiet_def)

lemma quiet_trans: "quiet s s' \<Longrightarrow> quiet s' s'' \<Longrightarrow> quiet s s''"
  by (simp add: quiet_def)

lemma fresh_keeps:
  assumes "replay_inv s"
  shows "safe (\<lambda>s'. replay_inv s' \<and> quiet s s' \<and> bt_get (de_generated (rp_delta s')) i = None) (fresh ix i s)"
  using fresh_safe [OF replay_inv_readable [OF assms]] by (rule safe_mono) (auto simp: quiet_def assms)

lemma replay_request_keeps:
  assumes "replay_inv s" "is_hash digest"
  shows "safe (\<lambda>s'. replay_inv s' \<and> quiet s s' \<and> i \<noteq> zero_id) (replay_request ix i digest result kind frame s)"
  using replay_request_safe [OF assms] by (rule safe_mono) (auto simp: quiet_def)

lemma emit_keeps:
  assumes "replay_inv s" "wf_entry e" "key_tag k \<noteq> TagInput"
  shows "safe (\<lambda>s'. replay_inv s' \<and> quiet s s') (emit k e s)"
proof (rule safe_mono)
  show "safe replay_inv (emit k e s)" by (rule safe_mono [OF emit_safe [OF assms]]) simp
  show "replay_inv s' \<and> quiet s s'" if "emit k e s = Inr s'" "replay_inv s'" for s'
    using that assms(3) by (auto simp: emit_def steps charge_def quiet_def)
qed

lemma generate_keeps:
  assumes "replay_inv s"
  shows "safe (\<lambda>s'. replay_inv s' \<and> quiet s s' \<and> bt_get (de_generated (rp_delta s')) i \<noteq> None \<and>
    (\<forall>j. bt_get (de_generated (rp_delta s)) j = None \<longrightarrow> j \<noteq> i \<longrightarrow> bt_get (de_generated (rp_delta s')) j = None))
    (generate i entity frame s)"
proof (rule safe_mono)
  show "safe replay_inv (generate i entity frame s)" by (rule safe_mono [OF generate_safe [OF assms]]) simp
qed (auto simp: generate_def steps charge_def quiet_def)

lemma load_project_keeps:
  assumes "replay_inv s"
  shows "safe (\<lambda>(known, s'). replay_inv s' \<and> quiet s s' \<and> (known \<longrightarrow> bt_get (rp_projects s') i \<noteq> None)) (load_project ix i s)"
  using load_project_safe [OF assms] by (rule safe_mono) (auto simp: quiet_def)

lemma load_conversation_keeps:
  assumes "replay_inv s" "is_id i"
  shows "safe (\<lambda>(known, s'). replay_inv s' \<and> quiet s s' \<and> (known \<longrightarrow> bt_get (rp_conversations s') i \<noteq> None))
    (load_conversation ix i s)"
  using load_conversation_safe [OF assms] by (rule safe_mono) (auto simp: quiet_def)

lemma unused_keeps: "replay_inv s \<Longrightarrow> safe (\<lambda>_. True) (unused ix k s)"
  by (rule unused_safe [OF replay_inv_readable])

lemma replay_get_keeps: "replay_inv s \<Longrightarrow> safe (\<lambda>_. True) (replay_get ix k s)"
  by (rule replay_get_safe [OF replay_inv_readable])

lemmas shared_steps = fresh_keeps [THEN safe_then] unused_keeps [THEN safe_then] replay_get_keeps [THEN safe_then]
  replay_request_keeps [THEN safe_then] emit_keeps [THEN safe_then] generate_keeps [THEN safe_then]
  load_project_keeps [THEN safe_then] load_conversation_keeps [THEN safe_then]

subsection \<open>Installation and projects\<close>

lemma apply_active_binding_keeps: "replay_inv s \<Longrightarrow> safe replay_inv (apply_active_binding ix p s)"
  unfolding apply_active_binding_def
  by (intro vcg shared_steps) (auto simp: replay_inv_def requests_inv_def)

lemma hold_input_keeps: "keeps_input a q (hold_input q)"
  by (auto simp: hold_input_def keeps_input_def input_open_def lane_open_def split: option.splits)

lemma owner_generation_inv:
  assumes "replay_inv s" "rp_owner_generation s \<le> g"
  shows "replay_inv (s\<lparr>rp_owner_generation := g\<rparr>)"
proof -
  have "operation_ok n g op" if "operation_ok n (rp_owner_generation s) op" for n op
    using that assms(2) by (auto simp: operation_ok_def)
  then show ?thesis using assms(1) unfolding replay_inv_def operations_inv_def by simp
qed

lemma next_u64_le: "u64_checked_add n 1 = Some m \<Longrightarrow> n \<le> m"
  using u64_checked_add_1 [of m n] by (simp add: word_le_nat_alt)

lemma apply_owner_generation_keeps:
  assumes "replay_inv s"
  shows "safe replay_inv (apply_owner_generation g s)"
proof -
  have "replay_inv (s\<lparr>rp_owner_generation := g, rp_inputs := bt_map hold_input (rp_inputs s)\<rparr>)"
    if "rp_owner_generation s \<le> g"
    unfolding bt_map_def
    using keeps_inputs_inv [OF owner_generation_inv [OF assms that], of "\<lambda>_. hold_input"] hold_input_keeps by simp
  then show ?thesis
    unfolding apply_owner_generation_def by (intro vcg) (auto dest: next_u64_le)
qed

lemma apply_project_registered_keeps:
  assumes "replay_inv s" "wf_project_registered p"
  shows "safe replay_inv (apply_project_registered sha uc ix p frame s)"
proof -
  have "replay_inv (s\<lparr>rp_projects := bt_insert i entry (rp_projects s)\<rparr>)" if "replay_inv s" for s i entry
    using that by (simp add: replay_inv_def)
  then show ?thesis
    unfolding apply_project_registered_def Let_def
    by (intro vcg shared_steps) (use assms in \<open>auto simp: wf_project_registered_def\<close>)
qed

lemma projects_irrelevant: "replay_inv s \<Longrightarrow> bt_ok m \<Longrightarrow> replay_inv (s\<lparr>rp_projects := m\<rparr>)"
  by (simp add: replay_inv_def)

lemma projects_ok: "replay_inv s \<Longrightarrow> bt_ok (rp_projects s)"
  by (simp add: replay_inv_def)

lemma apply_project_request_alias_keeps:
  assumes "replay_inv s" "wf_project_request_alias p"
  shows "safe replay_inv (apply_project_request_alias sha uc ix p frame s)"
  unfolding apply_project_request_alias_def Let_def
  by (intro vcg shared_steps) (use assms in \<open>auto simp: wf_project_request_alias_def\<close>)

lemma apply_project_renamed_keeps:
  assumes "replay_inv s" "wf_project_renamed p"
  shows "safe replay_inv (apply_project_renamed sha uc ix p frame s)"
  unfolding apply_project_renamed_def Let_def
  by (intro vcg shared_steps)
    (use assms in \<open>auto simp: wf_project_renamed_def projects_irrelevant projects_ok\<close>)

subsection \<open>Inputs\<close>

lemma create_conversation_keeps:
  assumes "replay_inv s" "is_id i" "is_id project"
  shows "safe (\<lambda>s'. replay_inv s' \<and> quiet s s' \<and> bt_get (rp_conversations s') i \<noteq> None) (create_conversation i project frame s)"
proof -
  have "replay_inv (s\<lparr>rp_conversations := bt_insert i c (rp_conversations s)\<rparr>)"
    if "replay_inv s" "cv_project c = project" for s c
    using that assms(2,3) by (auto simp: replay_inv_def conversations_inv_def active_resident_def)
  then show ?thesis
    unfolding create_conversation_def
    by (intro vcg shared_steps) (use assms in \<open>auto simp: quiet_def\<close>)
qed

lemma enqueue_lane_keeps:
  assumes "replay_inv s" "is_id (nq_conversation p)"
  shows "safe (\<lambda>s'. replay_inv s' \<and> quiet s s') (enqueue_lane ix p s)"
  unfolding enqueue_lane_def
  by (intro vcg shared_steps) (use assms in auto)

lemma ungenerated_entry:
  "replay_inv s \<Longrightarrow> bt_get (de_generated (rp_delta s)) i = None \<Longrightarrow> bt_get (de_entries (rp_delta s)) (Key TagInput i 0) = None"
  by (auto simp: replay_inv_def delta_inv_def)

lemma open_inputs_unresolved:
  assumes "replay_inv s"
  shows "open_inputs (rp_inputs s) = length (filter (\<lambda>(i, _). unresolved i s) (rp_inputs s))"
proof -
  have "bt_ok (rp_inputs s)" using assms by (simp add: replay_inv_def inputs_inv_def)
  then have "filter (\<lambda>(_, q). input_open q) (rp_inputs s) = filter (\<lambda>(i, _). unresolved i s) (rp_inputs s)"
    by (intro filter_cong) (auto simp: unresolved_iff dest!: bt_get_set [THEN iffD2])
  then show ?thesis by (simp add: open_inputs_def)
qed

lemma open_inputs_insert:
  "bt_get m i = None \<Longrightarrow> open_inputs (bt_insert i q m) \<le> Suc (open_inputs m)"
  by (induction i q m rule: bt_insert.induct) (auto simp: open_inputs_def split: if_splits)

text \<open>A generated ID that no input has and no entry was written for, with room for one more open input.\<close>

definition awaits_input :: "id16 \<Rightarrow> replay \<Rightarrow> bool" where
  "awaits_input i s \<longleftrightarrow> open_inputs (rp_inputs s) < MAX_INPUTS \<and> bt_get (rp_inputs s) i = None \<and>
    bt_get (de_entries (rp_delta s)) (Key TagInput i 0) = None \<and> bt_get (de_generated (rp_delta s)) i \<noteq> None"

lemma quiet_awaits: "quiet s s' \<Longrightarrow> awaits_input i s \<Longrightarrow> awaits_input i s'"
  by (simp add: quiet_def awaits_input_def)

lemma new_input_inv:
  assumes "replay_inv s" "awaits_input i s" "input_ok i q" "qi_settled q = None" "qi_dispatched q = None"
  shows "replay_inv (s\<lparr>rp_inputs := bt_insert i q (rp_inputs s)\<rparr>)"
proof -
  have "open_inputs (bt_insert i q (rp_inputs s)) \<le> MAX_INPUTS"
    using open_inputs_insert [of "rp_inputs s" i q] assms(2) by (simp add: awaits_input_def)
  moreover have "inputs_inv (bt_insert i q (rp_inputs s))"
    using assms by (auto simp: replay_inv_def inputs_inv_def settled_ok_def)
  moreover have "delta_inv (rp_delta s) (bt_insert i q (rp_inputs s)) (rp_active_operation s)"
    using assms by (auto simp: replay_inv_def delta_inv_def awaits_input_def)
  ultimately show ?thesis using assms(1) by (simp add: replay_inv_def)
qed

lemma enqueue_ids_keeps:
  assumes "replay_inv s" "open_inputs (rp_inputs s) < MAX_INPUTS" "bt_get (rp_inputs s) (nq_input p) = None"
  shows "safe (\<lambda>s'. replay_inv s' \<and> awaits_input (nq_input p) s') (enqueue_ids ix p frame s)"
  unfolding enqueue_ids_def
  by (intro vcg shared_steps generate_keeps [THEN safe_mono])
    (use assms in \<open>auto simp: quiet_def awaits_input_def dest: ungenerated_entry\<close>)

definition wf_enqueued :: "enqueued \<Rightarrow> bool" where
  "wf_enqueued p \<longleftrightarrow> is_hash (nq_digest p) \<and> is_id (nq_input p) \<and> is_id (nq_project p) \<and> is_id (nq_conversation p) \<and>
    (\<forall>dispatch. nq_dispatch_request p = Some dispatch \<longrightarrow> is_id dispatch) \<and>
    (nq_person p \<noteq> None \<longrightarrow> nq_dispatch_request p = None)"

lemma new_input_ok: "wf_enqueued p \<Longrightarrow> input_ok (nq_input p) (new_input p owner n frame)"
  by (auto simp: wf_enqueued_def input_ok_def new_input_def split: option.split)

lemma enqueue_entry_keeps:
  assumes "replay_inv s" "wf_enqueued p"
  shows "safe replay_inv (enqueue_entry ix p owner kind frame s)"
proof -
  have fields: "qi_settled (new_input p owner n frame) = None" "qi_dispatched (new_input p owner n frame) = None" for n
    by (simp_all add: new_input_def)
  have inv: "replay_inv (s\<lparr>rp_inputs := bt_insert (nq_input p) (new_input p owner n frame) (rp_inputs s)\<rparr>)"
    if "replay_inv s" "awaits_input (nq_input p) s" for s n
    using that by (rule new_input_inv) (simp_all add: fields new_input_ok assms(2))
  have create: "safe (\<lambda>s'. replay_inv s' \<and> awaits_input i s') (create_conversation (nq_conversation p) (nq_project p) frame s)"
    if "replay_inv s" "awaits_input i s" for s i
    using that assms(2)
    by (intro create_conversation_keeps [THEN safe_mono]) (auto simp: wf_enqueued_def intro: quiet_awaits)
  have request: "safe (\<lambda>s'. replay_inv s' \<and> awaits_input i s') (replay_request ix r (nq_digest p) result kind frame s)"
    if "replay_inv s" "awaits_input i s" for s i r result
    using that assms(2)
    by (intro replay_request_keeps [THEN safe_mono]) (auto simp: wf_enqueued_def intro: quiet_awaits)
  show ?thesis
    unfolding enqueue_entry_def Let_def
    by (intro vcg load_project_keeps [THEN safe_then] enqueue_lane_keeps [THEN safe_then]
        enqueue_ids_keeps [THEN safe_then] create [THEN safe_then] request [THEN safe_then])
      (use assms inv in \<open>auto simp: wf_enqueued_def open_inputs_unresolved intro!: record_activity_inv\<close>)
qed

lemma enqueue_keeps:
  assumes "replay_inv s" "wf_input_queued p"
  shows "safe replay_inv (enqueue sha uc ix p owner frame s)"
  unfolding enqueue_def Let_def
  by (intro vcg enqueue_entry_keeps) (use assms in \<open>auto simp: wf_input_queued_def wf_enqueued_def\<close>)

lemma enqueue_person_keeps:
  assumes "replay_inv s" "wf_person_command p"
  shows "safe replay_inv (enqueue_person sha ix p owner frame s)"
  unfolding enqueue_person_def
  by (intro vcg enqueue_entry_keeps) (use assms in \<open>auto simp: wf_person_command_def wf_enqueued_def\<close>)

lemma renumber_keeps: "replay_inv s \<Longrightarrow> safe replay_inv (renumber is n s)"
proof (induction "is" n s rule: renumber.induct)
  case (2 i "is" n s)
  have "replay_inv (modify_input i (\<lambda>q. q\<lparr>qi_order_position := n\<rparr>) s)"
    using 2(2) by (rule modify_input_inv) (auto simp: keeps_input_def input_open_def lane_open_def split: option.splits)
  then show ?case using 2(1) by (auto intro!: vcg)
qed simp

lemma reorder_input_keeps:
  assumes "replay_inv s" "wf_input_reordered p"
  shows "safe replay_inv (reorder_input sha uc ix p frame s)"
  unfolding reorder_input_def Let_def
  by (intro vcg shared_steps renumber_keeps [THEN safe_then]) (use assms in \<open>auto simp: wf_input_reordered_def\<close>)

lemma replay_inv_order: "replay_inv s \<Longrightarrow> replay_inv (s\<lparr>rp_order_revision := n\<rparr>)"
  by simp

lemma can_promote_kind:
  "can_promote_input i target g s \<Longrightarrow> bt_get (rp_inputs s) i = Some q \<Longrightarrow> qi_kind q = InputQueue"
  by (auto simp: can_promote_input_def)

lemma apply_input_promoted_keeps:
  assumes "replay_inv s" "wf_input_promoted p"
  shows "safe replay_inv (apply_input_promoted sha uc ix p g frame s)"
proof -
  let ?promote = "\<lambda>q. q\<lparr>qi_kind := InputSteer, qi_held := False, qi_target_operation := ip_target_operation p,
    qi_target_generation := ip_target_generation p, qi_resumed := False, qi_owner_generation := g, qi_promoted := Some frame\<rparr>"
  have "keeps_input a q (?promote q)" if "qi_kind q = InputQueue" for a q
    using that by (auto simp: keeps_input_def input_open_def lane_open_def split: option.splits)
  then have inv: "replay_inv (modify_input (ip_input p) ?promote s')"
    if "replay_inv s'" "quiet s s'" "can_promote_input (ip_input p) (ip_target_operation p) (ip_target_generation p) s" for s'
    using that by (intro modify_input_inv) (auto simp: quiet_def dest: can_promote_kind)
  show ?thesis
    unfolding apply_input_promoted_def Let_def
    by (intro vcg shared_steps record_activity_inv replay_inv_order inv) (use assms in \<open>simp_all add: wf_input_promoted_def\<close>)
qed

lemma policy_irrelevant: "replay_inv s \<Longrightarrow> policy_inv m \<Longrightarrow> replay_inv (s\<lparr>rp_policy := m\<rparr>)"
  by (simp add: replay_inv_def)

lemma decide_keeps: "status_of q s \<in> {StatusQueued, StatusHeld} \<Longrightarrow> keeps_input a q (decide_input action g q)"
  using lane_status_open [of q s]
  by (auto simp: decide_input_def keeps_input_def input_open_def status_of_def lane_open_def
      split: option.splits input_action.split if_splits)

lemma dropped_closed:
  assumes "status_of q s \<in> {StatusQueued, StatusHeld}" "input_ok i q"
  shows "\<not> input_open (decide_input Drop g q)"
proof -
  have "qi_dispatched q = None"
    using assms by (auto simp: status_of_def lane_status_def input_ok_def
        split: option.splits if_splits terminal_kind.splits)
  then show ?thesis
    using assms(1) by (auto simp: decide_input_def input_open_def status_of_def lane_open_def split: option.splits if_splits)
qed

lemma person_settled_inv:
  "replay_inv s \<Longrightarrow> replay_inv (if b then s\<lparr>rp_policy := replay_person_settled i (rp_policy s)\<rparr> else s)"
  using policy_step_inv [of "rp_policy s" "PersonSettled i"] by (simp add: replay_inv_def)

lemma apply_input_decision_keeps:
  assumes "replay_inv s" "wf_input_decision p"
  shows "safe replay_inv (apply_input_decision sha uc ix p g frame s)"
proof -
  let ?decide = "modify_input (ides_input p) (decide_input (ides_action p) g)"
  let ?allowed = "\<lambda>status. if ides_action p = Hold then status = StatusQueued else status = StatusHeld"
  have inv: "replay_inv (?decide s')"
    if "replay_inv s'" "quiet s s'" "input_status (ides_input p) s = Some status" "?allowed status" for s' status
    using that
    by (intro modify_input_inv decide_keeps [of _ s]) (auto simp: quiet_def input_status_def split: if_splits)
  have closed: "\<not> input_open q"
    if "quiet s s'" "input_status (ides_input p) s = Some StatusHeld"
      "bt_get (rp_inputs (modify_input (ides_input p) (decide_input Drop g) s')) (ides_input p) = Some q" for s' q
    using that input_ok_of [OF assms(1)] dropped_closed [of _ s "ides_input p" g]
    by (auto simp: quiet_def input_status_def modify_input_def)
  show ?thesis
    unfolding apply_input_decision_def Let_def
    by (intro vcg shared_steps record_activity_inv settle_input_safe [THEN safe_then] replay_inv_order person_settled_inv inv)
      (use assms in \<open>simp_all add: wf_input_decision_def\<close>, meson closed)
qed

end
