(* ===== verification/TurnKeeps.thy ===== *)
theory TurnKeeps
  imports ReplayKeeps
begin

section \<open>The records of a turn keep the invariant\<close>

text \<open>
  The handlers of \<open>ReplayTurns\<close> for a turn, from its acceptance to its end: none panics on a state with the invariant, and
  each keeps it.
\<close>

subsection \<open>Updates of the active operation\<close>

lemma apply_start_authorized_keeps: "replay_inv s \<Longrightarrow> safe replay_inv (apply_start_authorized p frame s)"
  unfolding apply_start_authorized_def Let_def
  by (intro vcg active_activity_inv put_operation_inv)
    (auto dest: operation_ok_of operation_mutD(4) simp: operation_ok_def)

lemma apply_request_started_keeps: "replay_inv s \<Longrightarrow> safe replay_inv (apply_request_started p frame s)"
  unfolding apply_request_started_def Let_def
  by (intro vcg active_activity_inv put_operation_inv)
    (auto dest: operation_ok_of operation_mutD(4) simp: operation_ok_def)

lemma apply_cancel_requested_keeps: "replay_inv s \<Longrightarrow> safe replay_inv (apply_cancel_requested p frame s)"
  unfolding apply_cancel_requested_def Let_def
  by (intro vcg active_activity_inv put_operation_inv)
    (auto dest: operation_ok_of operation_mutD(4) simp: operation_ok_def)

lemma extend_response_bound: "safe (\<lambda>r. length (resp_pieces r) \<le> n) (extend_response n p frame r)"
  unfolding extend_response_def by (intro vcg) simp

lemma apply_response_text_keeps: "replay_inv s \<Longrightarrow> safe replay_inv (apply_response_text p frame s)"
  unfolding apply_response_text_def
  by (intro vcg active_activity_inv put_operation_inv extend_response_bound [THEN safe_then])
    (auto dest: operation_ok_of operation_mutD(4) simp: operation_ok_def)

lemma apply_thinking_text_keeps: "replay_inv s \<Longrightarrow> safe replay_inv (apply_thinking_text p frame s)"
  unfolding apply_thinking_text_def
  by (intro vcg active_activity_inv put_operation_inv extend_response_bound [THEN safe_then])
    (auto dest: operation_ok_of operation_mutD(4) simp: operation_ok_def)

subsection \<open>Acceptance\<close>

lemma prior_turns_safe: "replay_inv s \<Longrightarrow> safe (\<lambda>_. True) (prior_turns ix c is prior g s)"
proof (induction "is" arbitrary: prior g)
  case (Cons i "is")
  then show ?case
    using operation_facts_in_safe [OF replay_inv_readable [OF Cons.prems], of ix i]
    by (auto intro!: vcg elim!: safe_then)
qed simp

lemma dispatched_inputD:
  assumes "replay_inv s" "dispatched_input p s = Some i"
  obtains q where "bt_get (rp_inputs s) i = Some q" "qi_request q = i" "qi_dispatch_request q = ta_request p" "qi_dispatched q = None"
proof -
  from assms(2) obtain q where q: "q \<in> set (input_values s)" "qi_request q = i" "qi_dispatch_request q = ta_request p"
      "qi_dispatched q = None"
    by (auto simp: dispatched_input_def find_Some_iff in_set_conv_nth)
  then obtain j where "(j, q) \<in> set (rp_inputs s)" by (auto simp: input_values_def)
  moreover have "inputs_inv (rp_inputs s)" using assms(1) by (simp add: replay_inv_def)
  ultimately have "bt_get (rp_inputs s) j = Some q" "j = i"
    using q(2) by (auto simp: inputs_inv_def bt_get_set input_ok_def)
  then show thesis using that q by simp
qed

lemma accept_conversation_keeps:
  assumes "replay_inv s" "\<And>i. dispatched = Some i \<Longrightarrow> bt_get (rp_inputs s) i \<noteq> None" "wf_turn_accepted p"
  shows "safe (\<lambda>(_, s'). replay_inv s' \<and> quiet s s') (accept_conversation ix p dispatched s)"
proof -
  have "bt_get (rp_inputs s') i \<noteq> None" if "dispatched = Some i" "quiet s s'" for i s'
    using that assms(2) by (simp add: quiet_def)
  then show ?thesis
    unfolding accept_conversation_def
    by (intro vcg shared_steps) (use assms(1,3) in \<open>simp_all add: wf_turn_accepted_def wf_optional_def\<close>)
qed

text \<open>A pair inside a pair, as \<open>accept_conversation\<close> returns it.\<close>

lemma safe_nested [vcg]: "(\<And>a b. x = (a, b) \<Longrightarrow> safe P (f a b y)) \<Longrightarrow> safe P ((case x of (a, b) \<Rightarrow> f a b) y)"
  by (cases x) simp

lemma accept_checks_keeps:
  assumes "replay_inv s" "\<And>i. dispatched = Some i \<Longrightarrow> bt_get (rp_inputs s) i \<noteq> None" "wf_turn_accepted p"
  shows "safe (\<lambda>s'. replay_inv s' \<and> quiet s s' \<and> bt_get (de_generated (rp_delta s')) (ta_operation p) = None)
    (accept_checks sha uc ix p dispatched frame s)"
  unfolding accept_checks_def Let_def
  by (intro vcg accept_conversation_keeps [THEN safe_then] prior_turns_safe [THEN safe_then] fresh_keeps [THEN safe_then]
      fresh_keeps [THEN safe_mono])
    (use assms in \<open>auto intro: quiet_trans\<close>)

lemma accept_checks_ready:
  "accept_checks sha uc ix p (Some i) frame s = Inr s' \<Longrightarrow> bt_get (rp_inputs s) i = Some q \<Longrightarrow> qi_request q = i \<Longrightarrow>
    input_ready i s"
  unfolding accept_checks_def by (simp add: steps)

definition undispatched :: "id16 \<Rightarrow> (id16, queued_input) btree \<Rightarrow> bool" where
  "undispatched operation inputs \<longleftrightarrow> (\<forall>i q g. bt_get inputs i = Some q \<longrightarrow> qi_dispatched q \<noteq> Some (operation, g))"

lemma ungenerated_undispatched:
  "replay_inv s \<Longrightarrow> bt_get (de_generated (rp_delta s)) i = None \<Longrightarrow> undispatched i (rp_inputs s)"
  unfolding replay_inv_def delta_inv_def undispatched_def by blast

lemma new_operation_inv:
  assumes "replay_inv s" "rp_active_operation s = None" "undispatched i (rp_inputs s)" "well_typed_operation i op"
    "op_tools op = []" "op_response op = response_default" "op_thinking op = response_default" "op_terminal op = None"
    "bt_get (rp_conversations s) (op_conversation op) \<noteq> None" "op_owner_generation op = rp_owner_generation s"
  shows "replay_inv (s\<lparr>rp_operations := bt_insert i op (rp_operations s), rp_active_operation := Some i\<rparr>)"
proof -
  have "operations_inv (bt_insert i op (rp_operations s)) (Some i) (rp_piece_limit s) (rp_owner_generation s)"
    using assms by (auto simp: replay_inv_def operations_inv_def operation_ok_def response_default_def)
  moreover have "active_resident (bt_insert i op (rp_operations s)) (Some i) (rp_conversations s)"
    using assms(9) by (simp add: active_resident_def)
  moreover have "delta_inv (rp_delta s) (rp_inputs s) (Some i)"
    using assms(1,3) unfolding replay_inv_def delta_inv_def undispatched_def by blast
  ultimately show ?thesis using assms(1) by (simp add: replay_inv_def)
qed

lemma conversations_modify_inv:
  assumes "replay_inv s" "\<And>c. cv_project (f c) = cv_project c"
  shows "replay_inv (s\<lparr>rp_conversations := bt_modify i f (rp_conversations s)\<rparr>)"
  using assms by (simp add: replay_inv_def conversations_inv_modify active_resident_modify)

lemma projects_modify_inv: "replay_inv s \<Longrightarrow> replay_inv (s\<lparr>rp_projects := bt_modify i f (rp_projects s)\<rparr>)"
  by (rule projects_irrelevant) (simp_all add: projects_ok)

lemma emit_resident:
  assumes "replay_inv s" "wf_entry e" "key_tag k \<noteq> TagInput"
  shows "safe (\<lambda>s'. replay_inv s' \<and> quiet s s' \<and> rp_conversations s' = rp_conversations s) (emit k e s)"
  using emit_keeps [OF assms] by (rule safe_mono) (auto simp: emit_def steps charge_def)

lemma accept_start_keeps:
  assumes "replay_inv s" "rp_active_operation s = None" "undispatched (ta_operation p) (rp_inputs s)" "wf_turn_accepted p"
    "owner = rp_owner_generation s"
  shows "safe (\<lambda>s'. replay_inv s' \<and> rp_inputs s' = rp_inputs s \<and>
    (bt_get (de_generated (rp_delta s)) (ta_operation p) \<noteq> None \<longrightarrow> bt_get (de_generated (rp_delta s')) (ta_operation p) \<noteq> None))
    (accept_start p owner frame s)"
proof -
  note wf = assms(4) [unfolded wf_turn_accepted_def]
  let ?op = "new_operation p owner frame"
  have op: "well_typed_operation (ta_operation p) ?op" "op_tools ?op = []" "op_response ?op = response_default"
      "op_thinking ?op = response_default" "op_terminal ?op = None" "op_conversation ?op = ta_conversation p"
      "op_owner_generation ?op = rp_owner_generation s"
    using wf assms(5) by (simp_all add: new_operation_def well_typed_operation_def)
  have start: "replay_inv (s'\<lparr>rp_projects := bt_modify project f (rp_projects s'),
      rp_operations := bt_insert (ta_operation p) ?op (rp_operations s), rp_active_operation := Some (ta_operation p)\<rparr>)"
    if "replay_inv s'" "rp_active_operation s' = None" "rp_inputs s' = rp_inputs s" "rp_operations s' = rp_operations s"
      "bt_get (rp_conversations s') (ta_conversation p) \<noteq> None" "rp_owner_generation s' = rp_owner_generation s" for s' f project
    using new_operation_inv [of "s'\<lparr>rp_projects := bt_modify project f (rp_projects s')\<rparr>" "ta_operation p" ?op]
      projects_modify_inv [OF that(1)] that assms(3) op
    by simp
  show ?thesis
    unfolding accept_start_def Let_def
    by (intro vcg create_conversation_keeps [THEN safe_then] emit_resident [THEN safe_then] conversations_modify_inv)
      (use assms(1,2) wf in \<open>auto simp: quiet_def intro!: start\<close>)
qed

text \<open>The input that a turn dispatches: a waiting message whose dispatch request is the request of the turn.\<close>

definition chosen :: "turn_accepted \<Rightarrow> (id16, queued_input) btree \<Rightarrow> id16 \<Rightarrow> bool" where
  "chosen p inputs i \<longleftrightarrow> (\<exists>q. bt_get inputs i = Some q \<and> qi_dispatch_request q = ta_request p \<and> qi_dispatched q = None \<and> input_open q)"

lemma accept_checks_chosen:
  assumes "replay_inv s" "dispatched_input p s = Some i" "accept_checks sha uc ix p (dispatched_input p s) frame s = Inr s'"
  shows "chosen p (rp_inputs s) i"
proof -
  obtain q where q: "bt_get (rp_inputs s) i = Some q" "qi_request q = i" "qi_dispatch_request q = ta_request p" "qi_dispatched q = None"
    using dispatched_inputD [OF assms(1,2)] .
  have "input_ready i s" using accept_checks_ready [of sha uc ix p i frame s s'] assms(2,3) q(1,2) by simp
  then have "input_status i s = Some StatusQueued" by (auto simp: input_ready_def lane_ready_def split: option.splits if_splits)
  then have "input_open q" using q(1) status_open [of q s] by (simp add: input_status_def)
  then show ?thesis using q by (auto simp: chosen_def)
qed

lemma dispatch_inv:
  assumes "replay_inv s" "chosen p (rp_inputs s) i" "ta_request p \<noteq> zero_id" "is_id (ta_operation p)"
    "bt_get (de_generated (rp_delta s)) (ta_operation p) \<noteq> None"
  shows "replay_inv (modify_input i (\<lambda>q. q\<lparr>qi_dispatched := Some (ta_operation p, g)\<rparr>) s)"
proof -
  let ?f = "\<lambda>q. q\<lparr>qi_dispatched := Some (ta_operation p, g)\<rparr>"
  let ?m = "bt_modify i ?f (rp_inputs s)"
  from assms(2) obtain q where q: "bt_get (rp_inputs s) i = Some q" "qi_dispatch_request q = ta_request p" "qi_dispatched q = None" "input_open q"
    by (auto simp: chosen_def)
  then have ok: "input_ok i q" "settled_ok q" using input_ok_of [OF assms(1)] by auto
  then have person: "qi_person q = None" "qi_dispatched_terminal q = None" using q assms(3) by (auto simp: input_ok_def)
  then have opened: "input_open (?f q)" by (simp add: input_open_def lane_open_def)
  have bt: "bt_ok (rp_inputs s)" using assms(1) by (simp add: replay_inv_def inputs_inv_def)
  have same: "r = q" if "(i, r) \<in> set (rp_inputs s)" for r
    using that bt_get_set [OF bt, of i r] q(1) by simp
  have "open_inputs ?m \<le> open_inputs (rp_inputs s)"
    unfolding bt_modify_def by (rule open_inputs_modify) (use q(4) same in \<open>auto split: if_splits\<close>)
  moreover have "inputs_inv ?m"
    using assms(1) ok q person opened assms(4)
    by (auto simp: replay_inv_def inputs_inv_def input_ok_def settled_ok_def)
  moreover have "delta_inv (rp_delta s) ?m (rp_active_operation s)"
    using assms(1,5) person(2) q(1) unfolding replay_inv_def delta_inv_def by (auto split: if_splits)
  ultimately show ?thesis using assms(1) by (simp add: replay_inv_def modify_input_def)
qed

lemma accept_keeps:
  assumes "replay_inv s" "wf_turn_accepted p" "owner = rp_owner_generation s"
  shows "safe replay_inv (accept sha uc ix p owner frame s)"
proof -
  note wf = assms(2) [unfolded wf_turn_accepted_def]
  have present: "bt_get (rp_inputs s') i \<noteq> None" if "replay_inv s'" "dispatched_input p s' = Some i" for s' i
    using dispatched_inputD [OF that] by auto
  have fresh: "undispatched (ta_operation p) (rp_inputs s')"
    if "replay_inv s1" "bt_get (de_generated (rp_delta s1)) (ta_operation p) = None" "rp_inputs s' = rp_inputs s1" for s1 s'
    using ungenerated_undispatched [OF that(1,2)] that(3) by simp
  have dispatch: "replay_inv (modify_input i (\<lambda>q. q\<lparr>qi_dispatched := Some (ta_operation p, ta_generation p)\<rparr>) s')"
    if "replay_inv s'" "replay_inv s1" "dispatched_input p s1 = Some i"
      "accept_checks sha uc ix p (Some i) frame s1 = Inr s2" "rp_inputs s' = rp_inputs s1"
      "ta_request p \<noteq> zero_id" "bt_get (de_generated (rp_delta s')) (ta_operation p) \<noteq> None" for s' s1 s2 i
    using accept_checks_chosen [of s1 p i sha uc ix frame s2] that wf by (intro dispatch_inv) simp_all
  show ?thesis
    unfolding accept_def Let_def
    apply (intro vcg load_project_keeps [THEN safe_then] accept_checks_keeps [THEN safe_bind] replay_request_keeps [THEN safe_then]
        generate_keeps [THEN safe_then] accept_start_keeps [THEN safe_then] record_activity_inv replay_inv_order)
    apply (use assms present wf in \<open>simp_all\<close>)
    subgoal by (simp add: quiet_def)
    subgoal by (elim conjE, erule (1) fresh, simp add: quiet_def)
    subgoal by (simp add: quiet_def)
    subgoal by (elim conjE, rule dispatch, assumption+, simp_all add: quiet_def)
    done
qed

subsection \<open>The policy state\<close>

lemma policy_steps:
  "replay_revision p = policy_step (RevisionRecord p)" "replay_decision d = policy_step (DecisionRecord d)"
  "replay_person_job i = policy_step (PersonJob i)" "replay_tool_call c = policy_step (CallRecord c)"
  "replay_terminal i g b = policy_step (TerminalRecord i g b)"
  by (simp_all add: fun_eq_iff)

lemma policy_effect_keeps:
  "replay_inv s \<Longrightarrow> safe (\<lambda>s'. replay_inv s' \<and> rp_inputs s' = rp_inputs s \<and> rp_jobs s' = rp_jobs s \<and>
    rp_operations s' = rp_operations s \<and> rp_active_operation s' = rp_active_operation s) (policy_effect (policy_step e) s)"
  by (rule policy_effect_safe [THEN safe_mono]) auto

lemmas policy_keeps = policy_effect_keeps [of _ "RevisionRecord p" for p, folded policy_steps]
  policy_effect_keeps [of _ "DecisionRecord p" for p, folded policy_steps]
  policy_effect_keeps [of _ "PersonJob p" for p, folded policy_steps]
  policy_effect_keeps [of _ "CallRecord p" for p, folded policy_steps]
  policy_effect_keeps [of _ "TerminalRecord i g b" for i g b, folded policy_steps]

subsection \<open>The end of a turn\<close>

lemma terminal_response_bound:
  "safe (\<lambda>r. length (resp_pieces r) \<le> rp_piece_limit s) (terminal_response p op frame s)"
  unfolding terminal_response_def by (intro vcg) simp

lemma end_operation_inv:
  assumes "replay_inv s" "operation_mut (tt_operation p) g s = Inr op" "length (resp_pieces r) \<le> rp_piece_limit s"
  shows "replay_inv (end_operation p (op\<lparr>op_response := r\<rparr>) completed frame s)"
proof -
  have "operation_ok (rp_piece_limit s) (rp_owner_generation s) (op\<lparr>op_response := r, op_terminal := t\<rparr>)" for t
    using operation_ok_of [OF assms(1,2)] assms(3) by (simp add: operation_ok_def)
  moreover have "delta_inv (rp_delta s) (rp_inputs s) None"
    using assms(1) unfolding replay_inv_def delta_inv_def by blast
  ultimately show ?thesis
    using assms(1) operation_mutD [OF assms(2)]
    by (auto simp: end_operation_def Let_def put_operation_def charge_def replay_inv_def operations_inv_def
        active_resident_def well_typed_operation_def split: if_splits)
qed

lemma terminal_input_keeps: "input_ok i q \<Longrightarrow> keeps_input None q (terminal_input p q)"
  by (auto simp: terminal_input_def keeps_input_def input_ok_def input_open_def lane_open_def Let_def
      split: option.splits if_splits)

lemma terminal_input_closed:
  "input_ok i q \<Longrightarrow> qi_dispatched q = Some (tt_operation p, g) \<Longrightarrow> \<not> input_open (terminal_input p q)"
  by (auto simp: terminal_input_def input_ok_def input_open_def lane_open_def Let_def)

lemma settle_inputs_keeps:
  assumes "replay_inv s" "\<And>i q. i \<in> set is \<Longrightarrow> bt_get (rp_inputs s) i = Some q \<Longrightarrow> \<not> input_open q"
  shows "safe replay_inv (settle_inputs is sequence s)"
  using assms
proof (induction "is" arbitrary: s)
  case (Cons i "is")
  have same: "input_open (q\<lparr>qi_settled := x\<rparr>) = input_open q" for q x
    by (simp add: input_open_def lane_open_def split: option.split)
  have "safe (\<lambda>s'. replay_inv s' \<and> (\<forall>j q. j \<in> set is \<longrightarrow> bt_get (rp_inputs s') j = Some q \<longrightarrow> \<not> input_open q))
    (settle_input i sequence s)"
  proof (rule settle_input_safe [THEN safe_mono])
    show "\<not> input_open q" if "bt_get (rp_inputs s) i = Some q" for q using Cons.prems(2) [of i q] that by simp
    have "\<not> input_open q" if "j \<in> set is" "bt_get (rp_inputs s) j = Some q" for j q using Cons.prems(2) [of j q] that by simp
    then show "replay_inv s' \<and> (\<forall>j q. j \<in> set is \<longrightarrow> bt_get (rp_inputs s') j = Some q \<longrightarrow> \<not> input_open q)"
      if "replay_inv s' \<and> (\<exists>d c. s' = s\<lparr>rp_inputs := bt_modify i (\<lambda>q. q\<lparr>qi_settled := Some sequence\<rparr>) (rp_inputs s),
        rp_delta := d, rp_delta_charge := c\<rparr> \<and> de_generated d = de_generated (rp_delta s))" for s'
      using that by (auto simp: same split: if_splits)
  qed (rule Cons.prems(1))
  then show ?case using Cons.IH by (auto elim!: safe_then)
qed simp

lemma apply_terminal_keeps:
  assumes "replay_inv s"
  shows "safe replay_inv (apply_terminal p frame s)"
proof -
  let ?close = "\<lambda>s. s\<lparr>rp_inputs := bt_map (terminal_input p) (rp_inputs s)\<rparr>"
  have closed: "replay_inv (?close s')" if "replay_inv s'" "rp_active_operation s' = None" for s'
    unfolding bt_map_def
    by (rule keeps_inputs_inv [OF that(1)]) (simp add: that(2) terminal_input_keeps [OF conjunct1 [OF input_ok_of [OF that(1)]]])
  have settled: "\<not> input_open q"
    if "replay_inv s'" "i \<in> set (dispatched_to (tt_operation p) s')" "bt_get (rp_inputs (?close s')) i = Some q" for s' i q
  proof -
    have inv: "inputs_inv (rp_inputs s')" using that(1) by (simp add: replay_inv_def)
    from that(2) obtain j q' g where q': "(j, q') \<in> set (rp_inputs s')" "qi_request q' = i" "qi_dispatched q' = Some (tt_operation p, g)"
      by (auto simp: dispatched_to_def input_values_def split: option.splits)
    have get: "bt_get (rp_inputs s') j = Some q'" using inv q'(1) by (simp add: inputs_inv_def bt_get_set)
    moreover have "input_ok j q'" using input_ok_of [OF that(1) get] ..
    moreover have "j = i" using calculation(2) q'(2) by (simp add: input_ok_def)
    ultimately show ?thesis using that(3) terminal_input_closed [of i q' p g] q'(3) by (auto simp: bt_get_map)
  qed
  have ended: "replay_inv (end_operation p (op\<lparr>op_response := r\<rparr>) completed frame
      (s'\<lparr>rp_conversations := bt_modify i (\<lambda>c. latest_ended op_id kind (c\<lparr>cv_completed := n\<rparr>)) (rp_conversations s')\<rparr>))"
    if "replay_inv s'" "operation_mut (tt_operation p) g s' = Inr op" "length (resp_pieces r) \<le> rp_piece_limit s'"
    for s' g op r completed i op_id kind n
    using that
    by (intro end_operation_inv [where g = g] conversations_modify_inv)
      (simp_all add: latest_ended_def operation_mut_def split: option.split)
  have none: "rp_active_operation (end_operation p op completed frame s'\<lparr>rp_projects := m\<rparr>) = None" for op completed s' m
    by (simp add: end_operation_def Let_def)
  show ?thesis
    unfolding apply_terminal_def Let_def
    apply (intro vcg policy_keeps [THEN safe_then] terminal_response_bound [THEN safe_then] settle_inputs_keeps [THEN safe_then]
        record_activity_inv closed projects_modify_inv ended none)
    apply (simp_all only: assms)
    apply (erule settled [rotated 2], intro projects_modify_inv ended, (assumption | erule conjunct1)+)+
    done
qed

end
