(* ===== verification/JobKeeps.thy ===== *)
theory JobKeeps
  imports TurnKeeps
begin

section \<open>The records of jobs and calls keep the invariant\<close>

text \<open>
  The handlers of \<open>ReplayJobs\<close>, \<open>ReplayTools\<close> and \<open>ReplayPaths\<close>: none panics on a state with the invariant, and each keeps
  it. Where an ID or a path key is derived, the hash is assumed to have 32 bytes.
\<close>

definition sha_sized :: "(bytes \<Rightarrow> bytes) \<Rightarrow> bool" where
  "sha_sized sha \<longleftrightarrow> (\<forall>m. length (sha m) = 32)"

lemma safe_bind_prod [vcg]:
  "(\<And>a b. x = (a, b) \<Longrightarrow> safe P (result_bind (g a b) f)) \<Longrightarrow> safe P (result_bind (case x of (a, b) \<Rightarrow> g a b) f)"
  by (cases x) simp

lemma safe_job_state [vcg]:
  "(\<And>j. x = Unsettled j \<Longrightarrow> safe P (f j)) \<Longrightarrow> (\<And>j. x = Settled j \<Longrightarrow> safe P (g j)) \<Longrightarrow>
    safe P (case x of Unsettled j \<Rightarrow> f j | Settled j \<Rightarrow> g j)"
  by (cases x) simp_all

lemma safe_origin [vcg]:
  "(\<And>a b c. x = OriginModel a b c \<Longrightarrow> safe P (f a b c)) \<Longrightarrow> (\<And>i. x = OriginPerson i \<Longrightarrow> safe P (g i)) \<Longrightarrow>
    safe P (case x of OriginModel a b c \<Rightarrow> f a b c | OriginPerson i \<Rightarrow> g i)"
  by (cases x) simp_all

lemma safe_author [vcg]:
  "(\<And>i. x = AuthorPerson i \<Longrightarrow> safe P (g i)) \<Longrightarrow> (\<And>a b c. x = AuthorModel a b c \<Longrightarrow> safe P (f a b c)) \<Longrightarrow>
    safe P (case x of AuthorPerson i \<Rightarrow> g i | AuthorModel a b c \<Rightarrow> f a b c)"
  by (cases x) simp_all

subsection \<open>What the journal knows of a job\<close>

definition job_state_typed :: "job_state option \<Rightarrow> bool" where
  "job_state_typed x \<longleftrightarrow> (case x of None \<Rightarrow> True
    | Some (Unsettled j) \<Rightarrow> is_id (uj_conversation j) \<and> is_id (uj_project j)
    | Some (Settled j) \<Rightarrow> is_id (sj_conversation j))"

lemma job_state_of_safe:
  assumes "replay_inv s"
  shows "safe job_state_typed (job_state_of ix job s)"
proof (cases "bt_get (rp_jobs s) job")
  case (Some j)
  then show ?thesis using assms by (auto simp: job_state_of_def job_state_typed_def replay_inv_def jobs_inv_def)
next
  case None
  show ?thesis
    unfolding job_state_of_def None
    by (simp, intro replay_entry_safe [THEN safe_then] replay_inv_readable assms)
      (auto simp: job_state_typed_def split: option.split entry.split)
qed

lemma conversation_job_safe: "replay_inv s \<Longrightarrow> safe (\<lambda>_. True) (conversation_job ix job c s)"
  unfolding conversation_job_def by (intro vcg job_state_of_safe [THEN safe_then] TrueI)

lemma find_conversation_keeps:
  "replay_inv s \<Longrightarrow> safe (\<lambda>x. \<forall>c. x = Some c \<longrightarrow> is_id (cv_project c)) (find_conversation ix i s)"
  by (intro find_conversation_safe replay_inv_readable) (simp_all add: replay_inv_def)

subsection \<open>Intents\<close>

lemma derive_owner_safe:
  assumes "replay_inv s"
  shows "safe (\<lambda>(c, p). is_id c \<and> is_id p) (derive_owner ix origin s)"
proof -
  have op: "is_id (op_conversation op)" if "bt_get (rp_operations s) i = Some op" for i op
    using assms that by (auto simp: replay_inv_def operations_inv_def well_typed_operation_def)
  have input: "is_id (qi_conversation q) \<and> is_id (qi_project q)" if "bt_get (rp_inputs s) i = Some q" for i q
    using input_ok_of [OF assms that] by (simp add: input_ok_def)
  show ?thesis
    unfolding derive_owner_def
    by (intro vcg find_conversation_keeps [THEN safe_then] operation_facts_in_safe [THEN safe_then] replay_inv_readable)
      (use assms op input in auto)
qed

definition job_typed :: "unsettled_job \<Rightarrow> bool" where
  "job_typed job \<longleftrightarrow> is_id (uj_job job) \<and> is_id (uj_conversation job) \<and> is_id (uj_project job)"

lemma derive_job_safe:
  assumes "replay_inv s" "sha_sized sha"
  shows "safe job_typed (derive_job sha ix p owner frame s)"
proof -
  have "is_id (job_id sha origin)" for origin
    using id_from_digest [of "sha (job_id_text origin)"] assms(2) by (simp add: job_id_def sha_sized_def)
  then show ?thesis
    unfolding derive_job_def Let_def
    by (intro vcg derive_owner_safe [THEN safe_then]) (use assms(1) in \<open>auto simp: job_typed_def\<close>)
qed

lemma admit_job_safe:
  assumes "replay_inv s"
  shows "safe (\<lambda>_. bt_get (rp_jobs s) (uj_job job) = None \<and> length (rp_jobs s) < MAX_UNSETTLED_JOBS) (admit_job ix job s)"
  unfolding admit_job_def by (intro vcg unused_keeps [THEN safe_then]) (use assms in auto)

lemma jobs_irrelevant: "replay_inv s \<Longrightarrow> jobs_inv m \<Longrightarrow> replay_inv (s\<lparr>rp_jobs := m\<rparr>)"
  by (simp add: replay_inv_def)

lemma jobs_inv_of: "replay_inv s \<Longrightarrow> jobs_inv (rp_jobs s)"
  by (simp add: replay_inv_def)

lemma jobs_inv_insert:
  "jobs_inv m \<Longrightarrow> job_typed job \<Longrightarrow> bt_get m (uj_job job) = None \<Longrightarrow> length m < MAX_UNSETTLED_JOBS \<Longrightarrow>
    jobs_inv (bt_insert (uj_job job) job m)"
  by (auto simp: jobs_inv_def job_typed_def length_bt_insert)

lemma last_tool_eq: "last_tool op = Inr tool \<longleftrightarrow> op_tools op \<noteq> [] \<and> tool = last (op_tools op)"
  by (auto simp: last_tool_def)

lemma safe_last_tool [vcg]:
  "(\<And>tool. op_tools op \<noteq> [] \<Longrightarrow> tool = last (op_tools op) \<Longrightarrow> safe P (f tool)) \<Longrightarrow> safe P (result_bind (last_tool op) f)"
  by (simp add: last_tool_def)

lemma replace_last_inv:
  assumes "replay_inv s" "operation_mut i g s = Inr op"
  shows "replay_inv (put_operation i (replace_last tool op) s)"
  by (rule put_operation_inv [OF assms])
    (use operation_ok_of [OF assms] operation_mutD [OF assms(2)] in \<open>simp_all add: replace_last_def operation_ok_def\<close>)

lemma model_job_intent_keeps:
  assumes "replay_inv s" "sha_sized sha"
  shows "safe replay_inv (model_job_intent sha ix p operation g ordinal owner frame s)"
proof -
  have "rp_jobs (put_operation i op s) = rp_jobs s" for i op by (simp add: put_operation_def)
  then show ?thesis
    unfolding model_job_intent_def Let_def
    by (intro vcg derive_job_safe [THEN safe_then] admit_job_safe [THEN safe_then] active_activity_inv jobs_irrelevant
        replace_last_inv jobs_inv_insert)
      (use assms in \<open>simp_all add: jobs_inv_of\<close>)
qed

lemma ready_open: "input_ready i s \<Longrightarrow> bt_get (rp_inputs s) i = Some q \<Longrightarrow> input_open q"
  using status_open [of q s] by (auto simp: input_ready_def lane_ready_def input_status_def split: if_splits)

lemma person_started_keeps: "input_open q \<Longrightarrow> keeps_input a q (person_started frame q)"
  by (auto simp: person_started_def keeps_input_def)

lemma person_job_intent_keeps:
  assumes "replay_inv s" "sha_sized sha"
  shows "safe replay_inv (person_job_intent sha ix p input owner frame s)"
proof -
  have started: "replay_inv (modify_input input (person_started frame) s')"
    if "replay_inv s'" "rp_inputs s' = rp_inputs s" "input_ready input s" for s'
    using that ready_open [OF that(3)] by (intro modify_input_inv person_started_keeps) auto
  have input: "is_id input" if "bt_get (rp_inputs s) input = Some q" for q
    using input_ok_of [OF assms(1) that] by (simp add: input_ok_def)
  show ?thesis
    unfolding person_job_intent_def Let_def
    by (intro vcg policy_keeps [THEN safe_then] derive_job_safe [THEN safe_then] admit_job_safe [THEN safe_then]
        emit_keeps [THEN safe_then] record_activity_inv replay_inv_order started jobs_irrelevant jobs_inv_insert)
      (use assms input in \<open>simp_all add: jobs_inv_of job_typed_def\<close>)
qed

lemma apply_job_intent_keeps:
  "replay_inv s \<Longrightarrow> sha_sized sha \<Longrightarrow> safe replay_inv (apply_job_intent sha ix p owner frame s)"
  unfolding apply_job_intent_def by (intro vcg model_job_intent_keeps person_job_intent_keeps)

subsection \<open>Cancellation and settlement\<close>

lemma apply_job_cancel_keeps:
  assumes "replay_inv s"
  shows "safe replay_inv (apply_job_cancel p owner frame s)"
proof -
  have "jobs_inv (bt_modify i (\<lambda>job. job\<lparr>uj_cancel := c\<rparr>) (rp_jobs s))" for i c
    using jobs_inv_of [OF assms] by (auto simp: jobs_inv_def)
  then show ?thesis
    unfolding apply_job_cancel_def Let_def by (intro vcg record_activity_inv jobs_irrelevant) (simp_all add: assms)
qed

lemma person_outside_safe: "safe (\<lambda>_. True) (person_outside job s)"
  unfolding person_outside_def by (intro vcg TrueI)

lemma person_ended_keeps: "qi_person q \<noteq> None \<Longrightarrow> keeps_input a q (person_ended outcome q)"
  by (auto simp: person_ended_def keeps_input_def input_open_def)

lemma person_ended_closed: "qi_person q \<noteq> None \<Longrightarrow> \<not> input_open (person_ended outcome q)"
  by (auto simp: person_ended_def input_open_def)

lemma settle_person_keeps:
  assumes "replay_inv s"
  shows "safe replay_inv (settle_person job outcome frame s)"
proof -
  have inv: "replay_inv (modify_input i (person_ended outcome) s)" if "bt_get (rp_inputs s) i = Some q" "qi_person q = Some person" for i q person
    using that assms by (intro modify_input_inv person_ended_keeps) auto
  have closed: "\<not> input_open r"
    if "bt_get (rp_inputs s) i = Some q" "qi_person q = Some person"
      "bt_get (rp_inputs (modify_input i (person_ended outcome) s)) i = Some r" for i q r person
    using that person_ended_closed [of q outcome] by (auto simp: modify_input_def)
  have settle: "safe replay_inv (settle_input i n (modify_input i (person_ended outcome) s))"
    if "bt_get (rp_inputs s) i = Some q" "qi_person q = Some person" for i q n person
    using settle_input_safe [OF inv [OF that], of i n] closed [OF that] by (auto elim!: safe_mono)
  show ?thesis
    unfolding settle_person_def by (intro vcg settle) (simp_all add: assms)
qed

lemma emit_all_keeps:
  "replay_inv s \<Longrightarrow> list_all (\<lambda>(k, e). wf_entry e \<and> key_tag k \<noteq> TagInput) es \<Longrightarrow> safe replay_inv (emit_all es s)"
proof (induction es s rule: emit_all.induct)
  case (2 k e es s)
  then show ?case by (auto intro!: emit_keeps [THEN safe_bind])
qed simp

lemma settled_entries_wf: "job_typed job \<Longrightarrow> list_all (\<lambda>(k, e). wf_entry e \<and> key_tag k \<noteq> TagInput) (settled_entries job frame)"
  by (simp add: settled_entries_def job_typed_def Let_def)

lemma apply_job_settled_keeps:
  assumes "replay_inv s"
  shows "safe replay_inv (apply_job_settled p owner frame s)"
proof -
  have typed: "job_typed job" if "bt_get (rp_jobs s) i = Some job" for i job
    using jobs_inv_of [OF assms] that by (auto simp: jobs_inv_def job_typed_def)
  have "jobs_inv (bt_remove i (rp_jobs s))" for i
    using jobs_inv_of [OF assms] length_bt_remove [of i "rp_jobs s"] by (auto simp: jobs_inv_def split: if_splits)
  then show ?thesis
    unfolding apply_job_settled_def Let_def
    by (intro vcg person_outside_safe [THEN safe_then] settle_person_keeps [THEN safe_then] emit_all_keeps [THEN safe_then]
        record_activity_inv jobs_irrelevant settled_entries_wf)
      (use assms in \<open>simp_all add: typed\<close>)
qed

subsection \<open>Retention\<close>

lemma summarize_safe: "safe (\<lambda>_. True) (summarize es account)"
proof (induction es arbitrary: account)
  case (Cons x es)
  then show ?case by (cases x) (auto intro!: vcg entry_decode_safe [THEN safe_then] split: entry.split)
qed simp

lemma job_retention_summary_safe: "replay_inv s \<Longrightarrow> safe (\<lambda>_. True) (job_retention_summary ix job s)"
  unfolding job_retention_summary_def
  by (intro vcg replay_range_safe [THEN safe_then] replay_inv_readable summarize_safe)

lemma retained_job_safe: "replay_inv s \<Longrightarrow> safe (\<lambda>_. True) (retained_job ix job s)"
  unfolding retained_job_def
  by (intro vcg job_state_of_safe [THEN safe_then] find_conversation_keeps [THEN safe_then] TrueI)

lemma model_note_keeps: "replay_inv s \<Longrightarrow> safe replay_inv (model_note p c frame s)"
  unfolding model_note_def by (intro vcg replace_last_inv)

lemma apply_job_retention_keeps:
  assumes "replay_inv s"
  shows "safe replay_inv (apply_job_retention ix p frame s)"
  unfolding apply_job_retention_def
  by (intro vcg retained_job_safe [THEN safe_then] job_retention_summary_safe [THEN safe_then] model_note_keeps [THEN safe_then]
      emit_keeps [THEN safe_then] record_activity_inv)
    (use assms in simp_all)

subsection \<open>Calls\<close>

lemma create_call_safe: "safe (\<lambda>_. True) (create_call sha p s)"
  unfolding create_call_def by (intro vcg TrueI)

lemma apply_tool_call_keeps:
  assumes "replay_inv s"
  shows "safe replay_inv (apply_tool_call sha p frame s)"
  unfolding apply_tool_call_def Let_def
  by (intro vcg policy_keeps [THEN safe_then] create_call_safe [THEN safe_then] put_operation_inv)
    (use assms in \<open>auto simp: operation_ok_def dest: operation_ok_of operation_mutD(4)\<close>)

lemma apply_tool_result_keeps: "replay_inv s \<Longrightarrow> safe replay_inv (apply_tool_result p frame s)"
  unfolding apply_tool_result_def Let_def by (intro vcg replace_last_inv)

lemma result_job_safe: "safe (\<lambda>_. True) (result_job tool code p)"
  unfolding result_job_def by (intro vcg TrueI)

lemma list_rows_safe: "replay_inv s \<Longrightarrow> safe (\<lambda>_. True) (list_rows ix c es n s)"
proof (induction es arbitrary: n)
  case (Cons e es)
  then show ?case by (auto intro!: vcg conversation_job_safe [THEN safe_then])
qed simp

lemma body_states_safe: "replay_inv s \<Longrightarrow> safe (\<lambda>_. True) (body_states ix c settled body s)"
  by (cases body) (auto intro!: vcg list_rows_safe)

lemma apply_job_result_keeps:
  assumes "replay_inv s"
  shows "safe replay_inv (apply_job_result ix p frame s)"
  unfolding apply_job_result_def Let_def
  by (intro vcg result_job_safe [THEN safe_then] conversation_job_safe [THEN safe_then] body_states_safe [THEN safe_then]
      replace_last_inv assms)

lemma apply_policy_decision_keeps:
  assumes "replay_inv s"
  shows "safe replay_inv (apply_policy_decision p frame s)"
  unfolding apply_policy_decision_def
  by (auto split: option.split policy_subject.split prod.split
      intro!: vcg policy_keeps [THEN safe_then] policy_keeps [THEN safe_mono] assms)

lemma policy_revision_keeps: "replay_inv s \<Longrightarrow> safe replay_inv (policy_effect (replay_revision p) s)"
  by (rule policy_keeps(1) [THEN safe_mono]) simp_all

subsection \<open>Execution paths\<close>

lemma project_known_safe: "replay_inv s \<Longrightarrow> safe (\<lambda>_. True) (project_known ix project s)"
  unfolding project_known_def by (intro vcg replay_get_keeps [THEN safe_then] TrueI)

lemma last_change_safe: "replay_inv s \<Longrightarrow> safe (\<lambda>_. True) (last_change ix project s)"
  unfolding last_change_def
  by (intro last_under_safe [THEN safe_then] replay_inv_readable) (auto split: option.split prod.split entry.split)

lemma last_acknowledgement_safe: "replay_inv s \<Longrightarrow> safe (\<lambda>_. True) (last_acknowledgement ix project s)"
  unfolding last_acknowledgement_def
  by (intro last_under_safe [THEN safe_then] replay_inv_readable) (auto split: option.split prod.split entry.split)

lemma path_changed_keeps:
  assumes "replay_inv s" "wf_execution_path p"
  shows "safe (\<lambda>(_, s'). replay_inv s') (path_changed ix p frame s)"
  unfolding path_changed_def
  by (intro vcg job_state_of_safe [THEN safe_then] find_conversation_keeps [THEN safe_then] last_change_safe [THEN safe_then]
      emit_keeps [THEN safe_then])
    (use assms in \<open>simp_all add: wf_execution_path_def\<close>)

lemma path_acknowledged_keeps:
  assumes "replay_inv s" "wf_execution_path p"
  shows "safe (\<lambda>(_, s'). replay_inv s') (path_acknowledged ix p frame s)"
  unfolding path_acknowledged_def Let_def
  by (intro vcg last_acknowledgement_safe [THEN safe_then] replay_entry_safe [THEN safe_then] replay_inv_readable
      emit_keeps [THEN safe_then])
    (use assms in \<open>auto simp: wf_execution_path_def split: option.split entry.split
      intro!: vcg emit_keeps [THEN safe_then]\<close>)

lemma approval_fold_safe: "safe (\<lambda>_. True) (approval_fold es approved)"
proof (induction es arbitrary: approved)
  case (Cons e es)
  have step: "safe (\<lambda>_. True) (approval_step v approved)" for v
    unfolding approval_step_def
    by (intro entry_decode_safe [THEN safe_then]) (auto split: entry.split option.split path_action.split)
  show ?case by (simp add: safe_then [OF step Cons.IH])
qed simp

lemma project_approvals_safe: "replay_inv s \<Longrightarrow> safe (\<lambda>_. True) (project_approvals ix project s)"
  unfolding project_approvals_def approval_set_def
  by (intro vcg replay_range_safe [THEN safe_then] approval_fold_safe [THEN safe_then] replay_inv_readable TrueI)

lemma approval_allowed_safe: "safe (\<lambda>_. True) (approval_allowed action key state)"
  unfolding approval_allowed_def by (intro vcg TrueI)

lemma path_approval_keeps:
  assumes "replay_inv s" "wf_execution_path p" "ep_entries p \<noteq> []" "sha_sized sha"
  shows "safe (\<lambda>(_, s'). replay_inv s') (path_approval sha ix p frame s)"
proof -
  have "is_hash (path_key sha path)" for path using assms(4) by (simp add: path_key_def sha_sized_def)
  then show ?thesis
    unfolding path_approval_def Let_def
    by (intro vcg project_approvals_safe [THEN safe_then] approval_allowed_safe [THEN safe_then] emit_keeps [THEN safe_then])
      (use assms in \<open>simp_all add: wf_execution_path_def split: list.split\<close>)
qed

lemma apply_execution_path_keeps:
  assumes "replay_inv s" "wf_execution_path p" "sha_sized sha"
  shows "safe replay_inv (apply_execution_path sha ix p frame s)"
proof -
  let ?step = "case ep_action p of PA_ModelChanged \<Rightarrow> path_changed ix p frame s | PA_Acknowledged \<Rightarrow> path_acknowledged ix p frame s
    | PA_Approved \<Rightarrow> path_approval sha ix p frame s | PA_Revoked \<Rightarrow> path_approval sha ix p frame s"
  have step: "safe (\<lambda>(_, s'). replay_inv s') ?step" if "execution_path_validate p = Inr u" for u
  proof -
    have "ep_action p \<in> {PA_Approved, PA_Revoked} \<Longrightarrow> ep_entries p \<noteq> []"
      using that by (auto simp: execution_path_validate_def path_shape_ok_def Let_def result_bind_eq_Inr require_def split: if_splits)
    then show ?thesis
      using assms by (cases "ep_action p") (auto intro: path_changed_keeps path_acknowledged_keeps path_approval_keeps)
  qed
  show ?thesis
    unfolding apply_execution_path_def Let_def
    by (intro vcg project_known_safe [THEN safe_then] unused_keeps [THEN safe_then] step [THEN safe_then]
        emit_keeps [THEN safe_then] record_activity_inv)
      (use assms in \<open>simp_all add: wf_execution_path_def\<close>)
qed

end
