(* ===== verification/ReplaySafe.thy ===== *)
theory ReplaySafe
  imports JobKeeps
begin

section \<open>Replay does not panic and keeps its invariant\<close>

text \<open>
  The handlers composed as \<open>Replay::apply\<close>, \<open>apply_frame\<close>, \<open>apply_next\<close> and \<open>replay\<close> compose them, the states that a
  journal reaches, and what holds in each of them.
\<close>

subsection \<open>One record\<close>

lemma then_active_keeps: "safe replay_inv r \<Longrightarrow> safe replay_inv (then_active frame r)"
  unfolding then_active_def by (erule safe_then) (simp add: active_activity_inv)

lemmas record_keeps = apply_active_binding_keeps apply_owner_generation_keeps apply_project_registered_keeps
  apply_project_request_alias_keeps apply_project_renamed_keeps accept_keeps apply_start_authorized_keeps
  apply_request_started_keeps apply_cancel_requested_keeps apply_terminal_keeps enqueue_keeps reorder_input_keeps
  apply_input_decision_keeps apply_input_promoted_keeps apply_tool_call_keeps apply_tool_result_keeps
  apply_response_text_keeps apply_thinking_text_keeps enqueue_person_keeps apply_job_intent_keeps apply_job_cancel_keeps
  apply_job_settled_keeps apply_job_result_keeps apply_job_retention_keeps apply_execution_path_keeps
  apply_policy_decision_keeps policy_revision_keeps

lemma apply_record_keeps:
  assumes "replay_inv s" "wf_record r" "sha_sized sha" "r = R_OwnerGeneration \<or> g = rp_owner_generation s"
  shows "safe replay_inv (apply_record sha uc ix r g frame s)"
  using assms by (cases r) (simp_all add: apply_record_def record_keeps then_active_keeps)

lemma owner_check_safe: "safe (\<lambda>_. r = R_OwnerGeneration \<or> g = rp_owner_generation s) (owner_check r g s)"
  unfolding owner_check_def by (intro vcg) simp_all

lemma replay_apply_keeps:
  "replay_inv s \<Longrightarrow> wf_record r \<Longrightarrow> sha_sized sha \<Longrightarrow> safe replay_inv (replay_apply sha uc ix r g frame s)"
  unfolding replay_apply_def by (intro owner_check_safe [THEN safe_then] apply_record_keeps)

subsection \<open>Eviction and reservation\<close>

lemma evict_conversations_get:
  "i \<in> pinned \<Longrightarrow> bt_get (evict_conversations pinned m) i = bt_get m i"
  by (simp add: evict_conversations_def Let_def)

lemma evict_conversations_sub:
  "bt_get (evict_conversations pinned m) i = Some c \<Longrightarrow> bt_get m i = Some c"
  by (auto simp: evict_conversations_def Let_def split: if_splits)

lemma evict_inputs_sub: "bt_get (evict_inputs s) i = Some q \<Longrightarrow> bt_get (rp_inputs s) i = Some q"
  by (auto simp: evict_inputs_def split: if_splits)

lemma evict_bt_ok:
  "bt_ok m \<Longrightarrow> bt_ok (evict_projects pinned m)" "bt_ok m' \<Longrightarrow> bt_ok (evict_conversations pinned' m')"
  "bt_ok (rp_inputs s) \<Longrightarrow> bt_ok (evict_inputs s)"
  by (simp_all add: evict_projects_def evict_conversations_def evict_inputs_def Let_def)

lemma open_inputs_filter: "open_inputs (filter P m) \<le> open_inputs m"
  by (induction m) (auto simp: open_inputs_def)

lemma evict_open_inputs: "open_inputs (evict_inputs s) \<le> open_inputs (rp_inputs s)"
  by (simp add: evict_inputs_def bt_retain_def open_inputs_filter)

lemma delta_inv_sub:
  assumes "delta_inv d m a" "\<And>i q. bt_get m' i = Some q \<Longrightarrow> bt_get m i = Some q"
  shows "delta_inv d m' a"
proof -
  have "bt_get m i \<noteq> None" if "bt_get m' i \<noteq> None" for i using that assms(2) by auto
  then show ?thesis using assms unfolding delta_inv_def by blast
qed

lemma evict_inv:
  assumes "replay_inv s"
  shows "replay_inv (evict s)"
proof -
  have "inputs_inv (evict_inputs s)"
    using assms evict_bt_ok(3) [of s] by (auto simp: replay_inv_def inputs_inv_def dest!: evict_inputs_sub)
  moreover have "delta_inv (rp_delta s) (evict_inputs s) (rp_active_operation s)"
  proof (rule delta_inv_sub [of _ "rp_inputs s"])
    show "delta_inv (rp_delta s) (rp_inputs s) (rp_active_operation s)" using assms unfolding replay_inv_def by blast
    show "bt_get (rp_inputs s) i = Some q" if "bt_get (evict_inputs s) i = Some q" for i q using evict_inputs_sub [OF that] .
  qed
  moreover have "conversations_inv (evict_conversations (pinned_conversations s) (rp_conversations s))"
    using assms evict_bt_ok(2) by (auto simp: replay_inv_def conversations_inv_def dest!: evict_conversations_sub)
  moreover have "active_resident (rp_operations s) (rp_active_operation s)
      (evict_conversations (pinned_conversations s) (rp_conversations s))"
  proof -
    have "op_conversation op \<in> pinned_conversations s"
      if "rp_active_operation s = Some i" "bt_get (rp_operations s) i = Some op" for i op
      using that by (simp add: pinned_conversations_def active_def)
    then show ?thesis
      using assms by (auto simp: active_resident_def replay_inv_def evict_conversations_get)
  qed
  ultimately show ?thesis
    using assms evict_open_inputs [of s] evict_bt_ok(1) by (simp add: evict_def replay_inv_def)
qed

lemma operation_capacities_safe: "safe (\<lambda>_. True) (operation_capacities s)"
  unfolding operation_capacities_def call_capacities_def by (intro vcg TrueI)

lemma replay_inv_header [simp]:
  "replay_inv (s\<lparr>rp_reserved_bytes := a\<rparr>) = replay_inv s" "replay_inv (s\<lparr>rp_reserved_frames := a\<rparr>) = replay_inv s"
  "replay_inv (s\<lparr>rp_sequence := b\<rparr>) = replay_inv s" "replay_inv (s\<lparr>rp_revision := b\<rparr>) = replay_inv s"
  "replay_inv (s\<lparr>rp_last_digest := c\<rparr>) = replay_inv s" "replay_inv (s\<lparr>rp_last_frame := d\<rparr>) = replay_inv s"
  by (simp_all add: replay_inv_def)

lemma reserve_keeps: "replay_inv s \<Longrightarrow> safe replay_inv (reserve s)"
  unfolding reserve_def Let_def by (intro vcg operation_capacities_safe [THEN safe_then]) simp

subsection \<open>One frame\<close>

lemma apply_frame_keeps:
  assumes "replay_inv s" "wf_record r" "sha_sized sha"
  shows "safe replay_inv (apply_frame sha uc ix context r digest frame s)"
  unfolding apply_frame_def Let_def
  by (intro vcg replay_apply_keeps [THEN safe_then] reserve_keeps evict_inv) (use assms in \<open>simp_all add: charge_def\<close>)

lemma replay_empty_inv: "replay_inv (replay_empty installation init)"
  by (simp add: replay_empty_def replay_inv_def operations_inv_def inputs_inv_def open_inputs_def jobs_inv_def
      conversations_inv_def requests_inv_def active_resident_def delta_inv_def policy_inv_default)

lemma genesis_keeps:
  assumes "wf_pending_init p"
  shows "safe replay_inv (genesis sha uc context p frame)"
proof -
  have "replay_inv (insert_request i digest result kind frame s)" if "replay_inv s" "is_hash digest" for s i digest result kind
    using that by (auto simp: insert_request_def charge_def replay_inv_def requests_inv_def)
  then show ?thesis
    unfolding genesis_def Let_def
    by (intro vcg generate_keeps [THEN safe_then])
      (use assms in \<open>auto simp: charge_def replay_empty_inv wf_pending_init_def\<close>)
qed

lemma apply_next_keeps:
  assumes "\<And>s. state = Some s \<Longrightarrow> replay_inv s" "wf_record r" "sha_sized sha"
  shows "safe replay_inv (apply_next sha uc ix state context r digest frame)"
proof (cases state)
  case None
  show ?thesis
  proof (cases r)
    case (R_PendingInit p)
    then show ?thesis
      unfolding apply_next_def None
      by (simp, intro vcg genesis_keeps [THEN safe_then] reserve_keeps) (use assms(2) in simp_all)
  qed (simp_all add: apply_next_def None)
qed (use assms in \<open>simp add: apply_next_def apply_frame_keeps\<close>)

subsection \<open>One journal\<close>

text \<open>The states that frames reach, from the first one on. A frame is any decoded record with any context and place.\<close>

inductive reached :: "(bytes \<Rightarrow> bytes) \<Rightarrow> unicode \<Rightarrow> replay \<Rightarrow> bool" for sha uc where
  first_frame: "wf_record r \<Longrightarrow> apply_next sha uc ix None context r digest frame = Inr s \<Longrightarrow> reached sha uc s"
| next_frame: "reached sha uc s \<Longrightarrow> wf_record r \<Longrightarrow> apply_next sha uc ix (Some s) context r digest frame = Inr s' \<Longrightarrow>
    reached sha uc s'"

lemma reached_inv:
  assumes "reached sha uc s" "sha_sized sha"
  shows "replay_inv s"
  using assms(1)
proof induction
  case (first_frame r ix ctx digest frame s)
  then show ?case using apply_next_keeps [of None r sha uc ix ctx digest frame] assms(2) by (simp add: safe_iff)
next
  case (next_frame s r ix ctx digest frame s')
  then show ?case using apply_next_keeps [of "Some s" r sha uc ix ctx digest frame] assms(2) by (simp add: safe_iff)
qed

lemma decode_record_wf: "decode_record sha kind bs = Inr r \<Longrightarrow> wf_record r"
  unfolding decode_record_def using record_reading_exact by (auto split: if_splits)

lemma replay_frames_reached:
  assumes "replay_frames sha uc cancelled journal n offset state = Inr s" "\<And>s. state = Some s \<Longrightarrow> reached sha uc s"
  shows "reached sha uc s"
  using assms
proof (induction sha uc cancelled journal n offset state rule: replay_frames.induct)
  case (1 sha uc cancelled journal n offset state)
  show ?case
  proof (cases "offset < length journal")
    case True
    then obtain u e at r s1 where step:
      "not_cancelled cancelled n = Inr u" "envelope sha (drop offset journal) = Inr e" "u32_try_from offset = Inr at"
      "decode_record sha (ev_kind e) (ev_payload e) = Inr r"
      "apply_next sha uc (memory_index sha journal) state (ev_context e) r (ev_digest e)
        \<lparr>loc_sequence = fc_sequence (ev_context e), loc_segment = 1, loc_offset = at, loc_length = of_nat (ev_length e)\<rparr> = Inr s1"
      "replay_frames sha uc cancelled journal (n + 1) (offset + ev_length e) (Some s1) = Inr s"
      using 1(2) by (subst (asm) replay_frames.simps) (auto simp: steps Let_def)
    have tail: "slice_of offset (length journal) journal = Inr (drop offset journal)" using True by simp
    have "reached sha uc s1"
      using step(4,5) 1(3) by (cases state) (auto intro: reached.intros dest: decode_record_wf)
    then show ?thesis using 1(1) [OF _ _ tail step(2,3) _ _ _ step(6)] step True by simp
  next
    case False
    then show ?thesis using 1(2,3) by (subst (asm) replay_frames.simps) (auto simp: steps split: option.splits)
  qed
qed

subsection \<open>Frames and the reads of a journal in memory\<close>









end
