(* ===== verification/PolicyKept.thy ===== *)
theory PolicyKept
  imports ReplaySafe
begin

section \<open>What each record does to the policy facts\<close>

text \<open>
  Replay changes its policy facts only through the methods of \<open>PolicyReplay\<close>. For every handler of
  \<open>authority/conversation/state.rs\<close>: which of these methods it calls, in which order. \<open>after P r\<close> says that a value which \<open>r\<close>
  returned satisfies \<open>P\<close>; the collection \<open>policy_kept\<close> holds the steps that leave the policy facts as they are.
\<close>

named_theorems policy_kept \<open>steps that leave the policy facts as they are\<close>
named_theorems policy_same \<open>state functions that leave the policy facts as they are\<close>

definition after :: "('a \<Rightarrow> bool) \<Rightarrow> 'a outcome \<Rightarrow> bool" where
  "after P r \<longleftrightarrow> (\<forall>x. r = Inr x \<longrightarrow> P x)"

lemma after_then: "after Q r \<Longrightarrow> (\<And>x. Q x \<Longrightarrow> P x) \<Longrightarrow> after P r"
  by (simp add: after_def)

lemma after_bind: "after Q r \<Longrightarrow> (\<And>x. Q x \<Longrightarrow> after P (f x)) \<Longrightarrow> after P (result_bind r f)"
  by (cases r) (simp_all add: after_def)

lemma after_value: "P x \<Longrightarrow> after P (Inr x)" "after P (Inl e)"
  by (simp_all add: after_def)

lemma after_check: "after P k \<Longrightarrow> after P (check b k)"
  by (simp add: check_def after_def)

lemma after_if: "(b \<Longrightarrow> after P r) \<Longrightarrow> (\<not> b \<Longrightarrow> after P k) \<Longrightarrow> after P (if b then r else k)"
  by simp

lemma after_option: "after P r \<Longrightarrow> (\<And>y. after P (f y)) \<Longrightarrow> after P (case x of None \<Rightarrow> r | Some y \<Rightarrow> f y)"
  by (cases x) simp_all

lemma after_list: "after P r \<Longrightarrow> (\<And>y ys. after P (f y ys)) \<Longrightarrow> after P (case xs of [] \<Rightarrow> r | y # ys \<Rightarrow> f y ys)"
  by (cases xs) simp_all

lemma after_prod:
  "(\<And>a b. x = (a, b) \<Longrightarrow> after P (f a b)) \<Longrightarrow> after P (case x of (a, b) \<Rightarrow> f a b)"
  "(\<And>a b. x = (a, b) \<Longrightarrow> after P (g a b c)) \<Longrightarrow> after P ((case x of (a, b) \<Rightarrow> g a b) c)"
  by (cases x; simp)+

lemma after_cases:
  "(\<And>j. after P (f j)) \<Longrightarrow> (\<And>j. after P (g j)) \<Longrightarrow> after P (case state of Unsettled j \<Rightarrow> f j | Settled j \<Rightarrow> g j)"
  "(\<And>a b n. after P (h a b n)) \<Longrightarrow> (\<And>i. after P (k i)) \<Longrightarrow> after P (case orig of OriginModel a b n \<Rightarrow> h a b n | OriginPerson i \<Rightarrow> k i)"
  "(\<And>a b n. after P (h a b n)) \<Longrightarrow> (\<And>i. after P (k i)) \<Longrightarrow> after P (case author of AuthorModel a b n \<Rightarrow> h a b n | AuthorPerson i \<Rightarrow> k i)"
  "after P (result_bind r1 c) \<Longrightarrow> after P (result_bind r2 c) \<Longrightarrow> after P (result_bind r3 c) \<Longrightarrow> after P (result_bind r4 c) \<Longrightarrow>
    after P (result_bind (case action of PA_ModelChanged \<Rightarrow> r1 | PA_Acknowledged \<Rightarrow> r2 | PA_Approved \<Rightarrow> r3 | PA_Revoked \<Rightarrow> r4) c)"
  by (cases state; cases orig; cases author; cases action; simp)+

lemma after_block: "after P (result_bind r (\<lambda>x. result_bind (f x) g)) \<Longrightarrow> after P (result_bind (result_bind r f) g)"
  by (cases r) (simp_all add: after_def)

lemma after_nested:
  "after P (result_bind r g) \<Longrightarrow> after P (result_bind (check b r) g)"
  "(b \<Longrightarrow> after P (result_bind r g)) \<Longrightarrow> (\<not> b \<Longrightarrow> after P (result_bind k g)) \<Longrightarrow> after P (result_bind (if b then r else k) g)"
  "after P (result_bind r g) \<Longrightarrow> (\<And>y. after P (result_bind (h y) g)) \<Longrightarrow>
    after P (result_bind (case x of None \<Rightarrow> r | Some y \<Rightarrow> h y) g)"
  "(\<And>a b. after P (result_bind (i a b) g)) \<Longrightarrow> after P (result_bind (case p of (a, b) \<Rightarrow> i a b) g)"
  "after P (g v) \<Longrightarrow> after P (result_bind (Inr v) g)" "after P (result_bind (Inl e) g)"
  by (cases r; cases k; cases x; cases p; cases b; simp add: after_def check_def)+

text \<open>A step whose value is not a state.\<close>

lemma after_any: "(\<And>x. after P (f x)) \<Longrightarrow> after P (result_bind r f)"
  by (cases r) (simp_all add: after_def)

lemmas after_steps = after_block after_cases after_nested after_value after_check after_if after_option after_list after_prod

subsection \<open>Shared steps\<close>

lemma state_steps [policy_same]:
  "rp_policy (charge n s) = rp_policy s" "rp_policy (insert_request i digest result kind frame s) = rp_policy s"
  "rp_policy (put_operation i op s) = rp_policy s" "rp_policy (touch project conversation sequence s) = rp_policy s"
  "rp_policy (record_activity project conversation sequence s) = rp_policy s"
  "rp_policy (modify_input i f s) = rp_policy s" "rp_policy (evict s) = rp_policy s"
  by (simp_all add: charge_def insert_request_def put_operation_def touch_def record_activity_def modify_input_def evict_def Let_def
      split: prod.split)

lemma active_activity_same [policy_same]: "rp_policy (active_activity sequence s) = rp_policy s"
  by (simp add: active_activity_def policy_same split: option.split prod.split)

lemma end_operation_same [policy_same]: "rp_policy (end_operation p op completed frame s) = rp_policy s"
  by (simp add: end_operation_def Let_def policy_same)

text \<open>The steps in the order in which they call each other.\<close>

lemma entry_steps [policy_kept]:
  "after (\<lambda>x. rp_policy x = rp_policy s) (generate i entity frame s)"
    "after (\<lambda>x. rp_policy x = rp_policy s) (emit k e s)"
    "after (\<lambda>x. rp_policy x = rp_policy s) (fresh ix i s)"
    "after (\<lambda>x. rp_policy x = rp_policy s) (replay_request ix i digest result kind frame s)"
    "after (\<lambda>x. rp_policy x = rp_policy s) (reserve s)"
    "after (\<lambda>x. rp_policy (snd x) = rp_policy s) (load_project ix project s)"
    "after (\<lambda>x. rp_policy (snd x) = rp_policy s) (load_conversation ix conversation s)"
  unfolding generate_def emit_def fresh_def replay_request_def reserve_def load_project_def load_conversation_def Let_def
  by (rule policy_kept [THEN after_bind] | rule policy_kept [THEN after_then] | rule after_steps | rule after_any |
    (simp add: policy_same; fail))+

lemma list_steps [policy_kept]:
  "after (\<lambda>x. rp_policy x = rp_policy s) (emit_all es s)"
  "after (\<lambda>x. rp_policy x = rp_policy s) (renumber is n s)"
proof -
  show "after (\<lambda>x. rp_policy x = rp_policy s) (emit_all es s)"
    by (induction es s rule: emit_all.induct) (auto simp: after_def steps dest: entry_steps(2) [unfolded after_def, rule_format])
  show "after (\<lambda>x. rp_policy x = rp_policy s) (renumber is n s)"
    by (induction "is" n s rule: renumber.induct) (auto simp: after_def steps modify_input_def)
qed

lemma input_steps [policy_kept]:
  "after (\<lambda>x. rp_policy x = rp_policy s) (create_conversation i project frame s)"
    "after (\<lambda>x. rp_policy x = rp_policy s) (settle_input i sequence s)"
    "after (\<lambda>x. rp_policy x = rp_policy s) (enqueue_lane ix p s)"
    "after (\<lambda>x. rp_policy x = rp_policy s) (enqueue_ids ix p frame s)"
  unfolding create_conversation_def settle_input_def enqueue_lane_def enqueue_ids_def Let_def
  by (rule policy_kept [THEN after_bind] | rule policy_kept [THEN after_then] | rule after_steps | rule after_any |
    (simp add: policy_same; fail))+

lemma settle_inputs_policy [policy_kept]: "after (\<lambda>x. rp_policy x = rp_policy s) (settle_inputs is sequence s)"
  by (induction "is" sequence s rule: settle_inputs.induct)
    (auto simp: after_def steps dest: input_steps(2) [unfolded after_def, rule_format])

lemma person_steps [policy_kept]:
  "after (\<lambda>x. rp_policy x = rp_policy s) (settle_person job result frame s)"
  "after (\<lambda>x. rp_policy x = rp_policy s) (model_note p conversation frame s)"
  unfolding settle_person_def model_note_def
  by (rule policy_kept [THEN after_bind] | rule policy_kept [THEN after_then] | rule after_steps | rule after_any |
    (simp add: policy_same; fail))+

lemma turn_steps [policy_kept]:
  "after (\<lambda>x. rp_policy x = rp_policy s) (enqueue_entry ix p owner kind frame s)"
    "after (\<lambda>x. rp_policy x = rp_policy s) (accept_start ta owner frame s)"
    "after (\<lambda>x. rp_policy (snd x) = rp_policy s) (accept_conversation ix ta dispatched s)"
    "after (\<lambda>x. rp_policy (snd x) = rp_policy s) (path_changed ix ep frame s)"
    "after (\<lambda>x. rp_policy (snd x) = rp_policy s) (path_acknowledged ix ep frame s)"
    "after (\<lambda>x. rp_policy (snd x) = rp_policy s) (path_approval sha ix ep frame s)"
  unfolding enqueue_entry_def accept_start_def accept_conversation_def path_changed_def path_acknowledged_def path_approval_def Let_def
  by (rule policy_kept [THEN after_bind] | rule policy_kept [THEN after_then] | rule after_steps | rule after_any |
    (simp add: policy_same; fail))+

lemma accept_steps [policy_kept]:
  "after (\<lambda>x. rp_policy x = rp_policy s) (accept_checks sha uc ix ta dispatched frame s)"
  unfolding accept_checks_def Let_def
  by (rule policy_kept [THEN after_bind] | rule policy_kept [THEN after_then] | rule after_steps | rule after_any |
    (simp add: policy_same; fail))+

subsection \<open>The handlers\<close>

lemma project_handlers [policy_kept]:
  "after (\<lambda>x. rp_policy x = rp_policy s) (apply_active_binding ix ab s)"
    "after (\<lambda>x. rp_policy x = rp_policy s) (apply_owner_generation generation s)"
    "after (\<lambda>x. rp_policy x = rp_policy s) (apply_project_registered sha uc ix pr frame s)"
    "after (\<lambda>x. rp_policy x = rp_policy s) (apply_project_request_alias sha uc ix pa frame s)"
    "after (\<lambda>x. rp_policy x = rp_policy s) (apply_project_renamed sha uc ix pn frame s)"
  unfolding apply_active_binding_def apply_owner_generation_def apply_project_registered_def apply_project_request_alias_def apply_project_renamed_def Let_def
  by (rule policy_kept [THEN after_bind] | rule policy_kept [THEN after_then] | rule after_steps | rule after_any |
    (simp add: policy_same; fail))+

lemma turn_handlers [policy_kept]:
  "after (\<lambda>x. rp_policy x = rp_policy s) (accept sha uc ix ta generation frame s)"
    "after (\<lambda>x. rp_policy x = rp_policy s) (apply_start_authorized sa frame s)"
    "after (\<lambda>x. rp_policy x = rp_policy s) (apply_request_started rs frame s)"
    "after (\<lambda>x. rp_policy x = rp_policy s) (apply_cancel_requested cr frame s)"
    "after (\<lambda>x. rp_policy x = rp_policy s) (apply_response_text rt frame s)"
    "after (\<lambda>x. rp_policy x = rp_policy s) (apply_thinking_text rt frame s)"
    "after (\<lambda>x. rp_policy x = rp_policy s) (apply_tool_result tr frame s)"
    "after (\<lambda>x. rp_policy x = rp_policy s) (apply_job_result ix jr frame s)"
  unfolding accept_def apply_start_authorized_def apply_request_started_def apply_cancel_requested_def apply_response_text_def apply_thinking_text_def apply_tool_result_def apply_job_result_def Let_def
  by (rule policy_kept [THEN after_bind] | rule policy_kept [THEN after_then] | rule after_steps | rule after_any |
    (simp add: policy_same; fail))+

lemma queue_handlers [policy_kept]:
  "after (\<lambda>x. rp_policy x = rp_policy s) (enqueue sha uc ix iq generation frame s)"
    "after (\<lambda>x. rp_policy x = rp_policy s) (enqueue_person sha ix pc generation frame s)"
    "after (\<lambda>x. rp_policy x = rp_policy s) (reorder_input sha uc ix ir frame s)"
    "after (\<lambda>x. rp_policy x = rp_policy s) (apply_input_promoted sha uc ix ip generation frame s)"
  unfolding enqueue_def enqueue_person_def reorder_input_def apply_input_promoted_def Let_def
  by (rule policy_kept [THEN after_bind] | rule policy_kept [THEN after_then] | rule after_steps | rule after_any |
    (simp add: policy_same; fail))+

lemma job_handlers [policy_kept]:
  "after (\<lambda>x. rp_policy x = rp_policy s) (model_job_intent sha ix ji operation gen ordinal owner frame s)"
    "after (\<lambda>x. rp_policy x = rp_policy s) (apply_job_cancel jc generation frame s)"
    "after (\<lambda>x. rp_policy x = rp_policy s) (apply_job_settled st generation frame s)"
    "after (\<lambda>x. rp_policy x = rp_policy s) (apply_job_retention ix jn frame s)"
  unfolding model_job_intent_def apply_job_cancel_def apply_job_settled_def apply_job_retention_def Let_def
  by (rule policy_kept [THEN after_bind] | rule policy_kept [THEN after_then] | rule after_steps | rule after_any |
    (simp add: policy_same; fail))+

lemma execution_path_policy [policy_kept]: "after (\<lambda>x. rp_policy x = rp_policy s) (apply_execution_path sha ix p frame s)"
  unfolding apply_execution_path_def Let_def
  by (rule policy_kept [THEN after_bind] | rule policy_kept [THEN after_then] | rule after_steps | rule after_any |
    (simp add: policy_same; fail))+

subsection \<open>The handlers that change the policy facts\<close>

lemma policy_effect_runs:
  "after (\<lambda>x. policy_runs (rp_policy s) [e] (rp_policy x)) (policy_effect (policy_step e) s)"
  by (auto simp: after_def policy_effect_def policy_runs_Cons split: prod.splits sum.splits)

lemmas effect_runs = policy_effect_runs [of _ "RevisionRecord p" for p, folded policy_steps]
  policy_effect_runs [of _ "DecisionRecord p" for p, folded policy_steps] policy_effect_runs [of _ "PersonJob p" for p, folded policy_steps]
  policy_effect_runs [of _ "CallRecord p" for p, folded policy_steps]
  policy_effect_runs [of _ "TerminalRecord i g b" for i g b, folded policy_steps]

lemma policy_subject_runs:
  "(\<And>i. after P (f i)) \<Longrightarrow> (\<And>a b c. after P (g a b c)) \<Longrightarrow> after P (case subject of PersonInput i \<Rightarrow> f i | ModelCall a b c \<Rightarrow> g a b c)"
  by (cases subject) simp_all

lemma policy_handlers:
  "after (\<lambda>x. policy_runs (rp_policy s) [CallRecord tc] (rp_policy x)) (apply_tool_call sha tc frame s)"
  "after (\<lambda>x. policy_runs (rp_policy s) [DecisionRecord pd] (rp_policy x)) (apply_policy_decision pd frame s)"
  "after (\<lambda>x. policy_runs (rp_policy s) [TerminalRecord (tt_operation tt) (tt_generation tt) (tt_kind tt = TerminalInterrupted)] (rp_policy x))
    (apply_terminal tt frame s)"
  "after (\<lambda>x. policy_runs (rp_policy s) [PersonJob input] (rp_policy x)) (person_job_intent sha ix ji input owner frame s)"
  unfolding apply_tool_call_def apply_policy_decision_def apply_terminal_def person_job_intent_def Let_def
  by (rule effect_runs [THEN after_bind] | rule effect_runs [THEN after_then] | rule policy_kept [THEN after_bind] |
    rule policy_subject_runs | rule after_steps | rule after_any | (simp add: policy_same; fail))+

lemma job_intent_runs:
  "after (\<lambda>x. \<exists>es. set es \<subseteq> range PersonJob \<and> policy_runs (rp_policy s) es (rp_policy x)) (apply_job_intent sha ix ji owner frame s)"
  unfolding apply_job_intent_def
  by (rule policy_handlers(4) [THEN after_then] | rule policy_kept [THEN after_then] | rule after_steps | rule after_any |
    (rule exI [of _ "[PersonJob input]" for input]; simp; fail) | (rule exI [of _ "[]"]; simp; fail))+

lemma input_decision_runs:
  "after (\<lambda>x. \<exists>es. set es \<subseteq> range PersonSettled \<and> policy_runs (rp_policy s) es (rp_policy x))
    (apply_input_decision sha uc ix p generation frame s)"
proof -
  have "after (\<lambda>x. rp_policy x = (if ides_action p \<noteq> Resume then replay_person_settled (ides_input p) (rp_policy s) else rp_policy s))
      (apply_input_decision sha uc ix p generation frame s)"
    unfolding apply_input_decision_def Let_def
    by (rule policy_kept [THEN after_bind] | rule policy_kept [THEN after_then] | rule after_steps | rule after_any |
      (simp add: policy_same; fail))+
  then show ?thesis
    by (rule after_then) (auto simp: policy_runs_Cons intro: exI [of _ "[]"] exI [of _ "[PersonSettled (ides_input p)]"])
qed

subsection \<open>Records\<close>

text \<open>What a record says to the policy facts. Job intents and input decisions of a person may settle a person's decision besides.\<close>

fun policy_events :: "journal_record \<Rightarrow> policy_event list" where
  "policy_events (R_PolicyRevision p) = [RevisionRecord p]"
| "policy_events (R_PolicyDecision p) = [DecisionRecord p]"
| "policy_events (R_ToolCall p) = [CallRecord p]"
| "policy_events (R_TurnTerminal p) = [TerminalRecord (tt_operation p) (tt_generation p) (tt_kind p = TerminalInterrupted)]"
| "policy_events _ = []"

fun of_person :: "policy_event \<Rightarrow> bool" where
  "of_person (PersonJob _) = True"
| "of_person (PersonSettled _) = True"
| "of_person _ = False"

definition tells :: "policy_replay \<Rightarrow> policy_event list \<Rightarrow> policy_replay \<Rightarrow> bool" where
  "tells a events b \<longleftrightarrow> (\<exists>es. policy_runs a es b \<and> filter (\<lambda>e. \<not> of_person e) es = events)"

lemma tells_trans: "tells a es b \<Longrightarrow> tells b fs c \<Longrightarrow> tells a (es @ fs) c"
  unfolding tells_def using policy_runs_append filter_append by metis

lemma tells_none: "tells a [] a"
  unfolding tells_def by (intro exI [of _ "[]"]) simp

lemma tells_one: "policy_runs a [e] b \<Longrightarrow> \<not> of_person e \<Longrightarrow> tells a [e] b"
  unfolding tells_def by (intro exI [of _ "[e]"]) simp

lemma tells_person: "policy_runs a es b \<Longrightarrow> \<forall>e\<in>set es. of_person e \<Longrightarrow> tells a [] b"
  unfolding tells_def by (intro exI [of _ es]) (simp add: filter_empty_conv)

lemma apply_record_tells:
  "after (\<lambda>x. tells (rp_policy s) (policy_events r) (rp_policy x)) (apply_record sha uc ix r generation frame s)"
proof (cases r)
  case (R_JobIntent p)
  then show ?thesis
    unfolding apply_record_def by (auto intro!: job_intent_runs [THEN after_then] tells_person)
next
  case (R_InputDecision p)
  then show ?thesis
    unfolding apply_record_def by (auto intro!: input_decision_runs [THEN after_then] tells_person)
qed (simp_all add: apply_record_def then_active_def,
  (rule policy_handlers [THEN after_bind] policy_handlers [THEN after_then] effect_runs [THEN after_then] policy_kept [THEN after_bind]
    policy_kept [THEN after_then] after_value | (simp add: policy_same tells_none tells_one; fail))+)

lemma apply_next_tells:
  assumes "apply_next sha uc ix state context r digest frame = Inr s"
  shows "tells (case state of None \<Rightarrow> policy_replay_default | Some s0 \<Rightarrow> rp_policy s0) (policy_events r) (rp_policy s)"
proof (cases state)
  case None
  have "after (\<lambda>x. rp_policy x = policy_replay_default) (genesis sha uc context p frame)" for p
    unfolding genesis_def Let_def
    by (rule policy_kept [THEN after_bind] | rule after_steps | rule after_any | (simp add: policy_same replay_empty_def; fail))+
  moreover obtain p where "r = R_PendingInit p" using assms None by (cases r) (simp_all add: apply_next_def)
  ultimately have "rp_policy s = policy_replay_default"
    using assms entry_steps(5) unfolding None by (auto simp: apply_next_def after_def steps)
  then show ?thesis using \<open>r = R_PendingInit p\<close> None by (simp add: tells_none)
next
  case (Some s0)
  have "after (\<lambda>x. tells (rp_policy s0) (policy_events r) (rp_policy x)) (apply_frame sha uc ix context r digest frame s0)"
    unfolding apply_frame_def replay_apply_def Let_def
    by (rule apply_record_tells [THEN after_bind] | rule policy_kept [THEN after_then] | rule after_steps | rule after_any |
      (simp add: policy_same; fail))+
  then show ?thesis using assms Some by (simp add: apply_next_def after_def)
qed

end
