(* ===== verification/ReplayBounds.thy ===== *)
theory ReplayBounds
  imports ReplaySafe
begin

section \<open>What holds in every replayed state\<close>

text \<open>
  The invariant of \<open>ReplayInv\<close> read as statements on the state of \<open>authority/conversation/state.rs\<close>: the state is well formed,
  and the capacity that \<open>reserve\<close> holds back is bounded and covers the end of the active turn.
\<close>

subsection \<open>A state to start from\<close>

definition demo_start_context :: frame_context where
  "demo_start_context = \<lparr>fc_installation_id = replicate 16 1, fc_transition_id = replicate 16 2, fc_sequence = 1,
    fc_prior_digest = zero_hash, fc_expected_revision = 0, fc_owner_generation = 1\<rparr>"

definition demo_init :: pending_init where
  "demo_init = \<lparr>pi_request = replicate 16 3, pi_digest = replicate 32 9, pi_mode = 1, pi_configuration_revision = 1,
    pi_configuration_digest = replicate 32 4, pi_graph = replicate 16 5\<rparr>"

definition demo_locator :: locator where
  "demo_locator = \<lparr>loc_sequence = 1, loc_segment = 1, loc_offset = 0, loc_length = 289\<rparr>"

definition demo_index :: index_reads where
  "demo_index = memory_index (\<lambda>_. replicate 32 9) []"

definition demo_state :: replay where
  "demo_state = (case apply_next (\<lambda>_. replicate 32 9) demo_unicode demo_index None demo_start_context (R_PendingInit demo_init)
    (replicate 32 9) demo_locator of Inr s \<Rightarrow> s | Inl _ \<Rightarrow> replay_empty zero_id demo_init)"

lemma demo_ids: "replicate 16 (1::u8) \<noteq> zero_id" "replicate 16 (5::u8) \<noteq> zero_id" "replicate 16 (5::u8) \<noteq> replicate 16 1"
  by (simp_all add: zero_id_def)

lemma demo_state_applied:
  "apply_next (\<lambda>_. replicate 32 9) demo_unicode demo_index None demo_start_context (R_PendingInit demo_init)
    (replicate 32 9) demo_locator = Inr demo_state"
proof -
  have "\<exists>s. apply_next (\<lambda>_. replicate 32 9) demo_unicode demo_index None demo_start_context (R_PendingInit demo_init)
    (replicate 32 9) demo_locator = Inr s"
    by (simp add: apply_next_def genesis_def demo_start_context_def demo_init_def request_digest_def generate_def
        check_def Let_def insert_request_def charge_def replay_empty_def next_u64_def u64_checked_add_def reserve_def
        operation_capacities_def input_values_def job_ledger_def memory_charge_def live_charge_def demo_ids lift_result_def)
  then show ?thesis by (auto simp: demo_state_def)
qed

lemma demo_state_reached: "reached (\<lambda>_. replicate 32 9) demo_unicode demo_state"
  by (rule first_frame [OF _ demo_state_applied]) (simp add: wf_pending_init_def demo_init_def)

subsection \<open>Well-formed states\<close>

text \<open>C5: Every state that frames reach is well formed. An operation without an end is the active one, and the conversation of the
  active operation is resident; every call of an operation but the last has its result; at most 16 inputs are unresolved
  and at most 64 jobs unsettled; inputs and jobs are stored under their own IDs, and a settled input is not unresolved.\<close>

theorem reached_state_well_formed:
  assumes "\<forall>m. length (sha m) = 32" "reached sha uc s"
  shows "(\<forall>i op. bt_get (rp_operations s) i = Some op \<longrightarrow> (op_terminal op = None \<longleftrightarrow> rp_active_operation s = Some i) \<and>
      list_all (\<lambda>tool. \<not> tool_unresolved tool) (butlast (op_tools op)) \<and>
      length (resp_pieces (op_response op)) \<le> rp_piece_limit s) \<and>
    (\<forall>i. rp_active_operation s = Some i \<longrightarrow>
      (\<exists>op. bt_get (rp_operations s) i = Some op \<and> bt_get (rp_conversations s) (op_conversation op) \<noteq> None)) \<and>
    (\<forall>i q. bt_get (rp_inputs s) i = Some q \<longrightarrow> qi_request q = i \<and> (qi_settled q \<noteq> None \<longrightarrow> \<not> unresolved i s)) \<and>
    length (filter (\<lambda>(i, _). unresolved i s) (rp_inputs s)) \<le> MAX_INPUTS \<and>
    (\<forall>i job. bt_get (rp_jobs s) i = Some job \<longrightarrow> uj_job job = i) \<and> length (rp_jobs s) \<le> MAX_UNSETTLED_JOBS"
proof -
  have inv: "replay_inv s" using reached_inv [OF assms(2)] assms(1) by (simp add: sha_sized_def)
  have "qi_request q = i \<and> (qi_settled q \<noteq> None \<longrightarrow> \<not> unresolved i s)" if "bt_get (rp_inputs s) i = Some q" for i q
    using input_ok_of [OF inv that] that by (simp add: input_ok_def settled_ok_def unresolved_iff)
  moreover have "length (filter (\<lambda>(i, _). unresolved i s) (rp_inputs s)) \<le> MAX_INPUTS"
    using inv open_inputs_unresolved [OF inv] by (simp add: replay_inv_def)
  moreover have "\<exists>op. bt_get (rp_operations s) i = Some op \<and> bt_get (rp_conversations s) (op_conversation op) \<noteq> None"
    if "rp_active_operation s = Some i" for i
    using inv that by (auto simp: replay_inv_def operations_inv_def active_resident_def)
  ultimately show ?thesis
    using inv unfolding replay_inv_def operations_inv_def operation_ok_def jobs_inv_def by simp
qed

theorem reached_state_well_formed_witness:
  "reached (\<lambda>_. replicate 32 9) demo_unicode demo_state \<and>
    length (filter (\<lambda>(i, _). unresolved i demo_state) (rp_inputs demo_state)) \<le> MAX_INPUTS"
  using reached_state_well_formed [OF _ demo_state_reached] demo_state_reached by simp

subsection \<open>Reservations\<close>

lemma reached_reserved:
  assumes "reached sha uc s" "sha_sized sha"
  obtains s0 where "replay_inv s0" "reserve s0 = Inr s"
  using assms(1)
proof cases
  case (first_frame r ix ctx digest frame)
  then obtain p where r: "r = R_PendingInit p" by (cases r) (simp_all add: apply_next_def)
  then obtain s1 n where s1: "genesis sha uc ctx p frame = Inr s1"
      "reserve (s1\<lparr>rp_sequence := fc_sequence ctx, rp_revision := n, rp_last_digest := digest, rp_last_frame := frame\<rparr>) = Inr s"
    using first_frame(2) by (auto simp: apply_next_def steps)
  then have "replay_inv s1" using genesis_keeps [of p sha uc ctx frame] first_frame(1) r by (simp add: safe_iff)
  then show ?thesis using that [OF _ s1(2)] by simp
next
  case (next_frame s' r ix ctx digest frame)
  have inv: "replay_inv s'" using reached_inv [OF next_frame(1) assms(2)] .
  from next_frame(3) obtain s1 n where s1: "replay_apply sha uc ix r (fc_owner_generation ctx) frame
      (charge 128 (s'\<lparr>rp_transition_ids := insert (fc_transition_id ctx) (rp_transition_ids s'), rp_activity := None,
        rp_claimed := {}\<rparr>)) = Inr s1"
      "reserve (evict (s1\<lparr>rp_sequence := fc_sequence ctx, rp_revision := n, rp_last_digest := digest, rp_last_frame := frame\<rparr>)) = Inr s"
    by (auto simp: apply_next_def apply_frame_def steps Let_def)
  have "replay_inv s1"
    using replay_apply_keeps [of "charge 128 (s'\<lparr>rp_transition_ids := insert (fc_transition_id ctx) (rp_transition_ids s'),
      rp_activity := None, rp_claimed := {}\<rparr>)" r sha uc ix "fc_owner_generation ctx" frame] inv next_frame(2) assms(2) s1(1)
    by (simp add: safe_iff)
  then show ?thesis using that [OF evict_inv s1(2)] by simp
qed

lemma input_capacities_bound:
  "length (input_capacities s q) \<le> (if unresolved (qi_request q) s then 2 else 0) \<and>
    sum_list (input_capacities s q) \<le> (if unresolved (qi_request q) s then 498 else 0)"
proof (cases "input_status (qi_request q) s")
  case (Some st)
  then show ?thesis by (cases st) (simp_all add: input_capacities_def unresolved_def)
qed (simp add: input_capacities_def)

lemma concat_bound:
  "(\<And>x. length (f x) \<le> (if P x then a else 0)) \<Longrightarrow> length (concat (map f xs)) \<le> a * length (filter P xs)"
  "(\<And>x. sum_list (f x) \<le> (if P x then b else 0)) \<Longrightarrow> sum_list (concat (map f xs)) \<le> b * length (filter P xs)"
  for f :: "'a \<Rightarrow> nat list"
proof -
  assume bound: "\<And>x. length (f x) \<le> (if P x then a else 0)"
  show "length (concat (map f xs)) \<le> a * length (filter P xs)"
  proof (induction xs)
    case (Cons x xs)
    then show ?case using bound [of x] by (cases "P x") simp_all
  qed simp
next
  assume bound: "\<And>x. sum_list (f x) \<le> (if P x then b else 0)"
  show "sum_list (concat (map f xs)) \<le> b * length (filter P xs)"
  proof (induction xs)
    case (Cons x xs)
    then show ?case using bound [of x] by (cases "P x") (simp_all del: sum_list_eq_0_iff)
  qed simp
qed

lemma job_ledger_bound:
  "fst (job_ledger jobs) \<le> 4481 * length jobs \<and> snd (job_ledger jobs) \<le> 2 * length jobs"
  by (induction jobs rule: rev_induct) (simp_all add: job_ledger_def case_prod_beta)

lemma call_capacities_bound: "call_capacities op = Inr call \<Longrightarrow> length call \<le> 2 \<and> sum_list call \<le> 16853"
  by (auto simp: call_capacities_def steps split: if_splits)

lemma turn_capacities_bound: "length (turn_capacities owner op) \<le> 3 \<and> sum_list (turn_capacities owner op) \<le> 649"
  by (simp add: turn_capacities_def)

lemma operation_capacities_bound:
  assumes "operation_capacities s = Inr held"
  shows "length held \<le> 6 \<and> sum_list held \<le> 79177 \<and> (rp_active_operation s \<noteq> None \<longrightarrow> TERMINAL_CAPACITY \<le> sum_list held)"
proof (cases "rp_active_operation s")
  case None
  then show ?thesis using assms by (simp add: operation_capacities_def)
next
  case (Some i)
  then obtain op call where "call_capacities op = Inr call" "held = TERMINAL_CAPACITY # call @ turn_capacities (rp_owner_generation s) op"
    using assms by (auto simp: operation_capacities_def steps)
  then show ?thesis
    using call_capacities_bound [of op call] turn_capacities_bound [of "rp_owner_generation s" op] by simp
qed

lemma reserve_bound:
  assumes "replay_inv s0" "reserve s0 = Inr s"
  shows "rp_reserved_frames s \<le> 166 \<and> rp_reserved_bytes s \<le> 373929 \<and> memory_charge s \<le> MAX_MEMORY \<and>
    rp_active_operation s = rp_active_operation s0 \<and> (rp_active_operation s \<noteq> None \<longrightarrow> TERMINAL_CAPACITY \<le> rp_reserved_bytes s)"
proof -
  let ?inputs = "concat (map (input_capacities s0) (input_values s0))"
  obtain bytes frames where ledger: "job_ledger (map snd (rp_jobs s0)) = (bytes, frames)" by fastforce
  then obtain held where held: "operation_capacities s0 = Inr held"
      "s = s0\<lparr>rp_reserved_bytes := sum_list (held @ ?inputs) + bytes, rp_reserved_frames := length (held @ ?inputs) + frames\<rparr>"
      "\<not> memory_charge s > MAX_MEMORY"
    using assms(2) by (auto simp: reserve_def steps Let_def)
  have "length (filter (\<lambda>q. unresolved (qi_request q) s0) (input_values s0)) \<le> MAX_INPUTS"
  proof -
    have "map snd (filter (\<lambda>(i, _). unresolved i s0) (rp_inputs s0)) = filter (\<lambda>q. unresolved (qi_request q) s0) (input_values s0)"
      using input_ok_of [OF assms(1)] assms(1)
      by (auto simp: input_values_def filter_map comp_def replay_inv_def inputs_inv_def bt_get_set input_ok_def intro!: map_cong filter_cong)
    then have "length (filter (\<lambda>(i, _). unresolved i s0) (rp_inputs s0)) =
        length (filter (\<lambda>q. unresolved (qi_request q) s0) (input_values s0))" by (metis length_map)
    then show ?thesis using assms(1) open_inputs_unresolved [OF assms(1)] by (simp add: replay_inv_def)
  qed
  then have "length ?inputs \<le> 2 * 16" "sum_list ?inputs \<le> 498 * 16"
    using concat_bound(1) [of "input_capacities s0" "\<lambda>q. unresolved (qi_request q) s0" 2 "input_values s0"]
      concat_bound(2) [of "input_capacities s0" "\<lambda>q. unresolved (qi_request q) s0" 498 "input_values s0"]
      input_capacities_bound [of s0] by (simp_all del: sum_list_eq_0_iff)
  moreover have "bytes \<le> 4481 * 64" "frames \<le> 2 * 64"
    using job_ledger_bound [of "map snd (rp_jobs s0)"] jobs_inv_of [OF assms(1)] ledger by (simp_all add: jobs_inv_def)
  ultimately show ?thesis using held operation_capacities_bound [OF held(1)] by auto
qed

lemma terminal_frame_length:
  assumes "\<forall>m. is_hash (sha m)" "wf_context c" "wf_turn_terminal p" "encode_frame sha c (R_TurnTerminal p) = Inr bs"
  shows "length bs \<le> TERMINAL_CAPACITY"
proof -
  obtain payload resulting where f: "turn_terminal_payload p = Inr payload"
      "bs = frame_bytes sha c (record_kind (R_TurnTerminal p)) (HEADER + length payload + TRAILER) resulting payload"
    using assms(4) by (auto simp: encode_frame_def result_bind_eq_Inr Let_def split: if_splits option.splits)
  have "length payload \<le> 51 + 61440"
    using f(1) assms(3) by (auto simp: turn_terminal_payload_def wf_turn_terminal_def write_simps str32_def w_flag_def split: if_splits)
  then show ?thesis using length_frame_bytes [OF assms(1,2)] f(2) by simp
qed

text \<open>C6: What replay holds back is bounded and is enough. In every state that frames reach, at most 166 frames and 373,929 bytes
  are reserved and the charged memory is within 16 MiB; and while a turn is active, the frame that ends it fits the
  reserved bytes, whatever its text.\<close>

theorem reservation_covers_end:
  assumes "\<forall>m. length (sha m) = 32" "reached sha uc s"
  shows "rp_reserved_frames s \<le> 166 \<and> rp_reserved_bytes s \<le> 373929 \<and> memory_charge s \<le> MAX_MEMORY \<and>
    (rp_active_operation s \<noteq> None \<longrightarrow> (\<forall>c p bs. wf_context c \<longrightarrow> wf_turn_terminal p \<longrightarrow>
      encode_frame sha c (R_TurnTerminal p) = Inr bs \<longrightarrow> length bs \<le> rp_reserved_bytes s))"
proof -
  obtain s0 where "replay_inv s0" "reserve s0 = Inr s"
    using reached_reserved [OF assms(2)] assms(1) by (auto simp: sha_sized_def)
  note bound = reserve_bound [OF this]
  have "length bs \<le> rp_reserved_bytes s"
    if "rp_active_operation s \<noteq> None" "wf_context c" "wf_turn_terminal p" "encode_frame sha c (R_TurnTerminal p) = Inr bs" for c p bs
  proof -
    have "length bs \<le> TERMINAL_CAPACITY" using terminal_frame_length [of sha c p bs] assms(1) that by simp
    moreover have "TERMINAL_CAPACITY \<le> rp_reserved_bytes s" using bound that(1) by blast
    ultimately show ?thesis by (rule le_trans)
  qed
  then show ?thesis using bound by blast
qed

theorem reservation_covers_end_witness:
  "reached (\<lambda>_. replicate 32 9) demo_unicode demo_state \<and> rp_reserved_frames demo_state \<le> 166"
  using reservation_covers_end [OF _ demo_state_reached] demo_state_reached by simp

end
