(* ===== verification/Journals.thy ===== *)
theory Journals
  imports ReplayBounds "HOL-Library.Sublist"
begin

section \<open>Accepted journals\<close>

text \<open>
  What a journal is that \<open>replay\<close> of \<open>authority/conversation/state.rs\<close> accepts: the encoded frames of well-formed records one
  after another and nothing else, chained by sequence, revision and digest; and how replay reacts to the cancel flag.
\<close>

subsection \<open>One frame at a time\<close>

lemma frame_written:
  assumes "\<forall>m. is_hash (sha m)" "envelope sha bs = Inr e" "decode_record sha (ev_kind e) (ev_payload e) = Inr r"
    "fc_sequence (ev_context e) \<noteq> 0"
  obtains post frame where "bs = frame @ post" "wf_context (ev_context e)" "wf_record r" "encode_frame sha (ev_context e) r = Inr frame"
    "ev_length e = length frame" "ev_digest e = sha (take (length frame - TRAILER) frame)"
proof -
  from assms(2) obtain resulting post where e: "wf_envelope e"
      "u64_checked_add (fc_expected_revision (ev_context e)) 1 = Some resulting"
      "bs = frame_bytes sha (ev_context e) (ev_kind e) (ev_length e) resulting (ev_payload e) @ post"
      "ev_digest e = sha (take (ev_length e - TRAILER) bs)"
    unfolding envelope_exact [OF assms(1)] by blast
  let ?frame = "frame_bytes sha (ev_context e) (ev_kind e) (ev_length e) resulting (ev_payload e)"
  have r: "wf_record r" "record_kind r = ev_kind e" "record_payload sha r = Inr (ev_payload e)"
    using assms(3) by (auto simp: decode_record_def record_reading_exact split: if_splits)
  have len: "length ?frame = ev_length e"
    using length_frame_bytes [OF assms(1)] e(1) by (simp add: wf_envelope_def)
  moreover have "encode_frame sha (ev_context e) r = Inr ?frame"
    using r e(1,2) assms(4) by (simp add: encode_frame_def wf_envelope_def Let_def)
  moreover have "ev_digest e = sha (take (length ?frame - TRAILER) ?frame)"
    using e(4) len e(3) by simp
  ultimately show thesis using that [OF e(3)] e(1) r(1) by (simp add: wf_envelope_def)
qed

lemma frame_read:
  assumes "\<forall>m. is_hash (sha m)" "wf_context c" "wf_record r" "encode_frame sha c r = Inr frame"
  obtains e where "envelope sha (frame @ post) = Inr e" "decode_record sha (ev_kind e) (ev_payload e) = Inr r"
    "ev_context e = c" "ev_length e = length frame" "ev_digest e = sha (take (length frame - TRAILER) frame)"
    "fc_sequence c \<noteq> 0" "length frame \<noteq> 0"
proof -
  from assms(4) obtain p resulting where p: "record_payload sha r = Inr p" "HEADER + length p + TRAILER \<le> MAX_FRAME"
    "u64_checked_add (fc_expected_revision c) 1 = Some resulting" "fc_installation_id c \<noteq> zero_id"
    "fc_transition_id c \<noteq> zero_id" "fc_owner_generation c \<noteq> 0" "fc_sequence c \<noteq> 0"
    "frame = frame_bytes sha c (record_kind r) (HEADER + length p + TRAILER) resulting p"
    by (auto simp: encode_frame_def result_bind_eq_Inr Let_def not_less split: if_splits option.splits)
  have len: "length frame = HEADER + length p + TRAILER" unfolding p(8) by (rule length_frame_bytes [OF assms(1,2)])
  let ?e = "\<lparr>ev_context = c, ev_kind = record_kind r, ev_payload = p,
    ev_digest = sha (take (length frame - TRAILER) frame), ev_length = length frame\<rparr>"
  have "envelope sha (frame @ post) = Inr ?e"
    unfolding envelope_exact [OF assms(1)] using p assms(2) len by (auto simp: wf_envelope_def)
  moreover have "decode_record sha (record_kind r) p = Inr r"
    using assms(3) p(1,2) by (simp add: decode_record_def record_reading_exact)
  ultimately show thesis using that [of ?e] p(7) len by simp
qed

subsection \<open>The reference: records applied one after another\<close>

type_synonym item = "frame_context \<times> journal_record \<times> bytes"

definition item_bytes :: "item list \<Rightarrow> bytes" where
  "item_bytes items = concat (map (\<lambda>(_, _, bs). bs) items)"

definition item_digest :: "(bytes \<Rightarrow> bytes) \<Rightarrow> bytes \<Rightarrow> hash32" where
  "item_digest sha bs = sha (take (length bs - TRAILER) bs)"

definition framed :: "(bytes \<Rightarrow> bytes) \<Rightarrow> item list \<Rightarrow> bool" where
  "framed sha items \<longleftrightarrow> list_all (\<lambda>(c, r, bs). wf_context c \<and> wf_record r \<and> encode_frame sha c r = Inr bs) items"

fun apply_items :: "(bytes \<Rightarrow> bytes) \<Rightarrow> unicode \<Rightarrow> index_reads \<Rightarrow> nat \<Rightarrow> item list \<Rightarrow> replay option \<Rightarrow> replay outcome" where
  "apply_items sha uc ix offset [] state = (case state of None \<Rightarrow> Inl (Err Empty) | Some s \<Rightarrow> Inr s)"
| "apply_items sha uc ix offset ((c, r, bs) # items) state =
    result_bind (u32_try_from offset) (\<lambda>at.
    result_bind (apply_next sha uc ix state c r (item_digest sha bs)
      \<lparr>loc_sequence = fc_sequence c, loc_segment = 1, loc_offset = at, loc_length = of_nat (length bs)\<rparr>) (\<lambda>s.
    apply_items sha uc ix (offset + length bs) items (Some s)))"

lemma apply_next_sequence:
  "apply_next sha uc ix state c r digest frame = Inr s \<Longrightarrow>
    fc_sequence c \<noteq> 0 \<and> (case state of None \<Rightarrow> fc_sequence c = 1 | Some s0 \<Rightarrow> u64_checked_add (rp_sequence s0) 1 = Some (fc_sequence c))"
proof (cases state)
  case None
  assume "apply_next sha uc ix state c r digest frame = Inr s"
  then show ?thesis unfolding None by (cases r) (auto simp: apply_next_def genesis_def steps)
next
  case (Some s0)
  assume "apply_next sha uc ix state c r digest frame = Inr s"
  then have "u64_checked_add (rp_sequence s0) 1 = Some (fc_sequence c)"
    unfolding Some by (auto simp: apply_next_def apply_frame_def steps)
  then show ?thesis using Some u64_checked_add_1 [of "fc_sequence c" "rp_sequence s0"] by auto
qed

lemma replay_frames_items:
  assumes "\<forall>m. is_hash (sha m)" "replay_frames sha uc (\<lambda>_. False) journal n offset state = Inr s" "offset \<le> length journal"
  shows "\<exists>items. drop offset journal = item_bytes items \<and> framed sha items \<and>
    apply_items sha uc (memory_index sha journal) offset items state = Inr s"
  using assms
proof (induction sha uc "\<lambda>_ :: nat. False" journal n offset state rule: replay_frames.induct)
  case (1 sha uc journal n offset state)
  show ?case
  proof (cases "offset < length journal")
    case True
    then obtain e at r s1 where step:
      "envelope sha (drop offset journal) = Inr e" "u32_try_from offset = Inr at"
      "decode_record sha (ev_kind e) (ev_payload e) = Inr r"
      "apply_next sha uc (memory_index sha journal) state (ev_context e) r (ev_digest e)
        \<lparr>loc_sequence = fc_sequence (ev_context e), loc_segment = 1, loc_offset = at, loc_length = of_nat (ev_length e)\<rparr> = Inr s1"
      "replay_frames sha uc (\<lambda>_. False) journal (n + 1) (offset + ev_length e) (Some s1) = Inr s"
      using 1(3) by (subst (asm) replay_frames.simps) (auto simp: steps Let_def not_cancelled_def)
    obtain post frame where f: "drop offset journal = frame @ post" "wf_context (ev_context e)" "wf_record r"
        "encode_frame sha (ev_context e) r = Inr frame" "ev_length e = length frame" "ev_digest e = item_digest sha frame"
      using frame_written [OF 1(2) step(1,3) conjunct1 [OF apply_next_sequence [OF step(4)]]] unfolding item_digest_def by blast
    have tail: "slice_of offset (length journal) journal = Inr (drop offset journal)" using True by simp
    have "drop (offset + ev_length e) journal = post"
      using arg_cong [OF f(1), of "drop (length frame)"] f(5) by (simp add: add.commute)
    moreover have "offset + ev_length e \<le> length journal"
      using arg_cong [OF f(1), of length] f(5) True by simp
    ultimately have "\<exists>items. post = item_bytes items \<and> framed sha items \<and>
        apply_items sha uc (memory_index sha journal) (offset + ev_length e) items (Some s1) = Inr s"
      using 1(1) [OF _ _ tail step(1,2) _ _ _ 1(2) step(5)] step True by (simp add: not_cancelled_def)
    then obtain items where items: "post = item_bytes items" "framed sha items"
        "apply_items sha uc (memory_index sha journal) (offset + ev_length e) items (Some s1) = Inr s" by blast
    show ?thesis
      by (rule exI [of _ "(ev_context e, r, frame) # items"]) (use f items step in \<open>simp add: item_bytes_def framed_def\<close>)
  next
    case False
    then show ?thesis
      using 1(3) by (subst (asm) replay_frames.simps)
        (auto simp: steps not_cancelled_def item_bytes_def framed_def split: option.splits intro!: exI [of _ "[]"])
  qed
qed

lemma items_replay_frames:
  assumes "\<forall>m. is_hash (sha m)" "drop offset journal = item_bytes items" "framed sha items" "offset \<le> length journal"
    "apply_items sha uc (memory_index sha journal) offset items state = Inr s"
  shows "replay_frames sha uc (\<lambda>_. False) journal n offset state = Inr s"
  using assms(2-)
proof (induction items arbitrary: offset state n)
  case Nil
  then have "\<not> offset < length journal" by (simp add: item_bytes_def)
  then show ?case
    using Nil.prems(4) by (subst replay_frames.simps) (simp add: not_cancelled_def)
next
  case (Cons item items)
  obtain c r frame where item: "item = (c, r, frame)" by (cases item) auto
  have f: "wf_context c" "wf_record r" "encode_frame sha c r = Inr frame" "framed sha items"
    using Cons.prems(2) by (simp_all add: item framed_def)
  have at: "drop offset journal = frame @ item_bytes items" using Cons.prems(1) by (simp add: item item_bytes_def)
  obtain e where e: "envelope sha (drop offset journal) = Inr e" "decode_record sha (ev_kind e) (ev_payload e) = Inr r"
      "ev_context e = c" "ev_length e = length frame" "ev_digest e = item_digest sha frame" "frame \<noteq> []"
    using frame_read [OF assms(1) f(1-3), of "item_bytes items"] unfolding at item_digest_def by blast
  obtain at' s1 where step: "u32_try_from offset = Inr at'"
      "apply_next sha uc (memory_index sha journal) state c r (item_digest sha frame)
        \<lparr>loc_sequence = fc_sequence c, loc_segment = 1, loc_offset = at', loc_length = of_nat (length frame)\<rparr> = Inr s1"
      "apply_items sha uc (memory_index sha journal) (offset + length frame) items (Some s1) = Inr s"
    using Cons.prems(4) by (auto simp: item steps)
  have inside: "offset < length journal" "offset + length frame \<le> length journal"
    using arg_cong [OF at, of length] e(6) Cons.prems(3) by simp_all (cases frame, simp_all)
  moreover have "drop (offset + length frame) journal = item_bytes items"
    using arg_cong [OF at, of "drop (length frame)"] by (simp add: add.commute)
  ultimately have "replay_frames sha uc (\<lambda>_. False) journal (n + 1) (offset + length frame) (Some s1) = Inr s"
    using Cons.IH f(4) step(3) by simp
  then show ?case
    using e step inside(1) by (subst replay_frames.simps) (simp add: not_cancelled_def Let_def)
qed

lemma accepted_items:
  assumes "\<forall>m. is_hash (sha m)" "replay_journal sha uc (\<lambda>_. False) journal = Inr s"
  obtains items where "items \<noteq> []" "journal = item_bytes items" "framed sha items"
    "apply_items sha uc (memory_index sha journal) 0 items None = Inr s"
proof -
  have r: "replay_frames sha uc (\<lambda>_. False) journal 1 0 None = Inr s" "journal \<noteq> []"
    using assms(2) by (auto simp: replay_journal_def steps not_cancelled_def split: if_splits)
  obtain items where items: "journal = item_bytes items" "framed sha items"
      "apply_items sha uc (memory_index sha journal) 0 items None = Inr s"
    using replay_frames_items [OF assms(1) r(1)] by auto
  moreover have "items \<noteq> []" using r(2) items(1) by (auto simp: item_bytes_def)
  ultimately show thesis using that by blast
qed

text \<open>C1: Replay is exact. It returns a state for a journal exactly when the journal is the encodings of well-formed records in
  well-formed contexts, one after another with nothing before, between or after them, and applying these records in order
  gives that state.\<close>

theorem replay_exact:
  assumes "\<forall>m. length (sha m) = 32"
  shows "replay_journal sha uc (\<lambda>_. False) journal = Inr s \<longleftrightarrow> (\<exists>items. items \<noteq> [] \<and> journal = item_bytes items \<and>
    framed sha items \<and> apply_items sha uc (memory_index sha journal) 0 items None = Inr s)"
proof
  assume "replay_journal sha uc (\<lambda>_. False) journal = Inr s"
  then show "\<exists>items. items \<noteq> [] \<and> journal = item_bytes items \<and> framed sha items \<and>
      apply_items sha uc (memory_index sha journal) 0 items None = Inr s"
    using accepted_items [of sha uc journal s] assms by auto
next
  assume "\<exists>items. items \<noteq> [] \<and> journal = item_bytes items \<and> framed sha items \<and>
      apply_items sha uc (memory_index sha journal) 0 items None = Inr s"
  then obtain items where items: "items \<noteq> []" "journal = item_bytes items" "framed sha items"
      "apply_items sha uc (memory_index sha journal) 0 items None = Inr s" by blast
  have "replay_frames sha uc (\<lambda>_. False) journal 1 0 None = Inr s"
    by (rule items_replay_frames [of _ _ _ items]) (use assms items in simp_all)
  moreover have "journal \<noteq> []"
  proof -
    obtain c r frame where item: "hd items = (c, r, frame)" by (cases "hd items") auto
    then have "wf_context c" "wf_record r" "encode_frame sha c r = Inr frame"
      using items(1,3) by (cases items; simp add: framed_def)+
    then have "frame \<noteq> []" using frame_read [of sha c r frame "[]"] assms by auto
    then show ?thesis using items(1,2) item by (cases items) (auto simp: item_bytes_def)
  qed
  ultimately show "replay_journal sha uc (\<lambda>_. False) journal = Inr s"
    by (simp add: replay_journal_def not_cancelled_def)
qed

definition demo_payload :: bytes where
  "demo_payload = replicate 16 3 @ replicate 32 9 @ [1] @ be64 1 @ replicate 32 4 @ replicate 16 5"

definition demo_journal :: bytes where
  "demo_journal = frame_bytes (\<lambda>_. replicate 32 9) demo_start_context 10 289 1 demo_payload"

lemma demo_framed: "framed (\<lambda>_. replicate 32 9) [(demo_start_context, R_PendingInit demo_init, demo_journal)]"
proof -
  have "record_payload (\<lambda>_. replicate 32 9) (R_PendingInit demo_init) = Inr demo_payload"
    by (simp add: pending_init_payload_def demo_init_def demo_payload_def write_simps)
  moreover have "length demo_payload = 105" by (simp add: demo_payload_def)
  moreover have "wf_record (R_PendingInit demo_init)" by (simp add: wf_pending_init_def demo_init_def)
  moreover have "wf_context demo_start_context" by (simp add: wf_context_def demo_start_context_def)
  ultimately show ?thesis
    by (simp add: framed_def encode_frame_def demo_journal_def demo_start_context_def u64_checked_add_def zero_id_def)
qed

lemma demo_journal_length: "length demo_journal = 289"
  unfolding demo_journal_def
  by (subst length_frame_bytes) (simp_all add: wf_context_def demo_start_context_def demo_payload_def)

lemma demo_items_applied:
  "apply_items (\<lambda>_. replicate 32 9) demo_unicode (memory_index (\<lambda>_. replicate 32 9) demo_journal) 0
    [(demo_start_context, R_PendingInit demo_init, demo_journal)] None = Inr demo_state"
  using demo_state_applied
  by (simp add: demo_journal_length u32_try_from_def item_digest_def apply_next_def demo_locator_def demo_start_context_def)

theorem replay_exact_witness: "replay_journal (\<lambda>_. replicate 32 9) demo_unicode (\<lambda>_. False) demo_journal = Inr demo_state"
proof -
  have "\<forall>m :: bytes. length (replicate 32 (9 :: u8)) = 32" by simp
  then show ?thesis
    unfolding replay_exact [OF \<open>\<forall>m :: bytes. length (replicate 32 (9 :: u8)) = 32\<close>]
    using demo_framed demo_items_applied
    by (intro exI [of _ "[(demo_start_context, R_PendingInit demo_init, demo_journal)]"]) (simp add: item_bytes_def)
qed

subsection \<open>The chain of digests\<close>

text \<open>Item \<open>n\<close> of an accepted journal carries the sequence \<open>n + 1\<close>, expects the revision \<open>n\<close> and names the digest of its
  predecessor; the first, and only the first, holds a \<open>PendingInit\<close>.\<close>

fun chained :: "(bytes \<Rightarrow> bytes) \<Rightarrow> nat \<Rightarrow> hash32 \<Rightarrow> item list \<Rightarrow> bool" where
  "chained sha n digest [] = True"
| "chained sha n digest ((c, r, bs) # items) = (unat (fc_sequence c) = n + 1 \<and> unat (fc_expected_revision c) = n \<and>
    fc_prior_digest c = digest \<and> (n = 0 \<longleftrightarrow> record_kind r = 10) \<and> chained sha (n + 1) (item_digest sha bs) items)"

definition end_digest :: "(bytes \<Rightarrow> bytes) \<Rightarrow> hash32 \<Rightarrow> item list \<Rightarrow> hash32" where
  "end_digest sha digest items = (if items = [] then digest else item_digest sha (snd (snd (last items))))"

lemma chained_snoc:
  "chained sha n digest (items @ [(c, r, bs)]) \<longleftrightarrow> chained sha n digest items \<and> unat (fc_sequence c) = n + length items + 1 \<and>
    unat (fc_expected_revision c) = n + length items \<and> fc_prior_digest c = end_digest sha digest items \<and>
    (n + length items = 0 \<longleftrightarrow> record_kind r = 10)"
  by (induction sha n digest items rule: chained.induct) (auto simp: end_digest_def)

definition state_chained :: "nat \<Rightarrow> hash32 \<Rightarrow> replay option \<Rightarrow> bool" where
  "state_chained n digest state \<longleftrightarrow> (case state of None \<Rightarrow> n = 0 \<and> digest = zero_hash
    | Some s \<Rightarrow> n \<noteq> 0 \<and> unat (rp_sequence s) = n \<and> unat (rp_revision s) = n \<and> rp_last_digest s = digest)"

lemma evict_heads: "rp_sequence (evict s) = rp_sequence s" "rp_revision (evict s) = rp_revision s"
  "rp_last_digest (evict s) = rp_last_digest s"
  by (simp_all add: evict_def)

lemma reserve_heads:
  assumes "reserve s = Inr s'"
  shows "rp_sequence s' = rp_sequence s \<and> rp_revision s' = rp_revision s \<and> rp_last_digest s' = rp_last_digest s"
proof -
  obtain bytes frames where "s' = s\<lparr>rp_reserved_bytes := bytes, rp_reserved_frames := frames\<rparr>"
    using assms by (auto simp: reserve_def steps Let_def case_prod_beta split: if_splits)
  then show ?thesis by simp
qed

lemma checked_next: "u64_checked_add a 1 = Some n \<Longrightarrow> unat n = unat a + 1"
  using u64_checked_add_1 [of n a] by simp

lemma apply_next_chained:
  assumes "apply_next sha uc ix state c r digest frame = Inr s" "state_chained n prior state"
  shows "unat (fc_sequence c) = n + 1 \<and> unat (fc_expected_revision c) = n \<and> fc_prior_digest c = prior \<and>
    (n = 0 \<longleftrightarrow> record_kind r = 10) \<and> state_chained (n + 1) digest (Some s)"
proof (cases state)
  case None
  then obtain p where r: "r = R_PendingInit p" using assms(1) by (cases r) (simp_all add: apply_next_def)
  then show ?thesis
    using assms unfolding None r
    by (auto simp: apply_next_def genesis_def steps state_chained_def dest!: reserve_heads checked_next)
next
  case (Some s0)
  obtain s1 revision where a: "u64_checked_add (rp_sequence s0) 1 = Some (fc_sequence c)" "fc_prior_digest c = rp_last_digest s0"
      "fc_expected_revision c = rp_revision s0" "u64_checked_add (fc_expected_revision c) 1 = Some revision"
      "reserve (evict (s1\<lparr>rp_sequence := fc_sequence c, rp_revision := revision, rp_last_digest := digest, rp_last_frame := frame\<rparr>)) = Inr s"
    using assms(1) unfolding Some by (auto simp: apply_next_def apply_frame_def steps Let_def)
  have "record_kind r \<noteq> 10"
    using assms(1) unfolding Some
    by (cases r) (auto simp: apply_next_def apply_frame_def replay_apply_def apply_record_def steps Let_def)
  then show ?thesis
    using a(2,3) checked_next [OF a(1)] checked_next [OF a(4)] reserve_heads [OF a(5)] assms(2) Some
    by (auto simp: state_chained_def evict_heads)
qed

lemma apply_items_chained:
  "apply_items sha uc ix offset items state = Inr s \<Longrightarrow> state_chained n digest state \<Longrightarrow>
    chained sha n digest items \<and> state_chained (n + length items) (end_digest sha digest items) (Some s)"
proof (induction items arbitrary: offset state n digest)
  case Nil
  then show ?case by (simp add: end_digest_def split: option.splits)
next
  case (Cons item items)
  obtain c r bs where item: "item = (c, r, bs)" by (cases item) auto
  obtain at s1 where step: "apply_next sha uc ix state c r (item_digest sha bs)
        \<lparr>loc_sequence = fc_sequence c, loc_segment = 1, loc_offset = at, loc_length = of_nat (length bs)\<rparr> = Inr s1"
      "apply_items sha uc ix (offset + length bs) items (Some s1) = Inr s"
    using Cons.prems(1) by (auto simp: item steps)
  show ?case
    using apply_next_chained [OF step(1) Cons.prems(2)] Cons.IH [OF step(2), of "n + 1" "item_digest sha bs"]
    by (auto simp: item end_digest_def)
qed

lemma accepted_chain:
  assumes "\<forall>m. is_hash (sha m)" "replay_journal sha uc (\<lambda>_. False) journal = Inr s"
  obtains items where "items \<noteq> []" "journal = item_bytes items" "framed sha items" "chained sha 0 zero_hash items"
    "state_chained (length items) (end_digest sha zero_hash items) (Some s)"
proof -
  obtain items where i: "items \<noteq> []" "journal = item_bytes items" "framed sha items"
      "apply_items sha uc (memory_index sha journal) 0 items None = Inr s"
    using accepted_items [OF assms] .
  then show thesis
    using that [OF i(1-3)] apply_items_chained [OF i(4), of 0 zero_hash] by (simp add: state_chained_def)
qed

text \<open>C20: The frames of a journal that replay accepts form one chain. The frame at position \<open>n\<close> has the sequence \<open>n + 1\<close>,
  expects the revision \<open>n\<close> and carries the digest of the frame before it, zero for the first; the first frame and no
  other holds a \<open>PendingInit\<close>. The state has the length of the chain as its sequence and its revision, and the digest
  of the last frame.\<close>

theorem journal_chained:
  assumes "\<forall>m. length (sha m) = 32" "replay_journal sha uc (\<lambda>_. False) journal = Inr s"
  shows "\<exists>items. items \<noteq> [] \<and> journal = item_bytes items \<and> framed sha items \<and> chained sha 0 zero_hash items \<and>
    unat (rp_sequence s) = length items \<and> unat (rp_revision s) = length items \<and>
    rp_last_digest s = end_digest sha zero_hash items"
proof -
  obtain items where "items \<noteq> []" "journal = item_bytes items" "framed sha items" "chained sha 0 zero_hash items"
    "state_chained (length items) (end_digest sha zero_hash items) (Some s)"
    using accepted_chain [OF _ assms(2)] assms(1) by blast
  then show ?thesis by (auto simp: state_chained_def)
qed

lemma demo_replayed: "replay_journal (\<lambda>_. replicate 32 9) demo_unicode (\<lambda>_. False) demo_journal = Inr demo_state"
proof -
  have "replay_frames (\<lambda>_. replicate 32 9) demo_unicode (\<lambda>_. False) demo_journal 1 0 None = Inr demo_state"
    by (rule items_replay_frames [OF _ _ demo_framed _ demo_items_applied]) (simp_all add: item_bytes_def)
  moreover have "demo_journal \<noteq> []" using demo_journal_length by auto
  ultimately show ?thesis by (simp add: replay_journal_def not_cancelled_def)
qed

theorem journal_chained_witness:
  "\<exists>items. items \<noteq> [] \<and> demo_journal = item_bytes items \<and> chained (\<lambda>_. replicate 32 9) 0 zero_hash items \<and>
    unat (rp_sequence demo_state) = length items"
  using journal_chained [OF _ demo_replayed] by auto

subsection \<open>Tampering\<close>

lemma frame_shape:
  assumes "\<forall>m. is_hash (sha m)" "wf_context c" "encode_frame sha c r = Inr bs"
  shows "bs = take (length bs - TRAILER) bs @ item_digest sha bs @ ascii ''ASURAC01''"
proof -
  obtain p resulting where bs: "bs = frame_bytes sha c (record_kind r) (HEADER + length p + TRAILER) resulting p"
    using assms(3) by (auto simp: encode_frame_def result_bind_eq_Inr Let_def split: if_splits option.splits)
  let ?h = "frame_head sha c (record_kind r) (HEADER + length p + TRAILER) resulting p"
  have whole: "bs = ?h @ sha ?h @ ascii ''ASURAC01''" using bs by (simp add: frame_bytes_def Let_def)
  moreover have "length bs - TRAILER = length ?h" using whole assms(1) by simp
  ultimately have "take (length bs - TRAILER) bs = ?h" by (metis append_eq_conv_conj)
  then show ?thesis using whole by (simp add: item_digest_def)
qed

lemma chains_equal:
  assumes "\<forall>m. is_hash (sha m)" "framed sha xs" "framed sha ys" "chained sha 0 zero_hash xs" "chained sha 0 zero_hash ys"
    "xs \<noteq> []" "ys \<noteq> []" "end_digest sha zero_hash xs = end_digest sha zero_hash ys"
    "\<And>a b. sublist a (item_bytes xs) \<Longrightarrow> sublist b (item_bytes ys) \<Longrightarrow> sha a = sha b \<Longrightarrow> a = b"
  shows "item_bytes xs = item_bytes ys"
  using assms(2-)
proof (induction xs arbitrary: ys rule: rev_induct)
  case (snoc x xs)
  obtain c r bs where x: "x = (c, r, bs)" by (cases x) auto
  obtain ys' c' r' bs' where ys: "ys = ys' @ [(c', r', bs')]" using snoc.prems(6) by (metis prod_cases3 rev_exhaust)
  have f: "wf_context c" "wf_record r" "encode_frame sha c r = Inr bs" "wf_context c'" "wf_record r'" "encode_frame sha c' r' = Inr bs'"
    using snoc.prems(1,2) by (simp_all add: framed_def x ys)
  have digest: "item_digest sha bs = item_digest sha bs'" using snoc.prems(7) by (simp add: end_digest_def x ys)
  have bytes: "item_bytes (xs @ [x]) = item_bytes xs @ bs" "item_bytes ys = item_bytes ys' @ bs'"
    by (simp_all add: item_bytes_def x ys)
  have "take (length bs - TRAILER) bs = take (length bs' - TRAILER) bs'"
    using snoc.prems(8) [of "take (length bs - TRAILER) bs" "take (length bs' - TRAILER) bs'"] digest
    by (simp add: bytes item_digest_def sublist_append)
  then have same: "bs = bs'" using frame_shape [OF assms(1) f(1,3)] frame_shape [OF assms(1) f(4,6)] digest by metis
  obtain e where e: "envelope sha (bs @ []) = Inr e" "ev_context e = c" using frame_read [OF assms(1) f(1-3)] by blast
  obtain e' where e': "envelope sha (bs' @ []) = Inr e'" "ev_context e' = c'" using frame_read [OF assms(1) f(4-6)] by blast
  have "c = c'" using e e' same by simp
  moreover have "unat (fc_sequence c) = length xs + 1" "unat (fc_sequence c') = length ys' + 1"
      "fc_prior_digest c = end_digest sha zero_hash xs" "fc_prior_digest c' = end_digest sha zero_hash ys'"
      "chained sha 0 zero_hash xs" "chained sha 0 zero_hash ys'"
    using snoc.prems(3,4) by (simp_all add: x ys chained_snoc)
  moreover have "framed sha xs" "framed sha ys'" using snoc.prems(1,2) by (simp_all add: framed_def ys)
  moreover have "\<And>a b. sublist a (item_bytes xs) \<Longrightarrow> sublist b (item_bytes ys') \<Longrightarrow> sha a = sha b \<Longrightarrow> a = b"
    using snoc.prems(8) by (simp add: bytes sublist_append)
  ultimately have "item_bytes xs = item_bytes ys'"
    using snoc.IH [of ys'] by (cases "xs = []"; cases "ys' = []") simp_all
  then show ?case using bytes same by simp
qed simp

text \<open>C3: A journal cannot be changed behind its last digest. Two journals that replay accepts with the same last digest are the
  same bytes, unless they contain two different byte ranges with the same SHA-256.\<close>

theorem tamper_evident:
  assumes "\<forall>m. length (sha m) = 32" "replay_journal sha uc (\<lambda>_. False) journal1 = Inr s1"
    "replay_journal sha uc (\<lambda>_. False) journal2 = Inr s2" "rp_last_digest s1 = rp_last_digest s2"
  shows "journal1 = journal2 \<or> (\<exists>a b. sublist a journal1 \<and> sublist b journal2 \<and> a \<noteq> b \<and> sha a = sha b)"
proof -
  have hash: "\<forall>m. is_hash (sha m)" using assms(1) by simp
  obtain xs where xs: "xs \<noteq> []" "journal1 = item_bytes xs" "framed sha xs" "chained sha 0 zero_hash xs"
    "state_chained (length xs) (end_digest sha zero_hash xs) (Some s1)" using accepted_chain [OF hash assms(2)] .
  obtain ys where ys: "ys \<noteq> []" "journal2 = item_bytes ys" "framed sha ys" "chained sha 0 zero_hash ys"
    "state_chained (length ys) (end_digest sha zero_hash ys) (Some s2)" using accepted_chain [OF hash assms(3)] .
  have "end_digest sha zero_hash xs = end_digest sha zero_hash ys"
    using xs(5) ys(5) assms(4) by (simp add: state_chained_def)
  then show ?thesis
    using chains_equal [OF hash xs(3) ys(3) xs(4) ys(4) xs(1) ys(1)] unfolding xs(2) ys(2) by blast
qed

theorem tamper_evident_witness:
  "replay_journal (\<lambda>_. replicate 32 9) demo_unicode (\<lambda>_. False) demo_journal = Inr demo_state \<and>
    (demo_journal = demo_journal \<or> (\<exists>a b. sublist a demo_journal \<and> sublist b demo_journal \<and> a \<noteq> b))"
  using tamper_evident [OF _ demo_replayed demo_replayed] demo_replayed by simp

subsection \<open>Cancellation\<close>

lemma envelope_inside: "envelope sha bs = Inr e \<Longrightarrow> ev_length e \<le> length bs"
  by (auto simp: envelope_inside_view envelope_view_def envelope_of_def Let_def split: if_splits option.splits)

lemma replay_frames_end:
  "\<not> offset < length journal \<Longrightarrow> \<not> cancelled n \<Longrightarrow> replay_frames sha uc cancelled journal n offset state =
    (case state of None \<Rightarrow> Inl (Err Empty) | Some s \<Rightarrow> Inr s)"
  by (subst replay_frames.simps) (simp add: not_cancelled_def)

lemma replay_frames_cancelled: "cancelled n \<Longrightarrow> replay_frames sha uc cancelled journal n offset state = Inl (Err Cancelled)"
  by (subst replay_frames.simps) (simp add: not_cancelled_def)

lemma replay_frames_next:
  "offset < length journal \<Longrightarrow> \<not> cancelled n \<Longrightarrow> replay_frames sha uc cancelled journal n offset state =
    result_bind (envelope sha (drop offset journal)) (\<lambda>e. result_bind (u32_try_from offset) (\<lambda>at.
    result_bind (lift_result (decode_record sha (ev_kind e) (ev_payload e))) (\<lambda>r.
    result_bind (apply_next sha uc (memory_index sha journal) state (ev_context e) r (ev_digest e)
      \<lparr>loc_sequence = fc_sequence (ev_context e), loc_segment = 1, loc_offset = at, loc_length = of_nat (ev_length e)\<rparr>) (\<lambda>s.
    replay_frames sha uc cancelled journal (n + 1) (offset + ev_length e) (Some s)))))"
  by (subst replay_frames.simps) (simp add: not_cancelled_def Let_def)

lemma cancelled_frames:
  assumes "replay_frames sha uc cancelled journal n offset state \<noteq> Inl (Err Cancelled) \<or>
    (\<forall>k. n \<le> k \<longrightarrow> k \<le> n + (length journal - offset) div (HEADER + TRAILER) \<longrightarrow> \<not> cancelled k)"
  shows "replay_frames sha uc cancelled journal n offset state = replay_frames sha uc (\<lambda>_. False) journal n offset state"
  using assms
proof (induction "length journal - offset" arbitrary: n offset state rule: less_induct)
  case less
  have now: "\<not> cancelled n" using less.prems replay_frames_cancelled by fastforce
  show ?case
  proof (cases "offset < length journal")
    case False
    then show ?thesis using now by (simp add: replay_frames_end)
  next
    case True
    show ?thesis
      unfolding replay_frames_next [where cancelled = cancelled, OF True now] replay_frames_next [where cancelled = "\<lambda>_. False", OF True iffD2 [OF not_False_eq_True TrueI]]
    proof (intro result_bind_cong [OF refl] less.hyps)
      fix e at r s
      assume e: "envelope sha (drop offset journal) = Inr e" "u32_try_from offset = Inr at"
        "lift_result (decode_record sha (ev_kind e) (ev_payload e)) = Inr r"
        "apply_next sha uc (memory_index sha journal) state (ev_context e) r (ev_digest e)
          \<lparr>loc_sequence = fc_sequence (ev_context e), loc_segment = 1, loc_offset = at, loc_length = of_nat (ev_length e)\<rparr> = Inr s"
      have len: "HEADER + TRAILER \<le> ev_length e" "ev_length e \<le> length journal - offset"
        using envelope_length [OF e(1)] envelope_inside [OF e(1)] by simp_all
      then show "length journal - (offset + ev_length e) < length journal - offset" by simp
      let ?next = "replay_frames sha uc cancelled journal (n + 1) (offset + ev_length e) (Some s)"
      have same: "replay_frames sha uc cancelled journal n offset state = ?next"
        unfolding replay_frames_next [where cancelled = cancelled, OF True now] by (simp only: e result_bind_simps)
      have bound: "n + 1 + (length journal - (offset + ev_length e)) div (HEADER + TRAILER) \<le>
          n + (length journal - offset) div (HEADER + TRAILER)"
        using len by simp
      show "?next \<noteq> Inl (Err Cancelled) \<or>
          (\<forall>k. n + 1 \<le> k \<longrightarrow> k \<le> n + 1 + (length journal - (offset + ev_length e)) div (HEADER + TRAILER) \<longrightarrow> \<not> cancelled k)"
        using less.prems unfolding same by (meson add_leD1 bound le_trans)
    qed
  qed
qed

lemma accepted_uncancelled:
  assumes "replay_journal sha uc cancelled journal = Inr s"
  shows "replay_journal sha uc (\<lambda>_. False) journal = Inr s"
  using assms cancelled_frames [of sha uc cancelled journal 1 0 None]
  by (auto simp: replay_journal_def steps not_cancelled_def)

text \<open>C23: Replay ends, and a cancel flag never changes what it computes. Whatever the flag does, the result is either
  \<open>Cancelled\<close> or the result without a flag; and the flag is loaded at most twice more than frames fit into the journal, so
  a flag that stays down for so many loads has no effect.\<close>

theorem replay_cancellation:
  "(replay_journal sha uc cancelled journal = Inl (Err Cancelled) \<or>
      replay_journal sha uc cancelled journal = replay_journal sha uc (\<lambda>_. False) journal) \<and>
    ((\<forall>n. n < length journal div (HEADER + TRAILER) + 2 \<longrightarrow> \<not> cancelled n) \<longrightarrow>
      replay_journal sha uc cancelled journal = replay_journal sha uc (\<lambda>_. False) journal) \<and>
    (cancelled 0 \<longrightarrow> replay_journal sha uc cancelled journal = Inl (Err Cancelled))"
proof -
  have first: "replay_journal sha uc cancelled journal = replay_frames sha uc cancelled journal 1 0 None"
    if "\<not> cancelled 0" "journal \<noteq> []" for cancelled
    using that by (simp add: replay_journal_def not_cancelled_def)
  have "replay_journal sha uc cancelled journal = Inl (Err Cancelled)" if "cancelled 0"
    using that by (simp add: replay_journal_def not_cancelled_def)
  moreover have "replay_journal sha uc cancelled journal = replay_journal sha uc (\<lambda>_. False) journal"
    if "\<not> cancelled 0" "journal = []"
    using that by (simp add: replay_journal_def not_cancelled_def)
  moreover note cancelled_frames [of sha uc cancelled journal 1 0 None] first [of cancelled] first [of "\<lambda>_. False"]
  ultimately show ?thesis by (cases "cancelled 0"; cases "journal = []") auto
qed

theorem replay_cancellation_witness:
  "replay_journal (\<lambda>_. replicate 32 9) demo_unicode (\<lambda>n. n > 1000) demo_journal =
    replay_journal (\<lambda>_. replicate 32 9) demo_unicode (\<lambda>_. False) demo_journal"
  using replay_cancellation [of "\<lambda>_. replicate 32 9" demo_unicode "\<lambda>n. n > 1000" demo_journal]
  by (auto simp: demo_journal_length)

end
