(* ===== verification/ExampleRecords.thy ===== *)
theory ExampleRecords
  imports Journals
begin

section \<open>An example journal\<close>

text \<open>
  The records of a concrete journal for the witnesses: an installation is bound, a project is registered, a turn is accepted
  and started, a policy revision is activated, and a call of the turn is denied by the policy and recorded as denied. The
  hash is constant, so every digest is the same.
\<close>

abbreviation demo_sha :: "bytes \<Rightarrow> bytes" where "demo_sha \<equiv> \<lambda>_. replicate 32 9"

lemma demo_id_order [simp]: "replicate 16 (a :: u8) < replicate 16 b \<longleftrightarrow> a < b" "replicate 16 (a :: u8) = replicate 16 b \<longleftrightarrow> a = b"
  by (auto simp: numeral_eq_Suc)

lemma demo_id_zero [simp]: "replicate 16 (a :: u8) = zero_id \<longleftrightarrow> a = 0"
  by (simp add: zero_id_def)

subsection \<open>The records\<close>

definition demo_binding :: active_binding where
  "demo_binding = \<lparr>ab_request = replicate 16 3, ab_generation = 1, ab_graph = replicate 16 5, ab_configuration_digest = replicate 32 4\<rparr>"

definition demo_project :: project_registered where
  "demo_project = \<lparr>pr_request = replicate 16 7, pr_digest = replicate 32 9, pr_project = replicate 16 8, pr_location = [0x2F],
    pr_device = 1, pr_inode = 2, pr_registry_revision = 1, pr_visibility = 1\<rparr>"

definition demo_turn :: turn_accepted where
  "demo_turn = \<lparr>ta_request = replicate 16 11, ta_digest = replicate 32 9, ta_project = replicate 16 8, ta_original_conversation = None,
    ta_expected_generation = 0, ta_conversation = replicate 16 12, ta_generation = 1, ta_task = replicate 16 13,
    ta_operation = replicate 16 14, ta_model = [109], ta_configuration_digest = replicate 32 4, ta_instructions_digest = replicate 32 4,
    ta_input_digest = replicate 32 4, ta_prior_operations = [], ta_prompt = [65], ta_event_cursor = 1,
    ta_composition = \<lparr>co_omitted_turns = 0, co_manifest_digest = replicate 32 4, co_composer_revision = 1, co_window_tokens = 0,
      co_output_reservation = 0, co_overhead_tokens = 0, co_bytes_per_token_milli = 0, co_notice_through = 0, co_notice_live = 0,
      co_notice_views = 0\<rparr>, ta_thinking_level = 0, ta_thinking_request = 0\<rparr>"

definition demo_authorized :: start_authorized where
  "demo_authorized = \<lparr>sa_operation = replicate 16 14, sa_generation = 1, sa_helper = replicate 16 20, sa_input_digest = replicate 32 4\<rparr>"

definition demo_activation :: policy_revision where
  "demo_activation = \<lparr>pv_seq = 1, pv_digest = replicate 32 7, pv_previous_seq = 0, pv_event = Activated,
    pv_schema_digest = replicate 32 8, pv_cedar_lang = ascii ''4.2'', pv_cedar_sdk = ascii ''4.2.2'',
    pv_solver_digest = None, pv_admission_digest = None,
    pv_scopes = [\<lparr>ss_scope = 1, ss_project = None, ss_text_digest = replicate 32 6, ss_source = ascii ''rules'', ss_policy_ids = []\<rparr>]\<rparr>"

definition demo_denial :: policy_decision where
  "demo_denial = \<lparr>pd_subject = ModelCall (replicate 16 14) 1 1, pd_action = 1, pd_origin = 1, pd_profile = 1,
    pd_project = replicate 16 8, pd_task_conversation = replicate 16 12, pd_task_agent = 0,
    pd_resource_digest = replicate 32 4, pd_request_digest = replicate 32 5, pd_intent_digest = None,
    pd_revision_seq = 1, pd_revision_digest = replicate 32 7,
    pd_scopes = [\<lparr>sr_scope = 1, sr_allow = False, sr_error = 0, sr_rules = []\<rparr>], pd_outcome = PolicyDeny,
    pd_primary_scope = 1, pd_reason = ascii ''denied'', pd_constraint_digest = None, pd_now_ms = 0\<rparr>"

definition demo_refusal :: policy_refusal where
  "demo_refusal = \<lparr>pf_scope = 1, pf_reason = ascii ''denied'', pf_rule = ascii ''installation:'' @ replicate 4 0x61, pf_explain = []\<rparr>"

definition demo_denied :: tool_call where
  "demo_denied = demo_call\<lparr>tc_operation := replicate 16 14, tc_decision := D_Denied, tc_reason := Some DR_PolicyDenied,
    tc_policy := Some demo_refusal\<rparr>"

lemma demo_refusal_valid: "policy_refusal_validate demo_refusal = Inr ()"
proof -
  have "split_once 0x3A (pf_rule demo_refusal) = Some (ascii ''installation'', replicate 4 0x61)"
    by (simp add: demo_refusal_def split_once_def ascii_def)
  then have "valid_policy_rule (pf_rule demo_refusal)"
    by (simp add: valid_policy_rule_def POLICY_SCOPE_NAMES_def valid_policy_id_def ascii_lowercase_def)
  moreover have "valid_policy_reason (ascii ''denied'')"
    by (simp add: valid_policy_reason_def ascii_def ascii_lowercase_def)
  ultimately show ?thesis by (simp add: policy_refusal_validate_def demo_refusal_def valid_policy_explain_def)
qed

lemma demo_denied_valid: "tool_call_validate demo_denied = Inr ()"
proof -
  note valid = tool_call_validD [OF demo_call_valid]
  have "tool_call_shape demo_denied" "tool_call_operation demo_denied" "tool_call_numbers demo_denied"
    "tool_call_rule_set demo_denied" "tool_call_refusal demo_denied"
    using valid(1,2,5,6,7)
    by (simp_all add: demo_denied_def tool_call_shape_def tool_call_operation_def tool_call_rule_set_def
        tool_call_refusal_def tool_call_numbers_def tc_named_def tc_received_text_def tc_rules_def
        tc_exec_def demo_call_def)
  moreover have "tool_call_decisions demo_denied" "tool_call_faults demo_denied"
    using valid(4) demo_refusal_valid
    by (simp_all add: demo_denied_def tool_call_decisions_def tool_call_faults_def demo_call_def
        tc_named_def tc_rules_def tc_exec_def tc_received_text_def)
  ultimately show ?thesis by (simp add: tool_call_validate_def)
qed

lemma demo_utf8: "utf8_valid [47]" "utf8_valid [65]" "utf8_valid [109]"
  by code_simp+

lemma demo_records_wf:
  "wf_record (R_PendingInit demo_init)" "wf_record (R_ActiveBinding demo_binding)" "wf_record (R_ProjectRegistered demo_project)"
  "wf_record (R_TurnAccepted demo_turn)" "wf_record (R_StartAuthorized demo_authorized)"
  "wf_record (R_PolicyRevision demo_activation)" "wf_record (R_PolicyDecision demo_denial)" "wf_record (R_ToolCall demo_denied)"
proof -
  show "wf_record (R_ToolCall demo_denied)"
    using demo_call_written(1) demo_refusal_valid
    by (simp add: wf_tool_call_def demo_denied_def wf_policy_refusal_def, simp add: demo_refusal_def)
qed (simp_all add: wf_pending_init_def demo_init_def wf_active_binding_def demo_binding_def wf_project_registered_def demo_project_def
  wf_turn_accepted_def demo_turn_def wf_optional_def wf_start_authorized_def demo_authorized_def wf_policy_revision_def
  demo_activation_def wf_option_hash_def wf_policy_decision_def demo_denial_def demo_utf8)

lemmas demo_writes = w_all.simps(2) w_string_def w_require_def str32_def w_flag_def w_option_hash_def w_optional_def

lemma demo_activation_written: "\<exists>p. write_policy_revision demo_activation = Inr p \<and> length p \<le> 4000"
proof -
  have "policy_revision_validate demo_activation = Inr ()"
    by (simp add: policy_revision_validate_def demo_activation_def policy_sets_ok_def valid_version_def valid_policy_id_def
        ascii_def ascii_lowercase_def ascii_digit_def)
  moreover have "\<exists>p. policy_revision_head demo_activation = Inr p \<and> length p \<le> 1000"
    by (simp add: demo_activation_def policy_revision_head_def demo_writes)
  moreover have "\<exists>p. w_all (map w_scope_set (pv_scopes demo_activation)) = Inr p \<and> length p \<le> 1000"
    by (simp add: demo_activation_def w_scope_set_def demo_writes)
  ultimately show ?thesis by (fastforce simp: write_policy_revision_def w_scope_sets_eq_Inr)
qed

lemma demo_denial_written: "\<exists>p. write_policy_decision demo_denial = Inr p \<and> length p \<le> 4000"
proof -
  have "policy_decision_validate demo_denial = Inr ()"
    by (simp add: policy_decision_validate_def demo_denial_def policy_subject_ok_def policy_scopes_ok_def policy_outcome_ok_def
        valid_policy_reason_def ascii_def ascii_lowercase_def)
  moreover have "\<exists>p. policy_decision_fields demo_denial = Inr p \<and> length p \<le> 1000"
    by (simp add: demo_denial_def policy_decision_fields_def w_scope_result_def demo_writes)
  ultimately show ?thesis by (auto simp: write_policy_decision_def)
qed

lemma demo_payloads:
  "r \<in> {R_PendingInit demo_init, R_ActiveBinding demo_binding, R_ProjectRegistered demo_project, R_TurnAccepted demo_turn,
    R_StartAuthorized demo_authorized, R_PolicyRevision demo_activation, R_PolicyDecision demo_denial, R_ToolCall demo_denied} \<Longrightarrow>
    \<exists>p. record_payload demo_sha r = Inr p \<and> length p \<le> 65203"
proof -
  have "\<exists>p. write_tool_call demo_denied = Inr p \<and> length p \<le> 65203"
    using demo_denied_valid tool_call_valid_fields(1,2) [OF demo_denied_valid] demo_records_wf(8)
      tool_call_payload_bound [of demo_denied "tool_call_fields demo_denied"]
    by (simp add: write_tool_call_def)
  moreover have "\<exists>p. record_payload demo_sha (R_TurnAccepted demo_turn) = Inr p \<and> length p \<le> 65203"
    by (simp add: turn_accepted_payload_def demo_turn_def demo_writes composition_payload_def)
  moreover note demo_activation_written demo_denial_written
  ultimately show "r \<in> {R_PendingInit demo_init, R_ActiveBinding demo_binding, R_ProjectRegistered demo_project, R_TurnAccepted demo_turn,
    R_StartAuthorized demo_authorized, R_PolicyRevision demo_activation, R_PolicyDecision demo_denial, R_ToolCall demo_denied} \<Longrightarrow>
    \<exists>p. record_payload demo_sha r = Inr p \<and> length p \<le> 65203"
    by (auto simp: pending_init_payload_def demo_init_def active_binding_payload_def demo_binding_def project_registered_payload_def
        demo_project_def start_authorized_payload_def demo_authorized_def demo_writes)
qed

subsection \<open>The frames\<close>

definition demo_step :: "u64 \<Rightarrow> u8 \<Rightarrow> frame_context" where
  "demo_step n t = \<lparr>fc_installation_id = replicate 16 1, fc_transition_id = replicate 16 t, fc_sequence = n,
    fc_prior_digest = (if n = 1 then zero_hash else replicate 32 9), fc_expected_revision = n - 1, fc_owner_generation = 1\<rparr>"

definition demo_item :: "u64 \<Rightarrow> u8 \<Rightarrow> journal_record \<Rightarrow> item" where
  "demo_item n t r = (demo_step n t, r, case encode_frame demo_sha (demo_step n t) r of Inr bs \<Rightarrow> bs | Inl _ \<Rightarrow> [])"

definition demo_items :: "item list" where
  "demo_items = [demo_item 1 2 (R_PendingInit demo_init), demo_item 2 6 (R_ActiveBinding demo_binding),
    demo_item 3 10 (R_ProjectRegistered demo_project), demo_item 4 15 (R_TurnAccepted demo_turn),
    demo_item 5 16 (R_StartAuthorized demo_authorized), demo_item 6 17 (R_PolicyRevision demo_activation),
    demo_item 7 18 (R_PolicyDecision demo_denial), demo_item 8 19 (R_ToolCall demo_denied)]"

lemma demo_item_framed:
  assumes "wf_record r" "\<exists>p. record_payload demo_sha r = Inr p \<and> length p \<le> 65203" "1 \<le> n" "n \<le> 8" "0 < t"
  shows "framed demo_sha [demo_item n t r] \<and> length (snd (snd (demo_item n t r))) \<le> 65387"
proof -
  obtain p where p: "record_payload demo_sha r = Inr p" "length p \<le> 65203" using assms(2) by blast
  have wf: "wf_context (demo_step n t)" by (simp add: wf_context_def demo_step_def zero_hash_def)
  have n: "n \<noteq> 0" using assms(3) by auto
  have "unat n \<le> 8" using assms(4) by (simp add: word_le_nat_alt)
  moreover have "unat (n - 1) = unat n - 1" using n by (simp add: unat_minus_one)
  ultimately have "unat (n - 1) + 1 < 2 ^ 64" by simp
  then obtain m where "u64_checked_add (n - 1) 1 = Some m" by (simp add: u64_checked_add_def)
  then have "encode_frame demo_sha (demo_step n t) r =
      Inr (frame_bytes demo_sha (demo_step n t) (record_kind r) (HEADER + length p + TRAILER) m p)"
    using p n assms(5) by (simp add: encode_frame_def demo_step_def Let_def)
  then show ?thesis
    using assms(1) wf p(2) length_frame_bytes [of demo_sha, OF _ wf] by (simp add: framed_def demo_item_def)
qed

lemma demo_items_framed: "framed demo_sha demo_items" "\<forall>item\<in>set demo_items. length (snd (snd item)) \<le> 65387"
proof -
  have "framed demo_sha [item] \<and> length (snd (snd item)) \<le> 65387" if "item \<in> set demo_items" for item
    using that unfolding demo_items_def list.set
    by (elim insertE emptyE; hypsubst; intro demo_item_framed demo_records_wf demo_payloads; simp)
  then show "framed demo_sha demo_items" "\<forall>item\<in>set demo_items. length (snd (snd item)) \<le> 65387"
    by (auto simp: framed_def list_all_iff)
qed

definition demo_bytes :: bytes where
  "demo_bytes = item_bytes demo_items"

definition demo_reads :: index_reads where
  "demo_reads = memory_index demo_sha demo_bytes"

definition demo_at :: "u64 \<Rightarrow> locator" where
  "demo_at n = \<lparr>loc_sequence = n, loc_segment = 1, loc_offset = of_nat (length (item_bytes (take (unat n - 1) demo_items))),
    loc_length = of_nat (length (snd (snd (demo_items ! (unat n - 1)))))\<rparr>"

lemma demo_at_sequence [simp]: "loc_sequence (demo_at n) = n"
  by (simp add: demo_at_def)

lemma demo_offset: "length (item_bytes (take k demo_items)) < 2 ^ 32"
proof -
  have "length (item_bytes items) \<le> 65387 * length items" if "\<forall>item\<in>set items. length (snd (snd item)) \<le> 65387" for items
    using that by (induction items) (auto simp: item_bytes_def)
  then have "length (item_bytes (take k demo_items)) \<le> 65387 * length (take k demo_items)"
    using demo_items_framed(2) by (meson in_set_takeD)
  moreover have "length demo_items = 8" by (simp add: demo_items_def)
  ultimately show ?thesis by simp
qed

end
