(* ===== verification/ReplayExample.thy ===== *)
theory ReplayExample
  imports PolicyKept ExampleRecords
begin

section \<open>A first turn\<close>

text \<open>
  A concrete run of replay for the witnesses: an installation is bound, a project is registered, a turn is accepted, and a
  new owner takes over while the turn is active. The hash is constant, the runs of the index are empty.
\<close>

lemma demo_reads_get [simp]: "ix_get demo_reads k = Inr None"
  by (simp add: demo_reads_def memory_index_def)

lemma unused_example:
  "readable s \<Longrightarrow> bt_get (de_generated (rp_delta s)) i = None \<Longrightarrow> unused demo_reads (Key TagGenerated i 0) s = Inr ()"
  "readable s \<Longrightarrow> bt_get (rp_requests s) i = None \<Longrightarrow> unused demo_reads (Key TagRequest i 0) s = Inr ()"
  "t \<in> {TagProject, TagConversation, TagIdentity} \<Longrightarrow> bt_get (de_entries (rp_delta s)) (Key t i 0) = None \<Longrightarrow>
    unused demo_reads (Key t i 0) s = Inr ()"
proof -
  show "readable s \<Longrightarrow> bt_get (de_generated (rp_delta s)) i = None \<Longrightarrow> unused demo_reads (Key TagGenerated i 0) s = Inr ()"
    using delta_get_safe [of s "Key TagGenerated i 0"] delta_get_generated [of i s]
    by (auto simp: unused_def replay_get_def check_def)
  show "readable s \<Longrightarrow> bt_get (rp_requests s) i = None \<Longrightarrow> unused demo_reads (Key TagRequest i 0) s = Inr ()"
    using delta_get_safe [of s "Key TagRequest i 0"] delta_get_request [of s i]
    by (auto simp: unused_def replay_get_def check_def)
  show "t \<in> {TagProject, TagConversation, TagIdentity} \<Longrightarrow> bt_get (de_entries (rp_delta s)) (Key t i 0) = None \<Longrightarrow>
      unused demo_reads (Key t i 0) s = Inr ()"
    by (auto simp: unused_def replay_get_def delta_get_def check_def)
qed

lemma generated_example:
  "readable s \<Longrightarrow> bt_get (de_generated (rp_delta s)) i = None \<Longrightarrow> replay_entry demo_reads (Key TagGenerated i 0) s = Inr None"
  using delta_get_safe [of s "Key TagGenerated i 0"] delta_get_generated [of i s]
  by (auto simp: replay_entry_def replay_get_def)

lemma emit_example:
  assumes "wf_entry e" "bt_get (de_entries (rp_delta s)) k = None"
  shows "emit k e s = Inr (charge 192 (s\<lparr>rp_delta := (rp_delta s)\<lparr>de_entries :=
    bt_insert k (the (entry_encode e)) (de_entries (rp_delta s))\<rparr>\<rparr>))"
proof -
  obtain v where "entry_encode e = Some v" using entry_encode_wf [OF assms(1)] by blast
  then show ?thesis using assms(2) by (simp add: emit_def check_def)
qed

lemma request_found_example:
  assumes "readable s" "bt_get (rp_requests s) i \<noteq> None"
  obtains v where "replay_get demo_reads (Key TagRequest i 0) s = Inr (Some v)"
proof -
  obtain v where v: "delta_get (Key TagRequest i 0) s = Inr v" using delta_get_safe [OF assms(1)] by blast
  then have "v \<noteq> None" using delta_get_request [OF assms(1) v] assms(2) by simp
  then show thesis using that v by (auto simp: replay_get_def)
qed

definition demo_context :: "u8 \<Rightarrow> u64 \<Rightarrow> replay \<Rightarrow> frame_context" where
  "demo_context t owner s = \<lparr>fc_installation_id = rp_installation_id s, fc_transition_id = replicate 16 t,
    fc_sequence = rp_sequence s + 1, fc_prior_digest = rp_last_digest s, fc_expected_revision = rp_revision s,
    fc_owner_generation = owner\<rparr>"

definition demo_apply :: "u8 \<Rightarrow> u64 \<Rightarrow> journal_record \<Rightarrow> replay \<Rightarrow> replay outcome" where
  "demo_apply t owner r s = apply_next demo_sha demo_unicode demo_reads (Some s) (demo_context t owner s) r (replicate 32 9)
    (demo_at (rp_sequence s + 1))"

lemma demo_apply_reached:
  "reached demo_sha demo_unicode s \<Longrightarrow> wf_record r \<Longrightarrow> demo_apply t owner r s = Inr s' \<Longrightarrow> reached demo_sha demo_unicode s'"
  unfolding demo_apply_def by (rule next_frame)

lemma demo_state_explicit:
  "demo_state = (replay_empty (replicate 16 1) demo_init)\<lparr>rp_sequence := 1, rp_last_digest := replicate 32 9,
    rp_last_frame := demo_locator, rp_revision := 1,
    rp_requests := [(replicate 16 3, \<lparr>rr_digest = replicate 32 9, rr_result = OutcomeInitialization False, rr_kind = 10, rr_frame = demo_locator\<rparr>)],
    rp_delta := \<lparr>de_generated = [(replicate 16 1, GeneratedInstallation, demo_locator), (replicate 16 5, GeneratedGraph, demo_locator)],
      de_entries = []\<rparr>, rp_transition_ids := {replicate 16 2}, rp_delta_charge := 768\<rparr>"
  by (simp add: demo_state_def apply_next_def genesis_def demo_start_context_def demo_init_def request_digest_def generate_def
      check_def Let_def insert_request_def charge_def replay_empty_def next_u64_def u64_checked_add_def reserve_def
      operation_capacities_def input_values_def job_ledger_def memory_charge_def live_charge_def lift_result_def)

definition demo_bound :: replay where
  "demo_bound = demo_state\<lparr>rp_sequence := 2, rp_last_frame := demo_at 2, rp_revision := 2, rp_binding := Some demo_binding,
    rp_requests := [(replicate 16 3, \<lparr>rr_digest = replicate 32 9, rr_result = OutcomeInitialization True, rr_kind = 10, rr_frame = demo_locator\<rparr>)],
    rp_transition_ids := {replicate 16 6, replicate 16 2}, rp_delta_charge := 896\<rparr>"

lemma evict_few:
  "length (rp_projects s) \<le> RECENT_PROJECTS \<Longrightarrow> length (rp_conversations s) \<le> RECENT_CONVERSATIONS \<Longrightarrow> rp_inputs s = [] \<Longrightarrow> evict s = s"
  by (simp add: evict_def evict_projects_def evict_conversations_def evict_inputs_def settled_inputs_def input_values_def
      List.map_filter_def)

definition demo_begin :: "u8 \<Rightarrow> replay \<Rightarrow> replay" where
  "demo_begin t s = charge 128 (s\<lparr>rp_transition_ids := insert (replicate 16 t) (rp_transition_ids s), rp_activity := None,
    rp_claimed := {}\<rparr>)"

definition demo_end :: "replay \<Rightarrow> replay" where
  "demo_end s = s\<lparr>rp_sequence := rp_sequence s + 1, rp_revision := rp_revision s + 1, rp_last_digest := replicate 32 9,
    rp_last_frame := demo_at (rp_sequence s + 1)\<rparr>"

lemma demo_applyI:
  assumes "owner_check r owner (demo_begin t s) = Inr ()"
    "apply_record demo_sha demo_unicode demo_reads r owner (demo_at (rp_sequence s + 1)) (demo_begin t s) = Inr mid"
    "rp_sequence mid = rp_sequence s" "rp_revision mid = rp_revision s"
    "unat (rp_sequence s) + 1 < 2 ^ 64" "unat (rp_revision s) + 1 < 2 ^ 64" "replicate 16 t \<notin> rp_transition_ids s"
    "length (rp_projects mid) \<le> RECENT_PROJECTS" "length (rp_conversations mid) \<le> RECENT_CONVERSATIONS" "rp_inputs mid = []"
    "reserve (demo_end mid) = Inr s'"
  shows "demo_apply t owner r s = Inr s'"
proof -
  have "evict (demo_end mid) = demo_end mid" using assms(8-10) by (intro evict_few) (simp_all add: demo_end_def)
  then show ?thesis
    using assms
    by (simp add: demo_apply_def apply_next_def apply_frame_def demo_context_def next_u64_def u64_checked_add_def check_def Let_def
        replay_apply_def demo_begin_def demo_end_def)
qed

lemmas demo_begins = demo_begin_def charge_def demo_state_explicit replay_empty_def

lemmas demo_reserves = demo_end_def reserve_def operation_capacities_def input_values_def job_ledger_def memory_charge_def live_charge_def
  demo_begins

lemma demo_bound_applied: "demo_apply 6 1 (R_ActiveBinding demo_binding) demo_state = Inr demo_bound"
proof -
  let ?s = "demo_begin 6 demo_state"
  have "readable ?s" "bt_get (rp_requests ?s) (replicate 16 3) \<noteq> None"
    by (simp_all add: readable_def demo_begins bt_ok_Cons)
  then obtain v where "replay_get demo_reads (Key TagRequest (replicate 16 3) 0) ?s = Inr (Some v)"
    by (rule request_found_example)
  then have "apply_active_binding demo_reads demo_binding ?s = Inr (?s\<lparr>rp_binding := Some demo_binding,
    rp_requests := [(replicate 16 3, \<lparr>rr_digest = replicate 32 9, rr_result = OutcomeInitialization True, rr_kind = 10, rr_frame = demo_locator\<rparr>)]\<rparr>)"
    by (simp add: apply_active_binding_def check_def demo_binding_def demo_init_def demo_begins bt_modify_def)
  then show ?thesis
    by (intro demo_applyI [where mid = "?s\<lparr>rp_binding := Some demo_binding,
    rp_requests := [(replicate 16 3, \<lparr>rr_digest = replicate 32 9, rr_result = OutcomeInitialization True, rr_kind = 10, rr_frame = demo_locator\<rparr>)]\<rparr>"])
      (simp_all add: owner_check_def check_def apply_record_def demo_reserves demo_bound_def)
qed

definition demo_register :: "replay \<Rightarrow> replay" where
  "demo_register s = s\<lparr>
    rp_projects := [(replicate 16 8, \<lparr>pj_registration = demo_project, pj_registered = demo_at 3, pj_name = None,
      pj_latest = None, pj_activity = 3\<rparr>)],
    rp_requests := bt_insert (replicate 16 7) \<lparr>rr_digest = replicate 32 9, rr_result = OutcomeProject (replicate 16 8),
      rr_kind = 4, rr_frame = demo_at 3\<rparr> (rp_requests s),
    rp_delta := (rp_delta s)\<lparr>de_entries := bt_insert (Key TagIdentity (identity_id 1 2) 0)
      (the (entry_encode (EntryIdentity (replicate 16 8)))) (bt_insert (Key TagProject (replicate 16 8) 0)
      (the (entry_encode (EntryProject 1 2 1 (demo_at 3)))) [])\<rparr>,
    rp_activity := Some \<lparr>ac_project = replicate 16 8, ac_conversation = None, ac_operation = None, ac_generation = 0,
      ac_sequence = 3, ac_settled = False\<rparr>,
    rp_claimed := {replicate 16 8}, rp_delta_charge := rp_delta_charge s + 768\<rparr>"

definition demo_registered :: replay where
  "demo_registered = demo_end (demo_register (demo_begin 10 demo_bound))"

lemma demo_registered_applied: "demo_apply 10 1 (R_ProjectRegistered demo_project) demo_bound = Inr demo_registered"
proof -
  let ?s = "demo_begin 10 demo_bound"
  have get: "bt_get (de_generated (rp_delta ?s)) (replicate 16 8) = None" "bt_get (rp_requests ?s) (replicate 16 7) = None"
      "bt_get (de_generated (rp_delta ?s)) (replicate 16 7) = None"
      "readable ?s" "de_entries (rp_delta ?s) = []" "rp_claimed ?s = {}" "rp_binding ?s \<noteq> None" "rp_projects ?s = []"
    by (simp_all add: readable_def demo_begins demo_bound_def bt_ok_Cons)
  have "request_digest demo_sha demo_unicode (Register [0x2F]) = Inr (replicate 32 9)"
    by (simp add: request_digest_def valid_location_def absolute_def w_all.simps(2) w_string_def)
  then have "apply_project_registered demo_sha demo_unicode demo_reads demo_project (demo_at 3) ?s = Inr (demo_register ?s)"
    using get
    by (simp add: apply_project_registered_def demo_project_def check_def lift_result_def fresh_def unused_example Let_def
       replay_request_def generated_example insert_request_def charge_def emit_example demo_register_def
       record_activity_def activity_facts_def touch_def bt_modify_def del: bt_insert.simps(2))
  then show ?thesis
    by (intro demo_applyI [where mid = "demo_register ?s"])
      (simp_all add: owner_check_def check_def apply_record_def demo_reserves demo_bound_def demo_registered_def demo_register_def
        demo_project_def del: bt_insert.simps(2))
qed

lemma demo_submit: "request_digest demo_sha demo_unicode (Submit (replicate 16 8) None 0 [65]) = Inr (replicate 32 9)"
  by (simp add: request_digest_def w_all.simps(2) w_string_def)

lemma demo_start:
  assumes "rp_conversations s = []" "rp_operations s = []" "rp_projects s = [(replicate 16 8, e)]"
    "bt_get (de_entries (rp_delta s)) (Key TagConversation (replicate 16 12) 0) = None"
    "bt_get (de_entries (rp_delta s)) (Key TagProjectConversation (replicate 16 8) 4) = None"
    "bt_get (de_entries (rp_delta s)) (Key TagActivity (replicate 16 8) 4) = None"
  shows "\<exists>d c e'. accept_start demo_turn 1 (demo_at 4) s = Inr (s\<lparr>rp_projects := [(replicate 16 8, e')], rp_conversations := [(replicate 16 12, c)],
    rp_operations := [(replicate 16 14, new_operation demo_turn 1 (demo_at 4))], rp_active_operation := Some (replicate 16 14),
    rp_last_dispatched_lane := Some (replicate 16 12), rp_delta := d, rp_delta_charge := rp_delta_charge s + 576\<rparr>) \<and>
    pj_registration e' = pj_registration e \<and> pj_name e' = pj_name e \<and> cv_project c = replicate 16 8"
proof -
  let ?d = "(rp_delta s)\<lparr>de_entries := bt_insert (Key TagActivity (replicate 16 8) 4)
      (the (entry_encode (EntryActivity (replicate 16 12) (replicate 16 14) 1)))
      (bt_insert (Key TagProjectConversation (replicate 16 8) 4) (the (entry_encode (EntryProjectConversation (replicate 16 12))))
      (bt_insert (Key TagConversation (replicate 16 12) 0) (the (entry_encode (EntryConversation (replicate 16 8) (demo_at 4))))
      (de_entries (rp_delta s))))\<rparr>"
  let ?c = "\<lparr>cv_project = replicate 16 8, cv_generation = 1, cv_created = demo_at 4, cv_latest = Some \<lparr>lt_operation = replicate 16 14,
      lt_terminal = None, lt_accepted = demo_at 4, lt_notice_through = 0\<rparr>, cv_completed = 0, cv_activity = 4\<rparr>"
  let ?e = "e\<lparr>pj_latest := Some \<lparr>pl_conversation = replicate 16 12, pl_operation = replicate 16 14, pl_generation = 1,
      pl_accepted = 4, pl_terminal = None\<rparr>\<rparr>"
  have "accept_start demo_turn 1 (demo_at 4) s = Inr (s\<lparr>rp_projects := [(replicate 16 8, ?e)], rp_conversations := [(replicate 16 12, ?c)],
    rp_operations := [(replicate 16 14, new_operation demo_turn 1 (demo_at 4))], rp_active_operation := Some (replicate 16 14),
    rp_last_dispatched_lane := Some (replicate 16 12), rp_delta := ?d, rp_delta_charge := rp_delta_charge s + 576\<rparr>)"
    using assms
    by (simp add: accept_start_def create_conversation_def emit_example demo_turn_def Let_def charge_def bt_modify_def
       del: bt_insert.simps(2))
  then show ?thesis by (intro exI [of _ ?d] exI [of _ ?c] exI [of _ ?e] conjI) simp_all
qed

text \<open>The states of the turn: one project, one conversation and one operation, which is active.\<close>

definition demo_small :: "operation \<Rightarrow> replay \<Rightarrow> bool" where
  "demo_small op s \<longleftrightarrow> (\<exists>e c. rp_projects s = [(replicate 16 8, e)] \<and> pj_registration e = demo_project \<and> pj_name e = None \<and>
      rp_conversations s = [(replicate 16 12, c)] \<and> cv_project c = replicate 16 8) \<and> rp_inputs s = [] \<and> rp_jobs s = [] \<and>
    rp_active_operation s = Some (replicate 16 14) \<and> rp_operations s = [(replicate 16 14, op)] \<and> rp_delta_charge s \<le> 20000"

lemma demo_turn_accepted:
  obtains mid where "accept demo_sha demo_unicode demo_reads demo_turn 1 (demo_at 4) (demo_begin 15 demo_registered) = Inr mid"
    "rp_sequence mid = 3" "rp_revision mid = 3" "demo_small (new_operation demo_turn 1 (demo_at 4)) mid"
    "rp_delta_charge mid \<le> 10000" "rp_owner_generation mid = 1"
    "rp_transition_ids mid = {replicate 16 15, replicate 16 10, replicate 16 6, replicate 16 2}"
    "rp_installation_id mid = replicate 16 1" "rp_policy mid = policy_replay_default"
proof -
  let ?s = "demo_begin 15 demo_registered"
  have get: "bt_get (de_generated (rp_delta ?s)) (replicate 16 12) = None" "bt_get (de_generated (rp_delta ?s)) (replicate 16 13) = None"
      "bt_get (de_generated (rp_delta ?s)) (replicate 16 14) = None" "bt_get (rp_requests ?s) (replicate 16 11) = None"
      "readable ?s" "rp_claimed ?s = {}" "rp_binding ?s \<noteq> None" "rp_inputs ?s = []" "rp_conversations ?s = []" "rp_operations ?s = []"
      "rp_active_operation ?s = None"
      "bt_get (rp_projects ?s) (replicate 16 8) \<noteq> None"
    by (simp_all add: readable_def demo_begins demo_end_def demo_registered_def demo_register_def demo_bound_def bt_ok_Cons
       del: bt_insert.simps(2))
  have entries: "bt_get (de_entries (rp_delta ?s)) (Key t (replicate 16 k) 0) = None" if "t \<in> {TagProject, TagConversation}" "k \<in> {12, 13, 14}" for t k
    using that by (auto simp: demo_begins demo_end_def demo_registered_def demo_register_def demo_bound_def simp del: bt_insert.simps(2))
  have listed: "bt_get (de_entries (rp_delta ?s)) (Key TagProjectConversation (replicate 16 8) 4) = None"
      "bt_get (de_entries (rp_delta ?s)) (Key TagActivity (replicate 16 8) 4) = None"
    by (simp_all add: demo_begins demo_end_def demo_registered_def demo_register_def demo_bound_def del: bt_insert.simps(2))
  let ?checked = "?s\<lparr>rp_claimed := {replicate 16 14, replicate 16 13, replicate 16 12}\<rparr>"
  have checks: "accept_checks demo_sha demo_unicode demo_reads demo_turn None (demo_at 4) ?s = Inr ?checked"
    using get demo_submit entries
    by (simp add: accept_checks_def check_def Let_def demo_turn_def lift_result_def accept_conversation_def fresh_def unused_example)
  have load: "load_project demo_reads (ta_project demo_turn) ?s = Inr (True, ?s)" "dispatched_input demo_turn ?s = None"
    using get by (auto simp: load_project_def demo_turn_def dispatched_input_def input_values_def)
  let ?asked = "insert_request (replicate 16 11) (replicate 32 9) (OutcomeTurn (replicate 16 12) 1 (replicate 16 13) (replicate 16 14))
    21 (demo_at 4) ?checked"
  let ?generated = "charge 128 (charge 128 (?asked\<lparr>rp_delta := (rp_delta ?s)\<lparr>de_generated := bt_insert (replicate 16 14)
    (GeneratedOperation, demo_at 4) (bt_insert (replicate 16 13) (GeneratedTask, demo_at 4) (de_generated (rp_delta ?s)))\<rparr>\<rparr>))"
  have asked: "replay_request demo_reads (ta_request demo_turn) (ta_digest demo_turn)
      (OutcomeTurn (ta_conversation demo_turn) (ta_generation demo_turn) (ta_task demo_turn) (ta_operation demo_turn)) 21 (demo_at 4) ?checked =
      Inr ?asked"
    using get by (simp add: replay_request_def check_def unused_example demo_turn_def)
  have generated: "result_bind (generate (ta_task demo_turn) GeneratedTask (demo_at 4) ?asked) (generate (ta_operation demo_turn) GeneratedOperation (demo_at 4)) =
      Inr ?generated"
    by (simp add: generate_def check_def demo_turn_def charge_def insert_request_def)
  obtain e where e: "rp_projects ?generated = [(replicate 16 8, e)]" "pj_registration e = demo_project" "pj_name e = None"
    by (simp add: insert_request_def demo_begins demo_end_def demo_registered_def demo_register_def)
  have same: "rp_conversations ?generated = []" "rp_operations ?generated = []"
      "de_entries (rp_delta ?generated) = de_entries (rp_delta ?s)" "rp_sequence ?generated = 3" "rp_revision ?generated = 3" "rp_inputs ?generated = []"
      "rp_jobs ?generated = []" "rp_owner_generation ?generated = 1" "rp_delta_charge ?generated \<le> 5000"
      "rp_transition_ids ?generated = {replicate 16 15, replicate 16 10, replicate 16 6, replicate 16 2}"
      "rp_installation_id ?generated = replicate 16 1" "rp_policy ?generated = policy_replay_default"
    by (simp_all add: insert_request_def demo_begins demo_end_def demo_registered_def demo_register_def demo_bound_def)
  obtain d c e' where start: "accept_start demo_turn 1 (demo_at 4) ?generated = Inr (?generated\<lparr>rp_projects := [(replicate 16 8, e')],
      rp_conversations := [(replicate 16 12, c)],
      rp_operations := [(replicate 16 14, new_operation demo_turn 1 (demo_at 4))], rp_active_operation := Some (replicate 16 14),
      rp_last_dispatched_lane := Some (replicate 16 12), rp_delta := d, rp_delta_charge := rp_delta_charge ?generated + 576\<rparr>)"
      "pj_registration e' = pj_registration e" "pj_name e' = pj_name e" "cv_project c = replicate 16 8"
    using demo_start [OF same(1,2) e(1)] entries listed unfolding same(3) by auto
  let ?start = "?generated\<lparr>rp_projects := [(replicate 16 8, e')], rp_conversations := [(replicate 16 12, c)],
      rp_operations := [(replicate 16 14, new_operation demo_turn 1 (demo_at 4))], rp_active_operation := Some (replicate 16 14),
      rp_last_dispatched_lane := Some (replicate 16 12), rp_delta := d, rp_delta_charge := rp_delta_charge ?generated + 576\<rparr>"
  have "accept demo_sha demo_unicode demo_reads demo_turn 1 (demo_at 4) ?s =
      Inr (record_activity (replicate 16 8) (Some (replicate 16 12)) 4 ?start)"
  proof -
    obtain s1 where s1: "generate (ta_task demo_turn) GeneratedTask (demo_at 4) ?asked = Inr s1"
        "generate (ta_operation demo_turn) GeneratedOperation (demo_at 4) s1 = Inr ?generated"
      using generated unfolding result_bind_eq_Inr by blast
    have "rp_binding ?s \<noteq> None \<and> rp_active_operation ?s = None" using get by simp
    then show ?thesis
      unfolding accept_def check_def Let_def
      by (simp only: load checks asked s1 start result_bind_simps prod.case if_True simp_thms option.case)
        (simp add: demo_turn_def)
  qed
  then show thesis
    by (rule that) (simp_all only: record_activity_def touch_def Let_def case_prod_beta option.case replay.simps same,
      simp_all only: demo_small_def replay.simps same, simp_all add: bt_modify_def start e same, (use same(9) in linarith)+)
qed

lemma demo_reserve:
  assumes "demo_small op s" "list_all (\<lambda>tool. \<not> tool_unresolved tool) (op_tools op)" "op_charge op \<le> 10000"
  shows "\<exists>bytes frames. reserve s = Inr (s\<lparr>rp_reserved_bytes := bytes, rp_reserved_frames := frames\<rparr>)"
proof -
  let ?held = "TERMINAL_CAPACITY # turn_capacities (rp_owner_generation s) op"
  obtain e c where small: "rp_projects s = [(replicate 16 8, e)]" "pj_registration e = demo_project" "pj_name e = None"
      "rp_conversations s = [(replicate 16 12, c)]" "rp_inputs s = []" "rp_jobs s = []"
      "rp_active_operation s = Some (replicate 16 14)" "rp_operations s = [(replicate 16 14, op)]" "rp_delta_charge s \<le> 20000"
    using assms(1) by (auto simp: demo_small_def)
  have "op_tools op = [] \<or> \<not> tool_unresolved (last (op_tools op))" using assms(2) by (auto simp: list_all_iff)
  then have held: "operation_capacities s = Inr ?held"
    using small by (simp add: operation_capacities_def call_capacities_def)
  have "length ?held \<le> 4" by (simp add: turn_capacities_def)
  then have "memory_charge (s\<lparr>rp_reserved_bytes := sum_list ?held, rp_reserved_frames := length ?held\<rparr>) \<le> MAX_MEMORY"
    using small assms(3) by (simp add: memory_charge_def live_charge_def demo_project_def)
  then have "reserve s = Inr (s\<lparr>rp_reserved_bytes := sum_list ?held, rp_reserved_frames := length ?held\<rparr>)"
    using small by (simp add: reserve_def held input_values_def job_ledger_def Let_def del: sum_list.Cons)
  then show ?thesis by blast
qed

lemma demo_new_operation:
  "op_tools (new_operation demo_turn 1 frame) = []" "op_charge (new_operation demo_turn 1 frame) = 512"
  by (simp_all add: op_charge_def new_operation_def response_default_def)

lemma demo_reserve_new:
  "demo_small (new_operation demo_turn 1 frame) s \<Longrightarrow> \<exists>bytes frames. reserve s = Inr (s\<lparr>rp_reserved_bytes := bytes, rp_reserved_frames := frames\<rparr>)"
  using demo_reserve [of "new_operation demo_turn 1 frame" s] by (simp add: demo_new_operation)

lemma demo_active:
  obtains s where "demo_apply 15 1 (R_TurnAccepted demo_turn) demo_registered = Inr s"
    "demo_small (new_operation demo_turn 1 (demo_at 4)) s" "rp_sequence s = 4" "rp_revision s = 4" "rp_owner_generation s = 1"
    "rp_transition_ids s = {replicate 16 15, replicate 16 10, replicate 16 6, replicate 16 2}" "rp_delta_charge s \<le> 10000"
    "rp_installation_id s = replicate 16 1" "rp_last_digest s = replicate 32 9" "rp_policy s = policy_replay_default"
proof -
  obtain mid where mid: "accept demo_sha demo_unicode demo_reads demo_turn 1 (demo_at 4) (demo_begin 15 demo_registered) = Inr mid"
    "rp_sequence mid = 3" "rp_revision mid = 3" "demo_small (new_operation demo_turn 1 (demo_at 4)) mid"
    "rp_delta_charge mid \<le> 10000" "rp_owner_generation mid = 1"
    "rp_transition_ids mid = {replicate 16 15, replicate 16 10, replicate 16 6, replicate 16 2}"
    "rp_installation_id mid = replicate 16 1" "rp_policy mid = policy_replay_default"
    by (rule demo_turn_accepted)
  then have "demo_small (new_operation demo_turn 1 (demo_at 4)) (demo_end mid)" by (simp add: demo_small_def demo_end_def)
  then obtain bytes frames where s: "reserve (demo_end mid) = Inr (demo_end mid\<lparr>rp_reserved_bytes := bytes, rp_reserved_frames := frames\<rparr>)"
    using demo_reserve_new by blast
  have registered: "rp_sequence demo_registered = 3" "rp_revision demo_registered = 3" "rp_active_operation demo_registered = None"
      "rp_owner_generation demo_registered = 1" "replicate 16 15 \<notin> rp_transition_ids demo_registered"
    by (simp_all add: demo_registered_def demo_end_def demo_register_def demo_bound_def demo_begins)
  have "demo_apply 15 1 (R_TurnAccepted demo_turn) demo_registered = Inr (demo_end mid\<lparr>rp_reserved_bytes := bytes, rp_reserved_frames := frames\<rparr>)"
    by (rule demo_applyI [OF _ _ _ _ _ _ _ _ _ _ s])
      (use mid registered in \<open>auto simp: owner_check_def check_def apply_record_def demo_begin_def charge_def demo_small_def\<close>)
  then show thesis
    by (rule that) (use mid in \<open>simp_all add: demo_small_def demo_end_def\<close>)
qed

lemma demo_active_reached:
  assumes "demo_apply 15 1 (R_TurnAccepted demo_turn) demo_registered = Inr s"
  shows "reached demo_sha demo_unicode s"
  by (intro demo_apply_reached [OF _ _ assms] demo_apply_reached [OF _ _ demo_registered_applied]
      demo_apply_reached [OF _ _ demo_bound_applied] demo_state_reached demo_records_wf)

text \<open>A new owner takes over while the turn is active.\<close>

lemma demo_owner_change:
  obtains s s' where "reached demo_sha demo_unicode s"
    "apply_frame demo_sha demo_unicode demo_reads (demo_context 16 2 s) R_OwnerGeneration (replicate 32 9) (demo_at 5) s = Inr s'"
    "active s' = Some (replicate 16 14, new_operation demo_turn 1 (demo_at 4))"
proof -
  let ?op = "new_operation demo_turn 1 (demo_at 4)"
  obtain s where s: "reached demo_sha demo_unicode s" "demo_small ?op s" "rp_sequence s = 4" "rp_revision s = 4" "rp_owner_generation s = 1"
    "rp_transition_ids s = {replicate 16 15, replicate 16 10, replicate 16 6, replicate 16 2}" "rp_delta_charge s \<le> 10000"
    by (rule demo_active) (use demo_active_reached in blast)
  let ?mid = "demo_begin 16 s\<lparr>rp_owner_generation := 2, rp_inputs := bt_map hold_input (rp_inputs s)\<rparr>"
  have small: "demo_small ?op (demo_end ?mid)" using s(2,7) by (simp add: demo_small_def demo_end_def demo_begin_def charge_def bt_map_def)
  then obtain bytes frames where r: "reserve (demo_end ?mid) = Inr (demo_end ?mid\<lparr>rp_reserved_bytes := bytes, rp_reserved_frames := frames\<rparr>)"
    using demo_reserve_new by blast
  have "demo_apply 16 2 R_OwnerGeneration s = Inr (demo_end ?mid\<lparr>rp_reserved_bytes := bytes, rp_reserved_frames := frames\<rparr>)"
    by (rule demo_applyI [OF _ _ _ _ _ _ _ _ _ _ r])
      (use s in \<open>auto simp: owner_check_def check_def apply_record_def demo_begin_def charge_def apply_owner_generation_def
        next_u64_def u64_checked_add_def allowed_after_restart_def demo_small_def bt_map_def\<close>)
  then have "apply_frame demo_sha demo_unicode demo_reads (demo_context 16 2 s) R_OwnerGeneration (replicate 32 9) (demo_at 5) s =
      Inr (demo_end ?mid\<lparr>rp_reserved_bytes := bytes, rp_reserved_frames := frames\<rparr>)"
    using s(3) by (simp add: demo_apply_def apply_next_def)
  moreover have "active (demo_end ?mid\<lparr>rp_reserved_bytes := bytes, rp_reserved_frames := frames\<rparr>) =
      Some (replicate 16 14, new_operation demo_turn 1 (demo_at 4))"
    using small by (auto simp: active_def demo_small_def)
  ultimately show thesis by (rule that [OF s(1)])
qed

end
