(* ===== verification/DenialExample.thy ===== *)
theory DenialExample
  imports ReplayExample
begin

section \<open>A denied call\<close>

text \<open>
  The rest of the example journal: the turn is started, a policy revision is activated, a call is denied, and the call is
  recorded as denied. Replay accepts the whole journal.
\<close>

definition demo_run :: "nat \<Rightarrow> u64 \<Rightarrow> id16 set \<Rightarrow> operation \<Rightarrow> policy_replay \<Rightarrow> replay \<Rightarrow> bool" where
  "demo_run bound n ids op policy s \<longleftrightarrow> demo_small op s \<and> rp_delta_charge s \<le> bound \<and> rp_sequence s = n \<and> rp_revision s = n \<and>
    rp_owner_generation s = 1 \<and> rp_installation_id s = replicate 16 1 \<and> rp_last_digest s = replicate 32 9 \<and> rp_policy s = policy \<and>
    rp_transition_ids s = ids"

lemma demo_run_begin:
  "demo_run bound n ids op policy s \<Longrightarrow> bound + 128 \<le> 20000 \<Longrightarrow>
    demo_run (bound + 128) n (insert (replicate 16 t) ids) op policy (demo_begin t s)"
  by (auto simp: demo_run_def demo_small_def demo_begin_def charge_def)

lemma demo_run_put:
  "demo_run bound n ids op policy s \<Longrightarrow> demo_run bound n ids op' policy (put_operation (replicate 16 14) op' s)"
  by (auto simp: demo_run_def demo_small_def put_operation_def bt_modify_def)

lemma demo_run_policy: "demo_run bound n ids op policy s \<Longrightarrow> demo_run bound n ids op policy' (s\<lparr>rp_policy := policy'\<rparr>)"
  by (auto simp: demo_run_def demo_small_def)

lemma demo_run_activity: "demo_run bound n ids op policy s \<Longrightarrow> demo_run bound n ids op policy (active_activity k s)"
  by (auto simp: demo_run_def demo_small_def active_activity_def record_activity_def touch_def bt_modify_def Let_def
      split: option.split prod.split)

lemma demo_run_apply:
  assumes "demo_run bound n ids op policy s"
    "apply_record demo_sha demo_unicode demo_reads r 1 (demo_at (n + 1)) (demo_begin t s) = Inr mid"
    "demo_run bound' n ids' op' policy' mid" "unat n < 100" "replicate 16 t \<notin> ids" "op_owner_generation op = 1"
    "list_all (\<lambda>tool. \<not> tool_unresolved tool) (op_tools op')" "op_charge op' \<le> 10000"
  shows "\<exists>s'. demo_apply t 1 r s = Inr s' \<and> demo_run bound' (n + 1) ids' op' policy' s'"
proof -
  have end_small: "demo_small op' (demo_end mid)" using assms(3) by (auto simp: demo_run_def demo_small_def demo_end_def)
  obtain bytes frames where s: "reserve (demo_end mid) = Inr (demo_end mid\<lparr>rp_reserved_bytes := bytes, rp_reserved_frames := frames\<rparr>)"
    using demo_reserve [OF end_small assms(7,8)] by blast
  have "owner_check r 1 (demo_begin t s) = Inr ()"
    using assms(1,6) by (auto simp: owner_check_def check_def demo_begin_def charge_def demo_run_def demo_small_def)
  then have "demo_apply t 1 r s = Inr (demo_end mid\<lparr>rp_reserved_bytes := bytes, rp_reserved_frames := frames\<rparr>)"
    by (rule demo_applyI [OF _ _ _ _ _ _ _ _ _ _ s]) (use assms in \<open>auto simp: demo_run_def demo_small_def\<close>)
  moreover have "demo_run bound' (n + 1) ids' op' policy' (demo_end mid\<lparr>rp_reserved_bytes := bytes, rp_reserved_frames := frames\<rparr>)"
    using assms(3) by (auto simp: demo_run_def demo_small_def demo_end_def)
  ultimately show ?thesis by blast
qed

lemma demo_operation_mut:
  "demo_run bound n ids op policy s \<Longrightarrow> op_generation op = 1 \<Longrightarrow> op_terminal op = None \<Longrightarrow> operation_mut (replicate 16 14) 1 s = Inr op"
  by (auto simp: demo_run_def demo_small_def operation_mut_def check_def)

subsection \<open>The records of the turn\<close>

definition demo_started :: operation where
  "demo_started = (new_operation demo_turn 1 (demo_at 4))\<lparr>op_helper := Some (replicate 16 20), op_request_starts := [0]\<rparr>"

definition demo_policy :: "(call_key, policy_outcome) btree \<Rightarrow> policy_replay" where
  "demo_policy pending = \<lparr>pr_last_seq = 1, pr_active = Some (1, replicate 32 7), pr_pending = pending, pr_person = []\<rparr>"

lemma demo_started_simps [simp]:
  "op_tools demo_started = []" "op_charge demo_started = 512" "op_owner_generation demo_started = 1" "op_generation demo_started = 1"
  "op_terminal demo_started = None" "op_helper demo_started \<noteq> None" "op_cancel demo_started = None"
  by (simp_all add: demo_started_def op_charge_def new_operation_def response_default_def demo_turn_def)

lemma demo_start_applied:
  assumes "demo_run 10000 4 ids (new_operation demo_turn 1 (demo_at 4)) policy s" "replicate 16 16 \<notin> ids"
  shows "\<exists>s'. demo_apply 16 1 (R_StartAuthorized demo_authorized) s = Inr s' \<and>
    demo_run 11000 5 (insert (replicate 16 16) ids) demo_started policy s'"
proof -
  let ?op = "new_operation demo_turn 1 (demo_at 4)" and ?s = "demo_begin 16 s"
  have run: "demo_run 11000 4 (insert (replicate 16 16) ids) ?op policy ?s"
    using demo_run_begin [OF assms(1), of 16] by (auto simp: demo_run_def)
  have op: "op_generation ?op = 1" "op_terminal ?op = None" "op_owner_generation ?op = 1" "op_helper ?op = None" "op_cancel ?op = None"
      "op_input_digest ?op = replicate 32 4" "op_request_starts ?op = []" "op_tools ?op = []"
    by (simp_all add: new_operation_def demo_turn_def)
  let ?mid = "active_activity 5 (put_operation (replicate 16 14) demo_started ?s)"
  have "rp_owner_generation ?s = 1" using run by (simp add: demo_run_def)
  then have "apply_start_authorized demo_authorized (demo_at 5) ?s = Inr ?mid"
    using demo_operation_mut [OF run op(1,2)] op
    by (simp add: apply_start_authorized_def demo_authorized_def check_def demo_started_def)
  moreover have "demo_run 11000 4 (insert (replicate 16 16) ids) demo_started policy ?mid"
    by (intro demo_run_activity demo_run_put [OF run])
  ultimately show ?thesis
    using demo_run_apply [OF assms(1), of "R_StartAuthorized demo_authorized" 16 ?mid 11000] assms(2) op
    by (simp add: apply_record_def)
qed

lemma demo_activation_applied:
  assumes "demo_run 11000 5 ids demo_started policy_replay_default s" "replicate 16 17 \<notin> ids"
  shows "\<exists>s'. demo_apply 17 1 (R_PolicyRevision demo_activation) s = Inr s' \<and>
    demo_run 12000 6 (insert (replicate 16 17) ids) demo_started (demo_policy []) s'"
proof -
  let ?s = "demo_begin 17 s"
  have run: "demo_run 12000 5 (insert (replicate 16 17) ids) demo_started policy_replay_default ?s"
    using demo_run_begin [OF assms(1), of 17] by (auto simp: demo_run_def)
  then have "policy_effect (replay_revision demo_activation) ?s = Inr (?s\<lparr>rp_policy := demo_policy []\<rparr>)"
    by (simp add: policy_effect_def demo_run_def replay_revision_def demo_activation_def policy_replay_default_def
        u64_checked_add_def demo_policy_def)
  then show ?thesis
    using demo_run_apply [OF assms(1), of "R_PolicyRevision demo_activation" 17 "?s\<lparr>rp_policy := demo_policy []\<rparr>" 12000]
      assms(2) demo_run_policy [OF run] by (simp add: apply_record_def)
qed

lemma demo_denial_applied:
  assumes "demo_run 12000 6 ids demo_started (demo_policy []) s" "replicate 16 18 \<notin> ids"
  shows "\<exists>s'. demo_apply 18 1 (R_PolicyDecision demo_denial) s = Inr s' \<and>
    demo_run 13000 7 (insert (replicate 16 18) ids) demo_started (demo_policy [((replicate 16 14, 1, 1), PolicyDeny)]) s'"
proof -
  let ?s = "demo_begin 18 s" and ?policy = "demo_policy [((replicate 16 14, 1, 1), PolicyDeny)]"
  have run: "demo_run 13000 6 (insert (replicate 16 18) ids) demo_started (demo_policy []) ?s"
    using demo_run_begin [OF assms(1), of 18] by (auto simp: demo_run_def)
  then have "policy_effect (replay_decision demo_denial) ?s = Inr (?s\<lparr>rp_policy := ?policy\<rparr>)"
    by (simp add: policy_effect_def demo_run_def replay_decision_def demo_denial_def policy_call_def demo_policy_def)
  moreover have "rp_owner_generation ?s = 1" using run by (simp add: demo_run_def)
  ultimately have "apply_policy_decision demo_denial (demo_at 7) ?s = Inr (active_activity 7 (?s\<lparr>rp_policy := ?policy\<rparr>))"
    using demo_operation_mut [OF run] by (simp add: apply_policy_decision_def demo_denial_def policy_call_def check_def)
  moreover have "demo_run 13000 6 (insert (replicate 16 18) ids) demo_started ?policy (active_activity 7 (?s\<lparr>rp_policy := ?policy\<rparr>))"
    by (intro demo_run_activity demo_run_policy [OF run])
  ultimately show ?thesis
    using demo_run_apply [OF assms(1), of "R_PolicyDecision demo_denial" 18 "active_activity 7 (?s\<lparr>rp_policy := ?policy\<rparr>)" 13000]
      assms(2) by (simp add: apply_record_def)
qed

lemma demo_denied_applied:
  assumes "demo_run 13000 7 ids demo_started (demo_policy [((replicate 16 14, 1, 1), PolicyDeny)]) s" "replicate 16 19 \<notin> ids"
  shows "\<exists>s'. demo_apply 19 1 (R_ToolCall demo_denied) s = Inr s' \<and> rp_policy s' = demo_policy []"
proof -
  let ?s = "demo_begin 19 s"
  have run: "demo_run 14000 7 (insert (replicate 16 19) ids) demo_started (demo_policy [((replicate 16 14, 1, 1), PolicyDeny)]) ?s"
    using demo_run_begin [OF assms(1), of 19] by (auto simp: demo_run_def)
  then have effect: "policy_effect (replay_tool_call demo_denied) ?s = Inr (?s\<lparr>rp_policy := demo_policy []\<rparr>)"
    by (simp add: policy_effect_def demo_run_def replay_tool_call_def demo_denied_def demo_call_def demo_policy_def Let_def bt_remove_def)
  obtain tool where tool: "tool_record_of demo_denied (demo_at 8) None None = Inr tool" using tool_record_found by blast
  then have resolved: "tl_decision tool = D_Denied" "length (tl_name tool) = 8"
    by (auto simp: tool_record_of_def steps demo_denied_def demo_call_def)
  note run' = demo_run_policy [OF run, of "demo_policy []"]
  let ?op = "demo_started\<lparr>op_tools := [tool]\<rparr>"
  let ?mid = "active_activity 8 (put_operation (replicate 16 14) ?op (?s\<lparr>rp_policy := demo_policy []\<rparr>))"
  have "rp_owner_generation ?s = 1" using run by (simp add: demo_run_def)
  then have "apply_tool_call demo_sha demo_denied (demo_at 8) ?s = Inr (put_operation (replicate 16 14) ?op (?s\<lparr>rp_policy := demo_policy []\<rparr>))"
    using demo_operation_mut [OF run'] tool
    by (simp add: apply_tool_call_def effect create_call_def exec_call_def check_def,
      simp add: demo_denied_def demo_call_def create_call_def exec_call_def check_def)
  then have "apply_record demo_sha demo_unicode demo_reads (R_ToolCall demo_denied) 1 (demo_at 8) ?s = Inr ?mid"
    by (simp add: apply_record_def then_active_def)
  moreover have "demo_run 14000 7 (insert (replicate 16 19) ids) ?op (demo_policy []) ?mid"
    by (intro demo_run_activity demo_run_put [OF run'])
  moreover have "\<not> tool_unresolved tool" "op_charge ?op \<le> 10000"
    using resolved by (simp_all add: tool_unresolved_def op_charge_def demo_started_def new_operation_def response_default_def)
  ultimately show ?thesis
    using demo_run_apply [OF assms(1), of "R_ToolCall demo_denied" 19 ?mid 14000 _ ?op] assms(2) by (fastforce simp: demo_run_def)
qed

subsection \<open>The whole journal\<close>

text \<open>One item of the journal is one frame of the run.\<close>

lemma demo_items_step:
  assumes "demo_items = pre @ demo_item n t r # post" "unat n = length pre + 1" "n \<noteq> 1" "demo_apply t 1 r s = Inr s'"
    "rp_sequence s = n - 1" "rp_revision s = n - 1" "rp_installation_id s = replicate 16 1" "rp_last_digest s = replicate 32 9"
  shows "apply_items demo_sha demo_unicode demo_reads (length (item_bytes pre)) (demo_item n t r # post) (Some s) =
    apply_items demo_sha demo_unicode demo_reads (length (item_bytes (pre @ [demo_item n t r]))) post (Some s')"
proof -
  obtain bs where bs: "demo_item n t r = (demo_step n t, r, bs)" by (simp add: demo_item_def)
  have pre: "take (unat n - 1) demo_items = pre" "demo_items ! (unat n - 1) = demo_item n t r"
    unfolding assms(1) using assms(2) by simp_all
  have "length (item_bytes pre) < 2 ^ 32" using demo_offset [of "unat n - 1"] unfolding pre .
  then have at: "u32_try_from (length (item_bytes pre)) = Inr (of_nat (length (item_bytes pre)))" by (simp add: u32_try_from_def)
  have "demo_at n = \<lparr>loc_sequence = n, loc_segment = 1, loc_offset = of_nat (length (item_bytes pre)), loc_length = of_nat (length bs)\<rparr>"
    unfolding demo_at_def pre bs by simp
  moreover have "demo_context t 1 s = demo_step n t" using assms(3,5-8) by (simp add: demo_context_def demo_step_def)
  ultimately show ?thesis
    using assms(4,5) at by (simp add: bs demo_apply_def item_digest_def item_bytes_def demo_step_def)
qed

lemma demo_first_item: "demo_item 1 2 (R_PendingInit demo_init) = (demo_start_context, R_PendingInit demo_init, demo_journal)"
proof -
  have "demo_step 1 2 = demo_start_context" by (simp add: demo_step_def demo_start_context_def)
  moreover have "encode_frame demo_sha demo_start_context (R_PendingInit demo_init) = Inr demo_journal"
    using demo_framed by (simp add: framed_def)
  ultimately show ?thesis by (simp add: demo_item_def)
qed

lemma demo_bytes_replayed:
  obtains s where "apply_items demo_sha demo_unicode demo_reads 0 demo_items None = Inr s" "rp_policy s = demo_policy []"
proof -
  obtain s4 where s4: "demo_apply 15 1 (R_TurnAccepted demo_turn) demo_registered = Inr s4"
    "demo_small (new_operation demo_turn 1 (demo_at 4)) s4" "rp_sequence s4 = 4" "rp_revision s4 = 4" "rp_owner_generation s4 = 1"
    "rp_transition_ids s4 = {replicate 16 15, replicate 16 10, replicate 16 6, replicate 16 2}" "rp_delta_charge s4 \<le> 10000"
    "rp_installation_id s4 = replicate 16 1" "rp_last_digest s4 = replicate 32 9" "rp_policy s4 = policy_replay_default"
    by (rule demo_active)
  then have "demo_run 10000 4 {replicate 16 15, replicate 16 10, replicate 16 6, replicate 16 2} (new_operation demo_turn 1 (demo_at 4))
      policy_replay_default s4" by (simp add: demo_run_def)
  from demo_start_applied [OF this] obtain s5 where s5: "demo_apply 16 1 (R_StartAuthorized demo_authorized) s4 = Inr s5"
    "demo_run 11000 5 {replicate 16 16, replicate 16 15, replicate 16 10, replicate 16 6, replicate 16 2} demo_started policy_replay_default s5"
    by auto
  from demo_activation_applied [OF s5(2)] obtain s6 where s6: "demo_apply 17 1 (R_PolicyRevision demo_activation) s5 = Inr s6"
    "demo_run 12000 6 {replicate 16 17, replicate 16 16, replicate 16 15, replicate 16 10, replicate 16 6, replicate 16 2} demo_started
      (demo_policy []) s6" by auto
  from demo_denial_applied [OF s6(2)] obtain s7 ids where s7: "demo_apply 18 1 (R_PolicyDecision demo_denial) s6 = Inr s7"
    "demo_run 13000 7 ids demo_started (demo_policy [((replicate 16 14, 1, 1), PolicyDeny)]) s7" "replicate 16 19 \<notin> ids" by auto
  from demo_denied_applied [OF s7(2,3)] obtain s8 where s8: "demo_apply 19 1 (R_ToolCall demo_denied) s7 = Inr s8"
    "rp_policy s8 = demo_policy []" by blast
  let ?items = "\<lambda>k. take k demo_items" and ?rest = "\<lambda>k. drop k demo_items"
  have split: "demo_items = ?items k @ ?rest k" for k by simp
  have first: "apply_items demo_sha demo_unicode demo_reads 0 demo_items None =
      apply_items demo_sha demo_unicode demo_reads (length (item_bytes (?items 1))) (?rest 1) (Some demo_state)"
    using demo_state_applied
    by (simp add: demo_items_def demo_first_item u32_try_from_def item_digest_def apply_next_def demo_locator_def demo_start_context_def
        item_bytes_def demo_journal_length)
  have bound: "rp_sequence demo_state = 1" "rp_revision demo_state = 1" "rp_installation_id demo_state = replicate 16 1"
      "rp_last_digest demo_state = replicate 32 9"
      "rp_sequence demo_bound = 2" "rp_revision demo_bound = 2" "rp_installation_id demo_bound = replicate 16 1"
      "rp_last_digest demo_bound = replicate 32 9"
      "rp_sequence demo_registered = 3" "rp_revision demo_registered = 3" "rp_installation_id demo_registered = replicate 16 1"
      "rp_last_digest demo_registered = replicate 32 9"
    by (simp_all add: demo_registered_def demo_end_def demo_register_def demo_bound_def demo_begins)
  note runs = s5(2) [unfolded demo_run_def] s6(2) [unfolded demo_run_def] s7(2) [unfolded demo_run_def]
  have "apply_items demo_sha demo_unicode demo_reads 0 demo_items None = Inr s8"
    unfolding first
    using demo_items_step [of "?items 1" 2 6 "R_ActiveBinding demo_binding" "?rest 2" demo_state demo_bound]
      demo_items_step [of "?items 2" 3 10 "R_ProjectRegistered demo_project" "?rest 3" demo_bound demo_registered]
      demo_items_step [of "?items 3" 4 15 "R_TurnAccepted demo_turn" "?rest 4" demo_registered s4]
      demo_items_step [of "?items 4" 5 16 "R_StartAuthorized demo_authorized" "?rest 5" s4 s5]
      demo_items_step [of "?items 5" 6 17 "R_PolicyRevision demo_activation" "?rest 6" s5 s6]
      demo_items_step [of "?items 6" 7 18 "R_PolicyDecision demo_denial" "?rest 7" s6 s7]
      demo_items_step [of "?items 7" 8 19 "R_ToolCall demo_denied" "?rest 8" s7 s8]
      bound demo_bound_applied demo_registered_applied s4 s5(1) s6(1) s7(1) s8(1) runs
    by (simp add: demo_items_def)
  then show thesis using that s8(2) by blast
qed

end
