(* ===== verification/PolicyJournals.thy ===== *)
theory PolicyJournals
  imports DenialExample
begin

section \<open>Policy records of accepted journals\<close>

text \<open>
  The rules of \<open>PolicyReplay\<close> as properties of whole journals that \<open>replay\<close> of \<open>authority/conversation/state.rs\<close> accepts: the
  records of the journal are the events of the policy facts, so what holds of a run of the facts holds of the journal.
\<close>

definition item_record :: "item \<Rightarrow> journal_record" where
  "item_record item = fst (snd item)"

definition journal_events :: "journal_record list \<Rightarrow> policy_event list" where
  "journal_events records = concat (map policy_events records)"

lemma apply_items_tells:
  "apply_items sha uc ix offset items state = Inr s \<Longrightarrow>
    tells (case state of None \<Rightarrow> policy_replay_default | Some s0 \<Rightarrow> rp_policy s0) (journal_events (map item_record items)) (rp_policy s)"
proof (induction items arbitrary: offset state)
  case Nil
  then show ?case by (simp add: journal_events_def tells_none split: option.splits)
next
  case (Cons item items)
  obtain c r bs where item: "item = (c, r, bs)" by (cases item) auto
  obtain at s1 where step: "apply_next sha uc ix state c r (item_digest sha bs)
        \<lparr>loc_sequence = fc_sequence c, loc_segment = 1, loc_offset = at, loc_length = of_nat (length bs)\<rparr> = Inr s1"
      "apply_items sha uc ix (offset + length bs) items (Some s1) = Inr s"
    using Cons.prems by (auto simp: item steps)
  show ?case
    using tells_trans [OF apply_next_tells [OF step(1)] Cons.IH [OF step(2), unfolded option.case]]
    by (simp add: item item_record_def journal_events_def)
qed

text \<open>A journal has one reading as frames.\<close>

lemma framed_unique:
  assumes "\<forall>m. is_hash (sha m)"
  shows "framed sha items \<Longrightarrow> framed sha items' \<Longrightarrow> item_bytes items = item_bytes items' \<Longrightarrow> items = items'"
proof (induction items arbitrary: items')
  case Nil
  show ?case
  proof (cases items')
    case (Cons item rest)
    then show ?thesis
      using Nil frame_read [OF assms, of "fst item" "fst (snd item)" "snd (snd item)" "[]"]
      by (cases item) (auto simp: framed_def item_bytes_def)
  qed simp
next
  case (Cons item items)
  obtain c r f where item: "item = (c, r, f)" by (cases item) auto
  have f: "wf_context c" "wf_record r" "encode_frame sha c r = Inr f" "framed sha items"
    using Cons.prems(1) by (simp_all add: item framed_def)
  obtain e where e: "envelope sha (f @ item_bytes items) = Inr e" "decode_record sha (ev_kind e) (ev_payload e) = Inr r"
      "ev_context e = c" "ev_length e = length f" "length f \<noteq> 0"
    using frame_read [OF assms f(1-3), of "item_bytes items"] by blast
  have bytes: "f @ item_bytes items = item_bytes items'" using Cons.prems(3) by (simp add: item item_bytes_def)
  then obtain c' r' f' rest where item': "items' = (c', r', f') # rest"
    using e(5) by (cases items') (auto simp: item_bytes_def)
  have f': "wf_context c'" "wf_record r'" "encode_frame sha c' r' = Inr f'" "framed sha rest"
    using Cons.prems(2) by (simp_all add: item' framed_def)
  obtain e' where e': "envelope sha (f' @ item_bytes rest) = Inr e'" "decode_record sha (ev_kind e') (ev_payload e') = Inr r'"
      "ev_context e' = c'" "ev_length e' = length f'"
    using frame_read [OF assms f'(1-3), of "item_bytes rest"] by blast
  have same: "f @ item_bytes items = f' @ item_bytes rest" using bytes by (simp add: item' item_bytes_def)
  then have "e = e'" using e(1) e'(1) by simp
  then have "c = c'" "r = r'" "length f = length f'" using e(2-4) e'(2-4) by simp_all
  then show ?case using same Cons.IH [OF f(4) f'(4)] by (simp add: item item')
qed

lemma accepted_tells:
  assumes "\<forall>m. is_hash (sha m)" "replay_journal sha uc cancelled (item_bytes items) = Inr s" "framed sha items"
  shows "tells policy_replay_default (journal_events (map item_record items)) (rp_policy s)"
proof -
  obtain items' where i: "item_bytes items = item_bytes items'" "framed sha items'"
      "apply_items sha uc (memory_index sha (item_bytes items)) 0 items' None = Inr s"
    using accepted_items [OF assms(1) accepted_uncancelled [OF assms(2)]] by metis
  then have "items' = items" using framed_unique [OF assms(1,3) i(2)] by simp
  then show ?thesis using apply_items_tells [OF i(3)] by simp
qed

subsection \<open>Denied calls\<close>

lemma filter_append_split:
  "filter P es = as @ bs \<Longrightarrow> \<exists>us vs. es = us @ vs \<and> filter P us = as \<and> filter P vs = bs"
proof (induction es arbitrary: as)
  case (Cons e es)
  show ?case
  proof (cases "P e \<and> as = []")
    case True
    then show ?thesis using Cons.prems by (intro exI [of _ "[]"] exI [of _ "e # es"]) simp
  next
    case False
    then have "filter P es = (if P e then tl as else as) @ bs" "P e \<Longrightarrow> as = e # tl as"
      using Cons.prems by (cases as; auto)+
    then obtain us vs where "es = us @ vs" "filter P us = (if P e then tl as else as)" "filter P vs = bs"
      using Cons.IH by blast
    then show ?thesis
      using \<open>P e \<Longrightarrow> as = e # tl as\<close> by (intro exI [of _ "e # us"] exI [of _ vs]) auto
  qed
qed simp

lemma person_never_resolves: "of_person e \<Longrightarrow> \<not> resolves key e"
  by (cases e) simp_all

lemma tells_denied:
  assumes "tells a (before @ [DecisionRecord d] @ between @ [CallRecord p] @ rest) b"
    "pd_outcome d = PolicyDeny" "policy_call d = Some (call_of p)" "\<forall>e\<in>set between. \<not> resolves (call_of p) e"
  shows "tc_decision p \<noteq> D_Run"
proof -
  obtain es where es: "policy_runs a es b"
      "filter (\<lambda>e. \<not> of_person e) es = before @ [DecisionRecord d] @ between @ [CallRecord p] @ rest"
    using assms(1) by (auto simp: tells_def)
  obtain e1 e2 where e: "es = e1 @ e2" "filter (\<lambda>e. \<not> of_person e) e2 = DecisionRecord d # between @ CallRecord p # rest"
    using filter_append_split [OF es(2)] by auto
  obtain e3 e4 where f: "e2 = e3 @ DecisionRecord d # e4" "between @ CallRecord p # rest = filter (\<lambda>e. \<not> of_person e) e4"
    using filter_eq_ConsD [OF e(2)] by blast
  obtain e5 e6 where g: "e4 = e5 @ e6" "filter (\<lambda>e. \<not> of_person e) e5 = between" "filter (\<lambda>e. \<not> of_person e) e6 = CallRecord p # rest"
    using filter_append_split [OF f(2) [symmetric]] by blast
  obtain e7 e8 where h: "e6 = e7 @ CallRecord p # e8" "\<forall>e\<in>set e7. of_person e"
    using filter_eq_ConsD [OF g(3)] by blast
  have "policy_runs a ((e1 @ e3) @ [DecisionRecord d] @ (e5 @ e7) @ [CallRecord p] @ e8) b"
    using es(1) by (simp add: e f g h)
  moreover have "\<forall>e\<in>set (e5 @ e7). \<not> resolves (call_of p) e"
    using assms(4) h(2) person_never_resolves [of _ "call_of p"] unfolding g(2) [symmetric] by auto
  ultimately show ?thesis using denied_run [OF _ assms(2,3)] by blast
qed

text \<open>C10: A call the policy denied never runs. In every journal that replay accepts, whatever the cancel flag does: when a
  record denies a model call by a policy decision, a later record holds the same call, and no record in between resolves
  the decision, then the recorded decision of the call is not \<open>run\<close>. The records that resolve it are a call record of the
  same operation, generation and ordinal, and the terminal record of that turn.\<close>

theorem denied_call_never_runs:
  assumes "\<forall>m. length (sha m) = 32" "replay_journal sha uc cancelled (item_bytes items) = Inr s" "framed sha items"
    "map item_record items = before @ [R_PolicyDecision d] @ between @ [R_ToolCall p] @ rest"
    "pd_outcome d = PolicyDeny" "policy_call d = Some (call_of p)"
    "\<forall>r\<in>set between. \<forall>e\<in>set (policy_events r). \<not> resolves (call_of p) e"
  shows "tc_decision p \<noteq> D_Run"
proof -
  have "tells policy_replay_default (journal_events before @ [DecisionRecord d] @ journal_events between @ [CallRecord p] @
      journal_events rest) (rp_policy s)"
    using accepted_tells [OF _ assms(2,3)] assms(1) by (simp add: assms(4) journal_events_def)
  then show ?thesis
    by (rule tells_denied) (use assms(5-7) in \<open>auto simp: journal_events_def\<close>)
qed

lemma demo_bytes_accepted: "\<exists>s. replay_journal demo_sha demo_unicode (\<lambda>_. False) (item_bytes demo_items) = Inr s"
proof -
  obtain s where s: "apply_items demo_sha demo_unicode demo_reads 0 demo_items None = Inr s" by (rule demo_bytes_replayed)
  have "replay_frames demo_sha demo_unicode (\<lambda>_. False) demo_bytes 1 0 None = Inr s"
    by (rule items_replay_frames [of _ _ _ demo_items])
      (use s demo_items_framed(1) in \<open>simp_all add: demo_reads_def demo_bytes_def\<close>)
  moreover have "demo_bytes \<noteq> []"
    using demo_journal_length by (auto simp: demo_bytes_def demo_items_def item_bytes_def demo_first_item)
  ultimately show ?thesis by (simp add: replay_journal_def not_cancelled_def demo_bytes_def)
qed

lemma demo_item_records:
  "map item_record demo_items = [R_PendingInit demo_init, R_ActiveBinding demo_binding, R_ProjectRegistered demo_project,
    R_TurnAccepted demo_turn, R_StartAuthorized demo_authorized, R_PolicyRevision demo_activation] @ [R_PolicyDecision demo_denial] @ [] @
    [R_ToolCall demo_denied] @ []"
  by (simp add: demo_items_def item_record_def demo_item_def)

theorem denied_call_never_runs_witness:
  "(\<exists>s. replay_journal demo_sha demo_unicode (\<lambda>_. False) (item_bytes demo_items) = Inr s) \<and>
    {R_PolicyDecision demo_denial, R_ToolCall demo_denied} \<subseteq> set (map item_record demo_items) \<and> tc_decision demo_denied \<noteq> D_Run"
proof -
  obtain s where s: "replay_journal demo_sha demo_unicode (\<lambda>_. False) (item_bytes demo_items) = Inr s"
    using demo_bytes_accepted by blast
  have "tc_decision demo_denied \<noteq> D_Run"
    by (rule denied_call_never_runs [OF _ s demo_items_framed(1) demo_item_records])
      (simp_all add: demo_denial_def policy_call_def call_of_def demo_denied_def demo_call_def)
  then show ?thesis using s by (simp add: demo_item_records)
qed

subsection \<open>Revisions\<close>

fun journal_revisions :: "journal_record list \<Rightarrow> policy_revision list" where
  "journal_revisions [] = []"
| "journal_revisions (R_PolicyRevision p # records) = p # journal_revisions records"
| "journal_revisions (_ # records) = journal_revisions records"

lemma revisions_of_person: "revisions (filter (\<lambda>e. \<not> of_person e) es) = revisions es"
  by (induction es rule: revisions.induct) auto

lemma revisions_of_records: "revisions (journal_events records) = journal_revisions records"
proof (induction records)
  case (Cons r records)
  then show ?case by (cases r) (simp_all add: journal_events_def revisions_append)
qed (simp add: journal_events_def)

text \<open>C29: Policy revisions are numbered without gaps. In the state that replay returns for a journal, whatever the cancel flag
  does, the last policy sequence is the number of revision records of the journal and the active revision is the last of
  them; and the revision records are numbered from 1 in the order of the journal, each naming the one before it as its
  predecessor.\<close>

theorem revisions_without_gaps:
  assumes "\<forall>m. length (sha m) = 32" "replay_journal sha uc cancelled (item_bytes items) = Inr s" "framed sha items"
    "revs = journal_revisions (map item_record items)"
  shows "unat (pr_last_seq (rp_policy s)) = length revs \<and>
    pr_active (rp_policy s) = (if revs = [] then None else Some (pv_seq (last revs), pv_digest (last revs))) \<and>
    (\<forall>i < length revs. unat (pv_seq (revs ! i)) = Suc i \<and> unat (pv_previous_seq (revs ! i)) = i)"
proof -
  obtain es where es: "policy_runs policy_replay_default es (rp_policy s)"
      "filter (\<lambda>e. \<not> of_person e) es = journal_events (map item_record items)"
    using accepted_tells [OF _ assms(2,3)] assms(1) by (auto simp: tells_def)
  then have "revisions es = revs" using revisions_of_person [of es] by (simp add: revisions_of_records assms(4))
  then show ?thesis using numbered_run [OF es(1)] by simp
qed

theorem revisions_without_gaps_witness:
  "\<exists>s. replay_journal demo_sha demo_unicode (\<lambda>_. False) (item_bytes demo_items) = Inr s \<and>
    unat (pr_last_seq (rp_policy s)) = 1 \<and> pr_active (rp_policy s) = Some (1, replicate 32 7)"
proof -
  obtain s where s: "replay_journal demo_sha demo_unicode (\<lambda>_. False) (item_bytes demo_items) = Inr s"
    using demo_bytes_accepted by blast
  have "journal_revisions (map item_record demo_items) = [demo_activation]" by (simp add: demo_item_records)
  then show ?thesis
    using s revisions_without_gaps [OF _ s demo_items_framed(1) refl] by (simp add: demo_activation_def)
qed

end
