(* ===== verification/Recovery.thy ===== *)
theory Recovery
  imports ReplayExample
begin

section \<open>Recovery of an interrupted turn\<close>

text \<open>
  What \<open>open\<close> of \<open>authority/writer/state.rs\<close> appends for a turn that an earlier owner left open: after its
  \<open>OwnerGeneration\<close> record, a \<open>TurnTerminal\<close> unless a note creation awaits its result. Replay accepts that record in every
  state that frames reach, so a restart cannot leave a turn that nothing can end.
\<close>

subsection \<open>The records of a restart\<close>

definition interrupted_operation :: "replay \<Rightarrow> (id16 \<times> operation) option" where
  "interrupted_operation s = (case active s of
      None \<Rightarrow> None
    | Some (i, op) \<Rightarrow> if list_ex (\<lambda>t. tl_create t \<noteq> None \<and> tl_result_frame t = None) (op_tools op) then None else Some (i, op))"

definition restart_terminal :: "id16 \<Rightarrow> operation \<Rightarrow> turn_terminal" where
  "restart_terminal i op = \<lparr>tt_operation = i, tt_generation = op_generation op, tt_kind = TerminalInterrupted, tt_cause = Restart,
    tt_final_cursor = - 1, tt_usage_known = (op_helper op = None), tt_output_tokens = 0, tt_text_offset = resp_len (op_response op),
    tt_text = []\<rparr>"

subsection \<open>Settling the inputs of the turn\<close>

definition settleable :: "replay \<Rightarrow> id16 \<Rightarrow> bool" where
  "settleable s i \<longleftrightarrow> (\<exists>q. bt_get (rp_inputs s) i = Some q \<and> input_ok i q \<and> qi_settled q = None) \<and>
    bt_get (de_entries (rp_delta s)) (Key TagInput i 0) = None"

lemma settle_input_total:
  assumes "settleable s i"
  obtains s' where "settle_input i sequence s = Inr s'" "rp_active_operation s' = rp_active_operation s"
    "rp_operations s' = rp_operations s" "\<And>j. j \<noteq> i \<Longrightarrow> settleable s' j = settleable s j"
proof -
  from assms obtain q where q: "bt_get (rp_inputs s) i = Some q" "input_ok i q" "qi_settled q = None"
      "bt_get (de_entries (rp_delta s)) (Key TagInput i 0) = None"
    by (auto simp: settleable_def)
  have "wf_entry (input_entry q st)" for st using q(2) by (auto simp: input_entry_def input_ok_def split: option.split)
  then obtain v where "entry_encode (input_entry q (status_of q s)) = Some v" using entry_encode_wf by blast
  then have "settle_input i sequence s = Inr (charge 192 (s\<lparr>rp_inputs := bt_modify i (\<lambda>q. q\<lparr>qi_settled := Some sequence\<rparr>) (rp_inputs s),
      rp_delta := (rp_delta s)\<lparr>de_entries := bt_insert (Key TagInput i 0) v (de_entries (rp_delta s))\<rparr>\<rparr>))"
    using q by (simp add: settle_input_def input_status_def emit_def modify_input_def check_def)
  then show thesis by (rule that) (simp_all add: charge_def settleable_def)
qed

lemma settle_inputs_total:
  "distinct is \<Longrightarrow> (\<And>i. i \<in> set is \<Longrightarrow> settleable s i) \<Longrightarrow>
    \<exists>s'. settle_inputs is sequence s = Inr s' \<and> rp_active_operation s' = rp_active_operation s \<and> rp_operations s' = rp_operations s"
proof (induction "is" arbitrary: s)
  case (Cons i "is")
  obtain s1 where s1: "settle_input i sequence s = Inr s1" "rp_active_operation s1 = rp_active_operation s"
      "rp_operations s1 = rp_operations s" "\<And>j. j \<noteq> i \<Longrightarrow> settleable s1 j = settleable s j"
    using settle_input_total [OF Cons.prems(2) [of i]] by auto
  have "settleable s1 j" if "j \<in> set is" for j using that Cons.prems s1(4) [of j] by auto
  then show ?case using Cons.IH [of s1] Cons.prems(1) s1(1-3) by auto
qed simp

lemma dispatched_to_distinct:
  assumes "replay_inv s"
  shows "distinct (dispatched_to operation s)"
proof -
  have "map qi_request (input_values s) = map fst (rp_inputs s)"
    using assms by (auto simp: input_values_def replay_inv_def inputs_inv_def bt_get_set input_ok_def)
  moreover have "distinct (map fst (rp_inputs s))" using assms by (simp add: replay_inv_def inputs_inv_def bt_ok_distinct)
  ultimately show ?thesis unfolding dispatched_to_def by (metis distinct_map_filter)
qed

text \<open>An input dispatched to the active operation is open, so it is not settled and has no index entry.\<close>

lemma dispatched_settleable:
  assumes "replay_inv s" "rp_active_operation s = Some operation" "i \<in> set (dispatched_to operation s)"
  shows "settleable s i"
proof -
  from assms(3) obtain j q g where q: "(j, q) \<in> set (rp_inputs s)" "qi_request q = i" "qi_dispatched q = Some (operation, g)"
    by (auto simp: dispatched_to_def input_values_def split: option.splits)
  then have get: "bt_get (rp_inputs s) j = Some q" using assms(1) by (simp add: replay_inv_def inputs_inv_def bt_get_set)
  then have ok: "input_ok j q" "settled_ok q" using input_ok_of [OF assms(1)] by auto
  then have ji: "j = i" using q(2) by (simp add: input_ok_def)
  have d: "qi_dispatched_terminal q = None"
    using assms(1,2) get q(3) unfolding replay_inv_def delta_inv_def by blast
  then have "input_open q" using ok(1) q(3) by (auto simp: input_open_def lane_open_def input_ok_def split: option.split)
  then have unsettled: "qi_settled q = None" using ok(2) by (auto simp: settled_ok_def)
  moreover have "bt_get (de_entries (rp_delta s)) (Key TagInput j 0) = None"
    using assms(1) get unsettled unfolding replay_inv_def delta_inv_def by (metis option.distinct(1))
  ultimately show ?thesis using get ok(1) ji by (auto simp: settleable_def)
qed

lemma terminal_input_settleable:
  assumes "settleable s i" "rp_inputs s' = bt_map (terminal_input p) (rp_inputs s)" "de_entries (rp_delta s') = de_entries (rp_delta s)"
  shows "settleable s' i"
proof -
  have "input_ok i (terminal_input p q) \<and> qi_settled (terminal_input p q) = qi_settled q" if "input_ok i q" for q
    using that by (auto simp: terminal_input_def input_ok_def Let_def split: option.split)
  then show ?thesis using assms by (auto simp: settleable_def bt_get_map)
qed

subsection \<open>The terminal record is accepted\<close>

lemma restart_response:
  assumes "operation_ok (rp_piece_limit s) owner op" "op_owner_generation op < rp_owner_generation s"
    "\<not> list_ex (\<lambda>t. tl_create t \<noteq> None \<and> tl_result_frame t = None) (op_tools op)"
  shows "\<exists>r. terminal_response (restart_terminal i op) op frame s = Inr r"
proof -
  let ?pieces = "cut_last (resp_len (op_response op))
    (filter (\<lambda>piece. piece_start piece < resp_len (op_response op)) (resp_pieces (op_response op)))"
  have r: "response_apply (resp_len (op_response op)) 0 frame (op_response op) =
      Some \<lparr>resp_len = resp_len (op_response op), resp_pieces = ?pieces\<rparr>"
    using unat_word_less(3) [of "resp_len (op_response op)"] by (simp add: response_apply_def u64_checked_add_def)
  have "length ?pieces \<le> length (resp_pieces (op_response op))"
    by (auto simp: cut_last_def intro: length_filter_le)
  then have "length ?pieces \<le> rp_piece_limit s" using assms(1) by (simp add: operation_ok_def)
  moreover have "list_all (\<lambda>t. tl_create t = None \<or> tl_result_frame t \<noteq> None) (op_tools op)"
    using assms(3) by (simp add: list_ex_iff list_all_iff)
  ultimately show ?thesis
    using assms(2) by (auto simp: terminal_response_def restart_terminal_def r check_def terminal_allowed_def)
qed

lemma record_activity_active: "rp_active_operation (record_activity p c n s) = rp_active_operation s"
  "rp_operations (record_activity p c n s) = rp_operations s"
  by (simp_all add: record_activity_def touch_def Let_def split: prod.split option.split)

lemma reserve_operations:
  assumes "reserve s = Inr s'"
  shows "rp_operations s' = rp_operations s \<and> rp_owner_generation s' = rp_owner_generation s"
proof -
  obtain bytes frames where "s' = s\<lparr>rp_reserved_bytes := bytes, rp_reserved_frames := frames\<rparr>"
    using assms by (auto simp: reserve_def steps Let_def case_prod_beta split: if_splits)
  then show ?thesis by simp
qed

lemma restart_terminal_applies:
  assumes "replay_inv s" "interrupted_operation s = Some (i, op)" "op_owner_generation op < rp_owner_generation s"
  obtains s' op' where "apply_terminal (restart_terminal i op) frame s = Inr s'" "rp_active_operation s' = None"
    "bt_get (rp_operations s') i = Some op'" "map_option tm_kind (op_terminal op') = Some TerminalInterrupted"
proof -
  have op: "rp_active_operation s = Some i" "bt_get (rp_operations s) i = Some op"
      "\<not> list_ex (\<lambda>t. tl_create t \<noteq> None \<and> tl_result_frame t = None) (op_tools op)"
    using assms(2) by (auto simp: interrupted_operation_def active_def split: option.splits if_splits)
  let ?p = "restart_terminal i op"
  have "fst (replay_terminal i (op_generation op) True (rp_policy s)) = Inr ()" by (simp add: replay_terminal_def)
  then obtain policy where "replay_terminal i (op_generation op) True (rp_policy s) = (Inr (), policy)" by (metis prod.collapse)
  then have policy: "policy_effect (replay_terminal i (op_generation op) True) s = Inr (s\<lparr>rp_policy := policy\<rparr>)"
    by (simp add: policy_effect_def)
  let ?s = "s\<lparr>rp_policy := policy\<rparr>"
  have ok: "operation_ok (rp_piece_limit s) (rp_owner_generation s) op" "op_terminal op = None"
    using assms(1) op(1,2) by (auto simp: replay_inv_def operations_inv_def)
  have mut: "operation_mut i (op_generation op) ?s = Inr op" using op ok(2) by (simp add: operation_mut_def check_def)
  obtain r where r: "terminal_response ?p op frame ?s = Inr r"
    using restart_response [of ?s "rp_owner_generation s" op i frame] ok(1) assms(3) op(3) by auto
  obtain c where c: "bt_get (rp_conversations s) (op_conversation op) = Some c"
    using assms(1) op(1,2) by (auto simp: replay_inv_def active_resident_def)
  let ?s1 = "?s\<lparr>rp_conversations := bt_modify (op_conversation op)
      (\<lambda>x. latest_ended i TerminalInterrupted (x\<lparr>cv_completed := cv_completed c\<rparr>)) (rp_conversations s)\<rparr>"
  let ?s2 = "end_operation ?p (op\<lparr>op_response := r\<rparr>) (cv_completed c) frame ?s1"
  let ?s3 = "?s2\<lparr>rp_projects := bt_modify (cv_project c) (project_ended i (loc_sequence frame)) (rp_projects ?s2)\<rparr>"
  let ?op' = "op\<lparr>op_response := r, op_terminal := Some \<lparr>tm_kind = TerminalInterrupted, tm_cause = Restart,
    tm_usage_known = (op_helper op = None), tm_output_tokens = 0, tm_frame = frame, tm_completed = cv_completed c\<rparr>\<rparr>"
  let ?s4 = "?s3\<lparr>rp_inputs := bt_map (terminal_input ?p) (rp_inputs ?s3)\<rparr>"
  have same: "rp_inputs ?s3 = rp_inputs s" "rp_delta ?s3 = rp_delta s" "rp_active_operation ?s3 = None"
      "rp_operations ?s3 = bt_modify i (\<lambda>_. ?op') (rp_operations s)"
    by (simp_all add: end_operation_def Let_def charge_def put_operation_def restart_terminal_def)
  have to: "dispatched_to i ?s3 = dispatched_to i s" by (simp only: dispatched_to_def input_values_def same)
  have "settleable ?s4 j" if "j \<in> set (dispatched_to i s)" for j
    using terminal_input_settleable [OF dispatched_settleable [OF assms(1) op(1) that], of ?s4 ?p] same(1,2) by simp
  then obtain s5 where s5: "settle_inputs (dispatched_to i s) (loc_sequence frame) ?s4 = Inr s5"
      "rp_active_operation s5 = None" "rp_operations s5 = rp_operations ?s3"
    using settle_inputs_total [OF dispatched_to_distinct [OF assms(1), of i], of ?s4 "loc_sequence frame"] same(3) by auto
  have "apply_terminal ?p frame s = Inr (record_activity (cv_project c) (Some (op_conversation op)) (loc_sequence frame) s5)"
    using policy mut r c s5(1) to
    by (simp add: apply_terminal_def restart_terminal_def Let_def)
  moreover have "bt_get (rp_operations s5) i = Some ?op'" unfolding s5(3) same(4) using op(2) by simp
  ultimately show thesis
    using s5(2) by (intro that [of "record_activity (cv_project c) (Some (op_conversation op)) (loc_sequence frame) s5" ?op'])
      (simp_all add: record_activity_active)
qed

lemma apply_owner_generationD:
  assumes "apply_owner_generation g s = Inr s'"
  shows "u64_checked_add (rp_owner_generation s) 1 = Some g" "rp_operations s' = rp_operations s" "rp_owner_generation s' = g"
  using assms by (auto simp: apply_owner_generation_def steps)

text \<open>C4: A restart ends the turn that the earlier owner left. In every state that frames reach and that the owner record of a
  restart extends, the terminal record that the writer appends next is a well-formed record that replay accepts, and it leaves
  the operation ended as interrupted and no operation active; the writer appends none only when no operation is active or
  a note creation of the active one awaits its result. Acceptance is that of \<open>Replay::apply\<close>: the check of charged memory that
  \<open>apply_frame\<close> makes afterwards is not part of it.\<close>

theorem restart_ends_turn:
  assumes "\<forall>m. length (sha m) = 32" "reached sha uc s0" "apply_frame sha uc ix c R_OwnerGeneration digest frame s0 = Inr s"
  shows "(\<forall>i op. interrupted_operation s = Some (i, op) \<longrightarrow> wf_record (R_TurnTerminal (restart_terminal i op)) \<and>
      (\<exists>s' op'. replay_apply sha uc ix' (R_TurnTerminal (restart_terminal i op)) (rp_owner_generation s) frame' s = Inr s' \<and>
        rp_active_operation s' = None \<and> bt_get (rp_operations s') i = Some op' \<and>
        map_option tm_kind (op_terminal op') = Some TerminalInterrupted)) \<and>
    (interrupted_operation s = None \<longrightarrow> rp_active_operation s = None \<or>
      (\<exists>i op tool. active s = Some (i, op) \<and> tool \<in> set (op_tools op) \<and> tl_create tool \<noteq> None \<and> tl_result_frame tool = None))"
proof -
  have "reached sha uc s"
    by (rule next_frame [OF assms(2), of R_OwnerGeneration]) (use assms(3) in \<open>simp_all add: apply_next_def\<close>)
  then have inv: "replay_inv s0" "replay_inv s" using reached_inv assms(1,2) by (auto simp: sha_sized_def)
  obtain s1 revision where a: "apply_owner_generation (fc_owner_generation c) (charge 128 (s0\<lparr>rp_transition_ids :=
        insert (fc_transition_id c) (rp_transition_ids s0), rp_activity := None, rp_claimed := {}\<rparr>)) = Inr s1"
      "reserve (evict (s1\<lparr>rp_sequence := fc_sequence c, rp_revision := revision, rp_last_digest := digest, rp_last_frame := frame\<rparr>)) = Inr s"
    using assms(3) by (auto simp: apply_frame_def replay_apply_def apply_record_def steps Let_def)
  note owner = apply_owner_generationD [OF a(1), unfolded charge_def, simplified]
  have s: "rp_operations s = rp_operations s0" "rp_owner_generation s = fc_owner_generation c"
    using reserve_operations [OF a(2)] owner by (simp_all add: evict_def)
  have older: "op_owner_generation op < rp_owner_generation s" if "bt_get (rp_operations s) i = Some op" for i op
  proof -
    have "op_owner_generation op \<le> rp_owner_generation s0"
      using inv(1) that unfolding s(1) replay_inv_def operations_inv_def operation_ok_def by blast
    then show ?thesis using u64_checked_add_1 [of "fc_owner_generation c" "rp_owner_generation s0"] owner(1) s(2)
      by (simp add: word_le_nat_alt word_less_nat_alt)
  qed
  have "wf_record (R_TurnTerminal (restart_terminal i op)) \<and>
      (\<exists>s' op'. replay_apply sha uc ix' (R_TurnTerminal (restart_terminal i op)) (rp_owner_generation s) frame' s = Inr s' \<and>
        rp_active_operation s' = None \<and> bt_get (rp_operations s') i = Some op' \<and>
        map_option tm_kind (op_terminal op') = Some TerminalInterrupted)"
    if "interrupted_operation s = Some (i, op)" for i op
  proof -
    have op: "rp_active_operation s = Some i" "bt_get (rp_operations s) i = Some op"
      using that by (auto simp: interrupted_operation_def active_def split: option.splits if_splits)
    have "is_id i" using inv(2) op(2) by (simp add: replay_inv_def operations_inv_def well_typed_operation_def)
    then have "wf_record (R_TurnTerminal (restart_terminal i op))" by (simp add: wf_turn_terminal_def restart_terminal_def)
    moreover have "owner_check (R_TurnTerminal (restart_terminal i op)) (rp_owner_generation s) s = Inr ()"
      using op by (simp add: owner_check_def allowed_after_restart_def check_def)
    moreover obtain s' op' where "apply_terminal (restart_terminal i op) frame' s = Inr s'" "rp_active_operation s' = None"
        "bt_get (rp_operations s') i = Some op'" "map_option tm_kind (op_terminal op') = Some TerminalInterrupted"
      using restart_terminal_applies [OF inv(2) \<open>interrupted_operation s = Some (i, op)\<close> older [OF op(2)], of frame'] .
    ultimately show ?thesis by (simp add: replay_apply_def apply_record_def)
  qed
  moreover have "rp_active_operation s = None \<or>
      (\<exists>i op tool. active s = Some (i, op) \<and> tool \<in> set (op_tools op) \<and> tl_create tool \<noteq> None \<and> tl_result_frame tool = None)"
    if "interrupted_operation s = None"
    using that inv(2)
    by (auto simp: interrupted_operation_def active_def replay_inv_def operations_inv_def list_ex_iff split: option.splits if_splits) blast
  ultimately show ?thesis by blast
qed

theorem restart_ends_turn_witness:
  "\<exists>s s' i op t. reached demo_sha demo_unicode s \<and>
    apply_frame demo_sha demo_unicode demo_reads (demo_context 16 2 s) R_OwnerGeneration (replicate 32 9) (demo_at 5) s = Inr s' \<and>
    interrupted_operation s' = Some (i, op) \<and>
    replay_apply demo_sha demo_unicode demo_reads (R_TurnTerminal (restart_terminal i op)) (rp_owner_generation s') (demo_at 6) s' = Inr t \<and>
    rp_active_operation t = None"
proof -
  obtain s s' where s: "reached demo_sha demo_unicode s"
      "apply_frame demo_sha demo_unicode demo_reads (demo_context 16 2 s) R_OwnerGeneration (replicate 32 9) (demo_at 5) s = Inr s'"
      "active s' = Some (replicate 16 14, new_operation demo_turn 1 (demo_at 4))"
    by (rule demo_owner_change)
  have "interrupted_operation s' = Some (replicate 16 14, new_operation demo_turn 1 (demo_at 4))"
    using s(3) by (simp add: interrupted_operation_def new_operation_def)
  then show ?thesis using restart_ends_turn [OF _ s(1,2), of demo_reads "demo_at 6"] s(1,2) by fastforce
qed

end
