(* ===== verification/Scheduling.thy ===== *)
theory Scheduling
  imports ReplayBounds "HOL-Library.Multiset"
begin

section \<open>Choosing the next input\<close>

text \<open>
  What \<open>ready_input_with\<close> of \<open>authority/conversation/state.rs\<close> guarantees: a turn is offered whenever an input is ready, it is
  the first ready input of its conversation, and no conversation is served twice while another one is ready.
\<close>

definition ready_inputs :: "id16 set \<Rightarrow> replay \<Rightarrow> queued_input list" where
  "ready_inputs released s = filter (\<lambda>q. qi_kind q \<noteq> InputPerson \<and> input_ready_with (qi_request q) released s) (input_values s)"

definition lanes_of :: "queued_input list \<Rightarrow> lanes \<Rightarrow> bool" where
  "lanes_of qs lanes \<longleftrightarrow> bt_ok lanes \<and> (\<forall>q\<in>set qs. bt_get lanes (qi_conversation q) \<noteq> None) \<and>
    (\<forall>k q n. bt_get lanes k = Some (q, n) \<longrightarrow> q \<in> set qs \<and> qi_conversation q = k \<and>
      (\<forall>x\<in>set qs. qi_conversation x = k \<longrightarrow> lane_rank q \<le> lane_rank x))"

lemma add_lane_of:
  assumes "lanes_of qs lanes"
  shows "lanes_of (qs @ [q]) (add_lane s q lanes)"
proof (cases "bt_get lanes (qi_conversation q)")
  case None
  then have "\<forall>x\<in>set qs. qi_conversation x \<noteq> qi_conversation q" using assms by (auto simp: lanes_of_def)
  then show ?thesis using assms None by (auto simp: lanes_of_def add_lane_def split: if_splits)
next
  case (Some entry)
  then show ?thesis using assms
    by (cases entry) (fastforce simp: lanes_of_def add_lane_def split: if_splits)
qed

lemma ready_lanes_of: "lanes_of (ready_inputs released s) (ready_lanes released s)"
proof -
  have "lanes_of (ps @ qs) (fold (add_lane s) qs lanes)" if "lanes_of ps lanes" for ps qs lanes
    using that
  proof (induction qs arbitrary: ps lanes)
    case (Cons q qs)
    then show ?case using Cons.IH [OF add_lane_of [OF Cons.prems]] by simp
  qed simp
  moreover have "lanes_of [] []" by (simp add: lanes_of_def)
  ultimately show ?thesis unfolding ready_lanes_def ready_inputs_def [symmetric] by (metis append_Nil)
qed

definition sorted_lanes :: "id16 set \<Rightarrow> replay \<Rightarrow> (queued_input \<times> u64) list" where
  "sorted_lanes released s = sort_key snd (map snd (ready_lanes released s))"

lemma sorted_lanes_set:
  "(q, n) \<in> set (sorted_lanes released s) \<longleftrightarrow> bt_get (ready_lanes released s) (qi_conversation q) = Some (q, n)"
proof -
  have ok: "bt_ok (ready_lanes released s)" using ready_lanes_of [of released s] by (simp add: lanes_of_def)
  have "(q, n) \<in> set (sorted_lanes released s) \<longleftrightarrow> (\<exists>k. bt_get (ready_lanes released s) k = Some (q, n))"
    using bt_get_set [OF ok] by (force simp: sorted_lanes_def)
  then show ?thesis using ready_lanes_of [of released s] by (auto simp: lanes_of_def)
qed

lemma sorted_lanes_distinct: "distinct (map (\<lambda>(q, _). qi_conversation q) (sorted_lanes released s))"
proof -
  have lanes: "lanes_of (ready_inputs released s) (ready_lanes released s)" by (rule ready_lanes_of)
  then have ok: "bt_ok (ready_lanes released s)" by (simp add: lanes_of_def)
  have "map (\<lambda>(q, _). qi_conversation q) (map snd (ready_lanes released s)) = map fst (ready_lanes released s)"
    using lanes bt_get_set [OF ok] by (fastforce simp: lanes_of_def)
  then have "distinct (map (\<lambda>(q, _). qi_conversation q) (map snd (ready_lanes released s)))"
    using bt_ok_distinct [OF ok] by (simp only:)
  moreover have "mset (map (\<lambda>(q, _). qi_conversation q) (sorted_lanes released s)) =
      mset (map (\<lambda>(q, _). qi_conversation q) (map snd (ready_lanes released s)))"
    by (simp add: sorted_lanes_def multiset.map_comp)
  ultimately show ?thesis using mset_eq_imp_distinct_iff by blast
qed

lemma position_Some: "position x xs = Some n \<Longrightarrow> n < length xs \<and> xs ! n = x"
  by (induction xs arbitrary: n) (auto split: if_splits)

lemma position_None: "position x xs = None \<longleftrightarrow> x \<notin> set xs"
  by (induction xs) auto

lemma rotated_lane:
  assumes "distinct xs" "pick = (case position x xs of None \<Rightarrow> 0 | Some n \<Rightarrow> (n + 1) mod length xs)" "pick < length xs" "xs ! pick = x"
  shows "xs = [x]"
proof (cases "position x xs")
  case None
  then show ?thesis using assms(3,4) position_None [of x xs] by (metis nth_mem)
next
  case (Some n)
  then have n: "n < length xs" "xs ! n = x" by (auto dest: position_Some)
  then have "pick = n" using nth_eq_iff_index_eq [OF assms(1,3) n(1)] assms(4) by simp
  then have "(n + 1) mod length xs = n" using assms(2) Some by simp
  then have "length xs = 1"
  proof (cases "n + 1 < length xs")
    case False
    then have "length xs = n + 1" using n(1) by simp
    then show ?thesis using \<open>(n + 1) mod length xs = n\<close> by simp
  qed simp
  then show ?thesis using n by (cases xs) auto
qed

text \<open>C21: The next turn is chosen fairly. While a turn is active none is offered; otherwise one is offered exactly when a message is
  ready. The one offered is ready, no ready message of its conversation comes before it, and it belongs to the
  conversation that was served last only if every ready message does.\<close>

theorem next_input_fair:
  "(rp_active_operation s \<noteq> None \<longrightarrow> ready_input_with released s = None) \<and>
    (rp_active_operation s = None \<longrightarrow> (ready_input_with released s \<noteq> None \<longleftrightarrow> ready_inputs released s \<noteq> [])) \<and>
    (\<forall>i. ready_input_with released s = Some i \<longrightarrow> (\<exists>q\<in>set (ready_inputs released s). qi_request q = i \<and>
      (\<forall>x\<in>set (ready_inputs released s). qi_conversation x = qi_conversation q \<longrightarrow> lane_rank q \<le> lane_rank x) \<and>
      (rp_last_dispatched_lane s = Some (qi_conversation q) \<longrightarrow>
        (\<forall>x\<in>set (ready_inputs released s). qi_conversation x = qi_conversation q))))"
proof -
  let ?lanes = "sorted_lanes released s"
  let ?convs = "map (\<lambda>(q, _). qi_conversation q) ?lanes"
  note lanes = ready_lanes_of [of released s, unfolded lanes_of_def]
  define pick where "pick = (case rp_last_dispatched_lane s of None \<Rightarrow> 0
    | Some lane \<Rightarrow> (case position lane ?convs of None \<Rightarrow> 0 | Some n \<Rightarrow> (n + 1) mod length ?lanes))"
  have eq: "ready_input_with released s = (if rp_active_operation s \<noteq> None then None
      else if pick < length ?lanes then Some (qi_request (fst (?lanes ! pick))) else None)"
    unfolding ready_input_with_def sorted_lanes_def [symmetric] Let_def pick_def by simp
  have covered: "qi_conversation x \<in> set ?convs" if "x \<in> set (ready_inputs released s)" for x
  proof -
    from that lanes obtain q n where "bt_get (ready_lanes released s) (qi_conversation x) = Some (q, n)" by fastforce
    then show ?thesis using lanes sorted_lanes_set [of q n released s] by force
  qed
  have some: "pick < length ?lanes \<longleftrightarrow> ?lanes \<noteq> []"
    by (auto simp: pick_def split: option.split)
  have empty: "?lanes = [] \<longleftrightarrow> ready_inputs released s = []"
  proof -
    have "fst x \<in> set (ready_inputs released s)" if "x \<in> set ?lanes" for x
      using that lanes sorted_lanes_set [of "fst x" "snd x" released s] by (metis prod.collapse)
    then show ?thesis using covered by (cases ?lanes; cases "ready_inputs released s") fastforce+
  qed
  have "\<exists>q\<in>set (ready_inputs released s). qi_request q = i \<and>
      (\<forall>x\<in>set (ready_inputs released s). qi_conversation x = qi_conversation q \<longrightarrow> lane_rank q \<le> lane_rank x) \<and>
      (rp_last_dispatched_lane s = Some (qi_conversation q) \<longrightarrow> (\<forall>x\<in>set (ready_inputs released s). qi_conversation x = qi_conversation q))"
    if i: "ready_input_with released s = Some i" for i
  proof -
    have p: "pick < length ?lanes" "i = qi_request (fst (?lanes ! pick))" using i by (auto simp: eq split: if_splits)
    obtain q n where q: "?lanes ! pick = (q, n)" by fastforce
    then have get: "bt_get (ready_lanes released s) (qi_conversation q) = Some (q, n)"
      using p(1) sorted_lanes_set by (metis nth_mem)
    have "?convs = [qi_conversation q]" if "rp_last_dispatched_lane s = Some (qi_conversation q)"
    proof (rule rotated_lane [OF sorted_lanes_distinct])
      show "pick = (case position (qi_conversation q) ?convs of None \<Rightarrow> 0 | Some n \<Rightarrow> (n + 1) mod length ?convs)"
        unfolding pick_def that option.case length_map ..
      show "pick < length ?convs" "?convs ! pick = qi_conversation q" using p(1) q by simp_all
    qed
    then have last: "qi_conversation x = qi_conversation q"
      if "rp_last_dispatched_lane s = Some (qi_conversation q)" "x \<in> set (ready_inputs released s)" for x
      using that covered [of x] by simp
    have "q \<in> set (ready_inputs released s)"
        "\<forall>x\<in>set (ready_inputs released s). qi_conversation x = qi_conversation q \<longrightarrow> lane_rank q \<le> lane_rank x"
      using get lanes by blast+
    moreover have "qi_request q = i" using p(2) q by simp
    ultimately show ?thesis using last by blast
  qed
  moreover have "rp_active_operation s \<noteq> None \<longrightarrow> ready_input_with released s = None"
      "rp_active_operation s = None \<longrightarrow> (ready_input_with released s \<noteq> None \<longleftrightarrow> ready_inputs released s \<noteq> [])"
    unfolding eq some empty by simp_all
  ultimately show ?thesis by blast
qed

definition demo_message :: "u8 \<Rightarrow> u8 \<Rightarrow> queued_input" where
  "demo_message i lane = \<lparr>qi_request = replicate 16 i, qi_dispatch_request = zero_id, qi_project = replicate 16 1,
    qi_conversation = replicate 16 lane, qi_target_operation = zero_id, qi_target_generation = 0, qi_kind = InputQueue,
    qi_frame = demo_locator, qi_sequence = 1, qi_owner_generation = 1, qi_held = False, qi_dropped = False,
    qi_resumed = False, qi_order_position = 1, qi_promoted = None, qi_dispatched = None,
    qi_dispatched_terminal = None, qi_target_terminal = None, qi_settled = None, qi_person = None\<rparr>"

definition demo_queue :: replay where
  "demo_queue = (replay_empty zero_id demo_init)\<lparr>rp_inputs := [(replicate 16 2, demo_message 2 7), (replicate 16 3, demo_message 3 8)],
    rp_last_dispatched_lane := Some (replicate 16 7)\<rparr>"

text \<open>Of two waiting conversations, the one that was not served last is next.\<close>

theorem next_input_fair_witness: "ready_input_with {} demo_queue = Some (replicate 16 3)"
proof -
  have ids: "replicate 16 (2 :: u8) \<noteq> replicate 16 3" "replicate 16 (7 :: u8) \<noteq> replicate 16 8" by simp_all
  have ready: "ready_inputs {} demo_queue = [demo_message 2 7, demo_message 3 8]"
    using ids by (simp add: ready_inputs_def demo_queue_def input_values_def replay_empty_def demo_message_def input_ready_with_def lane_ready_def
        input_status_def status_of_def lane_status_def)
  have "rp_active_operation demo_queue = None" "rp_last_dispatched_lane demo_queue = Some (replicate 16 7)"
    by (simp_all add: demo_queue_def replay_empty_def)
  then show ?thesis
    using next_input_fair [of demo_queue "{}"] ids unfolding ready by (auto simp: demo_message_def)
qed

end
