(* ===== verification/ResponseTexts.thy ===== *)
theory ResponseTexts
  imports Replay
begin

section \<open>Response and thinking texts\<close>

text \<open>
  A text that a turn streams is stored as pieces: \<open>Response::apply\<close> of \<open>authority/conversation/types.rs\<close> cuts the text and appends a
  piece without its bytes, and \<open>text_bytes\<close> of \<open>authority/writer/state.rs\<close> rebuilds a range of it from the frames. The
  writer is open; the frames are read through the \<open>Index\<close> methods. The branch of \<open>pieces\<close> that reads the runs is not modelled.
\<close>

subsection \<open>Reading\<close>

datatype writer_error =
    W_Busy | W_Unavailable | W_NotInitialized | W_AlreadyInitialized | W_RepairRequired | W_OutcomeUnconfirmed | W_Cancelled
  | W_Conflict | W_Invalid | W_StaleProject | W_OverlapsAsuraState | W_ModelUnavailable | W_Limit | W_JournalQuota
  | W_JournalDiskSpace

definition lookup_error :: "replay_error \<Rightarrow> writer_error" where
  "lookup_error e = (if e = Cancelled then W_Cancelled else W_RepairRequired)"

datatype text_stream = StreamResponse | StreamThinking

definition stream_of :: "text_stream \<Rightarrow> operation \<Rightarrow> response" where
  "stream_of t op = (case t of StreamResponse \<Rightarrow> op_response op | StreamThinking \<Rightarrow> op_thinking op)"

text \<open>A damaged frame fences the writer: the flag is passed along.\<close>

definition writer_record :: "index_reads \<Rightarrow> locator \<Rightarrow> bool \<Rightarrow> (writer_error + journal_record) \<times> bool" where
  "writer_record ix frame fenced = (case ix_frame ix frame of
      Inl e \<Rightarrow> (Inl (lookup_error e), fenced \<or> e = Corrupt)
    | Inr r \<Rightarrow> (Inr r, fenced))"

definition stream_text :: "text_stream \<Rightarrow> journal_record \<Rightarrow> bytes option" where
  "stream_text t r = (case (t, r) of
      (StreamResponse, R_ResponseText p) \<Rightarrow> Some (rt_text p)
    | (StreamResponse, R_TurnTerminal p) \<Rightarrow> Some (tt_text p)
    | (StreamThinking, R_ThinkingText p) \<Rightarrow> Some (rt_text p)
    | _ \<Rightarrow> None)"

definition live_pieces :: "text_stream \<Rightarrow> operation \<Rightarrow> u64 \<Rightarrow> u64 \<Rightarrow> response_piece list" where
  "live_pieces t op lo hi = filter (\<lambda>p. piece_start p + piece_kept p > lo \<and> piece_start p < hi) (resp_pieces (stream_of t op))"

fun text_loop :: "index_reads \<Rightarrow> text_stream \<Rightarrow> u64 \<Rightarrow> u64 \<Rightarrow> response_piece list \<Rightarrow> bytes \<Rightarrow> bool \<Rightarrow>
    (writer_error + bytes) \<times> bool" where
  "text_loop ix t lo hi [] out fenced = (Inr out, fenced)"
| "text_loop ix t lo hi (p # ps) out fenced =
    (let end = piece_start p + piece_kept p in
     if end \<le> lo \<or> piece_start p \<ge> hi then text_loop ix t lo hi ps out fenced
     else (case writer_record ix (piece_frame p) fenced of
         (Inl e, fenced) \<Rightarrow> (Inl e, fenced)
       | (Inr r, fenced) \<Rightarrow> (case stream_text t r of
           None \<Rightarrow> (Inl W_RepairRequired, fenced)
         | Some text \<Rightarrow>
             if unat (piece_kept p) > length text \<or> \<not> is_char_boundary text (unat (piece_kept p)) then (Inl W_RepairRequired, fenced)
             else text_loop ix t lo hi ps
               (out @ subrange (unat (max lo (piece_start p) - piece_start p)) (unat (min hi end - piece_start p)) text) fenced)))"

definition text_bytes :: "index_reads \<Rightarrow> text_stream \<Rightarrow> operation \<Rightarrow> u64 \<Rightarrow> u64 \<Rightarrow> bool \<Rightarrow> (writer_error + bytes) \<times> bool" where
  "text_bytes ix t op lo hi fenced = text_loop ix t lo hi (live_pieces t op lo hi) [] fenced"

text \<open>The slice of \<open>text_bytes\<close> panics when its start is after its end, which takes a range with \<open>lo > hi\<close>; its callers pass ranges
  with \<open>lo \<le> hi\<close>. The model gives the empty text for the others, and says nothing of the code there.\<close>

subsection \<open>The text that pieces stand for\<close>

text \<open>The pieces cover \<open>0\<close> to the length without gaps, and each keeps a prefix of the text of its frame.\<close>

fun tiled :: "(locator \<Rightarrow> bytes) \<Rightarrow> nat \<Rightarrow> response_piece list \<Rightarrow> nat \<Rightarrow> bool" where
  "tiled texts n [] len \<longleftrightarrow> n = len"
| "tiled texts n (p # ps) len \<longleftrightarrow> unat (piece_start p) = n \<and> 0 < unat (piece_kept p) \<and>
    unat (piece_kept p) \<le> length (texts (piece_frame p)) \<and> tiled texts (n + unat (piece_kept p)) ps len"

definition content :: "(locator \<Rightarrow> bytes) \<Rightarrow> response_piece list \<Rightarrow> bytes" where
  "content texts ps = concat (map (\<lambda>p. take (unat (piece_kept p)) (texts (piece_frame p))) ps)"

lemma content_simps [simp]: "content texts [] = []"
  "content texts (p # ps) = take (unat (piece_kept p)) (texts (piece_frame p)) @ content texts ps"
  by (simp_all add: content_def)

lemma tiled_le: "tiled texts n ps len \<Longrightarrow> n \<le> len"
  by (induction ps arbitrary: n) fastforce+

lemma tiled_length: "tiled texts n ps len \<Longrightarrow> n + length (content texts ps) = len"
  by (induction ps arbitrary: n) fastforce+

lemma tiled_starts: "tiled texts n ps len \<Longrightarrow> p \<in> set ps \<Longrightarrow> n \<le> unat (piece_start p)"
  by (induction ps arbitrary: n) fastforce+

lemma tiled_append:
  "tiled texts n (ps @ qs) len \<longleftrightarrow> (\<exists>m. tiled texts n ps m \<and> tiled texts m qs len)"
  by (induction ps arbitrary: n) auto

lemma content_append: "content texts (ps @ qs) = content texts ps @ content texts qs"
  by (simp add: content_def)

lemma cut_tiled:
  assumes "tiled texts n ps len" "n \<le> unat offset" "unat offset \<le> len"
  shows "tiled texts n (cut_last offset (filter (\<lambda>p. piece_start p < offset) ps)) (unat offset) \<and>
    content texts (cut_last offset (filter (\<lambda>p. piece_start p < offset) ps)) = take (unat offset - n) (content texts ps)"
  using assms
proof (induction ps arbitrary: n)
  case Nil
  then show ?case by (simp add: cut_last_def)
next
  case (Cons p ps)
  let ?k = "unat (piece_kept p)"
  have p: "unat (piece_start p) = n" "0 < ?k" "?k \<le> length (texts (piece_frame p))" "tiled texts (n + ?k) ps len"
    using Cons.prems(1) by simp_all
  show ?case
  proof (cases "unat offset \<le> n + ?k")
    case True
    have none: "filter (\<lambda>p. piece_start p < offset) ps = []"
      using tiled_starts [OF p(4)] True by (fastforce simp: filter_empty_conv word_less_nat_alt)
    show ?thesis
    proof (cases "n < unat offset")
      case True
      then have "piece_start p < offset" using p(1) by (simp add: word_less_nat_alt)
      moreover have "unat (min (piece_kept p) (offset - piece_start p)) = unat offset - n"
        using \<open>unat offset \<le> n + ?k\<close> True p(1) by (auto simp: min_def word_le_nat_alt unat_sub)
      ultimately show ?thesis
        using none p(1,3) True \<open>unat offset \<le> n + ?k\<close> by (simp add: cut_last_def)
    next
      case False
      then show ?thesis using none p(1) Cons.prems(2) by (simp add: cut_last_def word_less_nat_alt)
    qed
  next
    case False
    then have start: "piece_start p < offset" using p(1) by (simp add: word_less_nat_alt)
    have "filter (\<lambda>p. piece_start p < offset) ps \<noteq> []"
    proof (cases ps)
      case Nil
      then show ?thesis using p(4) Cons.prems(3) False by simp
    next
      case (Cons q qs)
      then show ?thesis using p(4) False by (simp add: word_less_nat_alt)
    qed
    then have "cut_last offset (filter (\<lambda>p. piece_start p < offset) (p # ps)) =
        p # cut_last offset (filter (\<lambda>p. piece_start p < offset) ps)"
      using start by (simp add: cut_last_def)
    then show ?thesis using Cons.IH [OF p(4)] Cons.prems(3) False p by simp
  qed
qed

subsection \<open>Ranges\<close>

lemma text_loop_filter:
  "text_loop ix t lo hi (filter (\<lambda>p. piece_start p + piece_kept p > lo \<and> piece_start p < hi) ps) out fenced =
    text_loop ix t lo hi ps out fenced"
  by (induction ps arbitrary: out fenced) (auto simp: Let_def not_less split: prod.split sum.split option.split)

lemma subrange_split:
  "subrange a b (xs @ ys) = subrange a (min b (length xs)) xs @ subrange (a - length xs) (b - length xs) ys"
  by (cases "a \<le> length xs") (simp_all add: subrange_def min_def)

lemma subrange_empty: "b \<le> a \<Longrightarrow> subrange a b xs = []"
  by (simp add: subrange_def)

definition readable_piece :: "index_reads \<Rightarrow> text_stream \<Rightarrow> (locator \<Rightarrow> bytes) \<Rightarrow> response_piece \<Rightarrow> bool" where
  "readable_piece ix t texts p \<longleftrightarrow> (\<exists>r. ix_frame ix (piece_frame p) = Inr r \<and> stream_text t r = Some (texts (piece_frame p))) \<and>
    is_char_boundary (texts (piece_frame p)) (unat (piece_kept p))"

lemma text_loop_reads:
  assumes "tiled texts n ps len" "len < 2 ^ 64" "list_all (readable_piece ix t texts) ps"
  shows "text_loop ix t lo hi ps out fenced = (Inr (out @ subrange (unat lo - n) (unat hi - n) (content texts ps)), fenced)"
  using assms(1,3)
proof (induction ps arbitrary: n out)
  case Nil
  then show ?case by (simp add: subrange_def)
next
  case (Cons p ps)
  let ?k = "unat (piece_kept p)"
  let ?text = "texts (piece_frame p)"
  have p: "unat (piece_start p) = n" "0 < ?k" "?k \<le> length ?text" "tiled texts (n + ?k) ps len" "readable_piece ix t texts p"
      "list_all (readable_piece ix t texts) ps"
    using Cons.prems by simp_all
  have "n + ?k \<le> len" using tiled_le [OF p(4)] .
  then have stop: "unat (piece_start p + piece_kept p) = n + ?k" using p(1) assms(2) by (simp add: unat_plus_if')
  have rest: "text_loop ix t lo hi ps out' fenced =
      (Inr (out' @ subrange (unat lo - (n + ?k)) (unat hi - (n + ?k)) (content texts ps)), fenced)" for out'
    using Cons.IH [OF p(4,6)] .
  have split: "subrange (unat lo - n) (unat hi - n) (content texts (p # ps)) =
      subrange (unat lo - n) (min (unat hi - n) ?k) ?text @ subrange (unat lo - (n + ?k)) (unat hi - (n + ?k)) (content texts ps)"
    using p(3) by (simp add: subrange_split subrange_take)
  show ?case
  proof (cases "piece_start p + piece_kept p \<le> lo \<or> piece_start p \<ge> hi")
    case True
    then have "min (unat hi - n) ?k \<le> unat lo - n" using stop p(1) by (auto simp: word_le_nat_alt)
    then show ?thesis using True rest split by (simp add: subrange_empty Let_def)
  next
    case False
    then have inside: "unat lo < n + ?k" "n < unat hi" using stop p(1) by (auto simp: word_le_nat_alt)
    have "unat (max lo (piece_start p) - piece_start p) = unat lo - n"
      using p(1) by (auto simp: max_def word_le_nat_alt unat_sub)
    moreover have "unat (min hi (piece_start p + piece_kept p) - piece_start p) = min (unat hi - n) ?k"
      using p(1) stop inside by (auto simp: min_def word_le_nat_alt unat_sub)
    ultimately show ?thesis
      using False p(3,5) rest split by (auto simp: Let_def writer_record_def readable_piece_def)
  qed
qed

lemma response_apply_content:
  assumes "tiled texts 0 (resp_pieces r) (unat (resp_len r))" "offset \<le> resp_len r" "unat offset + length (texts frame) < 2 ^ 64"
  obtains r' where "response_apply offset (of_nat (length (texts frame))) frame r = Some r'"
    "unat (resp_len r') = unat offset + length (texts frame)" "tiled texts 0 (resp_pieces r') (unat (resp_len r'))"
    "content texts (resp_pieces r') = take (unat offset) (content texts (resp_pieces r)) @ texts frame"
proof -
  let ?n = "of_nat (length (texts frame)) :: u64"
  let ?cut = "cut_last offset (filter (\<lambda>p. piece_start p < offset) (resp_pieces r))"
  let ?new = "if ?n > 0 then [\<lparr>piece_start = offset, piece_kept = ?n, piece_frame = frame\<rparr>] else []"
  have n: "unat ?n = length (texts frame)" using assms(3) by (simp add: unat_of_nat)
  then have len: "u64_checked_add offset ?n = Some (offset + ?n)" "unat (offset + ?n) = unat offset + length (texts frame)"
    using assms(3) by (simp_all add: u64_checked_add_def unat_plus_if')
  have cut: "tiled texts 0 ?cut (unat offset)" "content texts ?cut = take (unat offset) (content texts (resp_pieces r))"
    using cut_tiled [OF assms(1)] assms(2) by (simp_all add: word_le_nat_alt)
  have "0 < ?n \<longleftrightarrow> texts frame \<noteq> []" using n by (simp add: word_less_nat_alt)
  then have "tiled texts (unat offset) ?new (unat offset + length (texts frame))" "content texts ?new = texts frame"
    using n by auto
  then show thesis
    using assms(2) len cut n
    by (intro that [of "\<lparr>resp_len = offset + ?n, resp_pieces = ?cut @ ?new\<rparr>"])
      (auto simp: response_apply_def tiled_append content_append not_less)
qed

text \<open>C22: A streamed text is rebuilt as it was streamed. Applying a segment to a text keeps the bytes before its offset and appends the
  bytes of the segment, as pieces that cover the new text without gaps; and every range that the writer reads back through
  these pieces is that range of the new text, while the frames can be read and no piece is cut inside a character.\<close>

theorem response_text_rebuilt:
  assumes "tiled texts 0 (resp_pieces (stream_of t op)) (unat (resp_len (stream_of t op)))" "offset \<le> resp_len (stream_of t op)"
    "unat offset + length (texts frame) < 2 ^ 64"
  shows "\<exists>r. response_apply offset (of_nat (length (texts frame))) frame (stream_of t op) = Some r \<and>
    unat (resp_len r) = unat offset + length (texts frame) \<and> tiled texts 0 (resp_pieces r) (unat (resp_len r)) \<and>
    (\<forall>op' ix lo hi fenced. stream_of t op' = r \<longrightarrow> list_all (readable_piece ix t texts) (resp_pieces r) \<longrightarrow>
      text_bytes ix t op' lo hi fenced = (Inr (subrange (unat lo) (unat hi)
        (take (unat offset) (content texts (resp_pieces (stream_of t op))) @ texts frame)), fenced))"
proof -
  obtain r where r: "response_apply offset (of_nat (length (texts frame))) frame (stream_of t op) = Some r"
    "unat (resp_len r) = unat offset + length (texts frame)" "tiled texts 0 (resp_pieces r) (unat (resp_len r))"
    "content texts (resp_pieces r) = take (unat offset) (content texts (resp_pieces (stream_of t op))) @ texts frame"
    using response_apply_content [of texts "stream_of t op" offset frame] assms by blast
  have "text_bytes ix t op' lo hi fenced = (Inr (subrange (unat lo) (unat hi) (content texts (resp_pieces r))), fenced)"
    if "stream_of t op' = r" "list_all (readable_piece ix t texts) (resp_pieces r)" for op' ix lo hi fenced
    using text_loop_reads [OF r(3) _ that(2), of lo hi "[]" fenced] assms(3) r(2) that(1)
    by (simp add: text_bytes_def live_pieces_def text_loop_filter)
  then show ?thesis using r by auto
qed

definition demo_operation :: operation where
  "demo_operation = \<lparr>op_conversation = zero_id, op_generation = 1, op_task = zero_id, op_owner_generation = 1, op_input_digest = zero_hash,
    op_accepted_frame = locator_NONE, op_notice_through = 0, op_helper = None, op_cancel = None, op_terminal = None, op_tools = [],
    op_request_starts = [], op_response = response_default, op_thinking = response_default\<rparr>"

definition demo_frames :: index_reads where
  "demo_frames = \<lparr>ix_get = (\<lambda>_. Inr None), ix_range = (\<lambda>_ _ _ _. Inr []),
    ix_frame = (\<lambda>_. Inr (R_ResponseText \<lparr>rt_operation = zero_id, rt_generation = 1, rt_offset = 0, rt_text = [104, 105]\<rparr>)),
    ix_frame_owner = (\<lambda>_. Inl Corrupt), ix_frame_command = (\<lambda>_. Inl Corrupt)\<rparr>"

theorem response_text_rebuilt_witness:
  "\<exists>r. response_apply 0 2 locator_NONE response_default = Some r \<and>
    text_bytes demo_frames StreamResponse (demo_operation\<lparr>op_response := r\<rparr>) 1 2 False = (Inr [105], False)"
proof -
  have "stream_of StreamResponse (demo_operation\<lparr>op_response := r\<rparr>) = r" for r by (simp add: stream_of_def)
  moreover have "stream_of StreamResponse demo_operation = response_default" by (simp add: stream_of_def demo_operation_def)
  moreover have "list_all (readable_piece demo_frames StreamResponse (\<lambda>_. [104, 105])) (resp_pieces r)"
    if "response_apply 0 2 locator_NONE response_default = Some r" for r
    using that by (auto simp: response_apply_def response_default_def cut_last_def u64_checked_add_def readable_piece_def demo_frames_def
        stream_text_def is_char_boundary_def)
  ultimately show ?thesis
    using response_text_rebuilt [of "\<lambda>_. [104, 105]" StreamResponse demo_operation 0 locator_NONE]
    by (auto simp: response_default_def subrange_def)
qed

end
