(* ===== verification/Spec2Isabelle.thy ===== *)
theory Spec2Isabelle
  imports RunMerge PolicyJournals Requests Recovery Scheduling ResponseTexts
begin

text \<open>
  A verification development of the storage core of \<open>asura\<close>, a local agent service written in Rust. Paths below are
  relative to \<open>src/rust/crates/\<close>; \<open>authority\<close> is \<open>asura-storage/src/authority\<close>.

  \<^bold>\<open>The program.\<close> The service keeps its conversations in an append-only journal. Each transition is one record; a
  record is encoded as a payload (\<open>authority/conversation/codec.rs\<close>), wrapped in a frame with sequence, revision and digests
  (\<open>authority.rs\<close>) and appended by the writer (\<open>authority/writer\<close>). Replay (\<open>authority/conversation/state.rs\<close>) reads the frames
  and rebuilds the live state; every new record is applied by the same code before it is acknowledged. What replay
  needs of old records is found through an index of fixed-size entries (\<open>authority/index.rs\<close>), which is kept in sorted run
  files (\<open>authority/index/run.rs\<close>) and, for the newest records, in the delta of the live state. The records hold tool calls,
  jobs and commands whose texts were scanned for secrets (\<open>asura-platform/src/secrets\<close>) and whose environment follows fixed
  rules (\<open>asura-platform/src/exec_cmd/environment.rs\<close>).

  \<^bold>\<open>Foundations.\<close>
  \<^item> \<open>Prelude\<close>: machine integers as words, byte lists, the errors \<open>ReplayError\<close>, results and big-endian conversions.
  \<^item> \<open>Texts\<close>: the operations of \<open>str\<close> that the grammars use, UTF-8 included. \<open>BTree\<close>: \<open>BTreeMap\<close> as a sorted list of entries.
  \<^item> \<open>Wire\<close>, \<open>FieldCodec\<close>: the byte cursor and the field readers and writers. The locale \<open>codec\<close> is the contract of a field (what is
    read was written, and what was written is read), \<open>record_codec\<close> and \<open>payload_codec\<close> that of a payload, \<open>code_table\<close> and
    \<open>nonzero_table\<close> that of an enumeration with stored codes. The fields, enumerations and records of the model are
    interpretations of them.
  \<^item> \<open>Outcomes\<close>: early returns as \<open>Inl (Err e)\<close> and panics (\<open>unwrap\<close>, \<open>expect\<close>, indexing, slices, array
    conversions, underflow) as \<open>Inl Panic\<close>, with the calculus \<open>safe P r\<close>. The frame reader, the replay handlers, the loop over a
    journal and the reads of located frames return such outcomes. \<open>decode_record\<close> and its readers return plain results: their
    cursor takes bytes by a checked \<open>get\<close>.

  \<^bold>\<open>Index.\<close> \<open>Types\<close> and \<open>Index\<close> model locators, keys, tags and the 27 entries of \<open>index.rs\<close>; the order of keys is the byte order
  of their encodings, and the decoders accept exactly the encodings. \<open>RunFile\<close>, \<open>RunWriter\<close>, \<open>RunSearch\<close>, \<open>RunMerge\<close> model
  \<open>index/run.rs\<close>: pages, the writer, binary search, range reads and bounded merging. Lookups and ranges of a written run are
  those of the list it was written from, and a merge writes the file that \<open>encode_run\<close> makes of the sorted union, with the
  smallest first and the largest last sequence of its inputs; the search lemmas are proved once in the locale \<open>page_store\<close>.
  A file is a function from a range to bytes.

  \<^bold>\<open>Records.\<close> \<open>Records\<close>, \<open>ToolTypes\<close>, \<open>ToolCalls\<close>, \<open>JobTypes\<close>, \<open>Jobs\<close>, \<open>JobSettlement\<close>, \<open>JobResults\<close>, \<open>PolicyFields\<close>, \<open>Policies\<close>, \<open>PersonCommands\<close> and
  \<open>ExecPaths\<close> hold the structs of \<open>conversation/types.rs\<close>, \<open>policy.rs\<close> and \<open>execution_path.rs\<close> with their validation, writers and
  readers; \<open>Codec\<close> dispatches over the 28 kinds and shows that decoding accepts exactly the encodings of well-formed
  records. \<open>Frames\<close> is the frame around a record: a frame located under a sequence other than 0 is accepted exactly when it
  is byte for byte what the encoder writes for a well-formed record, and every proper prefix of a frame is an incomplete tail.
  \<open>Requests\<close> holds request digests and derived IDs.

  \<^bold>\<open>Secrets and environment.\<close> \<open>Secrets\<close>, \<open>Placeholders\<close>, \<open>NamedSecrets\<close> and \<open>Environment\<close> model the placeholder scanner, named references
  and the environment rules, as far as stored records depend on them.

  \<^bold>\<open>Replay.\<close> The state is the record \<open>replay\<close> of \<open>ReplayState\<close> with the fields of \<open>struct Replay\<close>. \<open>ReplayIndex\<close> models the lookups over
  delta and runs, \<open>Queue\<close> the queries on inputs, \<open>ReplayTurns\<close>, \<open>ReplayJobs\<close>, \<open>ReplayTools\<close>, \<open>ReplayPaths\<close> and \<open>PolicyReplay\<close> one handler
  per record kind, and \<open>Replay\<close> their dispatch with the owner rules, eviction, reservation, \<open>apply_frame\<close> and the loop over a
  journal. The trait \<open>Index\<close> is a record of functions, an argument of every handler that reads the index.
  \<^item> \<open>ReplayInv\<close> states the invariant; \<open>ReplayKeeps\<close>, \<open>TurnKeeps\<close> and \<open>JobKeeps\<close> show for each handler that it does not panic on a
    state with the invariant and a well-formed record, and that a state it returns has the invariant again.
  \<^item> \<open>ReplaySafe\<close> composes them: the states that frames reach (\<open>reached\<close>) have the invariant, and replay of any bytes
    never panics, nor does a read of a located frame. \<open>ReplayBounds\<close> reads the invariant as statements on the state and
    bounds the reserved capacity.
  \<^item> \<open>Journals\<close>: a journal is accepted exactly when it is a sequence of encoded records that apply in order; its frames form a
    chain, so that a changed journal shows in the last digest or in a collision; replay ends, and the cancel flag only
    cancels it.
  \<^item> \<open>PolicyReplay\<close> shows the rules on policy decisions for runs of the policy state, and that each such state is restored from a
    checkpoint. \<open>PolicyKept\<close> shows for each record what it tells the policy state, by a calculus for what a handler keeps, and
    \<open>PolicyJournals\<close> reads the rules as statements on the records of an accepted journal. \<open>Scheduling\<close>: the next turn is chosen fairly.
  \<^item> \<open>Recovery\<close>: the record with which the writer ends an interrupted turn after a restart is accepted. \<open>ResponseTexts\<close>: a
    streamed text is rebuilt from its pieces as it was streamed.
  \<^item> \<open>ExampleRecords\<close> is a concrete journal of eight frames; \<open>ReplayExample\<close> and \<open>DenialExample\<close> replay it up to a running turn and
    on to a call that the policy denies. The witnesses use them.

  \<^bold>\<open>Parameters and hypotheses.\<close> SHA-256 is a function \<open>sha\<close>; where a result depends on it the hypothesis is that a digest has 32
  bytes, never that it is injective. The Unicode tables of the standard library (alphabetic, uppercase) are the record
  \<open>unicode\<close>. The scanner of secret values is an argument of the environment rules. The index runs answer reads by functions, so
  a read repeated while one frame is applied gives the same answer; the safety of replay holds for all answers.

  \<^bold>\<open>Bounds and termination.\<close> No fuel is used: loops over bytes recurse on what is left, and the loop over frames ends because a
  frame has at least 184 bytes. Lengths, offsets and counters keep the width of the source where it can overflow; the
  checked additions of the source are options. Charges and reserved bytes are natural numbers, as they stay far below
  the width of \<open>usize\<close>.

  \<^bold>\<open>Not modelled.\<close>
  \<^item> The journal directory, segments, checkpoints and the writer's command loop (\<open>journal.rs\<close>, \<open>checkpoint.rs\<close>, \<open>fixture.rs\<close>, most of
    \<open>writer\<close>): file, directory and thread I/O around the replay state. Rolling the delta into a run (\<open>clear_delta\<close>) is defined, but
    \<open>reached\<close> starts at the first frame and includes no roll, so the invariant is not shown across a roll.
  \<^item> The job listings and notices of \<open>state.rs\<close> (lines 2798 to 3271) and the branch of \<open>pieces\<close> that reads the runs: queries
    that change no state.
  \<^item> The detection of secrets (\<open>secrets/rules.rs\<close>, \<open>stream.rs\<close>, \<open>json.rs\<close>, the rewriting in \<open>rewrite.rs\<close>): a third-party regular expression
    engine over a generated rule set. The policy engine (\<open>asura-policy\<close>) wraps the third-party Cedar engine.
  \<^item> The other stores of \<open>asura-storage\<close> (SQLite), the platform layer (system calls), the service, the control protocol, the
    command line and terminal interfaces, the toolchain bootstrap and the scripts: I/O, rendering or build code.
  \<^item> Memory allocation and integer overflow of \<open>usize\<close> sums of in-memory lengths.
\<close>

end
